(* ===== verification/Kube_Prelude.thy ===== *)
theory Kube_Prelude
  imports Main "HOL-Library.AList"
begin

text \<open>
  Shared ground of the development: Go maps as association lists, Go errors as values, and
  the functions of the Go package \<open>strings\<close> that the repository uses.

  A Go map is an association list with distinct keys. Its order is the order in which a
  \<open>range\<close> statement meets the entries: Go leaves that order open, so a theorem about every
  list covers every order. \<open>gget\<close>, \<open>gset\<close> and \<open>gdel\<close> are \<open>m[k]\<close>, \<open>m[k] = v\<close> and
  \<open>delete(m, k)\<close>.
\<close>

named_theorems gomap "lookup laws of Go maps"
named_theorems strs "laws of splitting and joining strings"

section \<open>Errors\<close>

text \<open>
  \<open>Errorf fmt args\<close> is \<open>fmt.Errorf\<close> with the format left unexpanded, \<open>Wrapf ctx e\<close> an
  error wrapped with a context, \<open>Joined a op b\<close> two errors combined with an operator,
  \<open>Joins es\<close> the result of \<open>errors.Join\<close>, and \<open>External n\<close> an error that comes from code outside the repository.
\<close>

datatype gerror =
    Errorf string "string list"
  | Wrapf "string list" gerror
  | Joined gerror string gerror
  | Joins "gerror list"
  | External nat

definition errors_join :: "gerror option \<Rightarrow> gerror option \<Rightarrow> gerror option" where
  "errors_join a b =
     (case (a, b) of
        (None, None) \<Rightarrow> None
      | (Some x, None) \<Rightarrow> Some (Joins [x])
      | (None, Some y) \<Rightarrow> Some (Joins [y])
      | (Some x, Some y) \<Rightarrow> Some (Joins [x, y]))"

lemma errors_join_None [simp]: "errors_join a b = None \<longleftrightarrow> a = None \<and> b = None"
  by (auto simp: errors_join_def split: option.splits)

text \<open>The errors an error is made of by \<open>errors.Join\<close>.\<close>

fun leaves :: "gerror \<Rightarrow> gerror list" where
  "leaves (Joins es) = concat (map leaves es)"
| "leaves e = [e]"

definition leaves_opt :: "gerror option \<Rightarrow> gerror list" where
  "leaves_opt e = (case e of None \<Rightarrow> [] | Some x \<Rightarrow> leaves x)"

lemma leaves_opt_join [simp]: "leaves_opt (errors_join a b) = leaves_opt a @ leaves_opt b"
  by (auto simp: leaves_opt_def errors_join_def split: option.splits)

lemma leaves_opt_None [simp]: "leaves_opt None = []"
  by (simp add: leaves_opt_def)

type_synonym 'a result = "gerror + 'a"

section \<open>Go maps\<close>

type_synonym ('k, 'v) gomap = "('k \<times> 'v) list"

abbreviation gget :: "('k, 'v) gomap \<Rightarrow> 'k \<Rightarrow> 'v option" where
  "gget m k \<equiv> map_of m k"

definition gset :: "'k \<Rightarrow> 'v \<Rightarrow> ('k, 'v) gomap \<Rightarrow> ('k, 'v) gomap" where
  "gset k v m = AList.update k v m"

definition gdel :: "'k \<Rightarrow> ('k, 'v) gomap \<Rightarrow> ('k, 'v) gomap" where
  "gdel k m = AList.delete k m"

abbreviation gkeys :: "('k, 'v) gomap \<Rightarrow> 'k list" where
  "gkeys m \<equiv> map fst m"

definition gwf :: "('k, 'v) gomap \<Rightarrow> bool" where
  "gwf m \<longleftrightarrow> distinct (gkeys m)"

lemma gget_gset [simp, gomap]: "gget (gset k v m) = (gget m)(k \<mapsto> v)"
  by (simp add: gset_def update_conv' fun_upd_def)

lemma gget_gdel [simp, gomap]: "gget (gdel k m) = (gget m)(k := None)"
  by (simp add: gdel_def delete_conv' fun_upd_def)

lemma gwf_Nil [simp]: "gwf []"
  by (simp add: gwf_def)

lemma gwf_gset [simp, intro]: "gwf m \<Longrightarrow> gwf (gset k v m)"
  by (simp add: gwf_def gset_def distinct_update)

lemma gwf_gdel [simp, intro]: "gwf m \<Longrightarrow> gwf (gdel k m)"
  by (simp add: gwf_def gdel_def distinct_delete)

lemma gkeys_gset [simp]: "set (gkeys (gset k v m)) = insert k (set (gkeys m))"
  by (simp add: gset_def update_keys insert_absorb)

lemma gkeys_gdel [simp]: "set (gkeys (gdel k m)) = set (gkeys m) - {k}"
  by (simp add: gdel_def delete_keys)

lemma gset_not_Nil [simp]: "gset k v m \<noteq> []"
  by (cases m) (auto simp: gset_def)

lemma gget_None_iff: "gget m k = None \<longleftrightarrow> k \<notin> set (gkeys m)"
  by (simp add: map_of_eq_None_iff)

lemma gget_Some_iff: "gwf m \<Longrightarrow> gget m k = Some v \<longleftrightarrow> (k, v) \<in> set m"
  by (simp add: gwf_def map_of_eq_Some_iff)

lemma Nil_iff_gget: "m = [] \<longleftrightarrow> gget m = Map.empty"
  by (simp add: map_of_eq_empty_iff)

lemma gwf_Cons: "gwf ((k, v) # m) \<longleftrightarrow> gget m k = None \<and> gwf m"
  by (auto simp: gwf_def gget_None_iff)

lemma map_of_rev: "distinct (map fst m) \<Longrightarrow> map_of (rev m) = map_of m"
proof (rule ext)
  fix k
  assume d: "distinct (map fst m)"
  then have "distinct (map fst (rev m))"
    by (simp add: rev_map [symmetric])
  then have "map_of (rev m) k = Some v \<longleftrightarrow> map_of m k = Some v" for v
    using d by (simp add: map_of_eq_Some_iff)
  then show "map_of (rev m) k = map_of m k"
    by (metis not_None_eq)
qed

text \<open>
  The contract of a map that the components rely on. The client's lemmas are proved once
  from the laws; the interpretation below is on the maps of the model.
\<close>

locale go_map =
  fixes lookup :: "'m \<Rightarrow> 'k \<Rightarrow> 'v option"
    and store :: "'k \<Rightarrow> 'v \<Rightarrow> 'm \<Rightarrow> 'm"
    and remove :: "'k \<Rightarrow> 'm \<Rightarrow> 'm"
    and ok :: "'m \<Rightarrow> bool"
  assumes lookup_store: "lookup (store k v m) = (lookup m)(k \<mapsto> v)"
    and lookup_remove: "lookup (remove k m) = (lookup m)(k := None)"
    and ok_store: "ok m \<Longrightarrow> ok (store k v m)"
    and ok_remove: "ok m \<Longrightarrow> ok (remove k m)"
begin

lemma lookup_store_all:
  "lookup (fold (\<lambda>(k, v). store k v) kvs m) = lookup m ++ map_of (rev kvs)"
proof (induction kvs arbitrary: m)
  case (Cons kv kvs)
  obtain k v where kv: "kv = (k, v)"
    by (cases kv)
  have "lookup (fold (\<lambda>(k, v). store k v) (kv # kvs) m) = lookup (store k v m) ++ map_of (rev kvs)"
    by (simp add: kv Cons.IH)
  also have "\<dots> = lookup m ++ map_of (rev (kv # kvs))"
    by (auto simp: kv lookup_store map_add_def fun_eq_iff split: option.splits)
  finally show ?case .
qed simp

lemma lookup_store_all_distinct:
  "distinct (map fst kvs) \<Longrightarrow>
    lookup (fold (\<lambda>(k, v). store k v) kvs m) = lookup m ++ map_of kvs"
  by (simp add: lookup_store_all map_of_rev)

lemma ok_store_all: "ok m \<Longrightarrow> ok (fold (\<lambda>(k, v). store k v) kvs m)"
  by (induction kvs arbitrary: m) (auto simp: ok_store)

lemma lookup_remove_all:
  "lookup (fold remove ks m) k = (if k \<in> set ks then None else lookup m k)"
  by (induction ks arbitrary: m) (auto simp: lookup_remove)

end

interpretation gm: go_map gget gset gdel gwf
  by unfold_locales auto

lemmas gget_set_all = gm.lookup_store_all gm.lookup_store_all_distinct

section \<open>Values made once\<close>

text \<open>
  The contract of a store whose values are made by the first call that asks for them. A call
  meets its environment in a state of its own (\<open>'q\<close>), may yield no value, and may not return.
\<close>

locale memo =
  fixes known :: "'m \<Rightarrow> 'k \<Rightarrow> 'v option"
    and call :: "'q \<Rightarrow> 'k \<Rightarrow> 'm \<Rightarrow> ('v option \<times> 'm) option"
  assumes call_known: "known m k = Some v \<Longrightarrow> \<exists>m'. call q k m = Some (Some v, m')"
    and call_makes: "call q k m = Some (Some v, m') \<Longrightarrow> known m' k = Some v"
    and call_keeps: "call q k m = Some (r, m') \<Longrightarrow> known m j = Some v \<Longrightarrow> known m' j = Some v"
begin

fun calls :: "('q \<times> 'k) list \<Rightarrow> 'm \<Rightarrow> 'm option" where
  "calls [] m = Some m"
| "calls ((q, k) # qs) m = (case call q k m of None \<Rightarrow> None | Some (_, m) \<Rightarrow> calls qs m)"

lemma calls_keep: "calls qs m = Some m' \<Longrightarrow> known m k = Some v \<Longrightarrow> known m' k = Some v"
  by (induction qs m rule: calls.induct) (auto dest: call_keeps split: option.splits)

lemma made_once:
  "call q k m = Some (Some v, m1) \<Longrightarrow> calls qs m1 = Some m2 \<Longrightarrow> known m2 k = Some v \<and> (\<exists>m3. call q' k m2 = Some (Some v, m3))"
  using calls_keep [OF _ call_makes] call_known by blast

end

section \<open>Strings\<close>

text \<open>
  A Go string is a list of bytes. \<open>split_on c s\<close> is \<open>strings.Split(s, c)\<close> for a separator
  of one byte, \<open>join_with c xs\<close> is \<open>strings.Join(xs, c)\<close>, and \<open>index_of c s\<close> is
  \<open>strings.Index(s, c)\<close> with \<open>None\<close> for the result \<open>-1\<close>.
\<close>

fun split_on :: "char \<Rightarrow> string \<Rightarrow> string list" where
  "split_on c [] = [[]]"
| "split_on c (x # xs) =
     (if x = c then [] # split_on c xs
      else (case split_on c xs of [] \<Rightarrow> [[x]] | y # ys \<Rightarrow> (x # y) # ys))"

fun join_with :: "char \<Rightarrow> string list \<Rightarrow> string" where
  "join_with c [] = []"
| "join_with c [x] = x"
| "join_with c (x # y # zs) = x @ c # join_with c (y # zs)"

fun index_of :: "char \<Rightarrow> string \<Rightarrow> nat option" where
  "index_of c [] = None"
| "index_of c (x # xs) = (if x = c then Some 0 else map_option Suc (index_of c xs))"

definition has_prefix :: "string \<Rightarrow> string \<Rightarrow> bool" where
  "has_prefix s p \<longleftrightarrow> take (length p) s = p"

definition trim_prefix :: "string \<Rightarrow> string \<Rightarrow> string" where
  "trim_prefix s p = (if has_prefix s p then drop (length p) s else s)"

definition has_suffix :: "string \<Rightarrow> string \<Rightarrow> bool" where
  "has_suffix s p \<longleftrightarrow> length p \<le> length s \<and> drop (length s - length p) s = p"

definition trim_suffix :: "string \<Rightarrow> string \<Rightarrow> string" where
  "trim_suffix s p = (if has_suffix s p then take (length s - length p) s else s)"

lemma split_on_not_Nil [simp]: "split_on c s \<noteq> []"
  by (induction s) (auto split: list.splits)

lemma split_on_single [simp, strs]: "c \<notin> set s \<Longrightarrow> split_on c s = [s]"
  by (induction s) auto

lemma split_on_append [strs]: "split_on c (x @ c # y) = split_on c x @ split_on c y"
  by (induction x) (auto split: list.splits)

lemma split_on_first [simp, strs]: "c \<notin> set x \<Longrightarrow> split_on c (x @ c # y) = x # split_on c y"
  by (simp add: split_on_append)

lemma length_split_on [strs]: "length (split_on c s) = Suc (count_list s c)"
  by (induction s) (auto split: list.splits)

lemma split_on_parts [strs]: "p \<in> set (split_on c s) \<Longrightarrow> c \<notin> set p"
  by (induction s arbitrary: p) (auto split: list.splits if_splits)

lemma join_with_Cons: "xs \<noteq> [] \<Longrightarrow> join_with c (x # xs) = x @ c # join_with c xs"
  by (cases xs) auto

lemma join_with_append:
  "xs \<noteq> [] \<Longrightarrow> ys \<noteq> [] \<Longrightarrow> join_with c (xs @ ys) = join_with c xs @ c # join_with c ys"
  by (induction xs rule: join_with.induct) (auto simp: join_with_Cons)

lemma join_with_Cons_char: "join_with c ((a # x) # ys) = a # join_with c (x # ys)"
  by (cases ys) auto

lemma join_split [simp, strs]: "join_with c (split_on c s) = s"
  by (induction s) (auto simp: join_with_Cons join_with_Cons_char split: list.splits)

lemma split_join [strs]:
  "xs \<noteq> [] \<Longrightarrow> \<forall>x \<in> set xs. c \<notin> set x \<Longrightarrow> split_on c (join_with c xs) = xs"
  by (induction xs rule: join_with.induct) auto

lemma index_of_None [simp]: "index_of c s = None \<longleftrightarrow> c \<notin> set s"
  by (induction s) auto

lemma index_of_first [simp, strs]: "c \<notin> set x \<Longrightarrow> index_of c (x @ c # y) = Some (length x)"
  by (induction x) auto

lemma index_of_Some [strs]:
  "index_of c s = Some i \<Longrightarrow> s = take i s @ c # drop (Suc i) s \<and> c \<notin> set (take i s) \<and> i < length s"
  by (induction s arbitrary: i) (auto split: if_splits)

lemma trim_prefix_append [simp]: "trim_prefix (p @ s) p = s"
  by (simp add: trim_prefix_def has_prefix_def)

lemma has_prefix_append [simp]: "has_prefix (p @ s) p"
  by (simp add: has_prefix_def)

lemma has_prefixD: "has_prefix s p \<Longrightarrow> s = p @ drop (length p) s"
  unfolding has_prefix_def by (metis append_take_drop_id)

lemma length_trim_suffix [simp]: "length (trim_suffix s p) \<le> length s"
  by (simp add: trim_suffix_def)

end
