(* ===== verification/Names.thy ===== *)
theory Names
  imports Kube_Prelude
begin

text \<open>
  The textual names of the program: global object keys (types/key.go), index names
  (cacheindex/name.go), names of fleet members (cluster/fleet/fpi/utils.go) and their
  normal form (cluster/cluster/utils.go), and the index keys of requests
  (controller/indextrigger.go) and owners (owner/index.go).

  \<open>NamespacedName.String\<close>, \<open>GroupKind.String\<close> and the constant \<open>Separator\<close> belong to
  k8s.io/apimachinery and are a parameter, the record \<open>k8s_naming\<close>; \<open>nn_documented\<close> and
  \<open>gk_documented\<close> state what its documentation promises.
\<close>

record k8s_naming =
  sep :: char
  nn_string :: "string \<Rightarrow> string \<Rightarrow> string"
  gk_string :: "string \<Rightarrow> string \<Rightarrow> string"

definition nn_documented :: "k8s_naming \<Rightarrow> bool" where
  "nn_documented e \<longleftrightarrow> (\<forall>ns n. nn_string e ns n = ns @ sep e # n)"

definition gk_documented :: "k8s_naming \<Rightarrow> bool" where
  "gk_documented e \<longleftrightarrow>
     (\<forall>g k. gk_string e g k = (if g = [] then k else k @ CHR ''.'' # g))"

section \<open>A contract for encoded names\<close>

locale name_codec =
  fixes enc :: "'a \<Rightarrow> string"
    and dec :: "string \<Rightarrow> 'a option"
    and ok :: "'a \<Rightarrow> bool"
  assumes dec_enc: "ok x \<Longrightarrow> dec (enc x) = Some x"
begin

lemma enc_inj: "ok x \<Longrightarrow> ok y \<Longrightarrow> enc x = enc y \<longleftrightarrow> x = y"
  by (metis dec_enc option.inject)

lemma distinct_enc: "\<forall>x \<in> set xs. ok x \<Longrightarrow> distinct (map enc xs) \<longleftrightarrow> distinct xs"
  by (simp add: distinct_map inj_on_def enc_inj)

end

section \<open>Global object keys\<close>

record namespaced_name =
  nn_namespace :: string
  nn_name :: string

record global_key =
  gk_cluster :: string
  gk_object :: namespaced_name

record group_kind =
  gk_group :: string
  gk_kind :: string

record typed_global_key =
  tk_key :: global_key
  tk_gk :: group_kind

definition NormalizeKeyString :: "k8s_naming \<Rightarrow> (string \<Rightarrow> string) \<Rightarrow> string \<Rightarrow> string \<Rightarrow> string" where
  "NormalizeKeyString e compose localClusterName key =
     (if has_prefix key [sep e] then compose localClusterName @ key else key)"

definition NewGlobalKey :: "string \<Rightarrow> namespaced_name \<Rightarrow> global_key" where
  "NewGlobalKey clusterName obj = \<lparr>gk_cluster = clusterName, gk_object = obj\<rparr>"

definition ParseGlobalKey :: "k8s_naming \<Rightarrow> string \<Rightarrow> global_key result" where
  "ParseGlobalKey e key =
     (case split_on (sep e) key of
        [c, ns, n] \<Rightarrow> Inr \<lparr>gk_cluster = c, gk_object = \<lparr>nn_namespace = ns, nn_name = n\<rparr>\<rparr>
      | _ \<Rightarrow> Inl (Errorf ''invalid key: %s'' [key]))"

definition GlobalKey_AsLocalKey :: "global_key \<Rightarrow> global_key" where
  "GlobalKey_AsLocalKey o' = o'\<lparr>gk_cluster := []\<rparr>"

definition GlobalKey_AsKey :: "k8s_naming \<Rightarrow> global_key \<Rightarrow> string" where
  "GlobalKey_AsKey e o' =
     (let key = gk_cluster o' @ [sep e]
      in key @ nn_string e (nn_namespace (gk_object o')) (nn_name (gk_object o')))"

definition ParseTypedGlobalKey :: "k8s_naming \<Rightarrow> string \<Rightarrow> typed_global_key result" where
  "ParseTypedGlobalKey e key =
     (case split_on (sep e) key of
        [c, g, k, ns, n] \<Rightarrow>
          Inr \<lparr>tk_key = \<lparr>gk_cluster = c, gk_object = \<lparr>nn_namespace = ns, nn_name = n\<rparr>\<rparr>,
               tk_gk = \<lparr>gk_group = g, gk_kind = k\<rparr>\<rparr>
      | _ \<Rightarrow> Inl (Errorf ''invalid key: %s'' [key]))"

definition NewGlobalTypedKey :: "string \<Rightarrow> namespaced_name \<Rightarrow> group_kind \<Rightarrow> typed_global_key" where
  "NewGlobalTypedKey clusterName obj gk =
     \<lparr>tk_key = \<lparr>gk_cluster = clusterName, gk_object = obj\<rparr>, tk_gk = gk\<rparr>"

definition TypedGlobalKey_AsLocalKey :: "typed_global_key \<Rightarrow> typed_global_key" where
  "TypedGlobalKey_AsLocalKey o' = o'\<lparr>tk_key := (tk_key o')\<lparr>gk_cluster := []\<rparr>\<rparr>"

definition TypedGlobalKey_AsKey :: "k8s_naming \<Rightarrow> bool \<Rightarrow> typed_global_key \<Rightarrow> string" where
  "TypedGlobalKey_AsKey e useGK o' =
     (let key = gk_cluster (tk_key o') @ [sep e];
          key = (if useGK \<and> gk_kind (tk_gk o') \<noteq> [] \<and> gk_group (tk_gk o') \<noteq> []
                 then key @ gk_string e (gk_group (tk_gk o')) (gk_kind (tk_gk o')) @ [sep e]
                 else key)
      in key @ nn_string e (nn_namespace (gk_object (tk_key o'))) (nn_name (gk_object (tk_key o'))))"

text \<open>The fields of a key are free of the separator.\<close>

definition key_fields_ok :: "k8s_naming \<Rightarrow> global_key \<Rightarrow> bool" where
  "key_fields_ok e k \<longleftrightarrow>
     sep e \<notin> set (gk_cluster k) \<and> sep e \<notin> set (nn_namespace (gk_object k)) \<and>
     sep e \<notin> set (nn_name (gk_object k))"

lemma ParseGlobalKey_Inr:
  "ParseGlobalKey e s = Inr k \<longleftrightarrow>
     split_on (sep e) s = [gk_cluster k, nn_namespace (gk_object k), nn_name (gk_object k)]"
  by (cases k; cases "gk_object k") (auto simp: ParseGlobalKey_def split: list.splits)

lemma GlobalKey_AsKey_join:
  "nn_documented e \<Longrightarrow> GlobalKey_AsKey e k =
     join_with (sep e) [gk_cluster k, nn_namespace (gk_object k), nn_name (gk_object k)]"
  by (simp add: GlobalKey_AsKey_def nn_documented_def)

lemma split_join3:
  "split_on c s = [x, y, z] \<longleftrightarrow>
     s = join_with c [x, y, z] \<and> c \<notin> set x \<and> c \<notin> set y \<and> c \<notin> set z"
  (is "?l \<longleftrightarrow> ?r")
proof
  assume l: ?l
  then have "join_with c (split_on c s) = join_with c [x, y, z]"
    by simp
  moreover have "\<forall>p \<in> set [x, y, z]. c \<notin> set p"
    using split_on_parts [of _ c s] unfolding l by blast
  ultimately show ?r
    by simp
next
  assume ?r
  then show ?l
    by (auto simp: split_join)
qed

interpretation gkey: name_codec
  "GlobalKey_AsKey e"
  "\<lambda>s. case ParseGlobalKey e s of Inl _ \<Rightarrow> None | Inr k \<Rightarrow> Some k"
  "\<lambda>k. nn_documented e \<and> key_fields_ok e k" for e
proof
  fix k
  assume "nn_documented e \<and> key_fields_ok e k"
  then have "ParseGlobalKey e (GlobalKey_AsKey e k) = Inr k"
    by (simp add: ParseGlobalKey_Inr GlobalKey_AsKey_join key_fields_ok_def)
  then show "(case ParseGlobalKey e (GlobalKey_AsKey e k) of Inl _ \<Rightarrow> None | Inr k \<Rightarrow> Some k) = Some k"
    by simp
qed

section \<open>Names of indices\<close>

definition ComposeName :: "string \<Rightarrow> string \<Rightarrow> string" where
  "ComposeName name cluster = name @ '':'' @ cluster"

definition SplitName :: "string \<Rightarrow> string \<times> string" where
  "SplitName name =
     (case split_on (CHR '':'') name of
        [f] \<Rightarrow> (f, [])
      | f0 # f1 # _ \<Rightarrow> (f0, f1))"

definition BaseName :: "string \<Rightarrow> string" where
  "BaseName name = fst (SplitName name)"

definition ClusterName :: "string \<Rightarrow> string" where
  "ClusterName name = snd (SplitName name)"

lemma SplitName_ComposeName [simp]:
  "CHR '':'' \<notin> set n \<Longrightarrow> CHR '':'' \<notin> set c \<Longrightarrow> SplitName (ComposeName n c) = (n, c)"
  by (simp add: SplitName_def ComposeName_def)

lemma SplitName_plain [simp]: "CHR '':'' \<notin> set n \<Longrightarrow> SplitName n = (n, [])"
  by (simp add: SplitName_def)

lemma SplitName_parts: "SplitName s = (b, c) \<Longrightarrow> CHR '':'' \<notin> set b \<and> CHR '':'' \<notin> set c"
  using split_on_parts [of _ "CHR '':''" s]
  by (auto simp: SplitName_def split: list.splits)

interpretation ixname: name_codec
  "\<lambda>(n, c). ComposeName n c" "\<lambda>s. Some (SplitName s)"
  "\<lambda>(n, c). CHR '':'' \<notin> set n \<and> CHR '':'' \<notin> set c"
  by unfold_locales auto

section \<open>Names of fleet members\<close>

definition Compose :: "string \<Rightarrow> string \<Rightarrow> string" where
  "Compose c name = (if name = [] then c else c @ ''#'' @ name)"

definition Split :: "string \<Rightarrow> string \<times> string" where
  "Split name =
     (case index_of (CHR ''#'') name of
        None \<Rightarrow> ([], name)
      | Some i \<Rightarrow> (take i name, drop (Suc i) name))"

definition Strip :: "string \<Rightarrow> string" where
  "Strip name = snd (Split name)"

definition Composer_Match :: "string \<Rightarrow> string \<Rightarrow> bool" where
  "Composer_Match c name = (if c = name then True else fst (Split name) = c)"

definition Normalize :: "string \<Rightarrow> string" where
  "Normalize clusterName =
     (if has_prefix clusterName ''#'' then trim_prefix clusterName ''#'' else clusterName)"

lemma Split_Compose [simp]:
  "CHR ''#'' \<notin> set c \<Longrightarrow> n \<noteq> [] \<Longrightarrow> Split (Compose c n) = (c, n)"
  by (simp add: Split_def Compose_def)

lemma Split_plain [simp]: "CHR ''#'' \<notin> set c \<Longrightarrow> Split c = ([], c)"
  by (simp add: Split_def iffD2 [OF index_of_None])

lemma Split_base_free: "CHR ''#'' \<notin> set (fst (Split s))"
  by (auto simp: Split_def dest: index_of_Some split: option.splits)

lemma Split_join: "index_of (CHR ''#'') s \<noteq> None \<Longrightarrow> fst (Split s) @ ''#'' @ snd (Split s) = s"
  using index_of_Some [of "CHR ''#''" s] by (auto simp: Split_def split: option.splits)

interpretation fleetname: name_codec
  "\<lambda>(c, n). Compose c n" "\<lambda>s. Some (Split s)" "\<lambda>(c, n). CHR ''#'' \<notin> set c \<and> n \<noteq> []"
  by unfold_locales auto

section \<open>Keys used to access indices\<close>

record mc_request =
  mc_cluster :: string
  mc_object :: namespaced_name

definition DefaultRequestToIndexKey :: "k8s_naming \<Rightarrow> mc_request \<Rightarrow> string" where
  "DefaultRequestToIndexKey e req =
     (let key = nn_string e (nn_namespace (mc_object req)) (nn_name (mc_object req))
      in if mc_cluster req = [] then key else mc_cluster req @ [sep e] @ key)"

definition DefaultRequestToLocalIndexKey :: "k8s_naming \<Rightarrow> mc_request \<Rightarrow> string" where
  "DefaultRequestToLocalIndexKey e req =
     nn_string e (nn_namespace (mc_object req)) (nn_name (mc_object req))"

definition MapToIndexKey :: "k8s_naming \<Rightarrow> namespaced_name \<Rightarrow> group_kind list \<Rightarrow> string" where
  "MapToIndexKey e objkey gk =
     (let key = [sep e] @ nn_string e (nn_namespace objkey) (nn_name objkey)
      in case gk of
           [] \<Rightarrow> key
         | g # _ \<Rightarrow> key @ [sep e] @ gk_string e (gk_group g) (gk_kind g))"

text \<open>The clusters are given by the methods \<open>GetEffective\<close> and \<open>GetName\<close> of their interface.\<close>

definition WithCuster ::
  "k8s_naming \<Rightarrow> ('c \<Rightarrow> 'c) \<Rightarrow> ('c \<Rightarrow> string) \<Rightarrow> 'c \<Rightarrow> 'c \<Rightarrow> namespaced_name \<Rightarrow> group_kind list \<Rightarrow> string" where
  "WithCuster e GetEffective GetName target current objk gk =
     (let key = MapToIndexKey e objk gk
      in if GetName (GetEffective target) \<noteq> GetName (GetEffective current)
         then GetName (GetEffective target) @ key else key)"

section \<open>Properties\<close>

text \<open>
  C39: parsing a global key succeeds exactly on the rendering of a key whose cluster name,
  namespace and object name are free of the separator, and it returns that key: rendering
  and parsing are inverse to each other.
\<close>

theorem global_key_roundtrip:
  assumes "nn_documented e"
  shows "ParseGlobalKey e s = Inr k \<longleftrightarrow> GlobalKey_AsKey e k = s \<and> key_fields_ok e k"
  unfolding ParseGlobalKey_Inr GlobalKey_AsKey_join [OF assms] split_join3 key_fields_ok_def
  by auto

definition k8s_demo :: k8s_naming where
  "k8s_demo = \<lparr>sep = CHR ''/'', nn_string = (\<lambda>ns n. ns @ CHR ''/'' # n),
     gk_string = (\<lambda>g k. if g = [] then k else k @ CHR ''.'' # g)\<rparr>"

lemma k8s_demo_documented [simp]: "nn_documented k8s_demo" "gk_documented k8s_demo"
  by (simp_all add: nn_documented_def gk_documented_def k8s_demo_def)

theorem global_key_roundtrip_witness:
  "ParseGlobalKey k8s_demo ''c/ns/n'' =
     Inr \<lparr>gk_cluster = ''c'', gk_object = \<lparr>nn_namespace = ''ns'', nn_name = ''n''\<rparr>\<rparr>"
  by (subst global_key_roundtrip) (simp_all add: k8s_demo_def nn_documented_def
      GlobalKey_AsKey_def key_fields_ok_def)

lemma k8s_demo_sep [simp]: "sep k8s_demo = CHR ''/''"
  by (simp add: k8s_demo_def)

lemma typed_AsKey_join:
  "nn_documented e \<Longrightarrow> gk_group (tk_gk k) \<noteq> [] \<Longrightarrow> gk_kind (tk_gk k) \<noteq> [] \<Longrightarrow>
   TypedGlobalKey_AsKey e True k = join_with (sep e)
     [gk_cluster (tk_key k), gk_string e (gk_group (tk_gk k)) (gk_kind (tk_gk k)),
      nn_namespace (gk_object (tk_key k)), nn_name (gk_object (tk_key k))]"
  by (simp add: TypedGlobalKey_AsKey_def nn_documented_def Let_def)

text \<open>
  A typed key with a group and a kind whose fields are free of the separator.
\<close>

definition typed_key_ok :: "k8s_naming \<Rightarrow> typed_global_key \<Rightarrow> bool" where
  "typed_key_ok e k \<longleftrightarrow> key_fields_ok e (tk_key k) \<and> sep e \<noteq> CHR ''.'' \<and>
     sep e \<notin> set (gk_group (tk_gk k)) \<and> sep e \<notin> set (gk_kind (tk_gk k)) \<and>
     gk_group (tk_gk k) \<noteq> [] \<and> gk_kind (tk_gk k) \<noteq> []"

lemma typed_AsKey_split:
  assumes "nn_documented e" "gk_documented e" "typed_key_ok e k"
  shows "split_on (sep e) (TypedGlobalKey_AsKey e True k) =
    [gk_cluster (tk_key k), gk_kind (tk_gk k) @ CHR ''.'' # gk_group (tk_gk k),
     nn_namespace (gk_object (tk_key k)), nn_name (gk_object (tk_key k))]"
    (is "_ = ?parts")
proof -
  have "TypedGlobalKey_AsKey e True k = join_with (sep e) ?parts"
    using assms by (simp add: typed_AsKey_join typed_key_ok_def gk_documented_def)
  also have "split_on (sep e) \<dots> = ?parts"
    using assms by (intro split_join) (auto simp: typed_key_ok_def key_fields_ok_def)
  finally show ?thesis .
qed

text \<open>
  A typed key with a group and a kind is rendered with \<open>GroupKind.String\<close>, that is as
  four fields, while \<open>ParseTypedGlobalKey\<close> wants five: no rendered owner key can be parsed.
\<close>

theorem typed_key_not_parsable:
  assumes "nn_documented e" "gk_documented e" "typed_key_ok e k"
  shows "ParseTypedGlobalKey e (TypedGlobalKey_AsKey e True k) =
           Inl (Errorf ''invalid key: %s'' [TypedGlobalKey_AsKey e True k])"
  by (simp add: ParseTypedGlobalKey_def typed_AsKey_split [OF assms])

definition demo_owner :: typed_global_key where
  "demo_owner = NewGlobalTypedKey ''c'' \<lparr>nn_namespace = ''ns'', nn_name = ''n''\<rparr>
     \<lparr>gk_group = ''g'', gk_kind = ''K''\<rparr>"

lemma demo_owner_ok [simp]: "typed_key_ok k8s_demo demo_owner"
  by (simp add: typed_key_ok_def demo_owner_def NewGlobalTypedKey_def key_fields_ok_def)

theorem typed_key_not_parsable_witness:
  "ParseTypedGlobalKey k8s_demo (TypedGlobalKey_AsKey k8s_demo True demo_owner) =
     Inl (Errorf ''invalid key: %s'' [TypedGlobalKey_AsKey k8s_demo True demo_owner])"
  by (rule typed_key_not_parsable) simp_all

text \<open>
  The index key of an owner identifies the owner: two typed keys with a group and a
  kind, free of the separator and with kinds free of dots, that are rendered to the same
  string are equal.
\<close>

theorem typed_key_injective:
  assumes doc: "nn_documented e" "gk_documented e"
    and ok: "typed_key_ok e k1" "typed_key_ok e k2"
    and dots: "CHR ''.'' \<notin> set (gk_kind (tk_gk k1))" "CHR ''.'' \<notin> set (gk_kind (tk_gk k2))"
    and same: "TypedGlobalKey_AsKey e True k1 = TypedGlobalKey_AsKey e True k2"
  shows "k1 = k2"
proof -
  have "split_on (CHR ''.'') (gk_kind (tk_gk k1) @ CHR ''.'' # gk_group (tk_gk k1)) =
      split_on (CHR ''.'') (gk_kind (tk_gk k2) @ CHR ''.'' # gk_group (tk_gk k2))"
    and obj: "tk_key k1 = tk_key k2"
    using typed_AsKey_split [OF doc ok(1)] typed_AsKey_split [OF doc ok(2)] same
    by (auto intro!: global_key.equality namespaced_name.equality)
  then have "gk_kind (tk_gk k1) = gk_kind (tk_gk k2)"
    using dots by simp
  moreover from this have "gk_group (tk_gk k1) = gk_group (tk_gk k2)"
    using typed_AsKey_split [OF doc ok(1)] typed_AsKey_split [OF doc ok(2)] same by simp
  ultimately show ?thesis
    using obj by (auto intro!: typed_global_key.equality group_kind.equality)
qed

theorem typed_key_injective_witness:
  "typed_key_ok k8s_demo demo_owner \<and>
   (\<lambda>k. k) demo_owner = NewGlobalTypedKey ''c'' \<lparr>nn_namespace = ''ns'', nn_name = ''n''\<rparr>
     \<lparr>gk_group = ''g'', gk_kind = ''K''\<rparr>"
proof
  show "(\<lambda>k. k) demo_owner = NewGlobalTypedKey ''c'' \<lparr>nn_namespace = ''ns'', nn_name = ''n''\<rparr>
     \<lparr>gk_group = ''g'', gk_kind = ''K''\<rparr>"
    by (rule typed_key_injective [of k8s_demo])
      (simp_all add: demo_owner_def [symmetric], simp_all add: demo_owner_def NewGlobalTypedKey_def)
qed simp

text \<open>
  The name of a fleet member splits into the fleet and the member again, at the first
  separator, so member names may contain it; the fleet matches exactly the names it
  composed and its own name; and the leading separator that the multi-cluster runtime adds
  to plain clusters is removed by \<open>Normalize\<close>.
\<close>

theorem fleet_member_names:
  assumes "CHR ''#'' \<notin> set c"
  shows "(Split (Compose c n) = (if n = [] then ([], c) else (c, n))) \<and>
    (Composer_Match c s \<longleftrightarrow> (\<exists>n. s = Compose c n \<or> s = c @ ''#'' @ n) \<or> c = [] \<and> CHR ''#'' \<notin> set s) \<and>
    Normalize (''#'' @ c) = c \<and> Normalize c = c"
proof (intro conjI)
  show "Split (Compose c n) = (if n = [] then ([], c) else (c, n))"
    using assms by (cases "n = []") (simp_all, simp add: Compose_def)
  show "Composer_Match c s \<longleftrightarrow>
      (\<exists>n. s = Compose c n \<or> s = c @ ''#'' @ n) \<or> c = [] \<and> CHR ''#'' \<notin> set s"
  proof (cases "index_of (CHR ''#'') s")
    case None
    then show ?thesis
      using assms by (auto simp: Composer_Match_def Compose_def split: if_splits intro: exI [of _ "[]"])
  next
    case (Some i)
    then have s: "fst (Split s) @ ''#'' @ snd (Split s) = s" and ne: "s \<noteq> c" "CHR ''#'' \<in> set s"
      using Split_join [of s] assms
      by (simp_all, metis not_None_eq index_of_None, metis not_None_eq index_of_None)
    have member: "fst (Split (c @ ''#'' @ n)) = c" for n
      using assms by (simp add: Split_def)
    have "Composer_Match c s \<longleftrightarrow> (\<exists>n. s = c @ ''#'' @ n)"
      unfolding Composer_Match_def using s ne(1) member by metis
    with ne show ?thesis
      by (auto simp: Compose_def)
  qed
qed (use assms in \<open>cases c; auto simp: Normalize_def has_prefix_def trim_prefix_def\<close>)+

theorem fleet_member_names_witness:
  "Split (Compose ''fleet'' ''m#x'') = (''fleet'', ''m#x'') \<and> Composer_Match ''fleet'' ''fleet#m'' \<and>
   \<not> Composer_Match ''fleet'' ''fleet2#m''"
  using fleet_member_names [of "''fleet''" "''m#x''" "''fleet2#m''"]
    fleet_member_names [of "''fleet''" "''m''" "''fleet#m''"]
  by (auto simp: Compose_def)

text \<open>
  The key an owner index is asked for with \<open>WithCuster\<close> carries the cluster exactly when
  the target cluster differs from the current one; without a group and kind it is the local
  or global rendering of the object's key that the owner index is filled with, and with a
  group and kind, which the access appends at the end and the index puts before the
  namespace, the two differ whenever the kind is not the namespace.
\<close>

theorem owner_access_key:
  assumes doc: "nn_documented e" "gk_documented e"
  shows "WithCuster e eff name t cur o' [] =
      GlobalKey_AsKey e (NewGlobalKey (if name (eff t) = name (eff cur) then [] else name (eff t)) o') \<and>
    (typed_key_ok e (NewGlobalTypedKey [] o' gk) \<and>
      gk_kind gk @ CHR ''.'' # gk_group gk \<noteq> nn_namespace o' \<longrightarrow>
      MapToIndexKey e o' [gk] \<noteq> TypedGlobalKey_AsKey e True (NewGlobalTypedKey [] o' gk))"
proof (intro conjI impI; (elim conjE)?)
  show "WithCuster e eff name t cur o' [] =
      GlobalKey_AsKey e (NewGlobalKey (if name (eff t) = name (eff cur) then [] else name (eff t)) o')"
    by (simp add: WithCuster_def MapToIndexKey_def GlobalKey_AsKey_def NewGlobalKey_def Let_def)
next
  assume ok: "typed_key_ok e (NewGlobalTypedKey [] o' gk)"
    and ne: "gk_kind gk @ CHR ''.'' # gk_group gk \<noteq> nn_namespace o'"
  have "MapToIndexKey e o' [gk] = join_with (sep e)
      [[], nn_namespace o', nn_name o', gk_kind gk @ CHR ''.'' # gk_group gk]"
    using doc ok by (simp add: MapToIndexKey_def nn_documented_def gk_documented_def
        typed_key_ok_def NewGlobalTypedKey_def)
  then have "split_on (sep e) (MapToIndexKey e o' [gk]) =
      [[], nn_namespace o', nn_name o', gk_kind gk @ CHR ''.'' # gk_group gk]"
    using ok by (simp only:) (rule split_join,
        auto simp: typed_key_ok_def key_fields_ok_def NewGlobalTypedKey_def)
  then show "MapToIndexKey e o' [gk] \<noteq> TypedGlobalKey_AsKey e True (NewGlobalTypedKey [] o' gk)"
    using typed_AsKey_split [OF doc ok] ne by (auto simp: NewGlobalTypedKey_def)
qed

theorem owner_access_key_witness:
  "WithCuster k8s_demo id id ''a'' ''b'' (gk_object (tk_key demo_owner)) [] = ''a/ns/n'' \<and>
   MapToIndexKey k8s_demo (gk_object (tk_key demo_owner)) [tk_gk demo_owner] \<noteq>
   TypedGlobalKey_AsKey k8s_demo True (TypedGlobalKey_AsLocalKey demo_owner)"
  using owner_access_key [of k8s_demo id id "''a''" "''b''" "gk_object (tk_key demo_owner)" "tk_gk demo_owner"]
  by (simp add: demo_owner_def NewGlobalTypedKey_def NewGlobalKey_def GlobalKey_AsKey_def
      TypedGlobalKey_AsLocalKey_def typed_key_ok_def key_fields_ok_def)
    (simp add: k8s_demo_def)

end
