(* ===== verification/Mappings.thy ===== *)
theory Mappings
  imports Names
begin

text \<open>
  Name mappings (mapping/mapping.go, base.go, consumer.go and \<open>MapName\<close> of
  cacheindex/name.go): a controller or component is written with local names of clusters,
  indices and components, which a mapping translates to the names of the manager.

  A value of the Go type \<open>Mappings\<close> is an optional Go map, \<open>None\<close> for \<open>nil\<close>; reading a
  missing key gives the empty string, which the code treats like an absent entry.
\<close>

type_synonym mappings = "(string, string) gomap option"

definition mget :: "(string, string) gomap \<Rightarrow> string \<Rightarrow> string" where
  "mget m k = (case gget m k of None \<Rightarrow> [] | Some v \<Rightarrow> v)"

definition mwf :: "mappings \<Rightarrow> bool" where
  "mwf m = (case m of None \<Rightarrow> True | Some mm \<Rightarrow> gwf mm)"

definition Mappings_Add :: "string \<Rightarrow> string \<Rightarrow> (string, string) gomap \<Rightarrow> (string, string) gomap" where
  "Mappings_Add local' tgt m = gset local' tgt m"

definition Mappings_Map :: "mappings \<Rightarrow> string \<Rightarrow> string" where
  "Mappings_Map m local' =
     (case m of
        None \<Rightarrow> local'
      | Some mm \<Rightarrow> if mget mm local' = [] then local' else mget mm local')"

definition Mappings_GetMapped :: "mappings \<Rightarrow> string set \<Rightarrow> string set" where
  "Mappings_GetMapped m s =
     (case m of
        None \<Rightarrow> s
      | Some [] \<Rightarrow> s
      | Some mm \<Rightarrow> fold (\<lambda>(n, _) mapped. insert (Mappings_Map m n) mapped) mm {})"

definition Mappings_ApplyTo :: "mappings \<Rightarrow> mappings \<Rightarrow> mappings" where
  "Mappings_ApplyTo m add =
     (case m of
        None \<Rightarrow> add
      | Some mm \<Rightarrow>
         (case add of
            None \<Rightarrow> m
          | Some aa \<Rightarrow>
             (let r = aa;
                  r = fold (\<lambda>(local', global) r.
                        if mget r local' = [] then gset local' (Mappings_Map add global) r else r) mm r;
                  r = fold (\<lambda>(local', global) r.
                        if mget r local' = [] then gset local' global r else r) aa r
              in Some r)))"

definition IdentityMapping :: "string list \<Rightarrow> mappings" where
  "IdentityMapping names = Some (fold (\<lambda>n m. gset n n m) names [])"

text \<open>The three mappings of a controller; \<open>none\<close> has no mapping at all.\<close>

record controller_mappings =
  indices :: mappings
  clusters :: mappings
  components :: mappings

definition NoMappings :: controller_mappings where
  "NoMappings = \<lparr>indices = None, clusters = None, components = None\<rparr>"

definition DefaultMappings :: "controller_mappings option \<Rightarrow> controller_mappings" where
  "DefaultMappings m = (case m of None \<Rightarrow> NoMappings | Some x \<Rightarrow> x)"

definition is_none :: "mappings \<Rightarrow> bool" where
  "is_none m \<longleftrightarrow> m = None \<or> m = Some []"

definition IsNone :: "controller_mappings \<Rightarrow> bool" where
  "IsNone d \<longleftrightarrow> is_none (indices d) \<and> is_none (clusters d) \<and> is_none (components d)"

definition IsIndicesNone :: "controller_mappings \<Rightarrow> bool" where
  "IsIndicesNone d = is_none (indices d)"

definition IsClustersNone :: "controller_mappings \<Rightarrow> bool" where
  "IsClustersNone d = is_none (clusters d)"

definition IsComponentsNone :: "controller_mappings \<Rightarrow> bool" where
  "IsComponentsNone d = is_none (components d)"

definition NewControllerMappings :: "mappings \<Rightarrow> controller_mappings" where
  "NewControllerMappings cs =
     \<lparr>indices = Some [], clusters = (if cs = None then Some [] else cs), components = Some []\<rparr>"

definition newConfigurableMappings :: controller_mappings where
  "newConfigurableMappings = \<lparr>indices = Some [], clusters = Some [], components = Some []\<rparr>"

text \<open>
  Writing into a mapping; the objects that offer these operations are created with maps
  that are not \<open>nil\<close>.
\<close>

definition put :: "string \<Rightarrow> string \<Rightarrow> mappings \<Rightarrow> mappings" where
  "put src tgt m = map_option (Mappings_Add src tgt) m"

definition range_of :: "mappings \<Rightarrow> (string \<times> string) list" where
  "range_of m = (case m of None \<Rightarrow> [] | Some mm \<Rightarrow> mm)"

definition MapIndex :: "string \<Rightarrow> string \<Rightarrow> controller_mappings \<Rightarrow> controller_mappings" where
  "MapIndex src tgt d = d\<lparr>indices := put src tgt (indices d)\<rparr>"

definition MapCluster :: "string \<Rightarrow> string \<Rightarrow> controller_mappings \<Rightarrow> controller_mappings" where
  "MapCluster src tgt d = d\<lparr>clusters := put src tgt (clusters d)\<rparr>"

definition MapComponent :: "string \<Rightarrow> string \<Rightarrow> controller_mappings \<Rightarrow> controller_mappings" where
  "MapComponent src tgt d = d\<lparr>components := put src tgt (components d)\<rparr>"

definition UseMappings :: "controller_mappings \<Rightarrow> controller_mappings \<Rightarrow> controller_mappings" where
  "UseMappings mappings d =
     (let d = fold (\<lambda>(s, t) d. d\<lparr>indices := put s t (indices d)\<rparr>) (range_of (indices mappings)) d;
          d = fold (\<lambda>(s, t) d. d\<lparr>clusters := put s t (clusters d)\<rparr>) (range_of (clusters mappings)) d
      in fold (\<lambda>(s, t) d. d\<lparr>components := put s t (components d)\<rparr>) (range_of (components mappings)) d)"

definition ControllerMappings_ApplyTo ::
  "controller_mappings \<Rightarrow> controller_mappings option \<Rightarrow> controller_mappings" where
  "ControllerMappings_ApplyTo m add =
     (case add of
        None \<Rightarrow> m
      | Some a \<Rightarrow> \<lparr>indices = Mappings_ApplyTo (indices m) (indices a),
                   clusters = Mappings_ApplyTo (clusters m) (clusters a),
                   components = Mappings_ApplyTo (components m) (components a)\<rparr>)"

definition GetRequiredClusters ::
  "string set \<Rightarrow> controller_mappings \<Rightarrow> controller_mappings option \<Rightarrow> string set" where
  "GetRequiredClusters self_clusters m mappings =
     (let mp = clusters (ControllerMappings_ApplyTo m mappings)
      in Mappings_Map mp ` self_clusters)"

definition GetRequiredComponents ::
  "string set \<Rightarrow> controller_mappings \<Rightarrow> controller_mappings option \<Rightarrow> string set" where
  "GetRequiredComponents self_components m mappings =
     (let mp = components (ControllerMappings_ApplyTo m mappings)
      in Mappings_Map mp ` self_components)"

text \<open>The default consumers of consumer.go.\<close>

record default_consumer =
  dc_clusters :: "string set"
  dc_components :: "string set"

definition NewDefaultClusterConsumer :: "string list \<Rightarrow> default_consumer" where
  "NewDefaultClusterConsumer names = \<lparr>dc_clusters = set names, dc_components = {}\<rparr>"

definition UseCluster :: "string list \<Rightarrow> default_consumer \<Rightarrow> default_consumer" where
  "UseCluster names d = d\<lparr>dc_clusters := dc_clusters d \<union> set names\<rparr>"

definition UseComponent :: "string list \<Rightarrow> default_consumer \<Rightarrow> default_consumer" where
  "UseComponent names d = d\<lparr>dc_components := dc_components d \<union> set names\<rparr>"

definition DefaultConsumer_GetRequiredClusters ::
  "controller_mappings option \<Rightarrow> default_consumer \<Rightarrow> string set" where
  "DefaultConsumer_GetRequiredClusters mappings d =
     Mappings_GetMapped (clusters (DefaultMappings mappings)) (dc_clusters d)"

definition DefaultConsumer_GetRequiredComponents ::
  "controller_mappings option \<Rightarrow> default_consumer \<Rightarrow> string set" where
  "DefaultConsumer_GetRequiredComponents mappings d =
     Mappings_GetMapped (components (DefaultMappings mappings)) (dc_components d)"

definition MapName :: "string \<Rightarrow> controller_mappings \<Rightarrow> string" where
  "MapName name mappings =
     (let (n, c) = SplitName name
      in if c = [] then Mappings_Map (indices mappings) name
         else ComposeName (Mappings_Map (indices mappings) n) (Mappings_Map (clusters mappings) c))"

section \<open>Lemmas\<close>

text \<open>
  A mapping translates a name when it has an entry for it that is not empty; a blank entry
  is one that is there and empty.
\<close>

definition translates :: "mappings \<Rightarrow> string \<Rightarrow> bool" where
  "translates m x = (case m of None \<Rightarrow> False | Some mm \<Rightarrow> mget mm x \<noteq> [])"

definition blank :: "mappings \<Rightarrow> string \<Rightarrow> bool" where
  "blank m x = (case m of None \<Rightarrow> False | Some mm \<Rightarrow> gget mm x = Some [])"

lemma mget_gset [simp]: "mget (gset k v m) j = (if j = k then v else mget m j)"
  by (simp add: mget_def)

lemma mget_missing: "gget m k = None \<Longrightarrow> mget m k = []"
  by (simp add: mget_def)

lemma Map_Nil [simp]: "Mappings_Map None x = x" "Mappings_Map (Some []) x = x"
  by (simp_all add: Mappings_Map_def mget_def)

text \<open>The loops of \<open>ApplyTo\<close> fill the gaps of \<open>r\<close> with the images of the entries.\<close>

lemma fill_gaps:
  assumes "gwf kvs"
  shows "mget (fold (\<lambda>(k, v) r. if mget r k = [] then gset k (f v) r else r) kvs r) x =
    (if mget r x \<noteq> [] then mget r x
     else (case gget kvs x of None \<Rightarrow> [] | Some v \<Rightarrow> f v))"
  using assms
proof (induction kvs arbitrary: r)
  case (Cons kv kvs)
  obtain k v where kv: "kv = (k, v)"
    by (cases kv)
  with Cons.prems have "gget kvs k = None" "gwf kvs"
    by (simp_all add: gwf_Cons)
  then show ?case
    unfolding kv by (simp add: Cons.IH)
qed simp

lemma fill_gaps_wf: "gwf r \<Longrightarrow> gwf (fold (\<lambda>(k, v) r. if mget r k = [] then gset k (f v) r else r) kvs r)"
  by (induction kvs arbitrary: r) (simp_all add: case_prod_beta)

lemma mwf_simps [simp]: "mwf None" "mwf (Some mm) \<longleftrightarrow> gwf mm"
  by (simp_all add: mwf_def)

lemma mwf_ApplyTo [simp]: "mwf m \<Longrightarrow> mwf add \<Longrightarrow> mwf (Mappings_ApplyTo m add)"
  by (cases m; cases add)
    (simp_all add: Mappings_ApplyTo_def Let_def fill_gaps_wf fill_gaps_wf [where f = "\<lambda>v. v"])

lemma mget_ApplyTo:
  assumes "gwf mm" "gwf aa" "Mappings_ApplyTo (Some mm) (Some aa) = Some r"
  shows "mget r x =
    (if mget aa x \<noteq> [] then mget aa x
     else (case gget mm x of None \<Rightarrow> [] | Some v \<Rightarrow> Mappings_Map (Some aa) v))"
proof -
  have r: "r = fold (\<lambda>(k, v) r. if mget r k = [] then gset k v r else r) aa
      (fold (\<lambda>(k, v) r. if mget r k = [] then gset k (Mappings_Map (Some aa) v) r else r) mm aa)"
    using assms(3) by (simp add: Mappings_ApplyTo_def Let_def)
  show ?thesis
    unfolding r fill_gaps [OF assms(2), where f = "\<lambda>v. v"] fill_gaps [OF assms(1)]
    by (auto simp: mget_def split: option.splits)
qed

lemma range_of_simps [simp]: "range_of None = []" "range_of (Some m) = m"
  by (simp_all add: range_of_def)

lemma put_all:
  "fold (\<lambda>(s, t) m. put s t m) kvs (Some mm) = Some (fold (\<lambda>(s, t) m. gset s t m) kvs mm)"
  by (induction kvs arbitrary: mm) (auto simp: put_def Mappings_Add_def)

lemma fold_indices:
  "fold (\<lambda>(s, t) d. d\<lparr>indices := put s t (indices d)\<rparr>) kvs d =
     d\<lparr>indices := fold (\<lambda>(s, t) m. put s t m) kvs (indices d)\<rparr>"
  by (induction kvs arbitrary: d) auto

lemma fold_clusters:
  "fold (\<lambda>(s, t) d. d\<lparr>clusters := put s t (clusters d)\<rparr>) kvs d =
     d\<lparr>clusters := fold (\<lambda>(s, t) m. put s t m) kvs (clusters d)\<rparr>"
  by (induction kvs arbitrary: d) auto

lemma fold_components:
  "fold (\<lambda>(s, t) d. d\<lparr>components := put s t (components d)\<rparr>) kvs d =
     d\<lparr>components := fold (\<lambda>(s, t) m. put s t m) kvs (components d)\<rparr>"
  by (induction kvs arbitrary: d) auto

lemmas UseMappings_folds = fold_indices fold_clusters fold_components

lemma GetMapped_image:
  "mm \<noteq> [] \<Longrightarrow> Mappings_GetMapped (Some mm) s = Mappings_Map (Some mm) ` set (gkeys mm)"
proof -
  assume "mm \<noteq> []"
  have "fold (\<lambda>(n, _) mapped. insert (f n) mapped) kvs acc = f ` set (gkeys kvs) \<union> acc"
    for f :: "string \<Rightarrow> string" and kvs :: "(string \<times> string) list" and acc
    by (induction kvs arbitrary: acc) auto
  with \<open>mm \<noteq> []\<close> show ?thesis
    by (cases mm) (auto simp: Mappings_GetMapped_def)
qed

section \<open>Properties\<close>

text \<open>
  Applying a local mapping to an outer one composes them: a name is translated by the
  local mapping first and the result by the outer one, except that a name the outer mapping
  translates itself keeps that translation. Mappings that are \<open>nil\<close> are neutral.
\<close>

theorem mapping_composition:
  assumes "mwf m" "mwf add"
  shows "Mappings_ApplyTo m None = m \<and> Mappings_ApplyTo None add = add \<and>
    mwf (Mappings_ApplyTo m add) \<and>
    (\<not> blank m x \<longrightarrow>
      Mappings_Map (Mappings_ApplyTo m add) x =
        (if translates add x then Mappings_Map add x else Mappings_Map add (Mappings_Map m x)))"
proof (intro conjI impI)
  show "mwf (Mappings_ApplyTo m add)"
    using assms by simp
  assume x: "\<not> blank m x"
  show "Mappings_Map (Mappings_ApplyTo m add) x =
      (if translates add x then Mappings_Map add x else Mappings_Map add (Mappings_Map m x))"
  proof (cases "m = None \<or> add = None")
    case True
    then show ?thesis
      by (auto simp: Mappings_ApplyTo_def translates_def split: option.splits)
  next
    case False
    then obtain mm aa where ma: "m = Some mm" "add = Some aa"
      by auto
    then obtain r where r: "Mappings_ApplyTo (Some mm) (Some aa) = Some r"
      by (simp add: Mappings_ApplyTo_def Let_def)
    have "mget r x = (if mget aa x \<noteq> [] then mget aa x
        else (case gget mm x of None \<Rightarrow> [] | Some v \<Rightarrow> Mappings_Map (Some aa) v))"
      using assms r by (intro mget_ApplyTo) (simp_all add: ma mwf_def)
    then show ?thesis
      using x unfolding ma r
      by (auto simp: Mappings_Map_def mget_def blank_def translates_def split: option.splits if_splits)
  qed
qed (simp_all add: Mappings_ApplyTo_def split: option.splits)

theorem mapping_composition_witness:
  "Mappings_Map (Mappings_ApplyTo (Some [(''l'', ''g'')]) (Some [(''g'', ''t'')])) ''l'' = ''t''"
  using mapping_composition [of "Some [(''l'', ''g'')]" "Some [(''g'', ''t'')]"]
  by (simp add: mwf_def gwf_def translates_def blank_def) (simp add: Mappings_Map_def mget_def)

text \<open>
  Using further mappings overrides the entries they have, for the three kinds of names
  alike, and keeps every other entry.
\<close>

theorem use_mappings_overrides:
  assumes "indices d = Some i" "clusters d = Some c" "components d = Some k"
    and "mwf (indices n)" "mwf (clusters n)" "mwf (components n)"
  shows "\<exists>i' c' k'. UseMappings n d = \<lparr>indices = Some i', clusters = Some c', components = Some k'\<rparr> \<and>
    gget i' = gget i ++ gget (range_of (indices n)) \<and>
    gget c' = gget c ++ gget (range_of (clusters n)) \<and>
    gget k' = gget k ++ gget (range_of (components n))"
proof -
  have wf: "gget (fold (\<lambda>(k, v). gset k v) (range_of m) mm) = gget mm ++ gget (range_of m)"
    if "mwf m" for m mm
    using that by (cases m) (auto simp: mwf_def gwf_def gget_set_all(2))
  have "UseMappings n d =
      \<lparr>indices = Some (fold (\<lambda>(k, v). gset k v) (range_of (indices n)) i),
       clusters = Some (fold (\<lambda>(k, v). gset k v) (range_of (clusters n)) c),
       components = Some (fold (\<lambda>(k, v). gset k v) (range_of (components n)) k)\<rparr>"
    using assms by (simp add: UseMappings_def Let_def UseMappings_folds put_all)
  then show ?thesis
    using assms(4-6) by (simp add: wf)
qed

theorem use_mappings_overrides_witness:
  "\<exists>i' c' k'. UseMappings \<lparr>indices = None, clusters = Some [(''a'', ''x'')], components = None\<rparr>
       \<lparr>indices = Some [], clusters = Some [(''a'', ''y''), (''b'', ''z'')], components = Some []\<rparr> =
     \<lparr>indices = Some i', clusters = Some c', components = Some k'\<rparr> \<and> gget c' ''a'' = Some ''x'' \<and>
     gget c' ''b'' = Some ''z''"
  using use_mappings_overrides [of
      "\<lparr>indices = Some [], clusters = Some [(''a'', ''y''), (''b'', ''z'')], components = Some []\<rparr>"
      "[]" "[(''a'', ''y''), (''b'', ''z'')]" "[]"
      "\<lparr>indices = None, clusters = Some [(''a'', ''x'')], components = None\<rparr>"]
  by (auto simp: mwf_def gwf_def map_add_def)

text \<open>
  The clusters a controller requires are the images of the clusters it uses, while
  \<open>Mappings.GetMapped\<close>, which the default consumer uses, returns the images of the keys of
  the mapping instead: whatever set it is given, the answer is the same as soon as the
  mapping has an entry.
\<close>

theorem required_clusters:
  "GetRequiredClusters cs m (Some a) = Mappings_Map (Mappings_ApplyTo (clusters m) (clusters a)) ` cs \<and>
   (mm \<noteq> [] \<longrightarrow> Mappings_GetMapped (Some mm) s = Mappings_Map (Some mm) ` set (gkeys mm)) \<and>
   (is_none mm' \<longrightarrow> Mappings_GetMapped mm' s = s)"
  by (auto simp: GetRequiredClusters_def ControllerMappings_ApplyTo_def GetMapped_image is_none_def)
    (simp_all add: Mappings_GetMapped_def)

theorem required_clusters_witness:
  "Mappings_GetMapped (Some [(''a'', ''x'')]) {''b''} = {''x''} \<and>
   GetRequiredClusters {''b''} NoMappings (Some NoMappings) = {''b''}"
  using required_clusters [of "{''b''}" NoMappings NoMappings "[(''a'', ''x'')]" "{''b''}" None]
  by (simp add: NoMappings_def Mappings_Map_def mget_def Mappings_ApplyTo_def)

end
