(* ===== verification/Constraints.thy ===== *)
theory Constraints
  imports Kube_Prelude "HOL-Library.Char_ord" "HOL-Library.List_Lexorder"
begin

text \<open>
  Activation constraints of controllers (controller/constraints): the three-valued logic of
  activations, the closure of controller groups, and the evaluation of constraints.

  \<open>None\<close> as the result of \<open>disjoint_loop\<close>, \<open>Closure\<close> and \<open>Match\<close> stands for a call that
  does not return; the theorems show that this does not happen.
\<close>

section \<open>Three-valued activations\<close>

datatype activation = No | NoOpinion | Yes

fun act_index :: "activation \<Rightarrow> nat" where
  "act_index No = 0"
| "act_index NoOpinion = 1"
| "act_index Yes = 2"

fun Activation_String :: "activation \<Rightarrow> string" where
  "Activation_String No = ''No''"
| "Activation_String Yes = ''Yes''"
| "Activation_String NoOpinion = ''NoOpinion''"

definition orMatrix :: "activation list list" where
  "orMatrix = [[No, No, Yes], [No, NoOpinion, Yes], [Yes, Yes, Yes]]"

definition andMatrix :: "activation list list" where
  "andMatrix = [[No, No, No], [No, NoOpinion, Yes], [No, Yes, Yes]]"

definition Activation_Or :: "activation \<Rightarrow> activation \<Rightarrow> activation" where
  "Activation_Or a b = orMatrix ! act_index a ! act_index b"

definition Activation_And :: "activation \<Rightarrow> activation \<Rightarrow> activation" where
  "Activation_And a b = andMatrix ! act_index a ! act_index b"

fun Activation_Not :: "activation \<Rightarrow> activation" where
  "Activation_Not No = Yes"
| "Activation_Not NoOpinion = NoOpinion"
| "Activation_Not Yes = No"

instantiation activation :: linorder
begin

definition less_eq_activation :: "activation \<Rightarrow> activation \<Rightarrow> bool" where
  "a \<le> b \<longleftrightarrow> act_index a \<le> act_index b"

definition less_activation :: "activation \<Rightarrow> activation \<Rightarrow> bool" where
  "a < b \<longleftrightarrow> act_index a < act_index b"

instance
proof
  fix a b :: activation
  show "a \<le> b \<Longrightarrow> b \<le> a \<Longrightarrow> a = b"
    by (cases a; cases b) (simp_all add: less_eq_activation_def)
qed (auto simp: less_eq_activation_def less_activation_def)

end

text \<open>Without an absent opinion the tables are minimum and maximum; no opinion is neutral.\<close>

lemma And_min: "a \<noteq> NoOpinion \<Longrightarrow> b \<noteq> NoOpinion \<Longrightarrow> Activation_And a b = min a b"
  by (cases a; cases b)
    (simp_all add: Activation_And_def andMatrix_def min_def less_eq_activation_def)

lemma Or_max: "a \<noteq> NoOpinion \<Longrightarrow> b \<noteq> NoOpinion \<Longrightarrow> Activation_Or a b = max a b"
  by (cases a; cases b)
    (simp_all add: Activation_Or_def orMatrix_def max_def less_eq_activation_def)

lemma And_simps [simp]:
  "Activation_And NoOpinion a = a" "Activation_And a NoOpinion = a"
  "Activation_And No a = No" "Activation_And a No = No" "Activation_And Yes Yes = Yes"
  by (cases a; simp add: Activation_And_def andMatrix_def)+

lemma Or_simps [simp]:
  "Activation_Or NoOpinion a = a" "Activation_Or a NoOpinion = a"
  "Activation_Or Yes a = Yes" "Activation_Or a Yes = Yes" "Activation_Or No No = No"
  by (cases a; simp add: Activation_Or_def orMatrix_def)+

lemma Not_Not [simp]: "Activation_Not (Activation_Not a) = a"
  by (cases a) simp_all

lemma Not_And: "Activation_Not (Activation_And a b) =
    Activation_Or (Activation_Not a) (Activation_Not b)"
  by (cases a; cases b) simp_all

section \<open>Groups of controllers\<close>

text \<open>A controller set: its names and its groups; a member list may be a \<open>nil\<close> slice.\<close>

type_synonym 'a slice = "'a list option"

type_synonym groups = "(string, string slice) gomap"

record controller_set =
  cs_names :: "string list"
  cs_groups :: groups

definition grp_of :: "groups \<Rightarrow> string \<Rightarrow> string list" where
  "grp_of groups name = (case gget groups name of Some (Some l) \<Rightarrow> l | _ \<Rightarrow> [])"

partial_function (option) Closure_all ::
  "groups \<Rightarrow> string list \<Rightarrow> string set \<Rightarrow> string set \<Rightarrow> (string set \<times> string set) option" where
  "Closure_all groups names result handled =
     (case names of
        [] \<Rightarrow> Some (result, handled)
      | name # rest \<Rightarrow>
          (if name \<in> handled then Closure_all groups rest result handled
           else let handled = insert name handled;
                    grp = grp_of groups name
                in Option.bind
                     (if grp = [] then Some (insert name result, handled)
                      else Closure_all groups grp result handled)
                     (\<lambda>(result, handled). Closure_all groups rest result handled)))"

definition Closure ::
  "groups \<Rightarrow> string \<Rightarrow> string set \<Rightarrow> string set \<Rightarrow> (string set \<times> string set) option" where
  "Closure groups name result handled = Closure_all groups [name] result handled"

record ctx =
  all_names :: "string set"
  cgroups :: "(string, string set) gomap"
  selected :: "string set"

fun close_groups ::
  "groups \<Rightarrow> groups \<Rightarrow> (string, string set) gomap \<Rightarrow> (string, string set) gomap option" where
  "close_groups groups [] acc = Some acc"
| "close_groups groups ((name, _) # rest) acc =
     Option.bind (Closure groups name {} {})
       (\<lambda>(result, _). close_groups groups rest (gset name result acc))"

definition NewContext :: "controller_set \<Rightarrow> ctx option" where
  "NewContext def =
     map_option (\<lambda>gs. \<lparr>all_names = set (cs_names def), cgroups = gs, selected = {}\<rparr>)
       (close_groups (cs_groups def) (cs_groups def) [])"

definition WithSelectedSet :: "string set \<Rightarrow> ctx \<Rightarrow> ctx" where
  "WithSelectedSet names c = c\<lparr>selected := names\<rparr>"

definition WithSelected :: "string list \<Rightarrow> ctx \<Rightarrow> ctx" where
  "WithSelected names c = c\<lparr>selected := set names\<rparr>"

definition Context_GetGroup :: "string \<Rightarrow> ctx \<Rightarrow> string set option" where
  "Context_GetGroup name c = gget (cgroups c) name"

definition Context_Has :: "string \<Rightarrow> ctx \<Rightarrow> bool" where
  "Context_Has name c \<longleftrightarrow> name \<in> selected c"

section \<open>Constraints\<close>

datatype constraint =
    Activated "string list"
  | Always
  | Complete "string list"
  | Disjoint "string list"
  | And "constraint list"
  | Or "constraint list"
  | Not constraint

type_synonym verdict = "activation \<times> gerror option"

fun Activated_Match :: "string list \<Rightarrow> ctx \<Rightarrow> verdict" where
  "Activated_Match a c =
     (if a = [] then (NoOpinion, None)
      else if \<exists>name \<in> set a. \<not> Context_Has name c then (No, None) else (Yes, None))"

definition undeclared :: "string \<Rightarrow> gerror" where
  "undeclared grp = Errorf ''group %q used but not declared'' [grp]"

fun Complete_Match :: "string list \<Rightarrow> ctx \<Rightarrow> verdict" where
  "Complete_Match [] c = (NoOpinion, None)"
| "Complete_Match (grp # gs) c =
     (case Context_GetGroup grp c of
        None \<Rightarrow> (NoOpinion, Some (undeclared grp))
      | Some g \<Rightarrow>
          (if card g \<noteq> card (g \<inter> selected c)
           then (NoOpinion, Some (Errorf ''group %q must be complete [%s]''
                   (grp # sorted_list_of_set g)))
           else Complete_Match gs c))"

text \<open>
  One pass of the inner loop over \<open>r.groups[i:]\<close>: it returns from \<open>Match\<close> with a verdict or
  ends with the new value of \<open>i\<close>, which the loop body overwrites with the index relative
  to the subslice.
\<close>

fun disjoint_scan :: "ctx \<Rightarrow> nat \<Rightarrow> string list \<Rightarrow> string \<Rightarrow> nat \<Rightarrow> verdict + nat" where
  "disjoint_scan c j [] found i = Inr i"
| "disjoint_scan c j (grp # gs) found i =
     (case Context_GetGroup grp c of
        None \<Rightarrow> Inl (NoOpinion, Some (undeclared grp))
      | Some g \<Rightarrow>
          (if g \<inter> selected c \<noteq> {}
           then (if found \<noteq> []
                 then Inl (Yes, Some (Errorf ''use only controllers either in group %q or %q''
                        [found, grp]))
                 else disjoint_scan c (Suc j) gs grp j)
           else disjoint_scan c (Suc j) gs found i))"

partial_function (option) disjoint_loop :: "ctx \<Rightarrow> string list \<Rightarrow> nat \<Rightarrow> verdict option" where
  "disjoint_loop c gs i =
     (if i < length gs
      then (case disjoint_scan c 0 (drop i gs) [] i of
              Inl v \<Rightarrow> Some v
            | Inr i \<Rightarrow> disjoint_loop c gs (Suc i))
      else Some (NoOpinion, None))"

definition join :: "gerror option \<Rightarrow> gerror option \<Rightarrow> string \<Rightarrow> gerror option" where
  "join a b op =
     (case a of None \<Rightarrow> b
      | Some x \<Rightarrow> (case b of None \<Rightarrow> a | Some y \<Rightarrow> Some (Joined x op y)))"

fun Match :: "ctx \<Rightarrow> constraint \<Rightarrow> verdict option"
  and and_loop :: "ctx \<Rightarrow> constraint list \<Rightarrow> activation \<Rightarrow> gerror option \<Rightarrow> verdict option"
  and or_loop :: "ctx \<Rightarrow> constraint list \<Rightarrow> activation \<Rightarrow> gerror option \<Rightarrow> bool \<Rightarrow> verdict option"
where
  "Match c (Activated names) = Some (Activated_Match names c)"
| "Match c Always = Some (Yes, None)"
| "Match c (Complete gs) = Some (Complete_Match gs c)"
| "Match c (Disjoint gs) = disjoint_loop c gs 0"
| "Match c (And cs) = and_loop c cs NoOpinion None"
| "Match c (Or cs) = or_loop c cs NoOpinion None False"
| "Match c (Not x) = map_option (\<lambda>(a, err). (Activation_Not a, err)) (Match c x)"
| "and_loop c [] r rerr = Some (r, rerr)"
| "and_loop c (x # cs) r rerr =
     Option.bind (Match c x) (\<lambda>(ok, err).
       let r = Activation_And r ok
       in if r = No then Some (r, err)
          else and_loop c cs r (if err \<noteq> None then join rerr err ''AND'' else rerr))"
| "or_loop c [] r rerr found = Some (if found then (r, None) else (r, rerr))"
| "or_loop c (x # cs) r rerr found =
     Option.bind (Match c x) (\<lambda>(ok, err).
       let r = Activation_Or r ok
       in if ok \<noteq> No
          then (if err = None then or_loop c cs r rerr True
                else or_loop c cs r (join rerr err ''OR'') found)
          else or_loop c cs r rerr found)"

text \<open>A set of constraints, as the controller definitions keep it, is a growing list.\<close>

definition Constraints_Add :: "constraint list \<Rightarrow> constraint list \<Rightarrow> constraint list" where
  "Constraints_Add constraints c = c @ constraints"

definition Constraints_Match :: "ctx \<Rightarrow> constraint list \<Rightarrow> verdict option" where
  "Constraints_Match c cs = Match c (And cs)"

section \<open>The closure of groups\<close>

text \<open>The controllers a name stands for: the names without members that it reaches.\<close>

definition member_edges :: "groups \<Rightarrow> (string \<times> string) set" where
  "member_edges groups = {(n, m). m \<in> set (grp_of groups n)}"

definition leaves_of :: "groups \<Rightarrow> string \<Rightarrow> string set" where
  "leaves_of groups n = {m. (n, m) \<in> (member_edges groups)\<^sup>* \<and> grp_of groups m = []}"

definition closure_post ::
  "groups \<Rightarrow> string list \<Rightarrow> string set \<Rightarrow> string set \<Rightarrow> string set \<Rightarrow> string set \<Rightarrow> bool" where
  "closure_post groups names r h r' h' \<longleftrightarrow>
     h \<subseteq> h' \<and> set names \<subseteq> h' \<and>
     (\<forall>x \<in> h' - h. set (grp_of groups x) \<subseteq> h' \<and>
        (\<exists>n \<in> set names. (n, x) \<in> (member_edges groups)\<^sup>*)) \<and>
     r' = r \<union> {x \<in> h' - h. grp_of groups x = []}"

lemma closure_post_Nil [simp]: "closure_post groups [] r h r h"
  by (auto simp: closure_post_def)

lemma closure_post_handled:
  "n \<in> h \<Longrightarrow> closure_post groups ns r h r' h' \<Longrightarrow> closure_post groups (n # ns) r h r' h'"
  by (auto simp: closure_post_def)

lemma closure_post_leaf:
  "n \<notin> h \<Longrightarrow> grp_of groups n = [] \<Longrightarrow>
   closure_post groups ns (insert n r) (insert n h) r' h' \<Longrightarrow>
   closure_post groups (n # ns) r h r' h'"
  by (auto simp: closure_post_def)

lemma closure_post_group:
  assumes "n \<notin> h" "grp_of groups n \<noteq> []"
    and grp: "closure_post groups (grp_of groups n) r (insert n h) r1 h1"
    and rest: "closure_post groups ns r1 h1 r' h'"
  shows "closure_post groups (n # ns) r h r' h'"
proof -
  have step: "(n, m) \<in> (member_edges groups)\<^sup>*" if "m \<in> set (grp_of groups n)" for m
    using that by (auto simp: member_edges_def)
  have "\<exists>n' \<in> set (n # ns). (n', x) \<in> (member_edges groups)\<^sup>*" if x: "x \<in> h' - h" for x
  proof (cases "x \<in> h1")
    case True
    then have "x = n \<or> (\<exists>m \<in> set (grp_of groups n). (m, x) \<in> (member_edges groups)\<^sup>*)"
      using x grp by (auto simp: closure_post_def)
    then show ?thesis
      using step by (auto intro: rtrancl_trans)
  next
    case False
    then show ?thesis
      using x rest by (auto simp: closure_post_def)
  qed
  moreover have "set (grp_of groups x) \<subseteq> h'" if "x \<in> h' - h" for x
  proof (cases "x \<in> h1")
    case True
    then have "set (grp_of groups x) \<subseteq> h1"
      using that grp by (cases "x = n") (auto simp: closure_post_def)
    then show ?thesis
      using rest by (auto simp: closure_post_def)
  next
    case False
    then show ?thesis
      using that rest by (auto simp: closure_post_def)
  qed
  moreover have "h \<subseteq> h'" "set (n # ns) \<subseteq> h'"
    using grp rest by (auto simp: closure_post_def)
  moreover have "r' = r \<union> {x \<in> h' - h. grp_of groups x = []}"
    using assms(1,2) grp rest by (auto simp: closure_post_def)
  ultimately show ?thesis
    by (auto simp: closure_post_def)
qed

text \<open>
  Every recursive call handles one more name of the finite set of names that occur, so the
  traversal ends.
\<close>

lemma Closure_all_total:
  assumes "finite U" "\<And>n. set (grp_of groups n) \<subseteq> U" "set names \<subseteq> U"
  shows "\<exists>r' h'. Closure_all groups names r h = Some (r', h') \<and> closure_post groups names r h r' h'"
  using assms(3)
proof (induction "(card (U - h), length names)" arbitrary: names r h
    rule: wf_induct_rule [OF wf_lex_prod [OF wf_less wf_less]])
  case 1
  note IH = "1.hyps"
  show ?case
  proof (cases names)
    case Nil
    then show ?thesis
      by (simp add: Closure_all.simps)
  next
    case (Cons n ns)
    then have n: "n \<in> U" and ns: "set ns \<subseteq> U"
      using "1.prems" by simp_all
    have smaller: "card (U - h') < card (U - h)" if "insert n h \<subseteq> h'" "n \<notin> h" for h'
      using n assms(1) that by (intro psubset_card_mono) auto
    show ?thesis
    proof (cases "n \<in> h")
      case True
      moreover obtain r' h' where "Closure_all groups ns r h = Some (r', h')"
          "closure_post groups ns r h r' h'"
        using IH [of h ns r] ns by (auto simp: Cons)
      ultimately show ?thesis
        unfolding Cons by (subst Closure_all.simps) (simp add: closure_post_handled)
    next
      case False
      show ?thesis
      proof (cases "grp_of groups n = []")
        case True
        moreover obtain r' h' where "Closure_all groups ns (insert n r) (insert n h) = Some (r', h')"
            "closure_post groups ns (insert n r) (insert n h) r' h'"
          using IH [of "insert n h" ns "insert n r"] ns smaller [of "insert n h"] False by auto
        ultimately show ?thesis
          using False unfolding Cons by (subst Closure_all.simps) (simp add: closure_post_leaf)
      next
        case grp: False
        obtain r1 h1 where 1: "Closure_all groups (grp_of groups n) r (insert n h) = Some (r1, h1)"
            "closure_post groups (grp_of groups n) r (insert n h) r1 h1"
          using IH [of "insert n h" "grp_of groups n" r] assms(2) smaller [of "insert n h"] False
          by auto
        then have "insert n h \<subseteq> h1"
          by (simp add: closure_post_def)
        then obtain r' h' where "Closure_all groups ns r1 h1 = Some (r', h')"
            "closure_post groups ns r1 h1 r' h'"
          using IH [of h1 ns r1] ns smaller [of h1] False by auto
        then show ?thesis
          using False grp 1 unfolding Cons
          by (subst Closure_all.simps) (auto simp: Let_def intro: closure_post_group)
      qed
    qed
  qed
qed

lemma finite_members: "finite (\<Union>n. set (grp_of groups n))"
proof -
  have "(\<Union>n. set (grp_of groups n)) \<subseteq> (\<Union>v \<in> ran (gget groups). set (case v of None \<Rightarrow> [] | Some l \<Rightarrow> l))"
    by (force simp: grp_of_def ran_def split: option.splits)
  then show ?thesis
    by (rule finite_subset) (intro finite_UN_I finite_ran finite_dom_map_of finite_set)
qed

lemma Closure_leaves:
  "\<exists>h. Closure groups name {} {} = Some (leaves_of groups name, h) \<and> finite (leaves_of groups name)"
proof -
  let ?U = "insert name (\<Union>n. set (grp_of groups n))"
  have fin: "finite ?U"
    by (simp add: finite_members)
  obtain r h where r: "Closure_all groups [name] {} {} = Some (r, h)"
      "closure_post groups [name] {} {} r h"
    using Closure_all_total [of ?U groups "[name]" "{}" "{}"] fin by auto
  have "x \<in> h" if "(name, x) \<in> (member_edges groups)\<^sup>*" for x
    using that r(2) by (induction) (auto simp: closure_post_def member_edges_def)
  then have "r = leaves_of groups name"
    using r(2) by (auto simp: closure_post_def leaves_of_def)
  moreover have "x \<in> ?U" if "(name, x) \<in> (member_edges groups)\<^sup>*" for x
    using that by (induction) (auto simp: member_edges_def)
  then have "leaves_of groups name \<subseteq> ?U"
    by (auto simp: leaves_of_def)
  then have "finite (leaves_of groups name)"
    using fin by (rule finite_subset)
  ultimately show ?thesis
    using r(1) by (auto simp: Closure_def)
qed

lemma close_groups_leaves:
  "\<exists>r. close_groups groups gs acc = Some r \<and>
     gget r = (\<lambda>n. if n \<in> set (gkeys gs) then Some (leaves_of groups n) else gget acc n)"
proof (induction gs arbitrary: acc)
  case (Cons g gs)
  obtain n ms h where g: "g = (n, ms)" "Closure groups n {} {} = Some (leaves_of groups n, h)"
    using Closure_leaves by (cases g) blast
  then show ?case
    using Cons.IH [of "gset n (leaves_of groups n) acc"] by (auto simp: fun_eq_iff)
qed simp

section \<open>The verdicts of constraints\<close>

text \<open>What a constraint means, without loops, breaks and error texts.\<close>

definition declared :: "ctx \<Rightarrow> string \<Rightarrow> bool" where
  "declared c g \<longleftrightarrow> Context_GetGroup g c \<noteq> None"

definition hit :: "ctx \<Rightarrow> string \<Rightarrow> bool" where
  "hit c g \<longleftrightarrow> (\<exists>m. Context_GetGroup g c = Some m \<and> m \<inter> selected c \<noteq> {})"

definition full :: "ctx \<Rightarrow> string \<Rightarrow> bool" where
  "full c g \<longleftrightarrow> (\<exists>m. Context_GetGroup g c = Some m \<and> m \<subseteq> selected c)"

definition all_of :: "activation list \<Rightarrow> activation" where
  "all_of as = (if No \<in> set as then No else if Yes \<in> set as then Yes else NoOpinion)"

definition any_of :: "activation list \<Rightarrow> activation" where
  "any_of as = (if Yes \<in> set as then Yes else if No \<in> set as then No else NoOpinion)"

definition disjoint_verdict :: "ctx \<Rightarrow> string list \<Rightarrow> verdict" where
  "disjoint_verdict c gs =
     (case disjoint_scan c 0 gs [] 0 of Inl v \<Rightarrow> v | Inr _ \<Rightarrow> (NoOpinion, None))"

fun opinion :: "ctx \<Rightarrow> constraint \<Rightarrow> activation" where
  "opinion c (Activated names) =
     (if names = [] then NoOpinion else if set names \<subseteq> selected c then Yes else No)"
| "opinion c Always = Yes"
| "opinion c (Complete gs) = NoOpinion"
| "opinion c (Disjoint gs) = fst (disjoint_verdict c gs)"
| "opinion c (And cs) = all_of (map (opinion c) cs)"
| "opinion c (Or cs) = any_of (map (opinion c) cs)"
| "opinion c (Not x) = Activation_Not (opinion c x)"

fun complains :: "ctx \<Rightarrow> constraint \<Rightarrow> bool" where
  "complains c (Activated names) = False"
| "complains c Always = False"
| "complains c (Complete gs) = (\<not> list_all (full c) gs)"
| "complains c (Disjoint gs) = (snd (disjoint_verdict c gs) \<noteq> None)"
| "complains c (And cs) =
     (case dropWhile (\<lambda>(a, _). a \<noteq> No) (map (\<lambda>x. (opinion c x, complains c x)) cs) of
        [] \<Rightarrow> list_ex (complains c) cs
      | (_, e) # _ \<Rightarrow> e)"
| "complains c (Or cs) =
     (let es = map snd (filter (\<lambda>(a, _). a \<noteq> No) (map (\<lambda>x. (opinion c x, complains c x)) cs))
      in es \<noteq> [] \<and> list_all (\<lambda>e. e) es)"
| "complains c (Not x) = complains c x"

definition ctx_ok :: "ctx \<Rightarrow> bool" where
  "ctx_ok c \<longleftrightarrow> (\<forall>g m. Context_GetGroup g c = Some m \<longrightarrow> finite m)"

lemma Complete_Match_verdict:
  "ctx_ok c \<Longrightarrow> fst (Complete_Match gs c) = NoOpinion \<and>
     (snd (Complete_Match gs c) \<noteq> None \<longleftrightarrow> \<not> list_all (full c) gs)"
proof (induction gs)
  case (Cons g gs)
  have "card m \<noteq> card (m \<inter> selected c) \<longleftrightarrow> \<not> m \<subseteq> selected c" if "finite m" for m
    using that by (metis Int_absorb2 Int_lower1 card_subset_eq inf.cobounded2)
  with Cons show ?case
    by (auto simp: full_def ctx_ok_def split: option.splits)
qed simp

text \<open>
  Once the first pass of \<open>Disjoint\<close> has not returned, the groups after the index it leaves
  behind have no selected member, so every later pass keeps its index and the outer loop
  ends.
\<close>

lemma scan_Inr:
  "disjoint_scan c j gs found i = Inr i' \<Longrightarrow>
     (\<forall>g \<in> set gs. declared c g) \<and>
     ((\<forall>g \<in> set gs. \<not> hit c g) \<and> i' = i \<or>
      j \<le> i' \<and> (\<forall>g \<in> set (drop (Suc (i' - j)) gs). \<not> hit c g))"
proof (induction c j gs found i rule: disjoint_scan.induct)
  case (2 c j g gs found i)
  have tail: "j \<le> k \<Longrightarrow> set (drop (Suc (k - j)) (g # gs)) =
      (if k = j then set gs else set (drop (Suc (k - Suc j)) gs))" for k
    by (auto simp: Suc_diff_Suc le_less)
  obtain m where m: "Context_GetGroup g c = Some m"
    using "2.prems" by (auto split: option.splits)
  show ?case
  proof (cases "m \<inter> selected c = {}")
    case True
    then have "disjoint_scan c (Suc j) gs found i = Inr i'" "\<not> hit c g" "declared c g"
      using "2.prems" m by (auto simp: hit_def declared_def)
    then show ?thesis
      using "2.IH"(2) [OF m] True tail [of i'] by auto
  next
    case False
    then have "disjoint_scan c (Suc j) gs g j = Inr i'" "found = []" "declared c g"
      using "2.prems" m by (auto simp: declared_def split: if_splits)
    then show ?thesis
      using "2.IH"(1) [OF m] False tail [of i'] by auto
  qed
qed simp

lemma scan_quiet:
  "\<forall>g \<in> set gs. declared c g \<and> \<not> hit c g \<Longrightarrow> disjoint_scan c j gs found i = Inr i"
  by (induction c j gs found i rule: disjoint_scan.induct)
    (auto simp: declared_def hit_def split: option.splits)

lemma disjoint_loop_quiet:
  assumes "\<forall>g \<in> set (drop i gs). declared c g \<and> \<not> hit c g"
  shows "disjoint_loop c gs i = Some (NoOpinion, None)"
  using assms
proof (induction "length gs - i" arbitrary: i)
  case 0
  then show ?case
    by (subst disjoint_loop.simps) simp
next
  case (Suc n)
  have "disjoint_scan c 0 (drop i gs) [] i = Inr i"
    using Suc.prems by (rule scan_quiet)
  moreover have "disjoint_loop c gs (Suc i) = Some (NoOpinion, None)"
  proof (rule Suc.hyps(1))
    show "\<forall>g \<in> set (drop (Suc i) gs). declared c g \<and> \<not> hit c g"
      using Suc.prems set_drop_subset_set_drop [of i "Suc i" gs] by auto
  qed (use Suc.hyps in simp)
  ultimately show ?case
    by (subst disjoint_loop.simps) simp
qed

lemma disjoint_loop_verdict: "disjoint_loop c gs 0 = Some (disjoint_verdict c gs)"
proof (cases "gs = [] \<or> (\<exists>v. disjoint_scan c 0 gs [] 0 = Inl v)")
  case True
  then show ?thesis
    by (subst disjoint_loop.simps) (auto simp: disjoint_verdict_def)
next
  case False
  then obtain i where i: "disjoint_scan c 0 gs [] 0 = Inr i" "gs \<noteq> []"
    by (metis old.sum.exhaust)
  have "\<forall>g \<in> set (drop (Suc i) gs). declared c g \<and> \<not> hit c g"
    using scan_Inr [OF i(1)] by (auto dest: in_set_dropD)
  then have "disjoint_loop c gs (Suc i) = Some (NoOpinion, None)"
    by (rule disjoint_loop_quiet)
  then show ?thesis
    using i by (subst disjoint_loop.simps) (simp add: disjoint_verdict_def)
qed

lemma scan_verdict:
  "[] \<notin> set gs \<Longrightarrow>
     (case disjoint_scan c j gs found i of
        Inl (a, e) \<Rightarrow> e \<noteq> None \<and> a \<noteq> No \<and>
          \<not> (list_all (declared c) gs \<and> length (filter (hit c) gs) + (if found = [] then 0 else 1) \<le> 1)
      | Inr _ \<Rightarrow> list_all (declared c) gs \<and>
          (filter (hit c) gs = [] \<or> length (filter (hit c) gs) + (if found = [] then 0 else 1) \<le> 1))"
proof (induction c j gs found i rule: disjoint_scan.induct)
  case (2 c j g gs found i)
  show ?case
  proof (cases "Context_GetGroup g c")
    case (Some m)
    then have "declared c g" "hit c g \<longleftrightarrow> m \<inter> selected c \<noteq> {}"
      by (simp_all add: declared_def hit_def)
    with Some show ?thesis
      using "2.prems" "2.IH" [OF Some]
      by (cases "m \<inter> selected c = {}"; cases "found = []") (auto split: sum.splits)
  qed (simp add: declared_def)
qed simp

lemma disjoint_verdict_silent:
  assumes "[] \<notin> set gs"
  shows "snd (disjoint_verdict c gs) = None \<longleftrightarrow>
    list_all (declared c) gs \<and> length (filter (hit c) gs) \<le> 1"
  using scan_verdict [OF assms, where c = c and j = 0 and found = "[]" and i = 0]
  by (auto simp: disjoint_verdict_def split: sum.splits)

lemma disjoint_verdict_pos: "fst (disjoint_verdict c gs) \<noteq> No"
proof -
  have "disjoint_scan c j gs found i = Inl v \<Longrightarrow> fst v \<noteq> No" for j found i v
    by (induction c j gs found i rule: disjoint_scan.induct) (auto split: option.splits if_splits)
  then show ?thesis
    by (auto simp: disjoint_verdict_def split: sum.splits)
qed

lemma all_of_simps [simp]: "all_of [] = NoOpinion" "all_of (a # as) = Activation_And a (all_of as)"
  by (cases a; auto simp: all_of_def)+

lemma any_of_simps [simp]: "any_of [] = NoOpinion" "any_of (a # as) = Activation_Or a (any_of as)"
  by (cases a; auto simp: any_of_def)+

lemma And_assoc: "Activation_And (Activation_And a b) d = Activation_And a (Activation_And b d)"
  by (cases a; cases b; cases d) simp_all

lemma Or_assoc: "Activation_Or (Activation_Or a b) d = Activation_Or a (Activation_Or b d)"
  by (cases a; cases b; cases d) simp_all

lemma And_No: "Activation_And a b = No \<longleftrightarrow> a = No \<or> b = No"
  by (cases a; cases b) simp_all

lemma join_None [simp]: "join a b op = None \<longleftrightarrow> a = None \<and> b = None"
  by (auto simp: join_def split: option.splits)

lemma join_Some [simp]: "\<exists>z. join a (Some y) op = Some z"
  by (auto simp: join_def split: option.splits)

definition and_complains :: "ctx \<Rightarrow> constraint list \<Rightarrow> bool \<Rightarrow> bool" where
  "and_complains c cs b =
     (case dropWhile (\<lambda>(a, _). a \<noteq> No) (map (\<lambda>x. (opinion c x, complains c x)) cs) of
        [] \<Rightarrow> b \<or> list_ex (complains c) cs
      | (_, e) # _ \<Rightarrow> e)"

definition or_complains :: "ctx \<Rightarrow> constraint list \<Rightarrow> bool \<Rightarrow> bool" where
  "or_complains c cs b =
     (let es = map snd (filter (\<lambda>(a, _). a \<noteq> No) (map (\<lambda>x. (opinion c x, complains c x)) cs))
      in (b \<or> es \<noteq> []) \<and> list_all (\<lambda>e. e) es)"

lemma and_complains_simps [simp]:
  "and_complains c [] b = b"
  "and_complains c (x # cs) b =
     (if opinion c x = No then complains c x else and_complains c cs (b \<or> complains c x))"
  by (simp_all add: and_complains_def disj_assoc cong: list.case_cong)

lemma or_complains_simps [simp]:
  "or_complains c [] b = b"
  "or_complains c (x # cs) b =
     (if opinion c x = No then or_complains c cs b
      else complains c x \<and> or_complains c cs True)"
  by (auto simp: or_complains_def Let_def)

lemma complains_And: "complains c (And cs) = and_complains c cs False"
  by (simp add: and_complains_def cong: list.case_cong)

lemma complains_Or: "complains c (Or cs) = or_complains c cs False"
  by (simp add: or_complains_def)

lemma or_complains_more: "or_complains c cs False \<Longrightarrow> or_complains c cs True"
  by (simp add: or_complains_def Let_def)

lemma Match_meaning:
  "ctx_ok c \<Longrightarrow> \<exists>e. Match c x = Some (opinion c x, e) \<and> (e \<noteq> None \<longleftrightarrow> complains c x)"
  "ctx_ok c \<Longrightarrow> r \<noteq> No \<Longrightarrow> \<exists>e. and_loop c cs r rerr =
       Some (Activation_And r (all_of (map (opinion c) cs)), e) \<and>
       (e \<noteq> None \<longleftrightarrow> and_complains c cs (rerr \<noteq> None))"
  "ctx_ok c \<Longrightarrow> \<exists>e. or_loop c cs r rerr found =
       Some (Activation_Or r (any_of (map (opinion c) cs)), e) \<and>
       (e \<noteq> None \<longleftrightarrow> \<not> found \<and> or_complains c cs (rerr \<noteq> None))"
proof (induction c x and c cs r rerr and c cs r rerr found rule: Match_and_loop_or_loop.induct)
  case (1 c names)
  then show ?case
    by (auto simp: Context_Has_def)
next
  case (3 c gs)
  then show ?case
    using Complete_Match_verdict [of c gs] by (cases "Complete_Match gs c") auto
next
  case (4 c gs)
  then show ?case
    by (cases "disjoint_verdict c gs") (simp add: disjoint_loop_verdict)
next
  case (5 c cs)
  then show ?case
    unfolding complains_And by auto
next
  case (6 c cs)
  then show ?case
    unfolding complains_Or by auto
next
  case (9 c x cs r rerr)
  obtain e where "Match c x = Some (opinion c x, e)" "e \<noteq> None \<longleftrightarrow> complains c x"
    using 9 by auto
  then show ?case
    using 9 by (cases "opinion c x = No") (auto simp: Let_def And_No And_assoc)
next
  case (11 c x cs r rerr found)
  obtain e where "Match c x = Some (opinion c x, e)" "e \<noteq> None \<longleftrightarrow> complains c x"
    using 11 by auto
  then show ?case
    using 11 by (cases "opinion c x = No") (auto simp: Let_def Or_assoc dest: or_complains_more)
qed auto

lemma NewContext_total:
  "\<exists>c. NewContext def = Some c \<and> selected c = {} \<and> all_names c = set (cs_names def) \<and>
     (\<forall>g. Context_GetGroup g c =
        (if g \<in> set (gkeys (cs_groups def)) then Some (leaves_of (cs_groups def) g) else None))"
  using close_groups_leaves [of "cs_groups def" "cs_groups def" "[]"]
  by (auto simp: NewContext_def Context_GetGroup_def)

lemma finite_leaves [simp]: "finite (leaves_of groups g)"
  using Closure_leaves by blast

lemma GetGroup_WithSelected [simp]:
  "Context_GetGroup g (WithSelected sel c) = Context_GetGroup g c"
  "selected (WithSelected sel c) = set sel"
  by (simp_all add: Context_GetGroup_def WithSelected_def)

section \<open>Properties\<close>

text \<open>
  C15: evaluating a constraint always returns, with the activation the constraint denotes,
  and reports an error exactly where a constraint complains that decides the result; the
  operators obey De Morgan's laws.
\<close>

theorem constraints_evaluate:
  assumes "ctx_ok c"
  shows "(\<exists>e. Match c x = Some (opinion c x, e) \<and> (e \<noteq> None \<longleftrightarrow> complains c x)) \<and>
    (\<exists>e. Constraints_Match c cs = Some (all_of (map (opinion c) cs), e)) \<and>
    opinion c (Not (And cs)) = opinion c (Or (map Not cs)) \<and>
    opinion c (Not (Or cs)) = opinion c (And (map Not cs))"
proof (intro conjI)
  show "\<exists>e. Match c x = Some (opinion c x, e) \<and> (e \<noteq> None \<longleftrightarrow> complains c x)"
    using assms by (rule Match_meaning(1))
  show "\<exists>e. Constraints_Match c cs = Some (all_of (map (opinion c) cs), e)"
    using Match_meaning(1) [OF assms, of "And cs"] by (auto simp: Constraints_Match_def)
  show "opinion c (Not (And cs)) = opinion c (Or (map Not cs))"
    by (induction cs) (simp_all add: Not_And)
  show "opinion c (Not (Or cs)) = opinion c (And (map Not cs))"
    by (induction cs) (simp_all, metis Not_And Not_Not)
qed

definition demo_ctx :: ctx where
  "demo_ctx = \<lparr>all_names = {''a'', ''b''}, cgroups = [(''A'', {''a'', ''b''})], selected = {''a''}\<rparr>"

theorem constraints_evaluate_witness:
  "\<exists>e. Match demo_ctx (And [Activated [''a''], Complete [''A'']]) = Some (Yes, Some e)"
proof -
  have "ctx_ok demo_ctx"
    by (auto simp: ctx_ok_def demo_ctx_def Context_GetGroup_def)
  then show ?thesis
    using constraints_evaluate [of demo_ctx "And [Activated [''a''], Complete [''A'']]" "[]"]
    by (auto simp: demo_ctx_def full_def Context_GetGroup_def simp del: Match.simps)
qed

text \<open>
  C12: building a context always ends, also for groups that contain each other; a complete
  constraint on it is satisfied exactly when its groups are declared and every controller
  they reach through other groups is selected, and a disjoint constraint exactly when its
  groups are declared and at most one of them has a selected member.
\<close>

theorem group_constraints:
  "\<exists>c. NewContext def = Some c \<and>
     (\<exists>e. Match (WithSelected sel c) (Complete gs) = Some (NoOpinion, e) \<and>
       (e = None \<longleftrightarrow> (\<forall>g \<in> set gs. g \<in> set (gkeys (cs_groups def)) \<and>
          leaves_of (cs_groups def) g \<subseteq> set sel))) \<and>
     (\<exists>a e. Match (WithSelected sel c) (Disjoint gs) = Some (a, e) \<and> a \<noteq> No \<and>
       ([] \<notin> set gs \<longrightarrow> (e = None \<longleftrightarrow> set gs \<subseteq> set (gkeys (cs_groups def)) \<and>
          length (filter (\<lambda>g. leaves_of (cs_groups def) g \<inter> set sel \<noteq> {}) gs) \<le> 1)))"
proof -
  obtain c where c: "NewContext def = Some c"
    and grp: "\<And>g. Context_GetGroup g c =
      (if g \<in> set (gkeys (cs_groups def)) then Some (leaves_of (cs_groups def) g) else None)"
    using NewContext_total by blast
  let ?c = "WithSelected sel c"
  have ok: "ctx_ok ?c"
    by (auto simp: ctx_ok_def grp)
  have "\<exists>e. Match ?c (Complete gs) = Some (NoOpinion, e) \<and>
      (e = None \<longleftrightarrow> (\<forall>g \<in> set gs. g \<in> set (gkeys (cs_groups def)) \<and>
         leaves_of (cs_groups def) g \<subseteq> set sel))"
    using Match_meaning(1) [OF ok, of "Complete gs"]
    by (auto simp: list_all_iff full_def grp split: if_splits)
  moreover have "\<exists>a e. Match ?c (Disjoint gs) = Some (a, e) \<and> a \<noteq> No \<and>
      ([] \<notin> set gs \<longrightarrow> (e = None \<longleftrightarrow> set gs \<subseteq> set (gkeys (cs_groups def)) \<and>
         length (filter (\<lambda>g. leaves_of (cs_groups def) g \<inter> set sel \<noteq> {}) gs) \<le> 1))"
  proof (intro exI conjI impI)
    show "Match ?c (Disjoint gs) = Some (fst (disjoint_verdict ?c gs), snd (disjoint_verdict ?c gs))"
      by (simp add: disjoint_loop_verdict)
    assume "[] \<notin> set gs"
    moreover have "filter (hit ?c) gs = filter (\<lambda>g. leaves_of (cs_groups def) g \<inter> set sel \<noteq> {}) gs"
      if "list_all (declared ?c) gs"
      using that by (intro filter_cong) (auto simp: hit_def declared_def grp list_all_iff split: if_splits)
    moreover have "list_all (declared ?c) gs \<longleftrightarrow> set gs \<subseteq> set (gkeys (cs_groups def))"
      by (auto simp: list_all_iff declared_def grp split: if_splits)
    ultimately show "snd (disjoint_verdict ?c gs) = None \<longleftrightarrow> set gs \<subseteq> set (gkeys (cs_groups def)) \<and>
         length (filter (\<lambda>g. leaves_of (cs_groups def) g \<inter> set sel \<noteq> {}) gs) \<le> 1"
      by (auto simp: disjoint_verdict_silent)
  qed (rule disjoint_verdict_pos)
  ultimately show ?thesis
    using c by blast
qed

definition demo_set :: controller_set where
  "demo_set = \<lparr>cs_names = [''a'', ''b'', ''c''],
     cs_groups = [(''A'', Some [''a'', ''b'']), (''D'', Some [''A'', ''D''])]\<rparr>"

theorem group_constraints_witness:
  "\<exists>c e. NewContext demo_set = Some c \<and>
     Match (WithSelected [''a''] c) (Complete [''D'']) = Some (NoOpinion, Some e)"
proof -
  let ?g = "cs_groups demo_set"
  have "(''D'', ''A'') \<in> member_edges ?g" "(''A'', ''b'') \<in> member_edges ?g" "grp_of ?g ''b'' = []"
    by (simp_all add: member_edges_def grp_of_def demo_set_def)
  then have "''b'' \<in> leaves_of ?g ''D''"
    by (auto simp: leaves_of_def intro: converse_rtrancl_into_rtrancl)
  then have "\<not> leaves_of ?g ''D'' \<subseteq> set [''a'']"
    by auto
  then show ?thesis
    using group_constraints [of demo_set "[''a'']" "[''D'']"] by auto
qed

end
