(* ===== verification/ActivationOpts.thy ===== *)
theory ActivationOpts
  imports Constraints
begin

text \<open>
  The command line option that activates controllers (options/activationopts/options.go):
  short names for dotted names, the expansion of groups, and the resulting selection.

  \<open>maputils.OrderedKeys\<close> belongs to github.com/mandelsoft/goutils; it returns the keys of
  a map in ascending order. \<open>None\<close> as a result stands for a call that does not return.
\<close>

definition ALL_name :: string where
  "ALL_name = ''all''"

record options =
  o_set :: controller_set
  o_names :: "string list"
  o_activated :: "string list"

text \<open>\<open>Prepare\<close> with a controller source among the options.\<close>

definition Prepare :: "controller_set \<Rightarrow> options \<Rightarrow> options" where
  "Prepare cdefs opts =
     (let opts = opts\<lparr>o_set := cdefs\<rparr>;
          names = cs_names cdefs
      in if names \<noteq> []
         then opts\<lparr>o_names := names @ [ALL_name] @ sorted_list_of_set (set (gkeys (cs_groups cdefs)))\<rparr>
         else opts)"

definition trim_signs :: "string \<Rightarrow> string" where
  "trim_signs = dropWhile (\<lambda>c. c = CHR ''+'' \<or> c = CHR ''-'')"

definition Validate :: "options \<Rightarrow> gerror option" where
  "Validate opts =
     (let invalid = filter (\<lambda>name. name \<notin> set (o_names opts)) (map trim_signs (o_activated opts))
      in if invalid \<noteq> [] then Some (Errorf ''invalid controller names or groups: %v'' invalid)
         else None)"

text \<open>
  \<open>Simplify\<close> gives every dotted name its shortest suffix of components that is not taken;
  a missing entry of the result reads as the empty string.
\<close>

definition suffixes_of :: "string list \<Rightarrow> string list" where
  "suffixes_of comps =
     map (\<lambda>i. join_with (CHR ''.'') (drop (length comps - i - 1) comps)) [0..<length comps]"

fun first_free :: "(string, string) gomap \<Rightarrow> string list \<Rightarrow> string option" where
  "first_free result [] = None"
| "first_free result (t # ts) =
     (if (case gget result t of None \<Rightarrow> [] | Some v \<Rightarrow> v) = [] then Some t else first_free result ts)"

fun Simplify_loop :: "string list \<Rightarrow> (string, string) gomap \<Rightarrow> (string, string) gomap" where
  "Simplify_loop [] result = result"
| "Simplify_loop (n # ns) result =
     (let comps = split_on (CHR ''.'') n
      in if length comps = 1 then Simplify_loop ns (gset n n result)
         else (case first_free result (suffixes_of comps) of
                 None \<Rightarrow> Simplify_loop ns result
               | Some t \<Rightarrow> Simplify_loop ns (gset t n result)))"

definition Simplify :: "string list \<Rightarrow> (string, string) gomap" where
  "Simplify names = Simplify_loop names []"

text \<open>
  \<open>handle\<close> applies \<open>h\<close>, which adds a name to the selection or deletes it, to the controllers
  behind a name. The set \<open>handled\<close> holds the names of the calls that are still open.
\<close>

definition real_name :: "(string, string) gomap \<Rightarrow> string \<Rightarrow> string" where
  "real_name simplified name = (case gget simplified name of None \<Rightarrow> name | Some n \<Rightarrow> n)"

definition member_list :: "controller_set \<Rightarrow> string \<Rightarrow> string slice" where
  "member_list cset name =
     (let list = (case gget (cs_groups cset) name of None \<Rightarrow> None | Some l \<Rightarrow> l)
      in if list = None then (if name = ALL_name then Some (cs_names cset) else None) else list)"

partial_function (option) handle_all ::
  "controller_set \<Rightarrow> (string, string) gomap \<Rightarrow> (string \<Rightarrow> string set \<Rightarrow> string set) \<Rightarrow>
   string list \<Rightarrow> string set \<Rightarrow> string set \<Rightarrow> (string set \<times> string set) option" where
  "handle_all cset simplified h todo names handled =
     (case todo of
        [] \<Rightarrow> Some (names, handled)
      | name # rest \<Rightarrow>
          (let name = real_name simplified name
           in if name \<in> handled then handle_all cset simplified h rest names handled
              else Option.bind
                (case member_list cset name of
                   None \<Rightarrow> Some (h name names, insert name handled)
                 | Some list \<Rightarrow> handle_all cset simplified h list names (insert name handled))
                (\<lambda>(names, handled). handle_all cset simplified h rest names (handled - {name}))))"

definition handle ::
  "controller_set \<Rightarrow> (string, string) gomap \<Rightarrow> (string \<Rightarrow> string set \<Rightarrow> string set) \<Rightarrow>
   string \<Rightarrow> string set \<Rightarrow> string set \<Rightarrow> (string set \<times> string set) option" where
  "handle cset simplified h name names handled = handle_all cset simplified h [name] names handled"

definition del_name :: "string \<Rightarrow> string set \<Rightarrow> string set" where
  "del_name n names = names - {n}"

fun activation_loop ::
  "controller_set \<Rightarrow> (string, string) gomap \<Rightarrow> nat \<Rightarrow> string list \<Rightarrow> string set \<Rightarrow> string set \<Rightarrow>
   string set option" where
  "activation_loop cset simplified i [] names handled = Some names"
| "activation_loop cset simplified i (name # rest) names handled =
     Option.bind
       (if has_prefix name ''-''
        then handle cset simplified del_name (drop 1 name)
               (if i = 0 then names \<union> set (cs_names cset) else names) handled
        else if has_prefix name ''+''
        then handle cset simplified insert (drop 1 name) names handled
        else handle cset simplified insert name names handled)
       (\<lambda>(names, handled). activation_loop cset simplified (Suc i) rest names handled)"

definition GetActivation :: "options \<Rightarrow> string set option" where
  "GetActivation opts =
     activation_loop (o_set opts) (Simplify (o_names opts)) 0 (o_activated opts) {} {}"

definition GetContraintContext :: "options \<Rightarrow> ctx option" where
  "GetContraintContext opts =
     Option.bind (GetActivation opts) (\<lambda>names.
       map_option (WithSelectedSet names) (NewContext (o_set opts)))"

section \<open>Short names\<close>

definition is_suffix_name :: "string \<Rightarrow> string \<Rightarrow> bool" where
  "is_suffix_name t n \<longleftrightarrow> (\<exists>i. t = join_with (CHR ''.'') (drop i (split_on (CHR ''.'') n)))"

lemma is_suffix_name_self [simp]: "is_suffix_name n n"
  unfolding is_suffix_name_def by (rule exI [of _ 0]) simp

lemma suffixes_of_suffix: "t \<in> set (suffixes_of (split_on (CHR ''.'') n)) \<Longrightarrow> is_suffix_name t n"
  by (auto simp: suffixes_of_def is_suffix_name_def)

lemma first_free_Some:
  "first_free result ts = Some t \<Longrightarrow> t \<in> set ts \<and> (\<forall>v. gget result t = Some v \<longrightarrow> v = [])"
  by (induction ts) (auto split: if_splits option.splits)

lemma Simplify_step:
  "\<exists>r1. Simplify_loop (m # ns) r = Simplify_loop ns r1 \<and>
     (r1 = r \<or> (\<exists>u. r1 = gset u m r \<and> is_suffix_name u m \<and>
        (u = m \<or> (\<forall>v. gget r u = Some v \<longrightarrow> v = []))))"
proof (cases "length (split_on (CHR ''.'') m) = 1")
  case True
  then show ?thesis
    by (intro exI [of _ "gset m m r"]) auto
next
  case False
  show ?thesis
  proof (cases "first_free r (suffixes_of (split_on (CHR ''.'') m))")
    case None
    with False show ?thesis
      by (intro exI [of _ r]) simp
  next
    case (Some u)
    then have "is_suffix_name u m" "\<forall>v. gget r u = Some v \<longrightarrow> v = []"
      using first_free_Some suffixes_of_suffix by blast+
    with False Some show ?thesis
      by (intro exI [of _ "gset u m r"]) auto
  qed
qed

lemma Simplify_loop_sound:
  "gget (Simplify_loop ns r) t = Some n \<Longrightarrow> gget r t \<noteq> Some n \<Longrightarrow> n \<in> set ns \<and> is_suffix_name t n"
proof (induction ns arbitrary: r)
  case (Cons m ns)
  obtain r1 where r1: "Simplify_loop (m # ns) r = Simplify_loop ns r1"
      "r1 = r \<or> (\<exists>u. r1 = gset u m r \<and> is_suffix_name u m)"
    using Simplify_step by metis
  show ?case
  proof (cases "gget r1 t = Some n")
    case True
    then show ?thesis
      using r1 Cons.prems by (auto split: if_splits)
  next
    case False
    then show ?thesis
      using Cons r1(1) by simp
  qed
qed simp

lemma Simplify_loop_keeps:
  "gget r n = Some n \<Longrightarrow> n \<noteq> [] \<Longrightarrow> gget (Simplify_loop ns r) n = Some n"
proof (induction ns arbitrary: r)
  case (Cons m ns)
  obtain r1 where r1: "Simplify_loop (m # ns) r = Simplify_loop ns r1"
      "r1 = r \<or> (\<exists>u. r1 = gset u m r \<and> (u = m \<or> (\<forall>v. gget r u = Some v \<longrightarrow> v = [])))"
    using Simplify_step by metis
  then have "gget r1 n = Some n"
    using Cons.prems by auto
  then show ?case
    using Cons r1(1) by simp
qed simp

lemma Simplify_loop_plain:
  "n \<in> set ns \<Longrightarrow> CHR ''.'' \<notin> set n \<Longrightarrow> n \<noteq> [] \<Longrightarrow> gget (Simplify_loop ns r) n = Some n"
proof (induction ns arbitrary: r)
  case (Cons m ns)
  show ?case
  proof (cases "m = n")
    case True
    then show ?thesis
      using Cons.prems by (simp add: Simplify_loop_keeps)
  next
    case False
    then show ?thesis
      using Cons by (auto simp: Let_def split: option.splits)
  qed
qed simp

section \<open>The expansion of names\<close>

definition member_graph ::
  "controller_set \<Rightarrow> (string, string) gomap \<Rightarrow> (string \<times> string) set" where
  "member_graph cset simplified =
     {(n, real_name simplified m) | n m l. member_list cset n = Some l \<and> m \<in> set l}"

definition avoiding :: "string set \<Rightarrow> (string \<times> string) set \<Rightarrow> (string \<times> string) set" where
  "avoiding H E = {(a, b) \<in> E. a \<notin> H \<and> b \<notin> H}"

definition behind ::
  "controller_set \<Rightarrow> (string, string) gomap \<Rightarrow> string set \<Rightarrow> string \<Rightarrow> string set" where
  "behind cset simplified H n =
     (if n \<in> H then {}
      else {x. (n, x) \<in> (avoiding H (member_graph cset simplified))\<^sup>* \<and> member_list cset x = None})"

lemma avoiding_stays: "(a, b) \<in> (avoiding H E)\<^sup>* \<Longrightarrow> a \<notin> H \<Longrightarrow> b \<notin> H"
  by (induction rule: rtrancl_induct) (auto simp: avoiding_def)

lemma avoiding_first_step:
  assumes "n \<notin> H"
  shows "(n, x) \<in> (avoiding H E)\<^sup>* \<longleftrightarrow>
    x = n \<or> (\<exists>m. (n, m) \<in> E \<and> m \<notin> insert n H \<and> (m, x) \<in> (avoiding (insert n H) E)\<^sup>*)"
proof
  assume "(n, x) \<in> (avoiding H E)\<^sup>*"
  then show "x = n \<or> (\<exists>m. (n, m) \<in> E \<and> m \<notin> insert n H \<and> (m, x) \<in> (avoiding (insert n H) E)\<^sup>*)"
  proof (induction rule: rtrancl_induct)
    case (step y z)
    then show ?case
    proof (cases "z = n \<or> y = n")
      case True
      then show ?thesis
        using step.hyps(2) by (auto simp: avoiding_def)
    next
      case False
      then obtain m where "(n, m) \<in> E" "m \<notin> insert n H" "(m, y) \<in> (avoiding (insert n H) E)\<^sup>*"
        using step.IH by blast
      moreover have "(y, z) \<in> avoiding (insert n H) E"
        using step.hyps(2) False by (auto simp: avoiding_def)
      ultimately show ?thesis
        by (meson rtrancl.rtrancl_into_rtrancl)
    qed
  qed simp
next
  have mono: "(avoiding (insert n H) E)\<^sup>* \<subseteq> (avoiding H E)\<^sup>*"
    by (rule rtrancl_mono) (auto simp: avoiding_def)
  assume "x = n \<or> (\<exists>m. (n, m) \<in> E \<and> m \<notin> insert n H \<and> (m, x) \<in> (avoiding (insert n H) E)\<^sup>*)"
  then show "(n, x) \<in> (avoiding H E)\<^sup>*"
  proof (elim disjE exE conjE)
    fix m
    assume m: "(n, m) \<in> E" "m \<notin> insert n H" "(m, x) \<in> (avoiding (insert n H) E)\<^sup>*"
    then have "(n, m) \<in> avoiding H E"
      using assms by (simp add: avoiding_def)
    then show ?thesis
      using m(3) mono by (blast intro: converse_rtrancl_into_rtrancl)
  qed simp
qed

lemma behind_leaf:
  assumes "n \<notin> H" "member_list cset n = None"
  shows "behind cset s H n = {n}"
  using assms by (auto simp: behind_def avoiding_first_step [OF assms(1)] member_graph_def)

lemma behind_group:
  assumes "n \<notin> H" "member_list cset n = Some l"
  shows "behind cset s H n = (\<Union>m \<in> set l. behind cset s (insert n H) (real_name s m))"
proof (intro set_eqI iffI)
  fix x
  assume "x \<in> behind cset s H n"
  then show "x \<in> (\<Union>m \<in> set l. behind cset s (insert n H) (real_name s m))"
    using assms by (auto simp: behind_def avoiding_first_step [OF assms(1)] member_graph_def)
next
  fix x
  assume "x \<in> (\<Union>m \<in> set l. behind cset s (insert n H) (real_name s m))"
  then obtain m where m: "m \<in> set l" "x \<in> behind cset s (insert n H) (real_name s m)"
    by blast
  then have "real_name s m \<notin> insert n H" "member_list cset x = None"
      "(real_name s m, x) \<in> (avoiding (insert n H) (member_graph cset s))\<^sup>*"
    by (simp_all add: behind_def split: if_splits)
  moreover have "(n, real_name s m) \<in> member_graph cset s"
    using m(1) assms(2) by (auto simp: member_graph_def)
  ultimately show "x \<in> behind cset s H n"
    using assms(1) by (auto simp: behind_def avoiding_first_step [OF assms(1)])
qed

text \<open>
  What the two updates that \<open>handle\<close> is called with have in common: they apply a set of
  names to a selection, one name at a time.
\<close>

locale selection_update =
  fixes h :: "'n \<Rightarrow> 'n set \<Rightarrow> 'n set"
    and apply_all :: "'n set \<Rightarrow> 'n set \<Rightarrow> 'n set"
  assumes apply_empty: "apply_all {} A = A"
    and apply_single: "apply_all {n} A = h n A"
    and apply_union: "apply_all (L \<union> M) A = apply_all M (apply_all L A)"

locale name_update = selection_update h apply_all
  for h :: "string \<Rightarrow> string set \<Rightarrow> string set" and apply_all
begin

lemma apply_insert: "apply_all (insert n M) A = apply_all M (h n A)"
  using apply_union [of "{n}" M A] by (simp add: apply_single)

lemma handle_all_expands:
  assumes "finite U" "\<And>n l m. member_list cset n = Some l \<Longrightarrow> m \<in> set l \<Longrightarrow> real_name s m \<in> U"
    and "real_name s ` set todo \<subseteq> U"
  shows "handle_all cset s h todo A H =
    Some (apply_all (\<Union>t \<in> set todo. behind cset s H (real_name s t)) A, H)"
  using assms(3)
proof (induction "(card (U - H), length todo)" arbitrary: todo A H
    rule: wf_induct_rule [OF wf_lex_prod [OF wf_less wf_less]])
  case 1
  note IH = "1.hyps"
  show ?case
  proof (cases todo)
    case Nil
    then show ?thesis
      by (subst handle_all.simps) (simp add: apply_empty)
  next
    case (Cons t ts)
    let ?n = "real_name s t"
    have n: "?n \<in> U" and ts: "real_name s ` set ts \<subseteq> U"
      using "1.prems" Cons by simp_all
    have rest: "handle_all cset s h ts B H =
        Some (apply_all (\<Union>t \<in> set ts. behind cset s H (real_name s t)) B, H)" for B
      using ts by (intro IH) (simp_all add: Cons)
    show ?thesis
    proof (cases "?n \<in> H")
      case True
      then show ?thesis
        unfolding Cons by (subst handle_all.simps) (simp add: rest behind_def)
    next
      case False
      then have *: "insert ?n H - {?n} = H"
        by simp
      show ?thesis
      proof (cases "member_list cset ?n")
        case None
        then show ?thesis
          using False unfolding Cons
          by (subst handle_all.simps)
            (simp add: Let_def * rest behind_leaf apply_insert)
      next
        case (Some l)
        have "handle_all cset s h l A (insert ?n H) = Some (apply_all
            (\<Union>m \<in> set l. behind cset s (insert ?n H) (real_name s m)) A, insert ?n H)"
        proof (rule IH)
          have "card (U - insert ?n H) < card (U - H)"
            using n False assms(1) by (intro psubset_card_mono) auto
          then show "((card (U - insert ?n H), length l), card (U - H), length todo)
              \<in> {(x, y). x < y} <*lex*> {(x, y). x < y}"
            by simp
        qed (use assms(2) Some in auto)
        then show ?thesis
          using False Some unfolding Cons
          by (subst handle_all.simps) (simp add: Let_def * rest behind_group apply_union)
      qed
    qed
  qed
qed

end

interpretation add_names: name_update insert "(\<union>)"
  by unfold_locales auto

interpretation del_names: name_update del_name "\<lambda>L A. A - L"
  by unfold_locales (auto simp: del_name_def)

lemma finite_member_graph:
  "finite {real_name s m | n m l. member_list cset n = Some l \<and> m \<in> set l}" (is "finite ?U")
proof -
  have "?U \<subseteq> real_name s ` (set (cs_names cset) \<union>
      (\<Union>v \<in> ran (gget (cs_groups cset)). set (case v of None \<Rightarrow> [] | Some l \<Rightarrow> l)))"
    by (fastforce simp: member_list_def Let_def ran_def split: option.splits if_splits)
  then show ?thesis
    by (rule finite_subset)
      (intro finite_imageI finite_UnI finite_UN_I finite_ran finite_dom_map_of finite_set)
qed

lemma handle_expands:
  "handle cset s insert n A {} = Some (A \<union> behind cset s {} (real_name s n), {})"
  "handle cset s del_name n A {} = Some (A - behind cset s {} (real_name s n), {})"
proof -
  let ?U = "insert (real_name s n) {real_name s m | n m l. member_list cset n = Some l \<and> m \<in> set l}"
  have "finite ?U"
    using finite_member_graph by (rule finite.insertI)
  then show "handle cset s insert n A {} = Some (A \<union> behind cset s {} (real_name s n), {})"
    "handle cset s del_name n A {} = Some (A - behind cset s {} (real_name s n), {})"
    unfolding handle_def
    using add_names.handle_all_expands [of ?U cset s "[n]" A "{}"]
      del_names.handle_all_expands [of ?U cset s "[n]" A "{}"]
    by (auto simp: Un_commute)
qed

text \<open>
  What the option means: names are added and taken away from left to right, each standing
  for the controllers behind it; a leading removal starts from all controllers.
\<close>

fun selection ::
  "controller_set \<Rightarrow> (string, string) gomap \<Rightarrow> nat \<Rightarrow> string list \<Rightarrow> string set \<Rightarrow> string set" where
  "selection cset s i [] A = A"
| "selection cset s i (name # rest) A = selection cset s (Suc i) rest
     (if has_prefix name ''-''
      then (if i = 0 then A \<union> set (cs_names cset) else A) - behind cset s {} (real_name s (drop 1 name))
      else A \<union> behind cset s {} (real_name s (if has_prefix name ''+'' then drop 1 name else name)))"

lemma activation_loop_selection:
  "activation_loop cset s i args A {} = Some (selection cset s i args A)"
  by (induction args arbitrary: i A) (simp_all add: handle_expands)

lemma GetActivation_selection:
  "GetActivation opts =
     Some (selection (o_set opts) (Simplify (o_names opts)) 0 (o_activated opts) {})"
  by (simp add: GetActivation_def activation_loop_selection)

lemma real_name_plain:
  "n \<in> set ns \<Longrightarrow> CHR ''.'' \<notin> set n \<Longrightarrow> n \<noteq> [] \<Longrightarrow> real_name (Simplify ns) n = n"
  by (simp add: real_name_def Simplify_def Simplify_loop_plain)

section \<open>Properties\<close>

text \<open>
  C8: computing the activation ends for every set of groups, cyclic ones included, and
  yields the selection the arguments denote; the constraints are evaluated on it.
\<close>

theorem activation_denotes:
  "GetActivation opts =
     Some (selection (o_set opts) (Simplify (o_names opts)) 0 (o_activated opts) {}) \<and>
   (\<exists>c. GetContraintContext opts = Some c \<and>
     selected c = selection (o_set opts) (Simplify (o_names opts)) 0 (o_activated opts) {} \<and>
     Context_GetGroup g c =
       (if g \<in> set (gkeys (cs_groups (o_set opts))) then Some (leaves_of (cs_groups (o_set opts)) g)
        else None))"
proof -
  obtain c where c: "NewContext (o_set opts) = Some c" "Context_GetGroup g c =
      (if g \<in> set (gkeys (cs_groups (o_set opts))) then Some (leaves_of (cs_groups (o_set opts)) g)
       else None)"
    using NewContext_total by blast
  then show ?thesis
    by (simp add: GetActivation_selection GetContraintContext_def WithSelectedSet_def
        Context_GetGroup_def)
qed

text \<open>
  The flag's default activates all controllers, when no group has the name of a
  controller and the names are without dots.
\<close>

theorem default_activates_all:
  assumes names: "cs_names cdefs \<noteq> []" "\<forall>n \<in> set (cs_names cdefs). CHR ''.'' \<notin> set n \<and> n \<noteq> []"
    and groups: "\<forall>n \<in> insert ALL_name (set (cs_names cdefs)). gget (cs_groups cdefs) n = None"
    and clash: "ALL_name \<notin> set (cs_names cdefs)"
  shows "GetActivation ((Prepare cdefs opts)\<lparr>o_activated := [ALL_name]\<rparr>) =
    Some (set (cs_names cdefs))"
proof -
  let ?ns = "cs_names cdefs @ [ALL_name] @ sorted_list_of_set (set (gkeys (cs_groups cdefs)))"
  let ?s = "Simplify ?ns"
  have real: "real_name ?s n = n" if "n \<in> insert ALL_name (set (cs_names cdefs))" for n
    using that names by (intro real_name_plain) (auto simp: ALL_name_def)
  have all: "member_list cdefs ALL_name = Some (cs_names cdefs)"
    using groups by (simp add: member_list_def)
  have leaf: "behind cdefs ?s {ALL_name} (real_name ?s n) = {n}" if "n \<in> set (cs_names cdefs)" for n
    using that groups clash real by (subst behind_leaf) (auto simp: member_list_def)
  have "behind cdefs ?s {} (real_name ?s ALL_name) = set (cs_names cdefs)"
    using leaf real by (subst behind_group) (auto simp: all)
  then show ?thesis
    using names(1)
    by (simp add: Prepare_def Let_def GetActivation_selection, simp add: ALL_name_def has_prefix_def)
qed

theorem default_activates_all_witness:
  "GetActivation ((Prepare demo_set \<lparr>o_set = demo_set, o_names = [], o_activated = []\<rparr>)
     \<lparr>o_activated := [ALL_name]\<rparr>) = Some {''a'', ''b'', ''c''}"
  using default_activates_all [of demo_set] by (simp add: demo_set_def ALL_name_def)

text \<open>
  A short name stands for a name it is a suffix of, and a name without dots for itself;
  but validation accepts full names only, so no short name can be given, and the full name
  of a controller may be taken as the short name of another one.
\<close>

definition shadowed :: options where
  "shadowed = \<lparr>o_set = \<lparr>cs_names = [''q.c'', ''a.b.c'', ''b.c''], cs_groups = []\<rparr>,
     o_names = [''q.c'', ''a.b.c'', ''b.c''], o_activated = [''b.c'']\<rparr>"

theorem short_names:
  "(gget (Simplify ns) t = Some n \<longrightarrow> n \<in> set ns \<and> is_suffix_name t n) \<and>
   (t \<in> set ns \<and> CHR ''.'' \<notin> set t \<and> t \<noteq> [] \<longrightarrow> gget (Simplify ns) t = Some t) \<and>
   (Validate opts = None \<longleftrightarrow> trim_signs ` set (o_activated opts) \<subseteq> set (o_names opts)) \<and>
   Validate shadowed = None \<and> GetActivation shadowed = Some {''a.b.c''}"
proof (intro conjI impI)
  show "gget (Simplify ns) t = Some n \<Longrightarrow> n \<in> set ns" "gget (Simplify ns) t = Some n \<Longrightarrow> is_suffix_name t n"
    using Simplify_loop_sound [of ns "[]" t n] by (auto simp: Simplify_def)
  show "t \<in> set ns \<and> CHR ''.'' \<notin> set t \<and> t \<noteq> [] \<Longrightarrow> gget (Simplify ns) t = Some t"
    by (simp add: Simplify_def Simplify_loop_plain)
  show "Validate opts = None \<longleftrightarrow> trim_signs ` set (o_activated opts) \<subseteq> set (o_names opts)"
    by (auto simp: Validate_def Let_def filter_empty_conv)
  show "Validate shadowed = None"
    by (simp add: Validate_def shadowed_def trim_signs_def)
  have "real_name (Simplify (o_names shadowed)) ''b.c'' = ''a.b.c''"
    by (simp add: real_name_def shadowed_def Simplify_def Let_def suffixes_of_def gset_def)
  moreover have "member_list (o_set shadowed) ''a.b.c'' = None"
    by (simp add: member_list_def shadowed_def ALL_name_def)
  ultimately show "GetActivation shadowed = Some {''a.b.c''}"
    by (simp add: GetActivation_selection behind_leaf) (simp add: shadowed_def has_prefix_def behind_leaf)
qed

theorem short_names_witness:
  "gget (Simplify [''x.y'']) ''y'' = Some ''x.y'' \<and> is_suffix_name ''y'' ''x.y''"
proof
  show *: "gget (Simplify [''x.y'']) ''y'' = Some ''x.y''"
    by (simp add: Simplify_def suffixes_of_def Let_def)
  show "is_suffix_name ''y'' ''x.y''"
    using short_names [of "[''x.y'']" "''y''" "''x.y''"] * by blast
qed

end
