(* ===== verification/RelationIndex.thy ===== *)
theory RelationIndex
  imports Names
begin

text \<open>
  The indices of which object uses which (package index): a set-valued map (base.go), the
  relation kept in both directions (relation.go), and the indices of named relations per
  kind (typed.go), without kinds (untyped.go) and per cluster (clusteruntyped.go).

  A set of object keys is a list without duplicates, in the order in which \<open>range\<close> meets
  its elements. The operations return their result and the new state; the mutex that each
  operation of an index holds makes it one step. A \<open>nil\<close> set is the empty list.
\<close>

section \<open>Set-valued maps\<close>

type_synonym 'k base = "('k, 'k list) gomap"

definition base_Add :: "'k \<Rightarrow> 'k \<Rightarrow> 'k base \<Rightarrow> bool \<times> 'k base" where
  "base_Add a b u =
     (let t = (case gget u a of None \<Rightarrow> [] | Some t \<Rightarrow> t);
          u = (if gget u a = None then gset a [] u else u)
      in if b \<in> set t then (False, u) else (True, gset a (b # t) u))"

definition base_Remove :: "'k \<Rightarrow> 'k \<Rightarrow> 'k base \<Rightarrow> bool \<times> 'k base" where
  "base_Remove a b u =
     (case gget u a of
        None \<Rightarrow> (False, u)
      | Some t \<Rightarrow> if b \<in> set t then (True, gset a (removeAll b t) u) else (False, u))"

fun delete_from :: "'k \<Rightarrow> 'k base \<Rightarrow> bool \<Rightarrow> bool \<times> 'k base" where
  "delete_from o' [] ok = (ok, [])"
| "delete_from o' ((b, t) # rest) ok =
     (let old = length t;
          t = removeAll o' t;
          ok = (ok \<or> old \<noteq> length t);
          (ok, rest) = delete_from o' rest ok
      in (ok, if length t = 0 then rest else (b, t) # rest))"

definition base_DeleteObject :: "'k \<Rightarrow> 'k base \<Rightarrow> bool \<times> 'k base" where
  "base_DeleteObject o' u =
     (let ok = (gget u o' \<noteq> None);
          u = (if ok then gdel o' u else u)
      in delete_from o' u ok)"

definition base_Get :: "'k \<Rightarrow> 'k base \<Rightarrow> 'k list" where
  "base_Get a u = (case gget u a of None \<Rightarrow> [] | Some t \<Rightarrow> t)"

definition base_Clear :: "'k base \<Rightarrow> bool \<times> 'k base" where
  "base_Clear u = (length u \<noteq> 0, [])"

section \<open>Relations\<close>

record 'k relation =
  usersFor :: "'k base"
  usedBy :: "'k base"

definition newRelation :: "'k relation" where
  "newRelation = \<lparr>usersFor = [], usedBy = []\<rparr>"

definition relation_Add :: "'k \<Rightarrow> 'k \<Rightarrow> 'k relation \<Rightarrow> bool \<times> 'k relation" where
  "relation_Add a b r =
     (let r = r\<lparr>usersFor := snd (base_Add b a (usersFor r))\<rparr>;
          (ok, u) = base_Add a b (usedBy r)
      in (ok, r\<lparr>usedBy := u\<rparr>))"

definition relation_Remove :: "'k \<Rightarrow> 'k \<Rightarrow> 'k relation \<Rightarrow> bool \<times> 'k relation" where
  "relation_Remove a b r =
     (let r = r\<lparr>usersFor := snd (base_Remove b a (usersFor r))\<rparr>;
          (ok, u) = base_Remove a b (usedBy r)
      in (ok, r\<lparr>usedBy := u\<rparr>))"

definition relation_Replace :: "'k \<Rightarrow> 'k list \<Rightarrow> 'k relation \<Rightarrow> bool \<times> 'k relation" where
  "relation_Replace a b r =
     (let old = base_Get a (usedBy r);
          exp = remdups b;
          removed = filter (\<lambda>c. c \<notin> set exp) old;
          added = filter (\<lambda>c. c \<notin> set old) exp;
          r = fold (\<lambda>c r. r\<lparr>usersFor := snd (base_Add c a (usersFor r)),
                            usedBy := snd (base_Add a c (usedBy r))\<rparr>) added r;
          r = fold (\<lambda>c r. r\<lparr>usersFor := snd (base_Remove c a (usersFor r)),
                            usedBy := snd (base_Remove a c (usedBy r))\<rparr>) removed r
      in (length old \<noteq> 0 \<or> length exp \<noteq> 0, r))"

definition relation_RemoveObject :: "'k \<Rightarrow> 'k relation \<Rightarrow> bool \<times> 'k relation" where
  "relation_RemoveObject o' r =
     (let r = r\<lparr>usersFor := snd (base_DeleteObject o' (usersFor r))\<rparr>;
          (ok, u) = base_DeleteObject o' (usedBy r)
      in (ok, r\<lparr>usedBy := u\<rparr>))"

definition relation_UsedBy :: "'k relation \<Rightarrow> 'k \<Rightarrow> 'k list" where
  "relation_UsedBy r a = base_Get a (usedBy r)"

definition relation_UsersFor :: "'k relation \<Rightarrow> 'k \<Rightarrow> 'k list" where
  "relation_UsersFor r b = base_Get b (usersFor r)"

definition relation_Clear :: "'k relation \<Rightarrow> bool \<times> 'k relation" where
  "relation_Clear r =
     (let r = r\<lparr>usersFor := snd (base_Clear (usersFor r))\<rparr>;
          (ok, u) = base_Clear (usedBy r)
      in (ok, r\<lparr>usedBy := u\<rparr>))"

section \<open>Named relations\<close>

type_synonym 'k untyped = "(string, 'k relation) gomap"

definition getRelation :: "string \<Rightarrow> 'k untyped \<Rightarrow> 'k relation" where
  "getRelation r u = (case gget u r of None \<Rightarrow> newRelation | Some rel \<Rightarrow> rel)"

definition untyped_IsEmpty :: "'k untyped \<Rightarrow> bool" where
  "untyped_IsEmpty u \<longleftrightarrow> length u = 0"

definition untyped_Add :: "string \<Rightarrow> 'k \<Rightarrow> 'k \<Rightarrow> 'k untyped \<Rightarrow> bool \<times> 'k untyped" where
  "untyped_Add r a b u =
     (let (ok, rel) = relation_Add a b (getRelation r u) in (ok, gset r rel u))"

definition untyped_Replace :: "string \<Rightarrow> 'k \<Rightarrow> 'k list \<Rightarrow> 'k untyped \<Rightarrow> bool \<times> 'k untyped" where
  "untyped_Replace r a b u =
     (let (ok, rel) = relation_Replace a b (getRelation r u) in (ok, gset r rel u))"

definition untyped_Remove :: "string \<Rightarrow> 'k \<Rightarrow> 'k \<Rightarrow> 'k untyped \<Rightarrow> bool \<times> 'k untyped" where
  "untyped_Remove r a b u =
     (case gget u r of
        None \<Rightarrow> (False, u)
      | Some rel \<Rightarrow> let (ok, rel) = relation_Remove a b rel in (ok, gset r rel u))"

fun remove_object_all ::
  "'k \<Rightarrow> ('n \<times> 'k relation) list \<Rightarrow> bool \<Rightarrow> bool \<times> ('n \<times> 'k relation) list" where
  "remove_object_all o' [] ok = (ok, [])"
| "remove_object_all o' ((r, rel) # rest) ok =
     (let (removed, rel) = relation_RemoveObject o' rel;
          (ok, rest) = remove_object_all o' rest (removed \<or> ok)
      in (ok, (r, rel) # rest))"

definition untyped_RemoveObject :: "'k \<Rightarrow> 'k untyped \<Rightarrow> bool \<times> 'k untyped" where
  "untyped_RemoveObject o' u = remove_object_all o' u False"

definition untyped_UsedBy :: "string \<Rightarrow> 'k untyped \<Rightarrow> 'k \<Rightarrow> 'k list" where
  "untyped_UsedBy r u a = (case gget u r of None \<Rightarrow> [] | Some rel \<Rightarrow> relation_UsedBy rel a)"

definition untyped_UsersFor :: "string \<Rightarrow> 'k untyped \<Rightarrow> 'k \<Rightarrow> 'k list" where
  "untyped_UsersFor r u b = (case gget u r of None \<Rightarrow> [] | Some rel \<Rightarrow> relation_UsersFor rel b)"

definition untyped_Clear :: "string \<Rightarrow> 'k untyped \<Rightarrow> bool \<times> 'k untyped" where
  "untyped_Clear r u =
     (case gget u r of
        None \<Rightarrow> (False, u)
      | Some rel \<Rightarrow> let (ok, rel) = relation_Clear rel in (ok, gset r rel u))"

section \<open>Relations per cluster\<close>

type_synonym 'k clusteruntyped = "(string, 'k untyped) gomap"

definition cluster_Add ::
  "string \<Rightarrow> string \<Rightarrow> 'k \<Rightarrow> 'k \<Rightarrow> 'k clusteruntyped \<Rightarrow> bool \<times> 'k clusteruntyped" where
  "cluster_Add r c a b u =
     (let m = (case gget u c of None \<Rightarrow> [] | Some m \<Rightarrow> m);
          (ok, m) = untyped_Add r a b m
      in (ok, gset c m u))"

definition cluster_Replace ::
  "string \<Rightarrow> string \<Rightarrow> 'k \<Rightarrow> 'k list \<Rightarrow> 'k clusteruntyped \<Rightarrow> bool \<times> 'k clusteruntyped" where
  "cluster_Replace r c a b u =
     (case gget u c of
        Some m \<Rightarrow> let (ok, m) = untyped_Replace r a b m in (ok, gset c m u)
      | None \<Rightarrow> (False, u))"

definition cluster_Remove ::
  "string \<Rightarrow> string \<Rightarrow> 'k \<Rightarrow> 'k \<Rightarrow> 'k clusteruntyped \<Rightarrow> bool \<times> 'k clusteruntyped" where
  "cluster_Remove r c a b u =
     (case gget u c of
        None \<Rightarrow> (False, u)
      | Some m \<Rightarrow> let (ok, m) = untyped_Remove r a b m in (ok, gset c m u))"

definition cluster_RemoveObject ::
  "string \<Rightarrow> 'k \<Rightarrow> 'k clusteruntyped \<Rightarrow> bool \<times> 'k clusteruntyped" where
  "cluster_RemoveObject c o' u =
     (case gget u c of
        None \<Rightarrow> (False, u)
      | Some m \<Rightarrow> let (ok, m) = untyped_RemoveObject o' m in (ok, gset c m u))"

definition cluster_UsersFor :: "string \<Rightarrow> string \<Rightarrow> 'k clusteruntyped \<Rightarrow> 'k \<Rightarrow> 'k list" where
  "cluster_UsersFor r c u b = (case gget u c of None \<Rightarrow> [] | Some m \<Rightarrow> untyped_UsersFor r m b)"

definition cluster_UsedBy :: "string \<Rightarrow> string \<Rightarrow> 'k clusteruntyped \<Rightarrow> 'k \<Rightarrow> 'k list" where
  "cluster_UsedBy r c u a = (case gget u c of None \<Rightarrow> [] | Some m \<Rightarrow> untyped_UsedBy r m a)"

definition cluster_Clear :: "string \<Rightarrow> string \<Rightarrow> 'k clusteruntyped \<Rightarrow> bool \<times> 'k clusteruntyped" where
  "cluster_Clear r c u =
     (case gget u c of
        None \<Rightarrow> (False, u)
      | Some m \<Rightarrow>
          (let (b, m) = untyped_Clear r m;
               u = gset c m u;
               u = (if untyped_IsEmpty m then gdel c u else u)
           in (b, u)))"

section \<open>Relations per kind\<close>

record typed_object_key =
  t_kind :: group_kind
  t_key :: namespaced_name

type_synonym kind_relations = "(group_kind, namespaced_name relation) gomap"

type_synonym typed = "(string, (group_kind, kind_relations) gomap) gomap"

definition typed_getRelation :: "string \<Rightarrow> typed \<Rightarrow> (group_kind, kind_relations) gomap" where
  "typed_getRelation r u = (case gget u r of None \<Rightarrow> [] | Some rel \<Rightarrow> rel)"

definition getUserRelationFor :: "string \<Rightarrow> group_kind \<Rightarrow> typed \<Rightarrow> kind_relations" where
  "getUserRelationFor r users u =
     (case gget (typed_getRelation r u) users of None \<Rightarrow> [] | Some urel \<Rightarrow> urel)"

definition set_user_relation :: "string \<Rightarrow> group_kind \<Rightarrow> kind_relations \<Rightarrow> typed \<Rightarrow> typed" where
  "set_user_relation r users urel u = gset r (gset users urel (typed_getRelation r u)) u"

definition getRelationFor ::
  "string \<Rightarrow> group_kind \<Rightarrow> group_kind \<Rightarrow> typed \<Rightarrow> namespaced_name relation" where
  "getRelationFor r users used u =
     (case gget (getUserRelationFor r users u) used of None \<Rightarrow> newRelation | Some rel \<Rightarrow> rel)"

definition set_relation ::
  "string \<Rightarrow> group_kind \<Rightarrow> group_kind \<Rightarrow> namespaced_name relation \<Rightarrow> typed \<Rightarrow> typed" where
  "set_relation r users used rel u =
     set_user_relation r users (gset used rel (getUserRelationFor r users u)) u"

definition queryRelationFor ::
  "string \<Rightarrow> group_kind \<Rightarrow> group_kind \<Rightarrow> typed \<Rightarrow> namespaced_name relation option" where
  "queryRelationFor r users used u =
     (case gget u r of
        None \<Rightarrow> None
      | Some rel \<Rightarrow> (case gget rel users of None \<Rightarrow> None | Some urel \<Rightarrow> gget urel used))"

definition typed_Add ::
  "string \<Rightarrow> typed_object_key \<Rightarrow> typed_object_key \<Rightarrow> typed \<Rightarrow> bool \<times> typed" where
  "typed_Add r a b u =
     (let (ok, rel) = relation_Add (t_key a) (t_key b) (getRelationFor r (t_kind a) (t_kind b) u)
      in (ok, set_relation r (t_kind a) (t_kind b) rel u))"

definition typed_Remove ::
  "string \<Rightarrow> typed_object_key \<Rightarrow> typed_object_key \<Rightarrow> typed \<Rightarrow> bool \<times> typed" where
  "typed_Remove r a b u =
     (let (ok, rel) = relation_Remove (t_key a) (t_key b) (getRelationFor r (t_kind a) (t_kind b) u)
      in (ok, set_relation r (t_kind a) (t_kind b) rel u))"

definition targets_of :: "typed_object_key list \<Rightarrow> (group_kind, namespaced_name list) gomap" where
  "targets_of b = fold (\<lambda>c targets.
     gset (t_kind c)
       ((case gget targets (t_kind c) of None \<Rightarrow> [] | Some l \<Rightarrow> l) @ [t_key c]) targets) b []"

fun replace_kinds ::
  "namespaced_name \<Rightarrow> (group_kind \<times> namespaced_name list) list \<Rightarrow> kind_relations \<Rightarrow> bool \<Rightarrow>
   bool \<times> kind_relations" where
  "replace_kinds a [] urel ok = (ok, urel)"
| "replace_kinds a ((gk, c) # rest) urel ok =
     (let rel = (case gget urel gk of None \<Rightarrow> newRelation | Some rel \<Rightarrow> rel);
          (replaced, rel) = relation_Replace a c rel
      in replace_kinds a rest (gset gk rel urel) (replaced \<or> ok))"

definition typed_Replace ::
  "string \<Rightarrow> typed_object_key \<Rightarrow> typed_object_key list \<Rightarrow> typed \<Rightarrow> bool \<times> typed" where
  "typed_Replace r a b u =
     (let urel = getUserRelationFor r (t_kind a) u;
          (ok, urel) = replace_kinds (t_key a) (targets_of b) urel False
      in (ok, set_user_relation r (t_kind a) urel u))"

fun typed_remove_loop ::
  "typed_object_key \<Rightarrow> typed \<Rightarrow> bool \<Rightarrow> bool \<times> typed" where
  "typed_remove_loop o' [] ok = (ok, [])"
| "typed_remove_loop o' ((r, kinds) # rest) ok =
     (let (ok, kinds) =
            (case gget kinds (t_kind o') of
               None \<Rightarrow> (ok, kinds)
             | Some users \<Rightarrow>
                 let (ok, users) = remove_object_all (t_key o') users ok
                 in (ok, gset (t_kind o') users kinds));
          (ok, rest) = typed_remove_loop o' rest ok
      in (ok, (r, kinds) # rest))"

definition typed_RemoveObject :: "typed_object_key \<Rightarrow> typed \<Rightarrow> bool \<times> typed" where
  "typed_RemoveObject o' u = typed_remove_loop o' u False"

definition typed_UsedByKind ::
  "string \<Rightarrow> typed \<Rightarrow> typed_object_key \<Rightarrow> group_kind \<Rightarrow> namespaced_name list" where
  "typed_UsedByKind r u a gk =
     (case queryRelationFor r (t_kind a) gk u of None \<Rightarrow> [] | Some rel \<Rightarrow> relation_UsedBy rel (t_key a))"

definition typed_UsersForKind ::
  "string \<Rightarrow> typed \<Rightarrow> typed_object_key \<Rightarrow> group_kind \<Rightarrow> namespaced_name list" where
  "typed_UsersForKind r u b gk =
     (case queryRelationFor r gk (t_kind b) u of None \<Rightarrow> [] | Some rel \<Rightarrow> relation_UsersFor rel (t_key b))"

definition typed_UsedBy :: "string \<Rightarrow> typed \<Rightarrow> typed_object_key \<Rightarrow> typed_object_key list" where
  "typed_UsedBy r u a =
     concat (map (\<lambda>(gk, rel). map (\<lambda>k. \<lparr>t_kind = gk, t_key = k\<rparr>) (relation_UsedBy rel (t_key a)))
       (getUserRelationFor r (t_kind a) u))"

definition typed_UsersFor :: "string \<Rightarrow> typed \<Rightarrow> typed_object_key \<Rightarrow> typed_object_key list" where
  "typed_UsersFor r u b =
     concat (map (\<lambda>(gk, used).
         case gget used (t_kind b) of
           None \<Rightarrow> []
         | Some rel \<Rightarrow> map (\<lambda>k. \<lparr>t_kind = gk, t_key = k\<rparr>) (relation_UsersFor rel (t_key b)))
       (typed_getRelation r u))"

definition typed_Clear :: "string \<Rightarrow> typed \<Rightarrow> bool \<times> typed" where
  "typed_Clear r u =
     (case gget u r of None \<Rightarrow> (False, gdel r u) | Some rel \<Rightarrow> (length rel \<noteq> 0, gdel r u))"

section \<open>The contract of a relation index\<close>

text \<open>
  An index stands for a set of pairs of a user and an object it uses. A client adds and
  removes pairs, drops objects, and asks in both directions.
\<close>

datatype 'k change = Use 'k 'k | Unuse 'k 'k | Drop 'k

fun relate :: "'k change \<Rightarrow> ('k \<times> 'k) set \<Rightarrow> ('k \<times> 'k) set" where
  "relate (Use a b) R = insert (a, b) R"
| "relate (Unuse a b) R = R - {(a, b)}"
| "relate (Drop x) R = {(a, b) \<in> R. a \<noteq> x \<and> b \<noteq> x}"

fun change_by ::
  "('k \<Rightarrow> 'k \<Rightarrow> 's \<Rightarrow> 's) \<Rightarrow> ('k \<Rightarrow> 'k \<Rightarrow> 's \<Rightarrow> 's) \<Rightarrow> ('k \<Rightarrow> 's \<Rightarrow> 's) \<Rightarrow> 'k change \<Rightarrow> 's \<Rightarrow> 's" where
  "change_by add remove drop' (Use a b) s = add a b s"
| "change_by add remove drop' (Unuse a b) s = remove a b s"
| "change_by add remove drop' (Drop x) s = drop' x s"

locale relation_index =
  fixes pairs :: "'s \<Rightarrow> ('k \<times> 'k) set"
    and ok :: "'s \<Rightarrow> bool"
    and add :: "'k \<Rightarrow> 'k \<Rightarrow> 's \<Rightarrow> 's"
    and remove :: "'k \<Rightarrow> 'k \<Rightarrow> 's \<Rightarrow> 's"
    and drop_object :: "'k \<Rightarrow> 's \<Rightarrow> 's"
    and used_by :: "'s \<Rightarrow> 'k \<Rightarrow> 'k list"
    and users_for :: "'s \<Rightarrow> 'k \<Rightarrow> 'k list"
  assumes ok_add: "ok s \<Longrightarrow> ok (add a b s)"
    and ok_remove: "ok s \<Longrightarrow> ok (remove a b s)"
    and ok_drop: "ok s \<Longrightarrow> ok (drop_object x s)"
    and pairs_add: "ok s \<Longrightarrow> pairs (add a b s) = insert (a, b) (pairs s)"
    and pairs_remove: "ok s \<Longrightarrow> pairs (remove a b s) = pairs s - {(a, b)}"
    and pairs_drop: "ok s \<Longrightarrow> pairs (drop_object x s) = {(a, b) \<in> pairs s. a \<noteq> x \<and> b \<noteq> x}"
    and used_by_pairs: "ok s \<Longrightarrow> set (used_by s a) = {b. (a, b) \<in> pairs s}"
    and users_for_pairs: "ok s \<Longrightarrow> set (users_for s b) = {a. (a, b) \<in> pairs s}"
begin

lemma converse_lookup: "ok s \<Longrightarrow> b \<in> set (used_by s a) \<longleftrightarrow> a \<in> set (users_for s b)"
  by (simp add: used_by_pairs users_for_pairs)

lemma ok_change: "ok s \<Longrightarrow> ok (change_by add remove drop_object e s)"
  by (cases e) (simp_all add: ok_add ok_remove ok_drop)

lemma pairs_change:
  "ok s \<Longrightarrow> pairs (change_by add remove drop_object e s) = relate e (pairs s)"
  by (cases e) (simp_all add: pairs_add pairs_remove pairs_drop)

lemma history:
  "ok s \<Longrightarrow> ok (fold (change_by add remove drop_object) es s) \<and>
     pairs (fold (change_by add remove drop_object) es s) = fold relate es (pairs s)"
  by (induction es arbitrary: s) (simp_all add: ok_change pairs_change)

lemma history_lookup:
  assumes "ok s" "pairs s = {}"
  shows "set (used_by (fold (change_by add remove drop_object) es s) a) = {b. (a, b) \<in> fold relate es {}}"
    and "set (users_for (fold (change_by add remove drop_object) es s) b) = {a. (a, b) \<in> fold relate es {}}"
  using history [OF assms(1), of es] assms(2) by (simp_all add: used_by_pairs users_for_pairs)

end

locale replacing_index = relation_index +
  fixes replace :: "'b \<Rightarrow> 'b list \<Rightarrow> 'a \<Rightarrow> 'a"
  assumes ok_replace: "ok s \<Longrightarrow> ok (replace a bs s)"
    and pairs_replace: "ok s \<Longrightarrow> pairs (replace a bs s) =
      {(x, y) \<in> pairs s. x \<noteq> a} \<union> {a} \<times> set bs"
begin

lemma used_by_replace:
  "ok s \<Longrightarrow> set (used_by (replace a bs s) x) = (if x = a then set bs else set (used_by s x))"
  by (auto simp: used_by_pairs ok_replace pairs_replace)

lemma replace_replace:
  "ok s \<Longrightarrow> pairs (replace a cs (replace a bs s)) = pairs (replace a cs s)"
  by (auto simp: pairs_replace ok_replace)

end

section \<open>Laws of the maps\<close>

lemma base_Get_simps [simp]:
  "base_Get a [] = []"
  "base_Get a (gset k t u) = (if a = k then t else base_Get a u)"
  "base_Get a (gdel k u) = (if a = k then [] else base_Get a u)"
  by (simp_all add: base_Get_def)

lemma base_Get_eqs:
  "gget u a = None \<Longrightarrow> base_Get a u = []" "gget u a = Some t \<Longrightarrow> base_Get a u = t"
  by (simp_all add: base_Get_def)

lemma base_Add [simp]:
  "set (base_Get x (snd (base_Add a b u))) =
     (if x = a then insert b (set (base_Get a u)) else set (base_Get x u))"
  "fst (base_Add a b u) \<longleftrightarrow> b \<notin> set (base_Get a u)"
  "gwf u \<Longrightarrow> gwf (snd (base_Add a b u))"
  by (cases "gget u a"; auto simp: base_Add_def Let_def base_Get_eqs)+

lemma base_Remove [simp]:
  "set (base_Get x (snd (base_Remove a b u))) =
     (if x = a then set (base_Get a u) - {b} else set (base_Get x u))"
  "fst (base_Remove a b u) \<longleftrightarrow> b \<in> set (base_Get a u)"
  "gwf u \<Longrightarrow> gwf (snd (base_Remove a b u))"
  by (cases "gget u a"; auto simp: base_Remove_def base_Get_eqs)+

lemma length_removeAll_neq: "length t \<noteq> length (removeAll x t) \<longleftrightarrow> x \<in> set t"
  by (metis length_removeAll_less less_irrefl removeAll_id)

lemma delete_from_closed:
  "delete_from x u ok =
     (ok \<or> (\<exists>e \<in> set u. x \<in> set (snd e)),
      filter (\<lambda>e. snd e \<noteq> []) (map (\<lambda>e. (fst e, removeAll x (snd e))) u))"
  by (induction x u ok rule: delete_from.induct) (auto simp: Let_def length_removeAll_neq)

lemma in_base_Get: "gwf u \<Longrightarrow> y \<in> set (base_Get k u) \<longleftrightarrow> (\<exists>t. (k, t) \<in> set u \<and> y \<in> set t)"
proof (cases "gget u k")
  case None
  then have "(k, t) \<notin> set u" for t
    by (metis weak_map_of_SomeI option.distinct(1))
  with None show ?thesis
    by (simp add: base_Get_def)
next
  case (Some t)
  moreover assume "gwf u"
  ultimately have "(k, t') \<in> set u \<longleftrightarrow> t' = t" for t'
    by (metis gget_Some_iff option.inject)
  with Some show ?thesis
    by (simp add: base_Get_def)
qed

lemma delete_from_wf: "gwf u \<Longrightarrow> gwf (snd (delete_from x u ok))"
  by (simp add: delete_from_closed gwf_def distinct_map_filter comp_def)

lemma delete_from_Get:
  "gwf u \<Longrightarrow> set (base_Get k (snd (delete_from x u ok))) = set (base_Get k u) - {x}"
proof -
  assume wf: "gwf u"
  have cleaned: "(k, t) \<in> (\<lambda>e. (fst e, removeAll x (snd e))) ` set u \<longleftrightarrow>
      (\<exists>t0. (k, t0) \<in> set u \<and> t = removeAll x t0)" for t
    by force
  show ?thesis
  proof (rule set_eqI)
    fix y
    have kept: "removeAll x t \<noteq> [] \<and> y \<in> set (removeAll x t) \<longleftrightarrow> y \<in> set t \<and> y \<noteq> x" for t
      by (metis Diff_iff empty_iff list.set(1) set_removeAll singleton_iff)
    have "y \<in> set (base_Get k (snd (delete_from x u ok))) \<longleftrightarrow>
        (\<exists>t. (k, t) \<in> set u \<and> removeAll x t \<noteq> [] \<and> y \<in> set (removeAll x t))"
      unfolding in_base_Get [OF delete_from_wf [OF wf]]
      by (auto simp: delete_from_closed cleaned)
    then show "y \<in> set (base_Get k (snd (delete_from x u ok))) \<longleftrightarrow> y \<in> set (base_Get k u) - {x}"
      unfolding Diff_iff in_base_Get [OF wf] kept by auto
  qed
qed

lemma base_DeleteObject [simp]:
  assumes "gwf u"
  shows "set (base_Get k (snd (base_DeleteObject x u))) =
      (if k = x then {} else set (base_Get k u) - {x})"
    and "gwf (snd (base_DeleteObject x u))"
proof -
  have "base_Get x u = []" if "gget u x = None"
    using that by (simp add: base_Get_def)
  then show "set (base_Get k (snd (base_DeleteObject x u))) =
      (if k = x then {} else set (base_Get k u) - {x})"
    using assms by (auto simp: base_DeleteObject_def Let_def delete_from_Get)
qed (use assms in \<open>simp add: base_DeleteObject_def Let_def delete_from_wf\<close>)

lemma base_Clear [simp]: "base_Clear u = (u \<noteq> [], [])"
  by (simp add: base_Clear_def)

section \<open>Relations implement the contract\<close>

definition relation_pairs :: "'k relation \<Rightarrow> ('k \<times> 'k) set" where
  "relation_pairs r = {(a, b). b \<in> set (base_Get a (usedBy r))}"

definition relation_ok :: "'k relation \<Rightarrow> bool" where
  "relation_ok r \<longleftrightarrow> gwf (usersFor r) \<and> gwf (usedBy r) \<and>
     (\<forall>a b. a \<in> set (base_Get b (usersFor r)) \<longleftrightarrow> b \<in> set (base_Get a (usedBy r)))"

named_theorems relation_ops

lemma relation_Add [relation_ops]:
  "relation_ok r \<Longrightarrow> relation_ok (snd (relation_Add a b r))"
  "relation_pairs (snd (relation_Add a b r)) = insert (a, b) (relation_pairs r)"
  "fst (relation_Add a b r) \<longleftrightarrow> (a, b) \<notin> relation_pairs r"
  by (auto simp: relation_Add_def relation_ok_def relation_pairs_def Let_def case_prod_beta
      split: if_splits)

lemma relation_Remove [relation_ops]:
  "relation_ok r \<Longrightarrow> relation_ok (snd (relation_Remove a b r))"
  "relation_pairs (snd (relation_Remove a b r)) = relation_pairs r - {(a, b)}"
  "fst (relation_Remove a b r) \<longleftrightarrow> (a, b) \<in> relation_pairs r"
  by (auto simp: relation_Remove_def relation_ok_def relation_pairs_def Let_def case_prod_beta
      split: if_splits)

lemma relation_RemoveObject [relation_ops]:
  "relation_ok r \<Longrightarrow> relation_ok (snd (relation_RemoveObject x r))"
  "relation_ok r \<Longrightarrow>
     relation_pairs (snd (relation_RemoveObject x r)) = {(a, b) \<in> relation_pairs r. a \<noteq> x \<and> b \<noteq> x}"
  by (auto simp: relation_RemoveObject_def relation_ok_def relation_pairs_def Let_def case_prod_beta
      split: if_splits)

lemma relation_Clear [relation_ops]:
  "relation_ok (snd (relation_Clear r))" "relation_pairs (snd (relation_Clear r)) = {}"
  by (simp_all add: relation_Clear_def relation_ok_def relation_pairs_def Let_def)

lemma newRelation [simp]: "relation_ok newRelation" "relation_pairs newRelation = {}"
  by (simp_all add: newRelation_def relation_ok_def relation_pairs_def)

text \<open>The loops of \<open>Replace\<close> are additions and removals of single pairs.\<close>

lemma relation_adds [relation_ops]:
  "relation_ok r \<Longrightarrow> relation_ok (fold (\<lambda>c r. r\<lparr>usersFor := snd (base_Add c a (usersFor r)),
       usedBy := snd (base_Add a c (usedBy r))\<rparr>) cs r) \<and>
   relation_pairs (fold (\<lambda>c r. r\<lparr>usersFor := snd (base_Add c a (usersFor r)),
       usedBy := snd (base_Add a c (usedBy r))\<rparr>) cs r) = relation_pairs r \<union> {a} \<times> set cs"
proof (induction cs arbitrary: r)
  case (Cons c cs)
  have "r\<lparr>usersFor := snd (base_Add c a (usersFor r)), usedBy := snd (base_Add a c (usedBy r))\<rparr> =
      snd (relation_Add a c r)"
    by (simp add: relation_Add_def Let_def case_prod_beta)
  then show ?case
    using Cons.prems Cons.IH [of "snd (relation_Add a c r)"] by (auto simp: relation_Add)
qed simp

lemma relation_removes [relation_ops]:
  "relation_ok r \<Longrightarrow> relation_ok (fold (\<lambda>c r. r\<lparr>usersFor := snd (base_Remove c a (usersFor r)),
       usedBy := snd (base_Remove a c (usedBy r))\<rparr>) cs r) \<and>
   relation_pairs (fold (\<lambda>c r. r\<lparr>usersFor := snd (base_Remove c a (usersFor r)),
       usedBy := snd (base_Remove a c (usedBy r))\<rparr>) cs r) = relation_pairs r - {a} \<times> set cs"
proof (induction cs arbitrary: r)
  case (Cons c cs)
  have "r\<lparr>usersFor := snd (base_Remove c a (usersFor r)), usedBy := snd (base_Remove a c (usedBy r))\<rparr> =
      snd (relation_Remove a c r)"
    by (simp add: relation_Remove_def Let_def case_prod_beta)
  then show ?case
    using Cons.prems Cons.IH [of "snd (relation_Remove a c r)"] by (auto simp: relation_Remove)
qed simp

lemma relation_Replace [relation_ops]:
  assumes "relation_ok r"
  shows "relation_ok (snd (relation_Replace a bs r))"
    and "relation_pairs (snd (relation_Replace a bs r)) =
      {(x, y) \<in> relation_pairs r. x \<noteq> a} \<union> {a} \<times> set bs"
    and "fst (relation_Replace a bs r) \<longleftrightarrow> (\<exists>b. (a, b) \<in> relation_pairs r) \<or> bs \<noteq> []"
proof -
  let ?old = "base_Get a (usedBy r)"
  have old: "c \<in> set ?old \<longleftrightarrow> (a, c) \<in> relation_pairs r" for c
    by (simp add: relation_pairs_def)
  show "relation_ok (snd (relation_Replace a bs r))"
    using assms by (simp add: relation_Replace_def Let_def relation_adds relation_removes)
  show "relation_pairs (snd (relation_Replace a bs r)) =
      {(x, y) \<in> relation_pairs r. x \<noteq> a} \<union> {a} \<times> set bs"
    using assms by (auto simp: relation_Replace_def Let_def relation_adds relation_removes old)
  show "fst (relation_Replace a bs r) \<longleftrightarrow> (\<exists>b. (a, b) \<in> relation_pairs r) \<or> bs \<noteq> []"
    unfolding old [symmetric] by (cases ?old) (auto simp: relation_Replace_def Let_def)
qed

interpretation rel: replacing_index relation_pairs relation_ok
  "\<lambda>a b r. snd (relation_Add a b r)" "\<lambda>a b r. snd (relation_Remove a b r)"
  "\<lambda>x r. snd (relation_RemoveObject x r)" relation_UsedBy relation_UsersFor
  "\<lambda>a bs r. snd (relation_Replace a bs r)"
  by unfold_locales (simp_all add: relation_ops, auto simp: relation_UsedBy_def
      relation_UsersFor_def relation_pairs_def relation_ok_def)

section \<open>Indices implement the contract\<close>

definition untyped_pairs :: "string \<Rightarrow> 'k untyped \<Rightarrow> ('k \<times> 'k) set" where
  "untyped_pairs r u = relation_pairs (getRelation r u)"

definition untyped_ok :: "'k untyped \<Rightarrow> bool" where
  "untyped_ok u \<longleftrightarrow> (\<forall>r. relation_ok (getRelation r u))"

lemma getRelation_gset [simp]: "getRelation r (gset r' rel u) = (if r = r' then rel else getRelation r u)"
  by (simp add: getRelation_def)

lemma remove_object_all_gget:
  "gget (snd (remove_object_all x u ok)) r = map_option (\<lambda>rel. snd (relation_RemoveObject x rel)) (gget u r)"
  by (induction x u ok rule: remove_object_all.induct) (auto simp: Let_def split: prod.splits)

lemma newRelation_RemoveObject [simp]: "snd (relation_RemoveObject x newRelation) = newRelation"
  by (simp add: newRelation_def relation_RemoveObject_def base_DeleteObject_def Let_def)

lemma getRelation_RemoveObject [simp]:
  "getRelation r (snd (untyped_RemoveObject x u)) = snd (relation_RemoveObject x (getRelation r u))"
  by (simp add: untyped_RemoveObject_def getRelation_def remove_object_all_gget split: option.splits)

lemma untyped_Remove_get [simp]:
  "getRelation r (snd (untyped_Remove r' a b u)) =
     (if r = r' then snd (relation_Remove a b (getRelation r u)) else getRelation r u)"
  by (auto simp: untyped_Remove_def getRelation_def newRelation_def relation_Remove_def
      base_Remove_def Let_def split: option.splits prod.splits)

lemma untyped_Add_get [simp]:
  "getRelation r (snd (untyped_Add r' a b u)) =
     (if r = r' then snd (relation_Add a b (getRelation r u)) else getRelation r u)"
  by (simp add: untyped_Add_def case_prod_beta)

lemma untyped_Replace_get [simp]:
  "getRelation r (snd (untyped_Replace r' a bs u)) =
     (if r = r' then snd (relation_Replace a bs (getRelation r u)) else getRelation r u)"
  by (simp add: untyped_Replace_def case_prod_beta)

lemma untyped_lookups [simp]:
  "untyped_UsedBy r u a = relation_UsedBy (getRelation r u) a"
  "untyped_UsersFor r u b = relation_UsersFor (getRelation r u) b"
  by (simp_all add: untyped_UsedBy_def untyped_UsersFor_def getRelation_def relation_UsedBy_def
      relation_UsersFor_def newRelation_def split: option.splits)

interpretation ux: replacing_index "untyped_pairs r" untyped_ok
  "\<lambda>a b u. snd (untyped_Add r a b u)" "\<lambda>a b u. snd (untyped_Remove r a b u)"
  "\<lambda>x u. snd (untyped_RemoveObject x u)" "untyped_UsedBy r" "untyped_UsersFor r"
  "\<lambda>a bs u. snd (untyped_Replace r a bs u)" for r
  by unfold_locales
    (simp_all add: untyped_ok_def untyped_pairs_def relation_ops rel.used_by_pairs rel.users_for_pairs)

definition cluster_at :: "string \<Rightarrow> 'k clusteruntyped \<Rightarrow> 'k untyped" where
  "cluster_at c u = (case gget u c of None \<Rightarrow> [] | Some m \<Rightarrow> m)"

definition cluster_ok :: "'k clusteruntyped \<Rightarrow> bool" where
  "cluster_ok u \<longleftrightarrow> (\<forall>c. untyped_ok (cluster_at c u))"

lemma cluster_at_gset [simp]: "cluster_at c (gset c' m u) = (if c = c' then m else cluster_at c u)"
  by (simp add: cluster_at_def)

lemma cluster_at_add [simp]:
  "cluster_at c (snd (cluster_Add r c' a b u)) =
     (if c = c' then snd (untyped_Add r a b (cluster_at c u)) else cluster_at c u)"
  by (auto simp: cluster_Add_def cluster_at_def case_prod_beta Let_def)

lemma cluster_at_remove [simp]:
  "cluster_at c (snd (cluster_Remove r c' a b u)) =
     (if c = c' then snd (untyped_Remove r a b (cluster_at c u)) else cluster_at c u)"
  "cluster_at c (snd (cluster_RemoveObject c' x u)) =
     (if c = c' then snd (untyped_RemoveObject x (cluster_at c u)) else cluster_at c u)"
  by (auto simp: cluster_Remove_def cluster_RemoveObject_def cluster_at_def case_prod_beta
      untyped_Remove_def untyped_RemoveObject_def split: option.splits)

lemma cluster_lookups [simp]:
  "cluster_UsedBy r c u a = untyped_UsedBy r (cluster_at c u) a"
  "cluster_UsersFor r c u b = untyped_UsersFor r (cluster_at c u) b"
  by (simp_all add: cluster_UsedBy_def cluster_UsersFor_def cluster_at_def untyped_UsedBy_def
      untyped_UsersFor_def split: option.splits del: untyped_lookups)

interpretation cx: relation_index "\<lambda>u. untyped_pairs r (cluster_at c u)" cluster_ok
  "\<lambda>a b u. snd (cluster_Add r c a b u)" "\<lambda>a b u. snd (cluster_Remove r c a b u)"
  "\<lambda>x u. snd (cluster_RemoveObject c x u)" "cluster_UsedBy r c" "cluster_UsersFor r c" for r c
  by unfold_locales (simp_all add: cluster_ok_def ux.ok_add ux.ok_remove ux.ok_drop ux.pairs_add
      ux.pairs_remove ux.pairs_drop ux.used_by_pairs ux.users_for_pairs del: untyped_lookups)

lemma empty_indices [simp]:
  "untyped_ok []" "cluster_ok []" "untyped_pairs r [] = {}" "cluster_at c [] = []"
  by (simp_all add: untyped_ok_def cluster_ok_def untyped_pairs_def getRelation_def cluster_at_def)

section \<open>Relations between kinds\<close>

definition typed_pairs :: "string \<Rightarrow> typed \<Rightarrow> (typed_object_key \<times> typed_object_key) set" where
  "typed_pairs r u =
     {(a, b). (t_key a, t_key b) \<in> relation_pairs (getRelationFor r (t_kind a) (t_kind b) u)}"

definition typed_ok :: "typed \<Rightarrow> bool" where
  "typed_ok u \<longleftrightarrow> (\<forall>r ka kb. relation_ok (getRelationFor r ka kb u))"

lemma getUserRelationFor_set [simp]:
  "getUserRelationFor r k (set_user_relation r' k' urel u) =
     (if r = r' \<and> k = k' then urel else getUserRelationFor r k u)"
  by (simp add: getUserRelationFor_def set_user_relation_def typed_getRelation_def)

lemma getRelationFor_set [simp]:
  "getRelationFor r ka kb (set_relation r' ka' kb' rel u) =
     (if r = r' \<and> ka = ka' \<and> kb = kb' then rel else getRelationFor r ka kb u)"
  by (simp add: getRelationFor_def set_relation_def)

lemma queryRelationFor_get:
  "getRelationFor r ka kb u = (case queryRelationFor r ka kb u of None \<Rightarrow> newRelation | Some rel \<Rightarrow> rel)"
  by (simp add: getRelationFor_def queryRelationFor_def getUserRelationFor_def typed_getRelation_def
      split: option.splits)

lemma typed_Add_pairs:
  "typed_ok u \<Longrightarrow> typed_ok (snd (typed_Add r a b u))"
  "typed_pairs r' (snd (typed_Add r a b u)) =
     (if r = r' then insert (a, b) (typed_pairs r u) else typed_pairs r' u)"
  by (auto simp: typed_Add_def typed_ok_def typed_pairs_def case_prod_beta relation_ops
      split: if_splits)

lemma typed_Remove_pairs:
  "typed_ok u \<Longrightarrow> typed_ok (snd (typed_Remove r a b u))"
  "typed_pairs r' (snd (typed_Remove r a b u)) =
     (if r = r' then typed_pairs r u - {(a, b)} else typed_pairs r' u)"
  by (auto simp: typed_Remove_def typed_ok_def typed_pairs_def case_prod_beta relation_ops
      split: if_splits)

lemma targets_fold:
  "gwf m \<Longrightarrow> gwf (fold (\<lambda>c targets. gset (t_kind c)
      ((case gget targets (t_kind c) of None \<Rightarrow> [] | Some l \<Rightarrow> l) @ [t_key c]) targets) b m) \<and>
   gget (fold (\<lambda>c targets. gset (t_kind c)
      ((case gget targets (t_kind c) of None \<Rightarrow> [] | Some l \<Rightarrow> l) @ [t_key c]) targets) b m) gk =
     (if gk \<in> t_kind ` set b
      then Some ((case gget m gk of None \<Rightarrow> [] | Some l \<Rightarrow> l) @
        map t_key (filter (\<lambda>c. t_kind c = gk) b))
      else gget m gk)"
proof (induction b arbitrary: m)
  case (Cons c b)
  have "filter (\<lambda>c. t_kind c = k) b = []" if "k \<notin> t_kind ` set b" for k
    using that by (auto simp: filter_empty_conv)
  then show ?case
    using Cons by auto
qed simp

lemma targets_of_gget:
  "gwf (targets_of b)"
  "gget (targets_of b) gk =
     (if gk \<in> t_kind ` set b then Some (map t_key (filter (\<lambda>c. t_kind c = gk) b)) else None)"
  using targets_fold [of "[]" b gk] by (simp_all add: targets_of_def)

lemma replace_kinds_gget:
  "gwf ts \<Longrightarrow> gget (snd (replace_kinds a ts urel ok)) gk =
     (case gget ts gk of
        None \<Rightarrow> gget urel gk
      | Some c \<Rightarrow> Some (snd (relation_Replace a c
          (case gget urel gk of None \<Rightarrow> newRelation | Some rel \<Rightarrow> rel))))"
proof (induction ts arbitrary: urel ok)
  case (Cons t ts)
  then show ?case
    by (cases t) (auto simp: Let_def gwf_Cons case_prod_beta split: option.splits)
qed simp

lemma getRelationFor_Replace:
  "getRelationFor r' ka kb (snd (typed_Replace r a b u)) =
     (if r = r' \<and> ka = t_kind a \<and> kb \<in> t_kind ` set b
      then snd (relation_Replace (t_key a) (map t_key (filter (\<lambda>c. t_kind c = kb) b))
        (getRelationFor r' ka kb u))
      else getRelationFor r' ka kb u)"
  by (simp add: typed_Replace_def Let_def case_prod_beta getRelationFor_def replace_kinds_gget
      targets_of_gget)

lemma getRelationFor_RemoveObject:
  "getRelationFor r ka kb (snd (typed_RemoveObject x u)) =
     (if ka = t_kind x then snd (relation_RemoveObject (t_key x) (getRelationFor r ka kb u))
      else getRelationFor r ka kb u)"
proof -
  have "queryRelationFor r ka kb (snd (typed_remove_loop x u ok)) =
     (if ka = t_kind x
      then map_option (\<lambda>rel. snd (relation_RemoveObject (t_key x) rel)) (queryRelationFor r ka kb u)
      else queryRelationFor r ka kb u)" for ok
  proof (induction x u ok rule: typed_remove_loop.induct)
    case (2 x r' kinds rest ok)
    then show ?case
      by (cases "gget kinds (t_kind x)")
        (auto simp: queryRelationFor_def Let_def case_prod_beta remove_object_all_gget
          split: option.splits)
  qed (simp add: queryRelationFor_def)
  then show ?thesis
    by (simp add: queryRelationFor_get typed_RemoveObject_def split: option.splits)
qed

section \<open>Properties\<close>

text \<open>
  Histories. Every operation of the per-cluster index names its cluster; the untyped index has
  none. \<open>change_effect\<close> is what an operation does to the set of triples (relation, user, used).
  The per-cluster index makes the index of a cluster with its first addition and ignores any
  replacement before: \<open>noticed\<close> are the operations that have an effect on a cluster.
\<close>

datatype 'k index_op =
    Add_op (op_cluster: string) string 'k 'k
  | Replace_op (op_cluster: string) string 'k "'k list"
  | Remove_op (op_cluster: string) string 'k 'k
  | Object_op (op_cluster: string) 'k
  | Clear_op (op_cluster: string) string

fun untyped_run :: "'k index_op \<Rightarrow> 'k untyped \<Rightarrow> 'k untyped" where
  "untyped_run (Add_op _ r a b) u = snd (untyped_Add r a b u)"
| "untyped_run (Replace_op _ r a bs) u = snd (untyped_Replace r a bs u)"
| "untyped_run (Remove_op _ r a b) u = snd (untyped_Remove r a b u)"
| "untyped_run (Object_op _ x) u = snd (untyped_RemoveObject x u)"
| "untyped_run (Clear_op _ r) u = snd (untyped_Clear r u)"

fun cluster_run :: "'k index_op \<Rightarrow> 'k clusteruntyped \<Rightarrow> 'k clusteruntyped" where
  "cluster_run (Add_op c r a b) u = snd (cluster_Add r c a b u)"
| "cluster_run (Replace_op c r a bs) u = snd (cluster_Replace r c a bs u)"
| "cluster_run (Remove_op c r a b) u = snd (cluster_Remove r c a b u)"
| "cluster_run (Object_op c x) u = snd (cluster_RemoveObject c x u)"
| "cluster_run (Clear_op c r) u = snd (cluster_Clear r c u)"

fun change_effect :: "'k index_op \<Rightarrow> (string \<times> 'k \<times> 'k) set \<Rightarrow> (string \<times> 'k \<times> 'k) set" where
  "change_effect (Add_op _ r a b) R = insert (r, a, b) R"
| "change_effect (Replace_op _ r a bs) R = {(q, x, y) \<in> R. \<not> (q = r \<and> x = a)} \<union> {r} \<times> {a} \<times> set bs"
| "change_effect (Remove_op _ r a b) R = R - {(r, a, b)}"
| "change_effect (Object_op _ z) R = {(q, x, y) \<in> R. x \<noteq> z \<and> y \<noteq> z}"
| "change_effect (Clear_op _ r) R = {(q, x, y) \<in> R. q \<noteq> r}"

fun noticed :: "string \<Rightarrow> 'k index_op list \<Rightarrow> 'k index_op list" where
  "noticed c [] = []"
| "noticed c (Add_op c' r a b # es) =
     (if c' = c then filter (\<lambda>e. op_cluster e = c) (Add_op c' r a b # es) else noticed c es)"
| "noticed c (_ # es) = noticed c es"

definition untyped_triples :: "'k untyped \<Rightarrow> (string \<times> 'k \<times> 'k) set" where
  "untyped_triples u = {(r, a, b). (a, b) \<in> untyped_pairs r u}"

lemma untyped_Clear_get [simp]:
  "getRelation r (snd (untyped_Clear r' u)) = (if r = r' then newRelation else getRelation r u)"
  by (auto simp: untyped_Clear_def getRelation_def newRelation_def relation_Clear_def base_Clear_def Let_def split: option.splits)

lemma newRelation_ok [simp]: "relation_ok newRelation" "relation_pairs newRelation = {}"
  by (simp_all add: relation_ok_def relation_pairs_def newRelation_def)

lemma untyped_run_ok: "untyped_ok u \<Longrightarrow> untyped_ok (untyped_run e u)"
  by (cases e) (simp_all add: ux.ok_add ux.ok_remove ux.ok_drop ux.ok_replace, simp add: untyped_ok_def)

lemma untyped_run_triples:
  assumes "untyped_ok u"
  shows "untyped_triples (untyped_run e u) = change_effect e (untyped_triples u)"
  using assms
  by (cases e) (auto simp: untyped_triples_def untyped_pairs_def untyped_ok_def relation_ops split: if_splits)

lemma untyped_history:
  "untyped_ok u \<Longrightarrow> untyped_ok (fold untyped_run es u) \<and>
    untyped_triples (fold untyped_run es u) = fold change_effect es (untyped_triples u)"
  by (induction es arbitrary: u) (simp_all add: untyped_run_ok untyped_run_triples)

lemma untyped_triples_Nil [simp]: "untyped_triples [] = {}"
  by (simp add: untyped_triples_def)

lemma untyped_answers:
  "set (untyped_UsedBy r (fold untyped_run es []) a) = {b. (r, a, b) \<in> fold change_effect es {}}"
  "set (untyped_UsersFor r (fold untyped_run es []) b) = {a. (r, a, b) \<in> fold change_effect es {}}"
proof -
  have "untyped_ok (fold untyped_run es [])" "fold change_effect es {} = untyped_triples (fold untyped_run es [])"
    using untyped_history [of "[]" es] by simp_all
  then show "set (untyped_UsedBy r (fold untyped_run es []) a) = {b. (r, a, b) \<in> fold change_effect es {}}"
    "set (untyped_UsersFor r (fold untyped_run es []) b) = {a. (r, a, b) \<in> fold change_effect es {}}"
    by (simp_all add: ux.used_by_pairs ux.users_for_pairs untyped_triples_def del: untyped_lookups)
qed

text \<open>A cluster that is known has a relation, so that it is never dropped again.\<close>

lemma remove_object_all_Nil [simp]: "snd (remove_object_all x u ok) = [] \<longleftrightarrow> u = []"
  by (induction x u ok rule: remove_object_all.induct) (auto simp: Let_def split: prod.splits)

lemma untyped_nonempty [simp]:
  "snd (untyped_Add r a b u) \<noteq> []" "snd (untyped_Replace r a bs u) \<noteq> []"
  "snd (untyped_Remove r a b u) = [] \<longleftrightarrow> u = []" "snd (untyped_RemoveObject x u) = [] \<longleftrightarrow> u = []"
  "snd (untyped_Clear r u) = [] \<longleftrightarrow> u = []"
  by (auto simp: untyped_Add_def untyped_Replace_def untyped_Remove_def untyped_RemoveObject_def untyped_Clear_def
      case_prod_beta Let_def split: option.splits)

lemma untyped_run_Nil: "u \<noteq> [] \<Longrightarrow> untyped_run e u \<noteq> []"
  by (cases e) simp_all

lemma cluster_run_gget:
  assumes "gget u (op_cluster e) \<noteq> Some []"
  shows "gget (cluster_run e u) c =
    (if c \<noteq> op_cluster e then gget u c
     else case gget u c of
       Some m \<Rightarrow> Some (untyped_run e m)
     | None \<Rightarrow> (case e of Add_op _ _ _ _ \<Rightarrow> Some (untyped_run e []) | _ \<Rightarrow> None))"
proof (cases "gget u (op_cluster e)")
  case None
  then show ?thesis
    by (cases e) (auto simp: cluster_Add_def cluster_Replace_def cluster_Remove_def cluster_RemoveObject_def cluster_Clear_def
        case_prod_beta Let_def)
next
  case (Some m)
  then have "untyped_run e m \<noteq> []"
    using assms untyped_run_Nil by auto
  with Some show ?thesis
    by (cases e) (auto simp: cluster_Add_def cluster_Replace_def cluster_Remove_def cluster_RemoveObject_def cluster_Clear_def
        untyped_IsEmpty_def case_prod_beta Let_def)
qed

lemma cluster_run_nonempty:
  assumes "\<forall>c. gget u c \<noteq> Some []"
  shows "\<forall>c. gget (cluster_run e u) c \<noteq> Some []"
proof
  fix c
  show "gget (cluster_run e u) c \<noteq> Some []"
    unfolding cluster_run_gget [OF spec [OF assms]]
    using assms by (auto simp: untyped_run_Nil split: option.split index_op.split)
qed

lemma cluster_known:
  "gget u c = Some m \<Longrightarrow> \<forall>c. gget u c \<noteq> Some [] \<Longrightarrow>
    gget (fold cluster_run es u) c = Some (fold untyped_run (filter (\<lambda>e. op_cluster e = c) es) m)"
proof (induction es arbitrary: u m)
  case (Cons e es)
  have "\<forall>c. gget (cluster_run e u) c \<noteq> Some []"
    by (rule cluster_run_nonempty [OF Cons.prems(2)])
  moreover have "gget (cluster_run e u) c = Some (if op_cluster e = c then untyped_run e m else m)"
    using Cons.prems by (auto simp: cluster_run_gget)
  ultimately show ?case
    using Cons.IH [of "cluster_run e u"] by auto
qed simp

lemma cluster_history:
  "gget u c = None \<Longrightarrow> \<forall>c. gget u c \<noteq> Some [] \<Longrightarrow>
    cluster_at c (fold cluster_run es u) = fold untyped_run (noticed c es) []"
proof (induction es arbitrary: u)
  case (Cons e es)
  have ok: "\<forall>c. gget (cluster_run e u) c \<noteq> Some []"
    by (rule cluster_run_nonempty [OF Cons.prems(2)])
  show ?case
  proof (cases "op_cluster e = c \<and> (\<exists>r a b. e = Add_op c r a b)")
    case True
    then obtain r a b where e: "e = Add_op c r a b"
      by blast
    then have "gget (cluster_run e u) c = Some (untyped_run e [])"
      using cluster_run_gget [OF spec [OF Cons.prems(2)], of e c] Cons.prems(1) by simp
    with e show ?thesis
      using cluster_known [OF _ ok] by (auto simp: cluster_at_def)
  next
    case False
    then have "noticed c (e # es) = noticed c es"
      by (cases e) auto
    moreover have "gget (cluster_run e u) c = None"
      unfolding cluster_run_gget [OF spec [OF Cons.prems(2)]] using False Cons.prems(1) by (cases e) auto
    ultimately show ?thesis
      using Cons.IH [OF _ ok] by simp
  qed
qed (simp add: cluster_at_def)

text \<open>
  C1: After any sequence of operations on new indices, for every relation and every object, the
  untyped index answers in both directions exactly with the pairs that the sequence leaves, and
  the per-cluster index answers for every cluster exactly with those that the operations on this
  cluster leave, from the first addition on: a replacement before it is lost.
\<close>

theorem index_history:
  "set (untyped_UsedBy r (fold untyped_run es []) a) = {b. (r, a, b) \<in> fold change_effect es {}} \<and>
   set (untyped_UsersFor r (fold untyped_run es []) b) = {a. (r, a, b) \<in> fold change_effect es {}} \<and>
   set (cluster_UsedBy r c (fold cluster_run es []) a) = {b. (r, a, b) \<in> fold change_effect (noticed c es) {}} \<and>
   set (cluster_UsersFor r c (fold cluster_run es []) b) = {a. (r, a, b) \<in> fold change_effect (noticed c es) {}}"
  by (simp_all add: untyped_answers cluster_history del: untyped_lookups)

text \<open>
  Replacing what an object uses in an index without kinds leaves exactly the given
  targets and every other object's pairs.
\<close>

theorem untyped_replace:
  assumes "untyped_ok u"
  shows "untyped_ok (snd (untyped_Replace r a bs u)) \<and>
    set (untyped_UsedBy r (snd (untyped_Replace r a bs u)) x) =
      (if x = a then set bs else set (untyped_UsedBy r u x)) \<and>
    untyped_pairs r (snd (untyped_Replace r a cs (snd (untyped_Replace r a bs u)))) =
      untyped_pairs r (snd (untyped_Replace r a cs u))"
  using assms
  by (simp add: ux.ok_replace ux.used_by_replace ux.replace_replace del: untyped_lookups)

definition key_x :: namespaced_name where
  "key_x = \<lparr>nn_namespace = ''ns'', nn_name = ''x''\<rparr>"

definition key_y :: namespaced_name where
  "key_y = \<lparr>nn_namespace = ''ns'', nn_name = ''y''\<rparr>"

theorem untyped_replace_witness:
  "set (untyped_UsedBy ''r'' (snd (untyped_Replace ''r'' key_x [key_y] [])) key_x) = {key_y}"
  using untyped_replace [of "[]" "''r''" key_x "[key_y]" key_x]
  by (simp add: untyped_ok_def getRelation_def del: untyped_lookups)

text \<open>
  The typed index replaces the targets of an object only in the kinds that occur among
  the new targets: a target of another kind stays, and replacing by nothing changes
  nothing.
\<close>

theorem typed_replace_keeps_kinds:
  assumes "typed_ok u"
  shows "typed_ok (snd (typed_Replace r a bs u)) \<and>
    typed_pairs r (snd (typed_Replace r a bs u)) =
      {(x, y) \<in> typed_pairs r u. x \<noteq> a \<or> t_kind y \<notin> t_kind ` set bs} \<union> {a} \<times> set bs \<and>
    typed_pairs r (snd (typed_Replace r a [] u)) = typed_pairs r u"
proof -
  have "(t_key x, t_key y) \<in> relation_pairs (getRelationFor r (t_kind x) (t_kind y)
          (snd (typed_Replace r a bs u))) \<longleftrightarrow>
      (x \<noteq> a \<or> t_kind y \<notin> t_kind ` set bs) \<and>
        (t_key x, t_key y) \<in> relation_pairs (getRelationFor r (t_kind x) (t_kind y) u) \<or>
      x = a \<and> y \<in> set bs" for x y bs
  proof (cases "t_kind x = t_kind a \<and> t_kind y \<in> t_kind ` set bs")
    case True
    have "y \<in> set bs \<longleftrightarrow> (\<exists>c \<in> set bs. t_kind c = t_kind y \<and> t_key y = t_key c)"
      by (metis typed_object_key.equality unit.exhaust)
    moreover have "x = a \<longleftrightarrow> t_key x = t_key a"
      using True by (metis typed_object_key.equality unit.exhaust)
    ultimately show ?thesis
      using True assms by (auto simp: getRelationFor_Replace relation_Replace typed_ok_def)
  next
    case False
    then show ?thesis
      by (auto simp: getRelationFor_Replace)
  qed
  then have "typed_pairs r (snd (typed_Replace r a bs u)) =
      {(x, y) \<in> typed_pairs r u. x \<noteq> a \<or> t_kind y \<notin> t_kind ` set bs} \<union> {a} \<times> set bs" for bs
    by (auto simp: typed_pairs_def)
  moreover have "typed_ok (snd (typed_Replace r a bs u))"
    using assms by (auto simp: typed_ok_def getRelationFor_Replace relation_Replace)
  ultimately show ?thesis
    by simp
qed

definition kind_A :: group_kind where
  "kind_A = \<lparr>gk_group = ''g'', gk_kind = ''A''\<rparr>"

definition kind_B :: group_kind where
  "kind_B = \<lparr>gk_group = ''g'', gk_kind = ''B''\<rparr>"

definition typed_demo :: typed where
  "typed_demo = snd (typed_Add ''r'' \<lparr>t_kind = kind_A, t_key = key_x\<rparr> \<lparr>t_kind = kind_B, t_key = key_y\<rparr> [])"

lemma typed_demo [simp]:
  "typed_ok typed_demo"
  "typed_pairs ''r'' typed_demo = {(\<lparr>t_kind = kind_A, t_key = key_x\<rparr>, \<lparr>t_kind = kind_B, t_key = key_y\<rparr>)}"
proof -
  have nil: "getRelationFor r ka kb [] = newRelation" for r ka kb
    by (simp add: getRelationFor_def getUserRelationFor_def typed_getRelation_def)
  then have "typed_ok []" "typed_pairs ''r'' [] = {}"
    by (simp_all add: typed_ok_def typed_pairs_def)
  then show "typed_ok typed_demo" "typed_pairs ''r'' typed_demo =
      {(\<lparr>t_kind = kind_A, t_key = key_x\<rparr>, \<lparr>t_kind = kind_B, t_key = key_y\<rparr>)}"
    by (simp_all add: typed_demo_def typed_Add_pairs)
qed

theorem typed_replace_keeps_kinds_witness:
  "typed_pairs ''r'' (snd (typed_Replace ''r'' \<lparr>t_kind = kind_A, t_key = key_x\<rparr> [] typed_demo)) =
     {(\<lparr>t_kind = kind_A, t_key = key_x\<rparr>, \<lparr>t_kind = kind_B, t_key = key_y\<rparr>)}"
  using typed_replace_keeps_kinds [of typed_demo "''r''" "\<lparr>t_kind = kind_A, t_key = key_x\<rparr>" "[]"]
  by simp

text \<open>
  Dropping an object from the typed index looks only at the relations whose users have
  its kind, and removes there every pair with its namespace and name: the pairs in which an
  object of another kind uses it stay, and pairs with a used object of another kind and the
  same name are lost.
\<close>

theorem typed_remove_object:
  assumes "typed_ok u"
  shows "typed_ok (snd (typed_RemoveObject x u)) \<and>
    typed_pairs r (snd (typed_RemoveObject x u)) =
      {(a, b) \<in> typed_pairs r u. t_kind a \<noteq> t_kind x \<or> t_key a \<noteq> t_key x \<and> t_key b \<noteq> t_key x}"
  using assms
  by (auto simp: typed_ok_def typed_pairs_def getRelationFor_RemoveObject relation_RemoveObject
      split: if_splits)

theorem typed_remove_object_witness:
  "typed_pairs ''r'' (snd (typed_RemoveObject \<lparr>t_kind = kind_B, t_key = key_y\<rparr> typed_demo)) =
     typed_pairs ''r'' typed_demo \<and>
   typed_pairs ''r'' (snd (typed_RemoveObject \<lparr>t_kind = kind_A, t_key = key_y\<rparr> typed_demo)) = {}"
  using typed_remove_object [of typed_demo "\<lparr>t_kind = kind_B, t_key = key_y\<rparr>" "''r''"]
    typed_remove_object [of typed_demo "\<lparr>t_kind = kind_A, t_key = key_y\<rparr>" "''r''"]
  by (auto simp: kind_A_def kind_B_def)

text \<open>
  Clearing a relation of an untyped index keeps its entry, so an index that ever had a
  relation is never empty again, and clearing never removes a cluster from the cluster
  index; replacing in a cluster that is not known does nothing.
\<close>

theorem clear_never_empties:
  "(untyped_IsEmpty (snd (untyped_Clear r u)) \<longleftrightarrow> untyped_IsEmpty u) \<and>
   untyped_pairs r (snd (untyped_Clear r u)) = {} \<and>
   (gget cu c = Some u \<and> \<not> untyped_IsEmpty u \<longrightarrow> gget (snd (cluster_Clear r c cu)) c \<noteq> None) \<and>
   (gget cu c = None \<longrightarrow> cluster_Replace r c a bs cu = (False, cu))"
  by (cases "gget u r")
    (auto simp: untyped_Clear_def untyped_IsEmpty_def cluster_Clear_def cluster_Replace_def
      untyped_pairs_def relation_Clear Let_def case_prod_beta getRelation_def)

theorem clear_never_empties_witness:
  "gget (snd (cluster_Clear ''r'' ''c''
     [(''c'', [(''r'', newRelation :: namespaced_name relation)])])) ''c'' \<noteq> None"
  using clear_never_empties [of "''r''" "[(''r'', newRelation)]" "[(''c'', [(''r'', newRelation)])]" "''c''"
      key_x "[]"]
  by (auto simp: untyped_IsEmpty_def)

end
