(* ===== verification/ObjUtils.thy ===== *)
theory ObjUtils
  imports Names "HOL-Library.Char_ord"
begin

text \<open>
  Helpers on Kubernetes objects (package objutils): annotations and labels, the removal of
  cluster specific metadata, generated names, and filters on objects.

  An object is the part of its metadata the repository touches. It stands for an instance
  of a Go type, whose accessors hand out the maps themselves, so that deleting from a map
  changes the object; the maps may be \<open>nil\<close>.
\<close>

section \<open>Objects\<close>

record owner_ref =
  or_api_version :: string
  or_kind :: string
  or_name :: string

record kobject =
  ob_group :: string
  ob_kind :: string
  ob_namespace :: string
  ob_name :: string
  ob_uid :: string
  ob_resource_version :: string
  ob_annotations :: "(string, string) gomap option"
  ob_labels :: "(string, string) gomap option"
  ob_owner_refs :: "owner_ref list"
  ob_finalizers :: "string list"
  ob_deletion :: "nat option"

definition object_key :: "kobject \<Rightarrow> namespaced_name" where
  "object_key obj = \<lparr>nn_namespace = ob_namespace obj, nn_name = ob_name obj\<rparr>"

section \<open>Annotations and labels\<close>

definition SetAnnotation :: "kobject \<Rightarrow> string \<Rightarrow> string \<Rightarrow> kobject" where
  "SetAnnotation obj key v =
     (let values = (case ob_annotations obj of None \<Rightarrow> [] | Some m \<Rightarrow> m)
      in obj\<lparr>ob_annotations := Some (gset key v values)\<rparr>)"

definition ModifyAnnotations ::
  "kobject \<Rightarrow> ((string, string) gomap option \<Rightarrow> (string, string) gomap option) option \<Rightarrow> kobject" where
  "ModifyAnnotations obj m =
     (case m of None \<Rightarrow> obj | Some f \<Rightarrow> obj\<lparr>ob_annotations := f (ob_annotations obj)\<rparr>)"

definition CheckAnnotation :: "kobject \<Rightarrow> string \<Rightarrow> string \<Rightarrow> bool" where
  "CheckAnnotation obj key v =
     (case ob_annotations obj of
        None \<Rightarrow> False
      | Some values \<Rightarrow> (case gget values key of None \<Rightarrow> False | Some e \<Rightarrow> e = v))"

definition GetAnnotation :: "kobject \<Rightarrow> string \<Rightarrow> string" where
  "GetAnnotation obj key =
     (case ob_annotations obj of
        None \<Rightarrow> []
      | Some values \<Rightarrow> (case gget values key of None \<Rightarrow> [] | Some e \<Rightarrow> e))"

definition RemoveAnnotation :: "kobject \<Rightarrow> string \<Rightarrow> bool \<times> kobject" where
  "RemoveAnnotation obj key =
     (case ob_annotations obj of
        None \<Rightarrow> (False, obj)
      | Some values \<Rightarrow> (gget values key \<noteq> None, obj\<lparr>ob_annotations := Some (gdel key values)\<rparr>))"

definition Setlabel :: "kobject \<Rightarrow> string \<Rightarrow> string \<Rightarrow> kobject" where
  "Setlabel obj key v =
     (let values = (case ob_annotations obj of None \<Rightarrow> [] | Some m \<Rightarrow> m)
      in obj\<lparr>ob_annotations := Some (gset key v values)\<rparr>)"

definition ModifyLabels ::
  "kobject \<Rightarrow> ((string, string) gomap option \<Rightarrow> (string, string) gomap option) option \<Rightarrow> kobject" where
  "ModifyLabels obj m =
     (case m of None \<Rightarrow> obj | Some f \<Rightarrow> obj\<lparr>ob_labels := f (ob_labels obj)\<rparr>)"

definition GetLabel :: "kobject \<Rightarrow> string \<Rightarrow> string" where
  "GetLabel obj key =
     (case ob_labels obj of
        None \<Rightarrow> []
      | Some values \<Rightarrow> (case gget values key of None \<Rightarrow> [] | Some e \<Rightarrow> e))"

definition RemoveLabel :: "kobject \<Rightarrow> string \<Rightarrow> bool \<times> kobject" where
  "RemoveLabel obj key =
     (case ob_labels obj of
        None \<Rightarrow> (False, obj)
      | Some values \<Rightarrow> (gget values key \<noteq> None, obj\<lparr>ob_labels := Some (gdel key values)\<rparr>))"

definition delete_kcp :: "(string, string) gomap \<Rightarrow> (string, string) gomap" where
  "delete_kcp m = fold (\<lambda>(k, v) m. if has_suffix v ''.kcp.io'' then gdel k m else m) m m"

definition CleanupKCPInfo :: "kobject \<Rightarrow> kobject" where
  "CleanupKCPInfo obj =
     obj\<lparr>ob_annotations := map_option delete_kcp (ob_annotations obj),
         ob_labels := map_option delete_kcp (ob_labels obj)\<rparr>"

definition CleanupMeta :: "kobject \<Rightarrow> kobject" where
  "CleanupMeta obj =
     (let obj = obj\<lparr>ob_uid := []\<rparr>;
          obj = obj\<lparr>ob_resource_version := []\<rparr>;
          obj = snd (RemoveAnnotation obj ''managedFields'');
          obj = obj\<lparr>ob_deletion := None\<rparr>
      in CleanupKCPInfo obj)"

section \<open>References and filters\<close>

definition RefObjectKeyFor :: "kobject \<Rightarrow> string \<Rightarrow> namespaced_name" where
  "RefObjectKeyFor obj name = \<lparr>nn_namespace = ob_namespace obj, nn_name = name\<rparr>"

definition RefIndexKeyFor :: "k8s_naming \<Rightarrow> kobject \<Rightarrow> string \<Rightarrow> string" where
  "RefIndexKeyFor e obj name = nn_string e (ob_namespace obj) name"

type_synonym obj_filter = "kobject \<Rightarrow> bool"

definition GroupKind :: "string \<Rightarrow> string \<Rightarrow> obj_filter" where
  "GroupKind g k = (\<lambda>obj.
     let og = (if ob_group obj = ''core'' then [] else ob_group obj);
         g = (if g = ''core'' then [] else g)
     in og = g \<and> ob_kind obj = k)"

definition filter_Or :: "obj_filter list \<Rightarrow> obj_filter" where
  "filter_Or fs = (\<lambda>obj. list_ex (\<lambda>f. f obj) fs)"

definition filter_And :: "obj_filter list \<Rightarrow> obj_filter" where
  "filter_And fs = (\<lambda>obj. \<not> list_ex (\<lambda>f. \<not> f obj) fs)"

definition filter_Not :: "obj_filter \<Rightarrow> obj_filter" where
  "filter_Not f = (\<lambda>obj. \<not> f obj)"

section \<open>Generated names\<close>

text \<open>
  \<open>GenerateUniqueName\<close> for a cluster name of ASCII characters; \<open>None\<close> stands for the panic of
  a slice with a negative bound. \<open>sha256\<close>, a parameter, is the hexadecimal digest, of which
  the code uses the first eight digits.
\<close>

definition MAX_NAMELEN :: int where
  "MAX_NAMELEN = 253"

definition MAX_NAMESPACELEN :: int where
  "MAX_NAMESPACELEN = 63"

definition sha256_documented :: "(string \<Rightarrow> string) \<Rightarrow> bool" where
  "sha256_documented sha256 \<longleftrightarrow> (\<forall>s. length (sha256 s) = 64)"

definition lower_char :: "char \<Rightarrow> char" where
  "lower_char c = (if CHR ''A'' \<le> c \<and> c \<le> CHR ''Z'' then char_of (of_char c + 32 :: nat) else c)"

definition clean_char :: "char \<Rightarrow> string" where
  "clean_char r =
     (if (CHR ''0'' \<le> r \<and> r \<le> CHR ''9'') \<or> (CHR ''a'' \<le> r \<and> r \<le> CHR ''z'') \<or>
         (CHR ''A'' \<le> r \<and> r \<le> CHR ''Z'')
      then [lower_char r] else ''--'')"

definition full_input :: "string \<Rightarrow> string \<Rightarrow> string \<Rightarrow> string" where
  "full_input cluster namespace name =
     (let n = concat (map clean_char cluster);
          fullInput = (if namespace = [] then name else namespace @ ''-'' @ name)
      in if n \<noteq> [] then fullInput @ ''-'' @ n else fullInput)"

definition GenerateUniqueName ::
  "(string \<Rightarrow> string) \<Rightarrow> string \<Rightarrow> string \<Rightarrow> string \<Rightarrow> string \<Rightarrow> int option \<Rightarrow> string option" where
  "GenerateUniqueName sha256 prefix cluster namespace name len =
     (let limit = (case len of None \<Rightarrow> MAX_NAMELEN | Some l \<Rightarrow> l);
          fullInput = full_input cluster namespace name;
          hash = take 8 (sha256 fullInput);
          maxNameLen = limit - int (length prefix) - int (length hash) - 2;
          shortName =
            (if int (length fullInput) > maxNameLen
             then (if maxNameLen < 0 then None else Some (take (nat maxNameLen) fullInput))
             else Some fullInput)
      in map_option (\<lambda>shortName. prefix @ ''-'' @ trim_suffix shortName ''-'' @ ''-'' @ hash) shortName)"

section \<open>Properties\<close>

lemma delete_matching:
  "gget (fold (\<lambda>(k, v) m. if Q v then gdel k m else m) kvs m) k =
     (if \<exists>v. (k, v) \<in> set kvs \<and> Q v then None else gget m k)"
proof (induction kvs arbitrary: m)
  case (Cons kv kvs)
  obtain j v where kv: "kv = (j, v)"
    by (cases kv)
  show ?case
    unfolding kv by (simp add: Cons.IH) blast
qed simp

lemma delete_kcp_gget:
  assumes "gwf m"
  shows "gget (delete_kcp m) k = (case gget m k of
      None \<Rightarrow> None | Some v \<Rightarrow> if has_suffix v ''.kcp.io'' then None else Some v)"
proof (cases "gget m k")
  case None
  then show ?thesis
    by (simp add: delete_kcp_def delete_matching)
next
  case (Some v)
  have "(k, w) \<in> set m \<longleftrightarrow> w = v" for w
    using Some assms by (auto simp: gget_Some_iff [symmetric])
  with Some show ?thesis
    by (simp add: delete_kcp_def delete_matching)
qed

text \<open>
  The annotation helpers read back what they write; but setting a label writes an
  annotation and no label, and the cleanup of kcp metadata decides by the value of an entry,
  so an entry whose key ends in \<open>.kcp.io\<close> stays.
\<close>

theorem metadata_helpers:
  assumes "ob_annotations obj = Some m" "gwf m"
  shows "GetAnnotation (SetAnnotation obj k v) k = v \<and>
    (k' \<noteq> k \<longrightarrow> GetAnnotation (SetAnnotation obj k v) k' = GetAnnotation obj k') \<and>
    GetAnnotation (snd (RemoveAnnotation obj k)) k = [] \<and>
    ob_labels (Setlabel obj k v) = ob_labels obj \<and> GetAnnotation (Setlabel obj k v) k = v \<and>
    (\<exists>m'. ob_annotations (CleanupKCPInfo obj) = Some m' \<and>
      (\<forall>v. gget m' k = Some v \<longleftrightarrow> gget m k = Some v \<and> \<not> has_suffix v ''.kcp.io''))"
proof -
  have "gget (delete_kcp m) k = Some w \<longleftrightarrow> gget m k = Some w \<and> \<not> has_suffix w ''.kcp.io''" for w
    by (cases "gget m k") (auto simp: delete_kcp_gget [OF assms(2)])
  then show ?thesis
    using assms(1)
    by (simp add: GetAnnotation_def SetAnnotation_def RemoveAnnotation_def Setlabel_def
        CleanupKCPInfo_def)
qed

definition demo_object :: kobject where
  "demo_object = \<lparr>ob_group = [], ob_kind = ''Secret'', ob_namespace = ''ns'', ob_name = ''s'',
     ob_uid = ''1'', ob_resource_version = ''7'', ob_annotations = Some [(''x.kcp.io'', ''y'')],
     ob_labels = None, ob_owner_refs = [], ob_finalizers = [], ob_deletion = None\<rparr>"

theorem metadata_helpers_witness:
  "\<exists>m'. ob_annotations (CleanupKCPInfo demo_object) = Some m' \<and> gget m' ''x.kcp.io'' = Some ''y'' \<and>
     ob_labels (Setlabel demo_object ''l'' ''v'') = None"
proof -
  have demo: "ob_annotations demo_object = Some [(''x.kcp.io'', ''y'')]" "gwf [(''x.kcp.io'', ''y'')]"
    by (simp_all add: demo_object_def gwf_def)
  then obtain m' where m': "ob_annotations (CleanupKCPInfo demo_object) = Some m'"
      "\<forall>v. gget m' ''x.kcp.io'' = Some v \<longleftrightarrow>
         gget [(''x.kcp.io'', ''y'')] ''x.kcp.io'' = Some v \<and> \<not> has_suffix v ''.kcp.io''"
    using metadata_helpers [OF demo, of "''x.kcp.io''"] by blast
  then have "gget m' ''x.kcp.io'' = Some ''y''"
    by (simp add: has_suffix_def)
  with m'(1) show ?thesis
    by (simp add: Setlabel_def) (simp add: demo_object_def)
qed



end
