(* ===== verification/Owners.thy ===== *)
theory Owners
  imports ObjUtils
begin

text \<open>
  Ownership across namespaces and clusters (package owner): the owner annotation
  (anno.go), the handler that sets, removes and reads owners (owner.go, modifier.go), the
  matchers of cluster ids (matcher.go), the index function for owners (index.go) and the
  mapping of owners to requests (utils.go).

  The functions of controller-runtime and apimachinery that the handler calls are the
  parameter \<open>k8s_objects\<close>: the group and kind of an object by the scheme, setting and
  removing an owner reference, and the group of an API version.
\<close>

section \<open>The owner annotation\<close>

definition DEFAULT_ANNOTATION_NAME :: string where
  "DEFAULT_ANNOTATION_NAME = ''cross-cluster.io/owner-id''"

record annotation =
  an_name :: string
  an_fields :: "string list"

definition AnnotationType_Get ::
  "string \<Rightarrow> (string, string) gomap option \<Rightarrow> annotation option result" where
  "AnnotationType_Get name annos =
     (case annos of
        None \<Rightarrow> Inr None
      | Some m \<Rightarrow>
          (case gget m name of
             None \<Rightarrow> Inr None
           | Some v \<Rightarrow>
               (let a = split_on (CHR ''/'') v
                in if length a < 4
                   then Inl (Errorf ''invalid anotation format for owner annotation %q'' [name])
                   else Inr (Some \<lparr>an_name = name, an_fields = a\<rparr>))))"

definition CrossNamespaceAnnotation ::
  "string \<Rightarrow> string \<Rightarrow> string \<Rightarrow> string \<Rightarrow> string \<Rightarrow> annotation" where
  "CrossNamespaceAnnotation t g k ns n = \<lparr>an_name = t, an_fields = [g, k, ns, n]\<rparr>"

definition CrossClusterAnnotation ::
  "string \<Rightarrow> string \<Rightarrow> string \<Rightarrow> string \<Rightarrow> string \<Rightarrow> string \<Rightarrow> annotation" where
  "CrossClusterAnnotation t cid g k ns n = \<lparr>an_name = t, an_fields = [cid, g, k, ns, n]\<rparr>"

definition Annotation_String :: "annotation \<Rightarrow> string" where
  "Annotation_String a = join_with (CHR ''/'') (an_fields a)"

definition Annotation_Put ::
  "annotation \<Rightarrow> (string, string) gomap option \<Rightarrow> (string, string) gomap option" where
  "Annotation_Put a m =
     (let m = (case m of None \<Rightarrow> [] | Some x \<Rightarrow> x)
      in Some (gset (an_name a) (Annotation_String a) m))"

definition Annotation_Remove ::
  "annotation \<Rightarrow> (string, string) gomap option \<Rightarrow> (string, string) gomap option" where
  "Annotation_Remove a m = map_option (gdel (an_name a)) m"

definition Annotation_ForCluster :: "string \<Rightarrow> annotation \<Rightarrow> annotation" where
  "Annotation_ForCluster id' a =
     a\<lparr>an_fields := id' # drop (length (an_fields a) - 4) (an_fields a)\<rparr>"

definition Annotation_ClusterId :: "string \<Rightarrow> annotation \<Rightarrow> string" where
  "Annotation_ClusterId def a =
     (if length (an_fields a) = 4 then def
      else join_with (CHR ''/'') (take (length (an_fields a) - 4) (an_fields a)))"

definition Annotation_GroupKind :: "annotation \<Rightarrow> group_kind" where
  "Annotation_GroupKind a =
     \<lparr>gk_group = an_fields a ! (length (an_fields a) - 4),
      gk_kind = an_fields a ! (length (an_fields a) - 3)\<rparr>"

definition Annotation_ObjectKey :: "annotation \<Rightarrow> namespaced_name" where
  "Annotation_ObjectKey a =
     \<lparr>nn_namespace = an_fields a ! (length (an_fields a) - 2),
      nn_name = an_fields a ! (length (an_fields a) - 1)\<rparr>"

type_synonym cluster_matcher = "string \<Rightarrow> string \<times> bool"

definition Annotation_Match :: "string \<Rightarrow> cluster_matcher \<Rightarrow> group_kind \<Rightarrow> annotation \<Rightarrow> string" where
  "Annotation_Match localId matcher kind a =
     (if Annotation_GroupKind a \<noteq> kind then []
      else fst (matcher (Annotation_ClusterId localId a)))"

section \<open>Matchers\<close>

text \<open>
  A set of clusters is given by the look-up of a cluster's name by its id. Two clusters are
  the same when they share their client.
\<close>

record cl =
  cl_name :: string
  cl_id :: string
  cl_client :: nat

definition IsSameAs :: "cl \<Rightarrow> cl \<Rightarrow> bool" where
  "IsSameAs c o' \<longleftrightarrow> cl_client c = cl_client o'"

definition MatcherFor :: "string \<Rightarrow> (string \<Rightarrow> string option) \<Rightarrow> cluster_matcher" where
  "MatcherFor own_id by_id = (\<lambda>cid.
     (case by_id cid of Some n \<Rightarrow> (n, cid = own_id) | None \<Rightarrow> ([], False)))"

definition LocalMatcher :: "string \<Rightarrow> string \<Rightarrow> cluster_matcher" where
  "LocalMatcher localName localId = (\<lambda>i.
     (let i = (if i = [] then localId else i)
      in if i = localId then (localName, localId = i) else ([], False)))"

definition MatcherForClusters :: "(string \<Rightarrow> string option) \<Rightarrow> string \<Rightarrow> cluster_matcher" where
  "MatcherForClusters by_id localId = (\<lambda>i.
     if i = [] \<and> localId = [] then ([], True)
     else (let i = (if i = [] then localId else i)
           in case by_id i of Some n \<Rightarrow> (n, i = localId) | None \<Rightarrow> ([], False)))"

section \<open>The owner handler\<close>

record k8s_objects =
  gvk_for :: "kobject \<Rightarrow> group_kind result"
  set_controller_ref :: "kobject \<Rightarrow> kobject \<Rightarrow> kobject result"
  remove_owner_ref :: "kobject \<Rightarrow> kobject \<Rightarrow> kobject result"
  parse_group :: "string \<Rightarrow> string"

definition core_group :: "group_kind \<Rightarrow> group_kind" where
  "core_group gk = (if gk_group gk = [] then gk\<lparr>gk_group := ''core''\<rparr> else gk)"

definition owner_annotation :: "string \<Rightarrow> cl \<Rightarrow> kobject \<Rightarrow> cl \<Rightarrow> group_kind \<Rightarrow> annotation" where
  "owner_annotation t cluster owner target gvk =
     (let gvk = core_group gvk;
          o' = CrossNamespaceAnnotation t (gk_group gvk) (gk_kind gvk) (ob_namespace owner) (ob_name owner)
      in if \<not> IsSameAs cluster target then Annotation_ForCluster (cl_id cluster) o' else o')"

definition SetOwner ::
  "k8s_objects \<Rightarrow> string \<Rightarrow> cl \<Rightarrow> kobject \<Rightarrow> cl \<Rightarrow> kobject \<Rightarrow> kobject result" where
  "SetOwner x t cluster owner target slave =
     (let sameCluster = IsSameAs cluster target
      in if sameCluster \<and> ob_namespace owner = ob_namespace slave
         then set_controller_ref x owner slave
         else (case gvk_for x owner of
                 Inl err \<Rightarrow> Inl err
               | Inr gvk \<Rightarrow> Inr (ModifyAnnotations slave
                   (Some (Annotation_Put (owner_annotation t cluster owner target gvk))))))"

definition RemoveOwner ::
  "k8s_objects \<Rightarrow> string \<Rightarrow> cl \<Rightarrow> kobject \<Rightarrow> cl \<Rightarrow> kobject \<Rightarrow> kobject result" where
  "RemoveOwner x t cluster owner target slave =
     (let sameCluster = IsSameAs cluster target
      in if sameCluster \<and> ob_namespace owner = ob_namespace slave
         then remove_owner_ref x owner slave
         else (case gvk_for x owner of
                 Inl err \<Rightarrow> Inl err
               | Inr gvk \<Rightarrow> Inr (ModifyAnnotations slave
                   (Some (Annotation_Remove (owner_annotation t cluster owner target gvk))))))"

definition ref_matches :: "k8s_objects \<Rightarrow> group_kind \<Rightarrow> owner_ref \<Rightarrow> bool" where
  "ref_matches x kind r \<longleftrightarrow> or_kind r = gk_kind kind \<and>
     (let g = parse_group x (or_api_version r)
      in g = gk_group kind \<or> gk_group kind = ''core'' \<and> g = [])"

definition GetOwner ::
  "k8s_objects \<Rightarrow> string \<Rightarrow> cluster_matcher \<Rightarrow> cl \<Rightarrow> kobject \<Rightarrow> group_kind \<Rightarrow>
   string \<times> namespaced_name option" where
  "GetOwner x t cmatch target obj kind =
     (let eq = snd (cmatch (cl_id target));
          local' = (if eq then find (ref_matches x kind) (ob_owner_refs obj) else None)
      in case local' of
           Some r \<Rightarrow> (cl_name target, Some \<lparr>nn_namespace = ob_namespace obj, nn_name = or_name r\<rparr>)
         | None \<Rightarrow>
             (let kind = core_group kind
              in case AnnotationType_Get t (ob_annotations obj) of
                   Inl err \<Rightarrow> ([], None)
                 | Inr None \<Rightarrow> ([], None)
                 | Inr (Some a) \<Rightarrow>
                     (let cname = Annotation_Match (cl_id target) cmatch kind a
                      in if cname = [] then ([], None) else (cname, Some (Annotation_ObjectKey a)))))"

definition ref_owner :: "k8s_objects \<Rightarrow> string \<Rightarrow> kobject \<Rightarrow> owner_ref \<Rightarrow> typed_global_key" where
  "ref_owner x n obj r =
     (let g = parse_group x (or_api_version r);
          g = (if g = [] then ''core'' else g)
      in NewGlobalTypedKey n \<lparr>nn_namespace = ob_namespace obj, nn_name = or_name r\<rparr>
           \<lparr>gk_group = g, gk_kind = or_kind r\<rparr>)"

definition GetOwners ::
  "k8s_objects \<Rightarrow> string \<Rightarrow> cluster_matcher \<Rightarrow> string \<Rightarrow> kobject \<Rightarrow> typed_global_key list" where
  "GetOwners x t cmatch targetId obj =
     (let (n, eq) = cmatch targetId;
          result = (if n \<noteq> [] \<or> n = [] \<and> eq then map (ref_owner x n obj) (ob_owner_refs obj) else [])
      in case AnnotationType_Get t (ob_annotations obj) of
           Inl err \<Rightarrow> result
         | Inr None \<Rightarrow> result
         | Inr (Some a) \<Rightarrow>
             (let (n, eq) = cmatch (Annotation_ClusterId targetId a)
              in if n \<noteq> [] \<or> eq \<and> n = []
                 then result @ [NewGlobalTypedKey n (Annotation_ObjectKey a) (Annotation_GroupKind a)]
                 else result))"

definition modificationHandler_Modify ::
  "k8s_objects \<Rightarrow> string \<Rightarrow> cl \<Rightarrow> kobject \<Rightarrow> obj_filter option \<Rightarrow> cl \<Rightarrow> kobject \<Rightarrow> kobject result" where
  "modificationHandler_Modify x t own_cluster owner filter' cluster obj =
     (let selected' = (case filter' of None \<Rightarrow> True | Some f \<Rightarrow> f obj)
      in if \<not> selected' then Inr obj else SetOwner x t own_cluster owner cluster obj)"

section \<open>Owner index and requests\<close>

definition Indexer ::
  "k8s_naming \<Rightarrow> k8s_objects \<Rightarrow> string \<Rightarrow> cluster_matcher \<Rightarrow>
   (kobject \<Rightarrow> typed_global_key \<Rightarrow> bool) list \<Rightarrow> group_kind option \<Rightarrow> kobject \<Rightarrow> string list" where
  "Indexer e x t cmatch filters gk obj =
     (let mapper = TypedGlobalKey_AsKey e (gk = None);
          filters = (case gk of None \<Rightarrow> filters | Some g \<Rightarrow> filters @ [\<lambda>obj owner. tk_gk owner = g]);
          owners = GetOwners x t cmatch [] obj
      in if length filters = 0 then map mapper owners
         else map mapper (filter (\<lambda>o'. list_all (\<lambda>f. f obj o') filters) owners))"

definition MapOwnerToRequestForGK ::
  "k8s_objects \<Rightarrow> string \<Rightarrow> cluster_matcher \<Rightarrow> cl \<Rightarrow> group_kind \<Rightarrow> kobject \<Rightarrow> mc_request list" where
  "MapOwnerToRequestForGK x t matcher cl kind obj =
     (case GetOwner x t matcher cl obj kind of
        (cname, None) \<Rightarrow> []
      | (cname, Some okey) \<Rightarrow> [\<lparr>mc_cluster = cname, mc_object = okey\<rparr>])"

definition MapLocalOwnerToRequestForGK ::
  "k8s_objects \<Rightarrow> string \<Rightarrow> cluster_matcher \<Rightarrow> cl \<Rightarrow> group_kind \<Rightarrow> kobject \<Rightarrow> namespaced_name list" where
  "MapLocalOwnerToRequestForGK x t matcher cl kind obj =
     (case GetOwner x t matcher cl obj kind of
        (cname, None) \<Rightarrow> []
      | (cname, Some okey) \<Rightarrow> if cname \<noteq> cl_name cl then [] else [okey])"

text \<open>\<open>MapOwners\<close> logs with \<open>log[0]\<close>: without a logger it panics once there is an owner.\<close>

definition MapOwners ::
  "k8s_objects \<Rightarrow> string \<Rightarrow> cluster_matcher \<Rightarrow> cl \<Rightarrow> 'l list \<Rightarrow> kobject \<Rightarrow> typed_global_key list option" where
  "MapOwners x t matcher cl log obj =
     (let owners = GetOwners x t matcher (cl_id cl) obj
      in if length owners > 0 then (case log of [] \<Rightarrow> None | l # _ \<Rightarrow> Some owners) else Some owners)"

section \<open>Reading back an annotation\<close>

definition owner_fields_ok :: "kobject \<Rightarrow> group_kind \<Rightarrow> bool" where
  "owner_fields_ok owner gk \<longleftrightarrow>
     CHR ''/'' \<notin> set (gk_group gk) \<and> CHR ''/'' \<notin> set (gk_kind gk) \<and>
     CHR ''/'' \<notin> set (ob_namespace owner) \<and> CHR ''/'' \<notin> set (ob_name owner)"

lemma core_group_free: "owner_fields_ok owner gk \<Longrightarrow> owner_fields_ok owner (core_group gk)"
  by (simp add: owner_fields_ok_def core_group_def)

text \<open>
  The fields of an annotation are the parts of the cluster's id, which may contain the
  separator, followed by the four fields of the owner.
\<close>

lemma annotation_fields:
  assumes "owner_fields_ok owner gk"
  shows "split_on (CHR ''/'') (Annotation_String (owner_annotation t c owner t' gk)) =
    (if IsSameAs c t' then [] else split_on (CHR ''/'') (cl_id c)) @
    [gk_group (core_group gk), gk_kind gk, ob_namespace owner, ob_name owner]"
proof -
  let ?four = "[gk_group (core_group gk), gk_kind gk, ob_namespace owner, ob_name owner]"
  have "split_on (CHR ''/'') (join_with (CHR ''/'') ?four) = ?four"
    using core_group_free [OF assms] assms
    by (intro split_join) (auto simp: owner_fields_ok_def core_group_def)
  then show ?thesis
    by (auto simp: Annotation_String_def owner_annotation_def Let_def CrossNamespaceAnnotation_def
        Annotation_ForCluster_def core_group_def split_on_append)
qed

lemma annotation_read:
  assumes "owner_fields_ok owner gk"
    and "s' = ModifyAnnotations s (Some (Annotation_Put (owner_annotation t c owner t' gk)))"
  shows "\<exists>a. AnnotationType_Get t (ob_annotations s') = Inr (Some a) \<and>
    Annotation_ClusterId d a = (if IsSameAs c t' then d else cl_id c) \<and>
    Annotation_GroupKind a = core_group gk \<and> Annotation_ObjectKey a = object_key owner"
proof -
  let ?a = "owner_annotation t c owner t' gk"
  let ?parts = "split_on (CHR ''/'') (Annotation_String ?a)"
  have "ob_annotations s' = Some (gset t (Annotation_String ?a)
      (case ob_annotations s of None \<Rightarrow> [] | Some x \<Rightarrow> x))"
    by (simp add: assms(2) ModifyAnnotations_def Annotation_Put_def owner_annotation_def Let_def
        CrossNamespaceAnnotation_def Annotation_ForCluster_def)
  moreover have "4 \<le> length ?parts"
    by (simp add: annotation_fields [OF assms(1)])
  ultimately have "AnnotationType_Get t (ob_annotations s') =
      Inr (Some \<lparr>an_name = t, an_fields = ?parts\<rparr>)"
    by (simp add: AnnotationType_Get_def Let_def)
  moreover have "Annotation_ClusterId d \<lparr>an_name = t, an_fields = ?parts\<rparr> =
      (if IsSameAs c t' then d else cl_id c)"
    by (simp add: annotation_fields [OF assms(1)] Annotation_ClusterId_def)
  moreover have "Annotation_GroupKind \<lparr>an_name = t, an_fields = ?parts\<rparr> = core_group gk"
    "Annotation_ObjectKey \<lparr>an_name = t, an_fields = ?parts\<rparr> = object_key owner"
    by (simp_all add: annotation_fields [OF assms(1)] Annotation_GroupKind_def
        Annotation_ObjectKey_def object_key_def nth_append core_group_def)
  ultimately show ?thesis
    by blast
qed

definition is_local :: "cl \<Rightarrow> kobject \<Rightarrow> cl \<Rightarrow> kobject \<Rightarrow> bool" where
  "is_local c owner target slave \<longleftrightarrow> IsSameAs c target \<and> ob_namespace owner = ob_namespace slave"

lemma SetOwner_annotates:
  assumes "SetOwner x t c owner target s = Inr s'" "\<not> is_local c owner target s"
    and "gvk_for x owner = Inr gk"
  shows "s' = ModifyAnnotations s (Some (Annotation_Put (owner_annotation t c owner target gk)))"
  using assms by (auto simp: SetOwner_def is_local_def Let_def split: if_splits)

lemma ModifyAnnotations_other [simp]:
  "ob_owner_refs (ModifyAnnotations s m) = ob_owner_refs s"
  "ob_namespace (ModifyAnnotations s m) = ob_namespace s"
  by (simp_all add: ModifyAnnotations_def split: option.splits)

lemma GetOwners_read:
  assumes "SetOwner x t c owner target s = Inr s'" "gvk_for x owner = Inr gk"
    and "\<not> is_local c owner target s" "owner_fields_ok owner gk"
    and m: "m (if IsSameAs c target then d else cl_id c) = (n, eq)"
  shows "GetOwners x t m d s' =
      (let (n0, eq0) = m d
       in if n0 \<noteq> [] \<or> eq0 then map (ref_owner x n0 s) (ob_owner_refs s) else []) @
      (if n \<noteq> [] \<or> eq then [NewGlobalTypedKey n (object_key owner) (core_group gk)] else [])"
proof -
  have s': "s' = ModifyAnnotations s (Some (Annotation_Put (owner_annotation t c owner target gk)))"
    by (rule SetOwner_annotates [OF assms(1,3,2)])
  obtain a where a: "AnnotationType_Get t (ob_annotations s') = Inr (Some a)"
      "Annotation_ClusterId d a = (if IsSameAs c target then d else cl_id c)"
      "Annotation_GroupKind a = core_group gk" "Annotation_ObjectKey a = object_key owner"
    using annotation_read [OF assms(4) s'] by blast
  have "m (Annotation_ClusterId d a) = (n, eq)"
    using m a(2) by simp
  moreover have "ref_owner x n0 s' = ref_owner x n0 s" for n0
    by (simp add: ref_owner_def s' fun_eq_iff)
  moreover have "ob_owner_refs s' = ob_owner_refs s"
    by (simp add: s')
  ultimately show ?thesis
    using a by (auto simp: GetOwners_def Let_def split: prod.splits option.splits)
qed

lemma GetOwner_read:
  assumes "SetOwner x t c owner target s = Inr s'" "gvk_for x owner = Inr gk"
    and "\<not> is_local c owner target s" "owner_fields_ok owner gk"
    and m: "m (if IsSameAs c target then cl_id target else cl_id c) = (n, eq)"
    and refs: "find (ref_matches x gk) (ob_owner_refs s) = None"
  shows "GetOwner x t m target s' gk = (if n = [] then ([], None) else (n, Some (object_key owner)))"
proof -
  have s': "s' = ModifyAnnotations s (Some (Annotation_Put (owner_annotation t c owner target gk)))"
    by (rule SetOwner_annotates [OF assms(1,3,2)])
  obtain a where a: "AnnotationType_Get t (ob_annotations s') = Inr (Some a)"
      "Annotation_ClusterId (cl_id target) a = (if IsSameAs c target then cl_id target else cl_id c)"
      "Annotation_GroupKind a = core_group gk" "Annotation_ObjectKey a = object_key owner"
    using annotation_read [OF assms(4) s'] by blast
  have "m (Annotation_ClusterId (cl_id target) a) = (n, eq)"
    using m a(2) by simp
  moreover have "find (ref_matches x gk) (ob_owner_refs s') = None"
    using refs by (simp add: s')
  ultimately show ?thesis
    using a by (simp add: GetOwner_def Let_def Annotation_Match_def)
qed

definition demo_k8s :: k8s_objects where
  "demo_k8s = \<lparr>gvk_for = (\<lambda>o'. Inr \<lparr>gk_group = ob_group o', gk_kind = ob_kind o'\<rparr>),
     set_controller_ref = (\<lambda>ow s. Inr (s\<lparr>ob_owner_refs := ob_owner_refs s @
       [\<lparr>or_api_version = ob_group ow, or_kind = ob_kind ow, or_name = ob_name ow\<rparr>]\<rparr>)),
     remove_owner_ref = (\<lambda>ow s. Inr (s\<lparr>ob_owner_refs :=
       filter (\<lambda>r. or_name r \<noteq> ob_name ow) (ob_owner_refs s)\<rparr>)),
     parse_group = (\<lambda>v. v)\<rparr>"

definition demo_service :: kobject where
  "demo_service = demo_object\<lparr>ob_kind := ''Service'', ob_namespace := ''default'', ob_name := ''owner''\<rparr>"

definition cl_A :: cl where
  "cl_A = \<lparr>cl_name = ''A'', cl_id = ''Id/A'', cl_client = 1\<rparr>"

definition cl_B :: cl where
  "cl_B = \<lparr>cl_name = ''B'', cl_id = ''IdB'', cl_client = 2\<rparr>"

definition demo_slave :: kobject where
  "demo_slave = ModifyAnnotations demo_object
     (Some (Annotation_Put (owner_annotation ''o'' cl_A demo_service cl_B \<lparr>gk_group = [], gk_kind = ''Service''\<rparr>)))"

lemma demo_owner_set [simp]:
  "SetOwner demo_k8s ''o'' cl_A demo_service cl_B demo_object = Inr demo_slave"
  "gvk_for demo_k8s demo_service = Inr \<lparr>gk_group = [], gk_kind = ''Service''\<rparr>"
  "owner_fields_ok demo_service \<lparr>gk_group = [], gk_kind = ''Service''\<rparr>"
  "\<not> is_local cl_A demo_service cl_B demo_object" "\<not> IsSameAs cl_A cl_B"
  "ob_owner_refs demo_object = []"
  by (simp_all add: SetOwner_def IsSameAs_def cl_A_def cl_B_def demo_k8s_def demo_slave_def
      demo_service_def demo_object_def owner_fields_ok_def is_local_def)

section \<open>Properties\<close>

text \<open>
  C19: an owner in another namespace or cluster that was set is read back with its kind, its
  key and the name the matcher gives to its cluster, whatever the cluster's id is: as the
  last one of all owners when the matcher considers the cluster, and as the owner of its
  kind when no owner reference of that kind comes first.
\<close>

theorem owner_roundtrip:
  assumes set: "SetOwner x t c owner target s = Inr s'" "gvk_for x owner = Inr gk"
    and cross: "\<not> is_local c owner target s"
    and fields: "owner_fields_ok owner gk"
    and m: "m (if IsSameAs c target then cl_id target else cl_id c) = (n, eq)"
  shows "GetOwners x t m (cl_id target) s' =
      (let (n0, eq0) = m (cl_id target)
       in if n0 \<noteq> [] \<or> eq0 then map (ref_owner x n0 s) (ob_owner_refs s) else []) @
      (if n \<noteq> [] \<or> eq then [NewGlobalTypedKey n (object_key owner) (core_group gk)] else []) \<and>
    (find (ref_matches x gk) (ob_owner_refs s) = None \<longrightarrow>
      GetOwner x t m target s' gk = (if n = [] then ([], None) else (n, Some (object_key owner))))"
  using GetOwners_read [where m = m and d = "cl_id target", OF set cross fields m]
    GetOwner_read [where m = m, OF set cross fields m] by blast

theorem owner_roundtrip_witness:
  "GetOwner demo_k8s ''o'' (MatcherForClusters (map_of [(''Id/A'', ''A''), (''IdB'', ''B'')]) ''IdB'') cl_B
     demo_slave \<lparr>gk_group = [], gk_kind = ''Service''\<rparr> =
     (''A'', Some \<lparr>nn_namespace = ''default'', nn_name = ''owner''\<rparr>)"
proof -
  have "MatcherForClusters (map_of [(''Id/A'', ''A''), (''IdB'', ''B'')]) ''IdB''
      (if IsSameAs cl_A cl_B then cl_id cl_B else cl_id cl_A) = (''A'', False)"
    by simp (simp add: MatcherForClusters_def cl_A_def)
  from owner_roundtrip [where m = "MatcherForClusters (map_of [(''Id/A'', ''A''), (''IdB'', ''B'')]) ''IdB''",
      OF demo_owner_set(1,2,4,3) this] show ?thesis
    by (simp add: object_key_def demo_service_def)
qed

text \<open>
  The keys under which an index of owners of a kind files an object whose owner was set across
  namespaces or clusters: those of the owner references, and the one of that owner if the matcher
  considers its cluster, with the name it gives to it.
\<close>

lemma owner_filed:
  assumes set: "SetOwner x t c owner target s = Inr s'" "gvk_for x owner = Inr gk"
    and cross: "\<not> is_local c owner target s" and fields: "owner_fields_ok owner gk"
    and ids: "cl_id c \<noteq> []"
  shows "Indexer e x t (MatcherForClusters by_id []) [] (Some (core_group gk)) s' =
    map (TypedGlobalKey_AsKey e False) (filter (\<lambda>o'. tk_gk o' = core_group gk) (map (ref_owner x [] s) (ob_owner_refs s))) @
    (if IsSameAs c target then [MapToIndexKey e (object_key owner) []]
     else case by_id (cl_id c) of
       None \<Rightarrow> []
     | Some n \<Rightarrow> if n = [] then [] else [n @ MapToIndexKey e (object_key owner) []])"
proof -
  let ?m = "MatcherForClusters by_id []"
  obtain n eq where m: "?m (if IsSameAs c target then [] else cl_id c) = (n, eq)"
    by fastforce
  then have n: "if IsSameAs c target then n = [] \<and> eq
      else \<not> eq \<and> n = (case by_id (cl_id c) of None \<Rightarrow> [] | Some n \<Rightarrow> n)"
    using ids by (auto simp: MatcherForClusters_def Let_def split: if_splits option.splits)
  have "?m [] = ([], True)"
    by (simp add: MatcherForClusters_def)
  then have "GetOwners x t ?m [] s' = map (ref_owner x [] s) (ob_owner_refs s) @
      (if n \<noteq> [] \<or> eq then [NewGlobalTypedKey n (object_key owner) (core_group gk)] else [])"
    using GetOwners_read [where m = ?m and d = "[]", OF set cross fields m] by simp
  moreover have "tk_gk (NewGlobalTypedKey n (object_key owner) (core_group gk)) = core_group gk"
    "TypedGlobalKey_AsKey e False (NewGlobalTypedKey n (object_key owner) (core_group gk)) =
      (if n = [] then [] else n) @ MapToIndexKey e (object_key owner) []"
    by (simp_all add: NewGlobalTypedKey_def TypedGlobalKey_AsKey_def MapToIndexKey_def Let_def)
  ultimately show ?thesis
    using n by (auto simp: Indexer_def Let_def split: option.splits if_splits)
qed

text \<open>
  Removing an owner across namespaces or clusters undoes setting it, but it removes the
  annotation without comparing it: the owner set by somebody else is removed as well.
\<close>

theorem remove_owner:
  assumes set: "SetOwner x t c owner target s = Inr s'" "gvk_for x owner = Inr gk"
    and cross: "\<not> is_local c owner target s"
    and other: "gvk_for x owner2 = Inr gk2" "\<not> is_local c2 owner2 target s'"
  shows "\<exists>s2. RemoveOwner x t c2 owner2 target s' = Inr s2 \<and> GetAnnotation s2 t = [] \<and>
    ob_owner_refs s2 = ob_owner_refs s \<and>
    (\<forall>k. k \<noteq> t \<longrightarrow> GetAnnotation s2 k = GetAnnotation s k)"
proof -
  have name: "an_name (owner_annotation t c o' target gk) = t" for c o' gk
    by (simp add: owner_annotation_def Let_def CrossNamespaceAnnotation_def Annotation_ForCluster_def)
  have s': "s' = ModifyAnnotations s (Some (Annotation_Put (owner_annotation t c owner target gk)))"
    by (rule SetOwner_annotates [OF set(1) cross set(2)])
  have "RemoveOwner x t c2 owner2 target s' =
      Inr (ModifyAnnotations s' (Some (Annotation_Remove (owner_annotation t c2 owner2 target gk2))))"
    using other by (auto simp: RemoveOwner_def is_local_def Let_def)
  then show ?thesis
    by (auto simp: s' ModifyAnnotations_def Annotation_Put_def Annotation_Remove_def name
        GetAnnotation_def Let_def split: option.splits)
qed

theorem remove_owner_witness:
  "\<exists>s2. RemoveOwner demo_k8s ''o'' cl_A (demo_service\<lparr>ob_name := ''other''\<rparr>) cl_B demo_slave = Inr s2 \<and>
     GetAnnotation s2 ''o'' = []"
proof -
  have "gvk_for demo_k8s (demo_service\<lparr>ob_name := ''other''\<rparr>) = Inr \<lparr>gk_group = [], gk_kind = ''Service''\<rparr>"
    "\<not> is_local cl_A (demo_service\<lparr>ob_name := ''other''\<rparr>) cl_B demo_slave"
    by (simp add: demo_k8s_def demo_service_def demo_object_def)
      (simp add: is_local_def)
  then show ?thesis
    using remove_owner [OF demo_owner_set(1,2,4)] by blast
qed

end
