(* ===== verification/TopoSort.thy ===== *)
theory TopoSort
  imports Kube_Prelude
begin

text \<open>
  The topological sort that orders components by their dependencies (utils/topo.go). An
  element is met together with its identity; \<open>d e\<close> yields the identities and elements the
  element \<open>e\<close> depends on. \<open>None\<close> stands for a call that does not return.
\<close>

partial_function (option) order_loop ::
  "('e \<Rightarrow> ('i \<times> 'e) list) \<Rightarrow> ('i \<times> 'e) list \<Rightarrow> 'i list \<Rightarrow> 'i list \<Rightarrow>
   ('i list option \<times> 'i list) option" where
  "order_loop d kvs history o' =
     (case kvs of
        [] \<Rightarrow> Some (None, o')
      | (i, e) # rest \<Rightarrow>
          (if i \<in> set history then Some (Some (dropWhile (\<lambda>j. j \<noteq> i) history @ [i]), o')
           else if i \<in> set o' then order_loop d rest history o'
           else Option.bind (order_loop d (d e) (history @ [i]) o')
             (\<lambda>(cycle, o').
               case cycle of
                 Some c \<Rightarrow> Some (Some c, o')
               | None \<Rightarrow> order_loop d rest history (o' @ [i]))))"

definition TopoSort ::
  "('i \<times> 'e) list \<Rightarrow> ('e \<Rightarrow> ('i \<times> 'e) list) \<Rightarrow> ('i list option \<times> 'i list option) option" where
  "TopoSort seq d =
     map_option (\<lambda>(cycle, o').
         case cycle of Some c \<Rightarrow> (None, Some c) | None \<Rightarrow> (Some o', None))
       (order_loop d seq [] [])"

section \<open>Dependency graphs\<close>

text \<open>
  A graph \<open>el\<close> gives every identity its element; \<open>uses d el\<close> relates an identity to those
  its element depends on.
\<close>

definition uses :: "('e \<Rightarrow> ('i \<times> 'e) list) \<Rightarrow> ('i \<Rightarrow> 'e) \<Rightarrow> ('i \<times> 'i) set" where
  "uses d el = {(i, k). k \<in> fst ` set (d (el i))}"

definition of_graph :: "('i \<Rightarrow> 'e) \<Rightarrow> ('i \<times> 'e) list \<Rightarrow> bool" where
  "of_graph el kvs \<longleftrightarrow> (\<forall>(k, v) \<in> set kvs. v = el k)"

definition graph_ok :: "('e \<Rightarrow> ('i \<times> 'e) list) \<Rightarrow> ('i \<Rightarrow> 'e) \<Rightarrow> 'i set \<Rightarrow> bool" where
  "graph_ok d el U \<longleftrightarrow> finite U \<and> (\<forall>i. of_graph el (d (el i)) \<and> fst ` set (d (el i)) \<subseteq> U)"

definition ordered :: "('i \<times> 'i) set \<Rightarrow> 'i list \<Rightarrow> bool" where
  "ordered E xs \<longleftrightarrow> distinct xs \<and> (\<forall>ys i zs. xs = ys @ i # zs \<longrightarrow> E `` {i} \<subseteq> set ys)"

definition is_cycle :: "('i \<times> 'i) set \<Rightarrow> 'i list \<Rightarrow> bool" where
  "is_cycle E c \<longleftrightarrow> 2 \<le> length c \<and> hd c = last c \<and> successively (\<lambda>a b. (a, b) \<in> E) c"

lemma ordered_Nil [simp]: "ordered E []"
  by (simp add: ordered_def)

lemma ordered_snoc: "ordered E xs \<Longrightarrow> i \<notin> set xs \<Longrightarrow> E `` {i} \<subseteq> set xs \<Longrightarrow> ordered E (xs @ [i])"
proof -
  assume xs: "ordered E xs" "i \<notin> set xs" "E `` {i} \<subseteq> set xs"
  have "E `` {j} \<subseteq> set ys" if "xs @ [i] = ys @ j # zs" for ys j zs
  proof (cases zs rule: rev_cases)
    case Nil
    then show ?thesis
      using that xs(3) by simp
  next
    case (snoc zs' z)
    then have "xs = ys @ j # zs'"
      using that by (metis append_Cons append_assoc butlast_snoc)
    then show ?thesis
      using xs(1) by (simp add: ordered_def)
  qed
  then show ?thesis
    using xs by (simp add: ordered_def)
qed

lemma ordered_closed: "ordered E xs \<Longrightarrow> i \<in> set xs \<Longrightarrow> E `` {i} \<subseteq> set xs"
  unfolding ordered_def by (metis in_set_conv_decomp set_append subset_trans sup_ge1)

lemma ordered_earlier:
  assumes "ordered E xs" "(i, k) \<in> E" "i \<in> set xs"
  shows "\<exists>ys zs. xs = ys @ i # zs \<and> k \<in> set ys"
  using assms unfolding ordered_def by (metis Image_singleton_iff in_set_conv_decomp subsetD)

lemma history_cycle:
  assumes "successively (\<lambda>a b. (a, b) \<in> E) (history @ [i])" "i \<in> set history"
  shows "is_cycle E (dropWhile (\<lambda>j. j \<noteq> i) history @ [i])"
proof -
  let ?t = "dropWhile (\<lambda>j. j \<noteq> i) history"
  have ne: "?t \<noteq> []"
    using assms(2) by (auto simp: dropWhile_eq_Nil_conv)
  have "history @ [i] = takeWhile (\<lambda>j. j \<noteq> i) history @ (?t @ [i])"
    by simp
  then have "successively (\<lambda>a b. (a, b) \<in> E) (?t @ [i])"
    using assms(1) by (metis successively_append_iff)
  moreover have "hd ?t = i"
    using hd_dropWhile [OF ne] by simp
  ultimately show ?thesis
    using ne by (auto simp: is_cycle_def Suc_le_eq)
qed

lemma hd_history: "i \<in> set history \<Longrightarrow> hd (dropWhile (\<lambda>j. j \<noteq> i) history) = i"
  using hd_dropWhile [of "\<lambda>j. j \<noteq> i" history] by (auto simp: dropWhile_eq_Nil_conv)

text \<open>What one run of the loop guarantees.\<close>

definition run_ok ::
  "('i \<times> 'i) set \<Rightarrow> ('i \<times> 'e) list \<Rightarrow> 'i list \<Rightarrow> 'i list \<Rightarrow> 'i list option \<Rightarrow> 'i list \<Rightarrow> bool" where
  "run_ok E kvs history o1 cycle o2 \<longleftrightarrow>
     (case cycle of
        Some c \<Rightarrow> is_cycle E c \<and> hd c \<in> set history \<union> E\<^sup>* `` (fst ` set kvs)
      | None \<Rightarrow> ordered E o2 \<and> set o1 \<subseteq> set o2 \<and> fst ` set kvs \<subseteq> set o2 \<and>
          set o2 \<inter> set history = {} \<and> set o2 \<subseteq> set o1 \<union> E\<^sup>* `` (fst ` set kvs))"

lemma run_ok_skip:
  assumes "i \<in> set o1" "run_ok E rest history o1 cycle o2"
  shows "run_ok E ((i, e) # rest) history o1 cycle o2"
proof -
  have "E\<^sup>* `` (fst ` set rest) \<subseteq> E\<^sup>* `` insert i (fst ` set rest)"
    by blast
  note reach = this
  show ?thesis
  proof (cases cycle)
    case None
    then have "set o2 \<subseteq> set o1 \<union> E\<^sup>* `` (fst ` set rest)"
      using assms(2) by (simp add: run_ok_def)
    then have "set o2 \<subseteq> set o1 \<union> E\<^sup>* `` insert i (fst ` set rest)"
      using reach by (rule subset_trans [OF _ Un_mono [OF subset_refl]])
    then show ?thesis
      using assms None by (auto simp: run_ok_def)
  qed (use assms(2) reach in \<open>auto simp: run_ok_def\<close>)
qed

lemma subset_chain:
  "C \<subseteq> insert i (B \<union> R) \<Longrightarrow> B \<subseteq> A \<union> Q \<Longrightarrow> R \<subseteq> S \<Longrightarrow> insert i Q \<subseteq> S \<Longrightarrow> C \<subseteq> A \<union> S"
  by blast

lemma run_ok_step:
  assumes "run_ok E rest history (o2 @ [i]) cycle o3" "set o1 \<subseteq> set o2"
    and "set o2 \<subseteq> set o1 \<union> E\<^sup>* `` {i}"
  shows "run_ok E ((i, e) # rest) history o1 cycle o3"
proof -
  have "E\<^sup>* `` (fst ` set rest) \<subseteq> E\<^sup>* `` insert i (fst ` set rest)"
    "insert i (E\<^sup>* `` {i}) \<subseteq> E\<^sup>* `` insert i (fst ` set rest)"
    by blast+
  note reach = this
  show ?thesis
  proof (cases cycle)
    case None
    then have "set o3 \<subseteq> insert i (set o2 \<union> E\<^sup>* `` (fst ` set rest))"
      using assms(1) by (simp add: run_ok_def)
    from subset_chain [OF this assms(3) reach] show ?thesis
      using assms(1,2) None by (auto simp: run_ok_def)
  qed (use assms(1) reach in \<open>auto simp: run_ok_def\<close>)
qed

lemma order_loop_run:
  assumes "graph_ok d el U" "fst ` set kvs \<subseteq> U" "of_graph el kvs"
    and "\<forall>k \<in> fst ` set kvs. successively (\<lambda>a b. (a, b) \<in> uses d el) (history @ [k])"
    and "ordered (uses d el) o1" "set o1 \<inter> set history = {}"
  shows "\<exists>cycle o2. order_loop d kvs history o1 = Some (cycle, o2) \<and>
    run_ok (uses d el) kvs history o1 cycle o2"
  using assms(2-)
proof (induction "(card (U - set history), length kvs)" arbitrary: kvs history o1
    rule: wf_induct_rule [OF wf_lex_prod [OF wf_less wf_less]])
  case 1
  note IH = "1.hyps" and prems = "1.prems"
  let ?E = "uses d el"
  show ?case
  proof (cases kvs)
    case Nil
    then show ?thesis
      using prems by (subst order_loop.simps) (simp add: run_ok_def)
  next
    case (Cons kv rest)
    obtain i e where kv: "kv = (i, e)"
      by (cases kv)
    have e: "e = el i" and i: "i \<in> U" and rest: "fst ` set rest \<subseteq> U" "of_graph el rest"
      using prems(1,2) by (auto simp: Cons kv of_graph_def)
    have path: "successively (\<lambda>a b. (a, b) \<in> ?E) (history @ [i])"
      "\<forall>k \<in> fst ` set rest. successively (\<lambda>a b. (a, b) \<in> ?E) (history @ [k])"
      using prems(3) by (auto simp: Cons kv)
    have shorter: "length rest < length kvs"
      by (simp add: Cons)
    show ?thesis
    proof (cases "i \<in> set history")
      case True
      then show ?thesis
        unfolding Cons kv by (subst order_loop.simps) (simp add: run_ok_def history_cycle [OF path(1)] hd_history)
    next
      case new: False
      show ?thesis
      proof (cases "i \<in> set o1")
        case True
        obtain cycle o2 where "order_loop d rest history o1 = Some (cycle, o2)"
            "run_ok ?E rest history o1 cycle o2"
          using IH [of history rest o1] shorter rest path(2) prems(4,5) by auto
        then show ?thesis
          using True new unfolding Cons kv
          by (subst order_loop.simps) (auto intro: run_ok_skip)
      next
        case todo: False
        have "card (U - set (history @ [i])) < card (U - set history)"
          using i new assms(1) by (intro psubset_card_mono) (auto simp: graph_ok_def)
        moreover have "\<forall>k \<in> fst ` set (d e). successively (\<lambda>a b. (a, b) \<in> ?E) ((history @ [i]) @ [k])"
          using path(1) by (auto simp: uses_def e successively_append_iff)
        ultimately obtain c1 o2 where inner: "order_loop d (d e) (history @ [i]) o1 = Some (c1, o2)"
            "run_ok ?E (d e) (history @ [i]) o1 c1 o2"
          using IH [of "history @ [i]" "d e" o1] assms(1) todo prems(4,5)
          by (auto simp: e graph_ok_def)
        show ?thesis
        proof (cases c1)
          case (Some c)
          have "?E\<^sup>* `` (fst ` set (d e)) \<subseteq> ?E\<^sup>* `` insert i (fst ` set rest)"
            by (auto simp: e uses_def intro: converse_rtrancl_into_rtrancl)
          then have "hd c \<in> set history \<union> ?E\<^sup>* `` insert i (fst ` set rest)" "is_cycle ?E c"
            using inner(2) by (auto simp: run_ok_def Some)
          then show ?thesis
            using inner(1) new todo Some unfolding Cons kv
            by (subst order_loop.simps) (simp add: run_ok_def)
        next
          case None
          have deps: "?E `` {i} \<subseteq> set o2"
            using inner(2) by (auto simp: None run_ok_def uses_def e)
          have o2: "ordered ?E (o2 @ [i])" "set (o2 @ [i]) \<inter> set history = {}"
            using inner(2) new deps by (auto simp: None run_ok_def intro: ordered_snoc)
          obtain c3 o3 where "order_loop d rest history (o2 @ [i]) = Some (c3, o3)"
              "run_ok ?E rest history (o2 @ [i]) c3 o3"
            using IH [of history rest "o2 @ [i]"] shorter rest path(2) o2 by auto
          moreover have "set o2 \<subseteq> set o1 \<union> ?E\<^sup>* `` {i}"
          proof -
            have "?E\<^sup>* `` (fst ` set (d e)) \<subseteq> ?E\<^sup>* `` {i}"
              by (auto simp: e uses_def intro: converse_rtrancl_into_rtrancl)
            then show ?thesis
              using inner(2) unfolding None run_ok_def by simp blast
          qed
          moreover have "set o1 \<subseteq> set o2"
            using inner(2) by (simp add: None run_ok_def)
          ultimately show ?thesis
            using inner(1) new todo None unfolding Cons kv
            by (subst order_loop.simps) (auto intro: run_ok_step)
        qed
      qed
    qed
  qed
qed

lemma ordered_no_cycle:
  assumes "ordered E xs" "is_cycle E c" "hd c \<in> set xs"
  shows False
proof -
  let ?before = "\<lambda>i. takeWhile (\<lambda>x. x \<noteq> i) xs"
  have split: "xs = ?before i @ i # tl (dropWhile (\<lambda>x. x \<noteq> i) xs)" if "i \<in> set xs" for i
  proof -
    have "dropWhile (\<lambda>x. x \<noteq> i) xs \<noteq> []"
      using that by (auto simp: dropWhile_eq_Nil_conv)
    then show ?thesis
      using hd_dropWhile [of "\<lambda>x. x \<noteq> i" xs] by (metis list.collapse takeWhile_dropWhile_id)
  qed
  have nested: "set (?before j) \<subseteq> set (?before i)" if "i \<in> set xs" "j \<in> set (?before i)" for i j
  proof -
    have "takeWhile (\<lambda>x. x \<noteq> j) (?before i @ i # tl (dropWhile (\<lambda>x. x \<noteq> i) xs)) =
        takeWhile (\<lambda>x. x \<noteq> j) (?before i)"
      using that(2) by (intro takeWhile_append1) auto
    then have "?before j = takeWhile (\<lambda>x. x \<noteq> j) (?before i)"
      using split [OF that(1)] by simp
    then show ?thesis
      by (metis set_takeWhileD subsetI)
  qed
  have direct: "j \<in> set (?before i)" if "(i, j) \<in> E" "i \<in> set xs" for i j
    using assms(1) split [OF that(2)] that(1) unfolding ordered_def by (metis Image_singleton_iff subsetD)
  have earlier: "j \<in> set (?before i)" if "(i, j) \<in> E\<^sup>+" "i \<in> set xs" for i j
    using that
  proof (induction rule: trancl_induct)
    case (step j k)
    then have "j \<in> set xs"
      by (metis set_takeWhileD)
    then have "k \<in> set (?before j)"
      using \<open>(j, k) \<in> E\<close> by (rule direct [rotated])
    then show ?case
      using nested step.IH step.prems by blast
  qed (rule direct)
  obtain a b r where c: "c = a # b # r"
    using assms(2) by (cases c; cases "tl c") (auto simp: is_cycle_def)
  have "(a, last (b # r)) \<in> E\<^sup>+" if "successively (\<lambda>a b. (a, b) \<in> E) (a # b # r)" for a b r
    using that by (induction r arbitrary: a b) (auto intro: trancl_into_trancl2)
  moreover have "successively (\<lambda>a b. (a, b) \<in> E) (a # b # r)"
    using assms(2) unfolding c is_cycle_def by blast
  ultimately have "(hd c, last c) \<in> E\<^sup>+"
    by (simp add: c)
  then have "(hd c, hd c) \<in> E\<^sup>+"
    using assms(2) by (simp add: is_cycle_def)
  then have "hd c \<in> set (?before (hd c))"
    using earlier assms(3) by blast
  then show False
    by (metis set_takeWhileD)
qed

section \<open>Property\<close>

text \<open>
  C4: on a finite dependency graph the sort always returns, with exactly one of two
  results. Either an order that contains the given elements and everything they depend on,
  each once and after its dependencies, and nothing else, and then they reach no cycle; or a
  cycle that the given elements reach.
\<close>

theorem topo_sort:
  assumes "graph_ok d el U" "of_graph el seq" "fst ` set seq \<subseteq> U"
  shows "(\<exists>order. TopoSort seq d = Some (Some order, None) \<and> ordered (uses d el) order \<and>
        set order = (uses d el)\<^sup>* `` (fst ` set seq) \<and>
        (\<forall>c. is_cycle (uses d el) c \<longrightarrow> hd c \<notin> (uses d el)\<^sup>* `` (fst ` set seq))) \<or>
    (\<exists>cycle. TopoSort seq d = Some (None, Some cycle) \<and> is_cycle (uses d el) cycle \<and>
        hd cycle \<in> (uses d el)\<^sup>* `` (fst ` set seq))"
proof -
  let ?E = "uses d el"
  obtain cycle o2 where run: "order_loop d seq [] [] = Some (cycle, o2)" "run_ok ?E seq [] [] cycle o2"
    using order_loop_run [OF assms(1,3,2), of "[]" "[]"] by auto
  show ?thesis
  proof (cases cycle)
    case None
    have o2: "ordered ?E o2" "fst ` set seq \<subseteq> set o2" "set o2 \<subseteq> ?E\<^sup>* `` (fst ` set seq)"
      using run(2) by (simp_all add: None run_ok_def)
    have "x \<in> set o2" if "(k, x) \<in> ?E\<^sup>*" "k \<in> fst ` set seq" for k x
      using that o2(2) by (induction rule: rtrancl_induct) (auto dest: ordered_closed [OF o2(1)])
    then have all: "set o2 = ?E\<^sup>* `` (fst ` set seq)"
      using o2(3) by blast
    moreover have "TopoSort seq d = Some (Some o2, None)"
      using run(1) by (simp add: TopoSort_def None)
    ultimately show ?thesis
      using o2(1) ordered_no_cycle [OF o2(1)] by blast
  next
    case (Some c)
    then have "TopoSort seq d = Some (None, Some c)" "is_cycle ?E c" "hd c \<in> ?E\<^sup>* `` (fst ` set seq)"
      using run by (simp_all add: TopoSort_def run_ok_def)
    then show ?thesis
      by blast
  qed
qed

definition demo_deps :: "nat \<Rightarrow> (nat \<times> nat) list" where
  "demo_deps e = (if e = 2 then [(1, 1)] else if e = 1 then [(0, 0)] else [])"

theorem topo_sort_witness:
  "(\<exists>order. TopoSort [(2, 2)] demo_deps = Some (Some order, None) \<and> set order = {0, 1, 2}) \<or>
   (\<exists>cycle. TopoSort [(2, 2)] demo_deps = Some (None, Some cycle))"
proof -
  have graph: "graph_ok demo_deps (\<lambda>i. i) {0, 1, 2}" "of_graph (\<lambda>i. i) [(2, 2 :: nat)]"
    "fst ` set [(2, 2 :: nat)] \<subseteq> {0, 1, 2 :: nat}"
    by (auto simp: graph_ok_def of_graph_def demo_deps_def)
  have E: "uses demo_deps (\<lambda>i. i) = {(2, 1), (1, 0)}"
    by (auto simp: uses_def demo_deps_def split: if_splits)
  have "{(2, 1), (1, 0)}\<^sup>* `` {2} = {0, 1, 2 :: nat}"
  proof (intro equalityI subsetI)
    fix x :: nat
    assume "x \<in> {(2, 1), (1, 0)}\<^sup>* `` {2}"
    then have "(2, x) \<in> {(2, 1), (1, 0)}\<^sup>*"
      by simp
    then show "x \<in> {0, 1, 2}"
      by (induction rule: rtrancl_induct) auto
  qed (auto intro: converse_rtrancl_into_rtrancl)
  then show ?thesis
    using topo_sort [OF graph] by (auto simp: E)
qed

end
