(* ===== verification/Problems.thy ===== *)
theory Problems
  imports Kube_Prelude
begin

text \<open>
  The outcome of a reconciliation (controllerutils/reconcile/problem.go): problems, their
  aggregation, and the result for the controller runtime.
\<close>

section \<open>Problems\<close>

text \<open>A value of the interface \<open>Problem\<close> is an optional \<open>problem\<close>, \<open>None\<close> for \<open>nil\<close>.\<close>

record problem =
  p_requeue :: bool
  p_problem :: "gerror option"
  p_err :: "gerror option"

definition Succeeded :: "problem option" where
  "Succeeded = None"

definition Requeue :: "gerror option \<Rightarrow> problem option" where
  "Requeue err =
     (if err = None then None else Some \<lparr>p_requeue = True, p_problem = err, p_err = None\<rparr>)"

definition Failed :: "gerror option \<Rightarrow> problem option" where
  "Failed err = Some \<lparr>p_requeue = False, p_problem = None, p_err = err\<rparr>"

definition TemporaryProblem :: "gerror option \<Rightarrow> problem option" where
  "TemporaryProblem err =
     (if err = None then None else Some \<lparr>p_requeue = True, p_problem = None, p_err = err\<rparr>)"

definition WatchBackedProblem :: "gerror option \<Rightarrow> problem option" where
  "WatchBackedProblem err =
     (if err = None then None else Some \<lparr>p_requeue = False, p_problem = err, p_err = None\<rparr>)"

fun aggregate_loop :: "problem option list \<Rightarrow> problem \<Rightarrow> bool \<Rightarrow> problem \<times> bool" where
  "aggregate_loop [] result found = (result, found)"
| "aggregate_loop (None # ps) result found = aggregate_loop ps result found"
| "aggregate_loop (Some p # ps) result found =
     aggregate_loop ps
       \<lparr>p_requeue = p_requeue result \<or> p_requeue p,
        p_problem = errors_join (p_problem result) (p_problem p),
        p_err = errors_join (p_err result) (p_err p)\<rparr> True"

definition AggregateProblem :: "problem option list \<Rightarrow> problem option" where
  "AggregateProblem ps =
     (case ps of
        [] \<Rightarrow> None
      | [p] \<Rightarrow> p
      | _ \<Rightarrow>
          (let (result, found) =
             aggregate_loop ps \<lparr>p_requeue = False, p_problem = None, p_err = None\<rparr> False
           in if \<not> found then None else Some result))"

text \<open>
  \<open>ctrl.Result\<close> and the error that the reconciler returns to the controller runtime; the
  runtime repeats a request when there is an error or \<open>Requeue\<close> is set.
\<close>

record ctrl_result =
  cr_requeue :: bool
  cr_after :: int

definition no_result :: ctrl_result where
  "no_result = \<lparr>cr_requeue = False, cr_after = 0\<rparr>"

definition Result :: "problem option \<Rightarrow> int \<Rightarrow> ctrl_result \<times> gerror option" where
  "Result p after =
     (case p of
        None \<Rightarrow> (\<lparr>cr_requeue = False, cr_after = after\<rparr>, None)
      | Some p \<Rightarrow>
          (if p_err p \<noteq> None \<and> p_requeue p then (no_result, p_err p)
           else if p_err p \<noteq> None \<and> p_problem p = None then (no_result, None)
           else (let result = \<lparr>cr_requeue = p_requeue p, cr_after = after\<rparr>
                 in if p_requeue p \<and> p_problem p \<noteq> None then (no_result, p_problem p)
                    else (result, None))))"

section \<open>Aggregation\<close>

definition retried :: "ctrl_result \<times> gerror option \<Rightarrow> bool" where
  "retried r \<longleftrightarrow> snd r \<noteq> None \<or> cr_requeue (fst r)"

definition requeues :: "problem option \<Rightarrow> bool" where
  "requeues p = (case p of None \<Rightarrow> False | Some p \<Rightarrow> p_requeue p)"

definition errors_of :: "problem option \<Rightarrow> gerror list" where
  "errors_of p = (case p of None \<Rightarrow> [] | Some p \<Rightarrow> leaves_opt (p_err p))"

definition problems_of :: "problem option \<Rightarrow> gerror list" where
  "problems_of p = (case p of None \<Rightarrow> [] | Some p \<Rightarrow> leaves_opt (p_problem p))"

lemma retried_requeues: "retried (Result p after) \<longleftrightarrow> requeues p"
  by (auto simp: retried_def Result_def requeues_def no_result_def Let_def split: option.splits)

lemma aggregate_loop_sum:
  "aggregate_loop ps result found = (r, f) \<Longrightarrow>
     (f \<longleftrightarrow> found \<or> (\<exists>p. Some p \<in> set ps)) \<and>
     (p_requeue r \<longleftrightarrow> p_requeue result \<or> list_ex requeues ps) \<and>
     leaves_opt (p_err r) = leaves_opt (p_err result) @ concat (map errors_of ps) \<and>
     leaves_opt (p_problem r) = leaves_opt (p_problem result) @ concat (map problems_of ps)"
proof (induction ps result found rule: aggregate_loop.induct)
  case (3 p ps result found)
  show ?case
    using "3.IH" [OF "3.prems" [simplified]]
    by (auto simp: requeues_def errors_of_def problems_of_def)
qed (auto simp: requeues_def errors_of_def problems_of_def)

lemma AggregateProblem_sum:
  "requeues (AggregateProblem ps) \<longleftrightarrow> list_ex requeues ps"
  "errors_of (AggregateProblem ps) = concat (map errors_of ps)"
  "problems_of (AggregateProblem ps) = concat (map problems_of ps)"
  "AggregateProblem ps = None \<longleftrightarrow> set ps \<subseteq> {None}"
proof -
  have none: "list_ex requeues ps = False \<and> concat (map errors_of ps) = [] \<and> concat (map problems_of ps) = []"
    if "set ps \<subseteq> {None}" for ps
    using that by (induction ps) (auto simp: requeues_def errors_of_def problems_of_def)
  let ?goal = "(requeues (AggregateProblem ps) \<longleftrightarrow> list_ex requeues ps) \<and>
    errors_of (AggregateProblem ps) = concat (map errors_of ps) \<and>
    problems_of (AggregateProblem ps) = concat (map problems_of ps) \<and>
    (AggregateProblem ps = None \<longleftrightarrow> set ps \<subseteq> {None})"
  consider "ps = []" | p where "ps = [p]" | p q qs where "ps = p # q # qs"
    by (metis list.exhaust)
  then have ?goal
  proof cases
    case 3
    obtain r f where rf: "aggregate_loop ps \<lparr>p_requeue = False, p_problem = None, p_err = None\<rparr> False = (r, f)"
      by (cases "aggregate_loop ps \<lparr>p_requeue = False, p_problem = None, p_err = None\<rparr> False")
    have "AggregateProblem ps = (if f then Some r else None)"
      using rf by (simp add: AggregateProblem_def 3)
    moreover have "f \<longleftrightarrow> \<not> set ps \<subseteq> {None}"
      using aggregate_loop_sum [OF rf] by auto
    ultimately show ?thesis
      using aggregate_loop_sum [OF rf] none [of ps]
      by (cases f) (auto simp: requeues_def errors_of_def problems_of_def)
  qed (auto simp: AggregateProblem_def requeues_def errors_of_def problems_of_def)
  then show "requeues (AggregateProblem ps) \<longleftrightarrow> list_ex requeues ps"
    "errors_of (AggregateProblem ps) = concat (map errors_of ps)"
    "problems_of (AggregateProblem ps) = concat (map problems_of ps)"
    "AggregateProblem ps = None \<longleftrightarrow> set ps \<subseteq> {None}"
    by blast+
qed

section \<open>Properties\<close>

text \<open>
  A request is repeated exactly when one of the aggregated problems asks for it, and no
  error and no problem gets lost in the aggregation; of the four kinds of problems, the
  temporary and the requeued ones return their error and the failed and watch-backed ones
  none. A failure without an error is a problem, although its comment says it is none.
\<close>

theorem problem_results:
  "(retried (Result (AggregateProblem ps) after) \<longleftrightarrow> (\<exists>p \<in> set ps. retried (Result p after))) \<and>
   errors_of (AggregateProblem ps) = concat (map errors_of ps) \<and>
   problems_of (AggregateProblem ps) = concat (map problems_of ps) \<and>
   (AggregateProblem ps = None \<longleftrightarrow> set ps \<subseteq> {None}) \<and>
   snd (Result (TemporaryProblem (Some e)) after) = Some e \<and>
   snd (Result (Requeue (Some e)) after) = Some e \<and>
   Result (Failed (Some e)) after = (no_result, None) \<and>
   Result (WatchBackedProblem (Some e)) after = (\<lparr>cr_requeue = False, cr_after = after\<rparr>, None) \<and>
   TemporaryProblem None = None \<and> Requeue None = None \<and> WatchBackedProblem None = None \<and>
   Failed None \<noteq> None"
  by (simp add: retried_requeues AggregateProblem_sum list_ex_iff)
    (simp add: Result_def TemporaryProblem_def Requeue_def Failed_def WatchBackedProblem_def no_result_def)

end
