(* ===== verification/Replication.thy ===== *)
theory Replication
  imports Names Problems "HOL-Library.Sublist"
begin

text \<open>
  The mapping of replicated objects to their originals (controller/replication/mapping.go):
  an index per group and kind, the life cycle of the target namespaces, and the lock that
  guards them.

  The namespaces of the target cluster are a map to whether they are being deleted;
  \<open>faults\<close> are the errors the API server answers with besides those the namespaces imply.
\<close>

section \<open>The index of a resource\<close>

type_synonym resource_index = "(string, (string, mc_request) gomap) gomap"

definition index_get :: "namespaced_name \<Rightarrow> resource_index \<Rightarrow> mc_request option" where
  "index_get key i =
     (case gget i (nn_namespace key) of
        None \<Rightarrow> None
      | Some obs \<Rightarrow> if length obs = 0 then None else gget obs (nn_name key))"

definition index_add :: "namespaced_name \<Rightarrow> mc_request \<Rightarrow> resource_index \<Rightarrow> resource_index" where
  "index_add key tgt i =
     (let obs = (case gget i (nn_namespace key) of None \<Rightarrow> [] | Some obs \<Rightarrow> obs)
      in gset (nn_namespace key) (gset (nn_name key) tgt obs) i)"

definition index_remove :: "namespaced_name \<Rightarrow> resource_index \<Rightarrow> resource_index" where
  "index_remove key i =
     (case gget i (nn_namespace key) of
        None \<Rightarrow> i
      | Some obs \<Rightarrow>
          (let obs = gdel (nn_name key) obs
           in if length obs = 0 then gdel (nn_namespace key) i
              else gset (nn_namespace key) obs i))"

definition lastEntry :: "(string, 'v) gomap \<Rightarrow> string \<Rightarrow> bool" where
  "lastEntry m key = (if length m \<noteq> 1 then length m = 0 else key \<in> set (gkeys m))"

section \<open>Namespaces of the target\<close>

type_synonym namespaces = "(string, bool) gomap"

record faults =
  get_fault :: "gerror option"
  create_fault :: "gerror option"
  delete_fault :: "gerror option"

definition assureNamespace :: "faults \<Rightarrow> string \<Rightarrow> namespaces \<Rightarrow> problem option \<times> namespaces" where
  "assureNamespace f ns spaces =
     (case get_fault f of
        Some err \<Rightarrow> (TemporaryProblem (Some err), spaces)
      | None \<Rightarrow>
          (case gget spaces ns of
             None \<Rightarrow>
               (case create_fault f of
                  Some err \<Rightarrow> (TemporaryProblem (Some err), spaces)
                | None \<Rightarrow> (TemporaryProblem None, gset ns False spaces))
           | Some deleting \<Rightarrow>
               (TemporaryProblem
                  (if deleting then Some (Errorf ''target namespace already deleting'' []) else None),
                spaces)))"

definition removeNamespace :: "faults \<Rightarrow> string \<Rightarrow> namespaces \<Rightarrow> problem option \<times> namespaces" where
  "removeNamespace f ns spaces =
     (case delete_fault f of
        Some err \<Rightarrow> (TemporaryProblem (Some err), spaces)
      | None \<Rightarrow> (None, if gget spaces ns = None then spaces else gset ns True spaces))"

section \<open>The mapping\<close>

record mapping_state =
  types :: "(group_kind, resource_index) gomap"
  spaces :: namespaces

definition ForResource :: "group_kind \<Rightarrow> mapping_state \<Rightarrow> mapping_state" where
  "ForResource kind m =
     (case gget (types m) kind of Some r \<Rightarrow> m | None \<Rightarrow> m\<lparr>types := gset kind [] (types m)\<rparr>)"

definition resource_at :: "group_kind \<Rightarrow> mapping_state \<Rightarrow> resource_index" where
  "resource_at kind m = (case gget (types m) kind of None \<Rightarrow> [] | Some r \<Rightarrow> r)"

definition GetOriginal :: "group_kind \<Rightarrow> namespaced_name \<Rightarrow> mapping_state \<Rightarrow> mc_request option" where
  "GetOriginal kind key m = index_get key (resource_at kind m)"

definition SetOriginal ::
  "faults \<Rightarrow> group_kind \<Rightarrow> namespaced_name \<Rightarrow> mc_request \<Rightarrow> mapping_state \<Rightarrow>
   problem option \<times> mapping_state" where
  "SetOriginal f kind key tgt m =
     (let (p, sp) = assureNamespace f (nn_namespace key) (spaces m);
          m = m\<lparr>spaces := sp\<rparr>
      in if p \<noteq> None then (p, m)
         else (None, m\<lparr>types := gset kind (index_add key tgt (resource_at kind m)) (types m)\<rparr>))"

definition others_empty :: "group_kind \<Rightarrow> string \<Rightarrow> mapping_state \<Rightarrow> bool" where
  "others_empty kind ns m \<longleftrightarrow>
     \<not> list_ex (\<lambda>(k, entries). k \<noteq> kind \<and> length entries \<noteq> 0 \<and>
          (case gget entries ns of None \<Rightarrow> False | Some obs \<Rightarrow> length obs > 0)) (types m)"

definition RemoveOriginal ::
  "faults \<Rightarrow> group_kind \<Rightarrow> namespaced_name \<Rightarrow> mapping_state \<Rightarrow> problem option \<times> mapping_state" where
  "RemoveOriginal f kind key m =
     (let empty' = others_empty kind (nn_namespace key) m;
          obs = (case gget (resource_at kind m) (nn_namespace key) of None \<Rightarrow> [] | Some obs \<Rightarrow> obs);
          (p, sp) = (if empty' \<and> lastEntry obs (nn_name key)
                     then removeNamespace f (nn_namespace key) (spaces m) else (None, spaces m));
          m = m\<lparr>spaces := sp\<rparr>
      in if p \<noteq> None then (p, m)
         else (None, m\<lparr>types := gset kind (index_remove key (resource_at kind m)) (types m)\<rparr>))"

section \<open>Histories\<close>

text \<open>
  What happens over time: resources are asked for, originals are set and removed under any
  faults, and the API server finishes the deletion of a namespace.
\<close>

datatype event =
    Ask group_kind
  | SetO faults group_kind namespaced_name mc_request
  | RemoveO faults group_kind namespaced_name
  | Finalize string

fun happen :: "event \<Rightarrow> mapping_state \<Rightarrow> mapping_state" where
  "happen (Ask kind) m = ForResource kind m"
| "happen (SetO f kind key tgt) m = snd (SetOriginal f kind key tgt m)"
| "happen (RemoveO f kind key) m = snd (RemoveOriginal f kind key m)"
| "happen (Finalize ns) m =
     (if gget (spaces m) ns = Some True then m\<lparr>spaces := gdel ns (spaces m)\<rparr> else m)"

definition empty_mapping :: "namespaces \<Rightarrow> mapping_state" where
  "empty_mapping sp = \<lparr>types = [], spaces = sp\<rparr>"

definition index_ok :: "resource_index \<Rightarrow> bool" where
  "index_ok i \<longleftrightarrow> (\<forall>ns obs. gget i ns = Some obs \<longrightarrow> obs \<noteq> [] \<and> gwf obs)"

definition mapping_ok :: "mapping_state \<Rightarrow> bool" where
  "mapping_ok m \<longleftrightarrow> gwf (types m) \<and> (\<forall>kind. index_ok (resource_at kind m)) \<and>
     (\<forall>kind key. GetOriginal kind key m \<noteq> None \<longrightarrow> gget (spaces m) (nn_namespace key) = Some False)"

lemma index_ok_Nil [simp]: "index_ok []"
  by (simp add: index_ok_def)

lemma index_ok_add: "index_ok i \<Longrightarrow> index_ok (index_add key tgt i)"
  by (auto simp: index_ok_def index_add_def Let_def split: option.splits)

lemma index_ok_remove: "index_ok i \<Longrightarrow> index_ok (index_remove key i)"
  by (auto simp: index_ok_def index_remove_def Let_def split: option.splits if_splits)

lemma index_get_eq:
  "index_get key i =
     (case gget i (nn_namespace key) of None \<Rightarrow> None | Some obs \<Rightarrow> gget obs (nn_name key))"
  by (simp add: index_get_def split: option.splits)

lemma key_eq: "k = key \<longleftrightarrow> nn_namespace k = nn_namespace key \<and> nn_name k = nn_name key"
  for k key :: namespaced_name
  by (cases k; cases key) simp

lemma index_get_add:
  "index_get k (index_add key tgt i) = (if k = key then Some tgt else index_get k i)"
  by (simp add: index_get_eq index_add_def Let_def key_eq split: option.splits)

lemma index_get_remove: "index_get k (index_remove key i) = (if k = key then None else index_get k i)"
proof (cases "gget i (nn_namespace key)")
  case None
  then show ?thesis
    by (simp add: index_get_eq index_remove_def key_eq)
next
  case (Some obs)
  show ?thesis
  proof (cases "gdel (nn_name key) obs = []")
    case True
    then have gone: "gget (gdel (nn_name key) obs) n = None" for n
      by simp
    have "gget obs n = None" if "n \<noteq> nn_name key" for n
      using that gone [of n] by simp
    with True Some show ?thesis
      by (auto simp: index_get_eq index_remove_def key_eq)
  next
    case False
    with Some show ?thesis
      by (simp add: index_get_eq index_remove_def key_eq)
  qed
qed

lemma resource_at_gset [simp]:
  "resource_at k (m\<lparr>types := gset k' i (types m)\<rparr>) = (if k = k' then i else resource_at k m)"
  "resource_at k (m\<lparr>spaces := sp\<rparr>) = resource_at k m"
  by (simp_all add: resource_at_def)

lemma resource_at_spaces [simp]:
  "resource_at k (m\<lparr>spaces := sp, types := gset k' i (types m)\<rparr>) = (if k = k' then i else resource_at k m)"
  by (simp add: resource_at_def)

lemma ForResource_at [simp]: "resource_at k (ForResource kind m) = resource_at k m"
  by (simp add: ForResource_def resource_at_def split: option.splits)

lemma assure_ok:
  "assureNamespace f ns sp = (None, sp') \<Longrightarrow>
     gget sp' ns = Some False \<and> (\<forall>n. gget sp n = Some False \<longrightarrow> gget sp' n = Some False)"
  by (auto simp: assureNamespace_def TemporaryProblem_def split: option.splits if_splits)

lemma assure_keeps: "assureNamespace f ns sp = (p, sp') \<Longrightarrow> p \<noteq> None \<Longrightarrow> sp' = sp"
  by (auto simp: assureNamespace_def TemporaryProblem_def split: option.splits if_splits)

lemma remove_keeps:
  "removeNamespace f ns sp = (p, sp') \<Longrightarrow>
     (\<forall>n. n \<noteq> ns \<longrightarrow> gget sp' n = gget sp n) \<and> (p \<noteq> None \<longrightarrow> sp' = sp)"
  by (auto simp: removeNamespace_def TemporaryProblem_def split: option.splits if_splits)

text \<open>A namespace that may be removed has no original besides the one being removed.\<close>

lemma others_empty_unused:
  assumes "gwf (types m)" "others_empty kind ns m" "kind' \<noteq> kind" "nn_namespace k = ns"
  shows "GetOriginal kind' k m = None"
proof (cases "gget (types m) kind'")
  case (Some entries)
  then have "(kind', entries) \<in> set (types m)"
    using assms(1) by (simp add: gget_Some_iff)
  then have "entries = [] \<or> (case gget entries ns of None \<Rightarrow> False | Some obs \<Rightarrow> length obs > 0) = False"
    using assms(2,3) by (fastforce simp: others_empty_def list_ex_iff)
  then show ?thesis
    using Some assms(4) by (auto simp: GetOriginal_def resource_at_def index_get_eq split: option.splits)
qed (simp add: GetOriginal_def resource_at_def index_get_def)

lemma lastEntry_unused:
  assumes "lastEntry (case gget i (nn_namespace key) of None \<Rightarrow> [] | Some obs \<Rightarrow> obs) (nn_name key)"
    and "nn_namespace k = nn_namespace key" "k \<noteq> key"
  shows "index_get k i = None"
proof (cases "gget i (nn_namespace key)")
  case (Some obs)
  then have "obs = [] \<or> (\<exists>v. obs = [(nn_name key, v)])"
    using assms(1) by (cases obs; cases "tl obs") (auto simp: lastEntry_def split: if_splits)
  then show ?thesis
    using Some assms(2,3) by (auto simp: index_get_eq key_eq)
qed (use assms(2) in \<open>simp add: index_get_eq\<close>)

lemma GetOriginal_Set:
  "SetOriginal f kind key tgt m = (p, m') \<Longrightarrow>
     GetOriginal kind' k m' =
       (if p = None \<and> kind' = kind \<and> k = key then Some tgt else GetOriginal kind' k m)"
  by (auto simp: SetOriginal_def GetOriginal_def index_get_add Let_def split: prod.splits if_splits)

lemma GetOriginal_Remove:
  "RemoveOriginal f kind key m = (p, m') \<Longrightarrow>
     GetOriginal kind' k m' =
       (if p = None \<and> kind' = kind \<and> k = key then None else GetOriginal kind' k m)"
  by (auto simp: RemoveOriginal_def GetOriginal_def index_get_remove Let_def split: prod.splits if_splits)

lemma mapping_ok_Set:
  assumes ok: "mapping_ok m" and set: "SetOriginal f kind key tgt m = (p, m')"
  shows "mapping_ok m'"
proof -
  obtain p1 sp where a: "assureNamespace f (nn_namespace key) (spaces m) = (p1, sp)"
    by (cases "assureNamespace f (nn_namespace key) (spaces m)")
  show ?thesis
  proof (cases p1)
    case None
    then have m': "p = None" "m' = m\<lparr>spaces := sp, types := gset kind (index_add key tgt (resource_at kind m)) (types m)\<rparr>"
      using set a by (simp_all add: SetOriginal_def Let_def)
    have sp: "gget sp (nn_namespace key) = Some False" "gget (spaces m) n = Some False \<Longrightarrow> gget sp n = Some False" for n
      using assure_ok [of f _ "spaces m" sp] a None by auto
    have "gget (spaces m') (nn_namespace k) = Some False" if "GetOriginal kind' k m' \<noteq> None" for kind' k
      using that sp ok GetOriginal_Set [OF set, of kind' k]
      by (auto simp: m' mapping_ok_def split: if_splits)
    moreover have "gwf (types m')" "\<forall>kind. index_ok (resource_at kind m')"
      using ok by (auto simp: m' mapping_ok_def index_ok_add)
    ultimately show ?thesis
      by (simp add: mapping_ok_def)
  next
    case (Some x)
    then have "m' = m"
      using set a assure_keeps [OF a] by (simp add: SetOriginal_def Let_def)
    then show ?thesis
      using ok by simp
  qed
qed

lemma RemoveOriginal_spaces:
  assumes "gwf (types m)" "RemoveOriginal f kind key m = (p, m')"
  shows "spaces m' = spaces m \<or> p = None \<and>
    (\<forall>n. n \<noteq> nn_namespace key \<longrightarrow> gget (spaces m') n = gget (spaces m) n) \<and>
    (\<forall>kind' k. nn_namespace k = nn_namespace key \<longrightarrow> GetOriginal kind' k m' = None)"
proof -
  let ?obs = "case gget (resource_at kind m) (nn_namespace key) of None \<Rightarrow> [] | Some obs \<Rightarrow> obs"
  show ?thesis
  proof (cases "others_empty kind (nn_namespace key) m \<and> lastEntry ?obs (nn_name key)")
    case True
    obtain p1 sp where r: "removeNamespace f (nn_namespace key) (spaces m) = (p1, sp)"
      by (cases "removeNamespace f (nn_namespace key) (spaces m)")
    show ?thesis
    proof (cases p1)
      case None
      then have "p = None" "spaces m' = sp"
        using assms(2) True r by (auto simp: RemoveOriginal_def Let_def)
      moreover have "GetOriginal kind' k m' = None" if "nn_namespace k = nn_namespace key" for kind' k
        using that True others_empty_unused [OF assms(1), of kind "nn_namespace key" kind' k]
          lastEntry_unused [of "resource_at kind m" key k] GetOriginal_Remove [OF assms(2), of kind' k]
          \<open>p = None\<close>
        by (cases "kind' = kind") (auto simp: GetOriginal_def)
      ultimately show ?thesis
        using remove_keeps [OF r] by blast
    next
      case (Some x)
      then show ?thesis
        using assms(2) True r remove_keeps [OF r] by (simp add: RemoveOriginal_def Let_def)
    qed
  next
    case False
    then show ?thesis
      using assms(2) by (auto simp: RemoveOriginal_def Let_def)
  qed
qed

lemma mapping_ok_Remove:
  assumes ok: "mapping_ok m" and rm: "RemoveOriginal f kind key m = (p, m')"
  shows "mapping_ok m'"
proof -
  have wf: "gwf (types m)"
    using ok by (simp add: mapping_ok_def)
  have "gwf (types m') \<and> (\<forall>kind. index_ok (resource_at kind m'))"
    using ok rm by (auto simp: RemoveOriginal_def Let_def mapping_ok_def index_ok_remove
        split: prod.splits if_splits)
  moreover have "gget (spaces m') (nn_namespace k) = Some False" if k: "GetOriginal kind' k m' \<noteq> None" for kind' k
  proof -
    have "GetOriginal kind' k m \<noteq> None"
      using k GetOriginal_Remove [OF rm, of kind' k] by (auto split: if_splits)
    then have "gget (spaces m) (nn_namespace k) = Some False"
      using ok by (simp add: mapping_ok_def)
    then show ?thesis
      using RemoveOriginal_spaces [OF wf rm] k by metis
  qed
  ultimately show ?thesis
    by (simp add: mapping_ok_def)
qed

lemma mapping_ok_happen: "mapping_ok m \<Longrightarrow> mapping_ok (happen e m)"
proof (cases e)
  case (Ask kind)
  moreover assume "mapping_ok m"
  ultimately show ?thesis
    by (auto simp: mapping_ok_def GetOriginal_def) (auto simp: ForResource_def split: option.splits)
next
  case (SetO f kind key tgt)
  moreover assume "mapping_ok m"
  ultimately show ?thesis
    using mapping_ok_Set by (cases "SetOriginal f kind key tgt m") auto
next
  case (RemoveO f kind key)
  moreover assume "mapping_ok m"
  ultimately show ?thesis
    using mapping_ok_Remove by (cases "RemoveOriginal f kind key m") auto
next
  case (Finalize ns)
  moreover assume "mapping_ok m"
  ultimately show ?thesis
    by (auto simp: mapping_ok_def GetOriginal_def) (metis not_None_eq option.inject)
qed

lemma mapping_ok_fold: "mapping_ok m \<Longrightarrow> mapping_ok (fold happen es m)"
  by (induction es arbitrary: m) (simp_all add: mapping_ok_happen)

lemma mapping_ok_empty [simp]: "mapping_ok (empty_mapping sp)"
  by (simp add: mapping_ok_def empty_mapping_def resource_at_def GetOriginal_def index_get_def)

section \<open>The lock\<close>

text \<open>
  The calls as sequences of steps on the \<open>sync.RWMutex\<close> of the mapping. \<open>Lookup k\<close> is the
  look-up under the read lock with its early return; \<open>Insert k\<close> the second look-up and the
  insertion under the write lock; \<open>Access\<close> stands for the work of the other operations.
\<close>

datatype instr = RLock | RUnlock | Lock | Unlock | Lookup group_kind | Insert group_kind | Access

datatype operation = CallForResource group_kind | CallGetOriginal | CallSetOriginal | CallRemoveOriginal

fun program :: "operation \<Rightarrow> instr list" where
  "program (CallForResource k) = [RLock, Lookup k, RUnlock, Lock, Insert k, Unlock]"
| "program CallGetOriginal = [RLock, Access, RUnlock]"
| "program CallSetOriginal = [Lock, Access, Unlock]"
| "program CallRemoveOriginal = [Lock, Access, Unlock]"

record lock_state =
  readers :: nat
  writer :: bool
  kinds :: "group_kind set"
  threads :: "nat \<Rightarrow> instr list"

inductive lock_step :: "lock_state \<Rightarrow> lock_state \<Rightarrow> bool" where
  call: "threads s t = [] \<Longrightarrow> lock_step s (s\<lparr>threads := (threads s)(t := program c)\<rparr>)"
| rlock: "threads s t = RLock # p \<Longrightarrow> \<not> writer s \<Longrightarrow>
     lock_step s (s\<lparr>readers := Suc (readers s), threads := (threads s)(t := p)\<rparr>)"
| runlock: "threads s t = RUnlock # p \<Longrightarrow>
     lock_step s (s\<lparr>readers := readers s - 1, threads := (threads s)(t := p)\<rparr>)"
| lock: "threads s t = Lock # p \<Longrightarrow> readers s = 0 \<Longrightarrow> \<not> writer s \<Longrightarrow>
     lock_step s (s\<lparr>writer := True, threads := (threads s)(t := p)\<rparr>)"
| unlock: "threads s t = Unlock # p \<Longrightarrow>
     lock_step s (s\<lparr>writer := False, threads := (threads s)(t := p)\<rparr>)"
| hit: "threads s t = Lookup k # p \<Longrightarrow> k \<in> kinds s \<Longrightarrow>
     lock_step s (s\<lparr>threads := (threads s)(t := [])\<rparr>)"
| miss: "threads s t = Lookup k # p \<Longrightarrow> k \<notin> kinds s \<Longrightarrow>
     lock_step s (s\<lparr>threads := (threads s)(t := p)\<rparr>)"
| insert: "threads s t = Insert k # p \<Longrightarrow>
     lock_step s (s\<lparr>kinds := Set.insert k (kinds s), threads := (threads s)(t := p)\<rparr>)"
| access: "threads s t = Access # p \<Longrightarrow>
     lock_step s (s\<lparr>threads := (threads s)(t := p)\<rparr>)"

definition lock_init :: lock_state where
  "lock_init = \<lparr>readers = 0, writer = False, kinds = {}, threads = (\<lambda>_. [])\<rparr>"

text \<open>
  A thread holds the read lock between its \<open>RLock\<close> and its \<open>RUnlock\<close>. The readers that are
  counted beyond the holders are never given back.
\<close>

definition holds :: "instr list \<Rightarrow> bool" where
  "holds p \<longleftrightarrow> RUnlock \<in> set p \<and> hd p \<noteq> RLock"

definition legal :: "instr list \<Rightarrow> bool" where
  "legal p \<longleftrightarrow> (\<exists>c. suffix p (program c))"

definition leaked :: "nat \<Rightarrow> lock_state \<Rightarrow> bool" where
  "leaked n s \<longleftrightarrow> finite {t. holds (threads s t)} \<and> (\<forall>t. legal (threads s t)) \<and>
     card {t. holds (threads s t)} + n \<le> readers s"

lemma legal_simps [simp]: "legal []" "legal (program c)" "legal (i # p) \<Longrightarrow> legal p"
  by (auto simp: legal_def dest: suffix_ConsD)

lemma legal_cases:
  "legal (RLock # p) \<Longrightarrow> RUnlock \<in> set p \<and> hd p \<noteq> RLock"
  "legal (RUnlock # p) \<Longrightarrow> RUnlock \<notin> set p"
  "legal (Lookup k # p) \<Longrightarrow> holds p"
  "legal (Access # p) \<Longrightarrow> holds p \<longleftrightarrow> RUnlock \<in> set p"
  "legal (Lock # p) \<Longrightarrow> RUnlock \<notin> set p"
  "legal (Unlock # p) \<Longrightarrow> RUnlock \<notin> set p"
  "legal (Insert k # p) \<Longrightarrow> RUnlock \<notin> set p"
  unfolding legal_def by (elim exE, rename_tac c, case_tac c; auto simp: suffix_Cons holds_def)+

lemma holds_simps [simp]:
  "\<not> holds []" "\<not> holds (RLock # p)" "holds (RUnlock # p)" "\<not> holds (program c)"
  by (simp_all add: holds_def) (cases c; simp)

text \<open>One thread moves on: how many threads hold the read lock afterwards.\<close>

lemma holders_update:
  assumes "finite {t. holds (f t)}"
  shows "finite {t'. holds ((f(t := p)) t')} \<and>
    card {t'. holds ((f(t := p)) t')} =
      card {t. holds (f t)} - (if holds (f t) then 1 else 0) + (if holds p then 1 else 0)"
proof -
  have "{t'. holds ((f(t := p)) t')} = (if holds p then insert t else id) ({t. holds (f t)} - {t})"
    by auto
  moreover have "card ({t. holds (f t)} - {t}) = card {t. holds (f t)} - (if holds (f t) then 1 else 0)"
    using assms by (simp add: card_Diff_singleton)
  moreover have "holds (f t) \<Longrightarrow> insert t {t. holds (f t)} = {t. holds (f t)}"
    "holds (f t) \<Longrightarrow> 0 < card {t. holds (f t)}"
    using assms by (auto simp: card_gt_0_iff)
  ultimately show ?thesis
    using assms by auto
qed

lemma holder_counts: "finite {t. holds (f t)} \<Longrightarrow> holds (f t) \<Longrightarrow> 0 < card {t. holds (f t)}"
  by (auto simp: card_gt_0_iff)

lemma leaked_move:
  assumes "leaked n s" "legal p" "threads s' = (threads s)(t := p)"
    and "readers s + (if holds p then 1 else 0) \<le> readers s' + (if holds (threads s t) then 1 else 0)"
  shows "leaked n s'"
proof -
  have fin: "finite {t. holds (threads s t)}" and le: "card {t. holds (threads s t)} + n \<le> readers s"
    using assms(1) by (simp_all add: leaked_def)
  have "card {t'. holds (threads s' t')} + n \<le> readers s'"
    using holders_update [OF fin, of t p] holder_counts [OF fin, of t] le assms(4)
    unfolding assms(3) by (auto split: if_splits)
  moreover have "finite {t'. holds (threads s' t')}"
    using holders_update [OF fin, of t p] unfolding assms(3) by blast
  moreover have "\<forall>t'. legal (threads s' t')"
    using assms(1,2) by (simp add: assms(3) leaked_def)
  ultimately show ?thesis
    by (simp add: leaked_def)
qed

lemma leaked_legal: "leaked n s \<Longrightarrow> threads s t = q \<Longrightarrow> legal q"
  by (metis leaked_def)

lemma leaked_step:
  assumes "lock_step s s'" "leaked n s"
  shows "leaked n s'"
  using assms(1)
proof cases
  case (call t c)
  then show ?thesis
    by (intro leaked_move [OF assms(2), of "program c" _ t]) simp_all
next
  case (rlock t p)
  note l = leaked_legal [OF assms(2) rlock(2)]
  show ?thesis
    by (rule leaked_move [OF assms(2) legal_simps(3) [OF l], of _ t])
      (simp_all add: rlock)
next
  case (runlock t p)
  note l = leaked_legal [OF assms(2) runlock(2)]
  have "\<not> holds p"
    using legal_cases(2) [OF l] by (simp add: holds_def)
  then show ?thesis
    by (intro leaked_move [OF assms(2) legal_simps(3) [OF l], of _ t])
      (simp_all add: runlock)
next
  case (lock t p)
  note l = leaked_legal [OF assms(2) lock(2)]
  have "\<not> holds p"
    using legal_cases(5) [OF l] by (simp add: holds_def)
  then show ?thesis
    by (intro leaked_move [OF assms(2) legal_simps(3) [OF l], of _ t])
      (simp_all add: lock)
next
  case (unlock t p)
  note l = leaked_legal [OF assms(2) unlock(2)]
  have "\<not> holds p"
    using legal_cases(6) [OF l] by (simp add: holds_def)
  then show ?thesis
    by (intro leaked_move [OF assms(2) legal_simps(3) [OF l], of _ t])
      (simp_all add: unlock)
next
  case (hit t k p)
  then show ?thesis
    by (intro leaked_move [OF assms(2), of "[]" _ t]) simp_all
next
  case (miss t k p)
  note l = leaked_legal [OF assms(2) miss(2)]
  have "holds (Lookup k # p)"
    using legal_cases(3) [OF l] by (simp add: holds_def)
  then show ?thesis
    by (intro leaked_move [OF assms(2) legal_simps(3) [OF l], of _ t])
      (simp_all add: miss)
next
  case (insert t k p)
  note l = leaked_legal [OF assms(2) insert(2)]
  have "\<not> holds p"
    using legal_cases(7) [OF l] by (simp add: holds_def)
  then show ?thesis
    by (intro leaked_move [OF assms(2) legal_simps(3) [OF l], of _ t])
      (simp_all add: insert)
next
  case (access t p)
  note l = leaked_legal [OF assms(2) access(2)]
  have "holds (Access # p) \<longleftrightarrow> holds p"
    using legal_cases(4) [OF l] by (simp add: holds_def)
  then show ?thesis
    by (intro leaked_move [OF assms(2) legal_simps(3) [OF l], of _ t])
      (simp_all add: access)
qed

lemma leaked_steps: "lock_step\<^sup>*\<^sup>* s s' \<Longrightarrow> leaked n s \<Longrightarrow> leaked n s'"
  by (induction rule: rtranclp_induct) (auto dest: leaked_step)

inductive_cases lock_stepE: "lock_step s s'"

lemma leaked_blocks:
  assumes "lock_step s s'" "leaked (Suc n) s" "threads s t = Lock # p"
  shows "threads s' t = Lock # p"
proof -
  have "readers s \<noteq> 0"
    using assms(2) by (auto simp: leaked_def)
  with assms(1,3) show ?thesis
    by (cases rule: lock_stepE) auto
qed

lemma leaked_blocks_steps:
  assumes "lock_step\<^sup>*\<^sup>* s s'" "leaked (Suc n) s" "threads s t = Lock # p"
  shows "threads s' t = Lock # p"
  using assms
proof (induction rule: rtranclp_induct)
  case (step y z)
  then show ?case
    using leaked_blocks leaked_steps by blast
qed simp

text \<open>A thread that runs alone executes its program.\<close>

definition after_hit :: "group_kind \<Rightarrow> lock_state" where
  "after_hit k = \<lparr>readers = 1, writer = False, kinds = {k}, threads = (\<lambda>_. [])\<rparr>"

lemma ask_twice: "lock_step\<^sup>*\<^sup>* lock_init (after_hit k)"
proof -
  let ?s = "\<lambda>r w K p. \<lparr>readers = r, writer = w, kinds = K, threads = (\<lambda>_. [])(0 := p)\<rparr>"
  let ?go = "\<lambda>a b. lock_step a b"
  have idle: "(\<lambda>_. []) = (\<lambda>_ :: nat. [] :: instr list)(0 := [])"
    by auto
  have "lock_step\<^sup>*\<^sup>* lock_init (?s 0 False {} (program (CallForResource k)))"
    using call [of lock_init 0 "CallForResource k"] by (simp add: lock_init_def r_into_rtranclp)
  also have "?go (?s 0 False {} (program (CallForResource k))) (?s 1 False {} [Lookup k, RUnlock, Lock, Insert k, Unlock])"
    using rlock [of "?s 0 False {} (program (CallForResource k))" 0] by simp
  also have "?go (?s 1 False {} [Lookup k, RUnlock, Lock, Insert k, Unlock]) (?s 1 False {} [RUnlock, Lock, Insert k, Unlock])"
    using miss [of "?s 1 False {} [Lookup k, RUnlock, Lock, Insert k, Unlock]" 0] by simp
  also have "?go (?s 1 False {} [RUnlock, Lock, Insert k, Unlock]) (?s 0 False {} [Lock, Insert k, Unlock])"
    using runlock [of "?s 1 False {} [RUnlock, Lock, Insert k, Unlock]" 0] by simp
  also have "?go (?s 0 False {} [Lock, Insert k, Unlock]) (?s 0 True {} [Insert k, Unlock])"
    using lock [of "?s 0 False {} [Lock, Insert k, Unlock]" 0] by simp
  also have "?go (?s 0 True {} [Insert k, Unlock]) (?s 0 True {k} [Unlock])"
    using insert [of "?s 0 True {} [Insert k, Unlock]" 0] by simp
  also have "?go (?s 0 True {k} [Unlock]) (?s 0 False {k} [])"
    using unlock [of "?s 0 True {k} [Unlock]" 0] by simp
  also have "?go (?s 0 False {k} []) (?s 0 False {k} (program (CallForResource k)))"
    using call [of "?s 0 False {k} []" 0 "CallForResource k"] by simp
  also have "?go (?s 0 False {k} (program (CallForResource k))) (?s 1 False {k} [Lookup k, RUnlock, Lock, Insert k, Unlock])"
    using rlock [of "?s 0 False {k} (program (CallForResource k))" 0] by simp
  also have "?go (?s 1 False {k} [Lookup k, RUnlock, Lock, Insert k, Unlock]) (?s 1 False {k} [])"
    using hit [of "?s 1 False {k} [Lookup k, RUnlock, Lock, Insert k, Unlock]" 0] by simp
  finally show ?thesis
    using idle by (simp add: after_hit_def)
qed

lemma leaked_after_hit: "leaked 1 (after_hit k)"
  by (simp add: leaked_def after_hit_def)

section \<open>Properties\<close>

text \<open>
  C10: whatever sequence of settings, removals, faults and finished deletions happens, the
  namespace of every recorded original exists in the target and is not being deleted.
  Setting records exactly the given original and removing forgets exactly it, or, when a
  problem is reported, nothing changes; and a namespace is deleted only when no resource
  has an original in it any more.
\<close>

theorem replication_namespaces:
  assumes "m = fold happen es (empty_mapping sp)"
  shows "(GetOriginal kind key m \<noteq> None \<longrightarrow> gget (spaces m) (nn_namespace key) = Some False) \<and>
    (case SetOriginal f kind key tgt m of (p, m') \<Rightarrow>
       GetOriginal kind' k m' =
         (if p = None \<and> kind' = kind \<and> k = key then Some tgt else GetOriginal kind' k m)) \<and>
    (case RemoveOriginal f kind key m of (p, m') \<Rightarrow>
       GetOriginal kind' k m' =
         (if p = None \<and> kind' = kind \<and> k = key then None else GetOriginal kind' k m) \<and>
       (spaces m' \<noteq> spaces m \<and> nn_namespace k = nn_namespace key \<longrightarrow> GetOriginal kind' k m' = None))"
proof -
  have ok: "mapping_ok m"
    by (simp add: assms mapping_ok_fold)
  then have "gwf (types m)"
    by (simp add: mapping_ok_def)
  then have gone: "RemoveOriginal f kind key m = (p, m') \<Longrightarrow> spaces m' \<noteq> spaces m \<Longrightarrow>
      nn_namespace k = nn_namespace key \<Longrightarrow> GetOriginal kind' k m' = None" for p m'
    using RemoveOriginal_spaces by blast
  show ?thesis
    using ok gone GetOriginal_Set [of f kind key tgt m] GetOriginal_Remove [of f kind key m]
    by (cases "SetOriginal f kind key tgt m"; cases "RemoveOriginal f kind key m")
      (simp add: mapping_ok_def)
qed

theorem replication_namespaces_witness:
  "let key = \<lparr>nn_namespace = ''t'', nn_name = ''o''\<rparr>; kind = \<lparr>gk_group = [], gk_kind = ''Secret''\<rparr>;
       none = \<lparr>get_fault = None, create_fault = None, delete_fault = None\<rparr>;
       m = fold happen [SetO none kind key \<lparr>mc_cluster = ''c'', mc_object = key\<rparr>] (empty_mapping [])
   in GetOriginal kind key m \<noteq> None \<and> gget (spaces m) ''t'' = Some False"
proof -
  let ?key = "\<lparr>nn_namespace = ''t'', nn_name = ''o''\<rparr>"
  let ?kind = "\<lparr>gk_group = [], gk_kind = ''Secret''\<rparr>"
  let ?none = "\<lparr>get_fault = None, create_fault = None, delete_fault = None\<rparr>"
  let ?tgt = "\<lparr>mc_cluster = ''c'', mc_object = ?key\<rparr>"
  let ?m = "fold happen [SetO ?none ?kind ?key ?tgt] (empty_mapping [])"
  have "GetOriginal ?kind ?key ?m \<noteq> None"
    by (simp add: SetOriginal_def assureNamespace_def TemporaryProblem_def empty_mapping_def
        GetOriginal_def resource_at_def index_get_add index_add_def index_get_eq)
  then show ?thesis
    using replication_namespaces [of ?m "[SetO ?none ?kind ?key ?tgt]" "[]" ?kind ?key]
    by (simp only: Let_def) auto
qed

text \<open>
  Asking for the resource of a kind that is already known returns with the read lock
  still held. From then on, in every run of any number of threads, a thread that is to take
  the write lock, to set or remove an original or to add another kind, waits for ever.
\<close>

theorem replication_deadlock:
  assumes "lock_step\<^sup>*\<^sup>* (after_hit k) s" "threads s t = Lock # p" "lock_step\<^sup>*\<^sup>* s s'"
  shows "lock_step\<^sup>*\<^sup>* lock_init (after_hit k) \<and> threads s' t = Lock # p"
proof
  show "lock_step\<^sup>*\<^sup>* lock_init (after_hit k)"
    by (rule ask_twice)
  have "leaked (Suc 0) s"
    using leaked_steps [OF assms(1)] leaked_after_hit by simp
  then show "threads s' t = Lock # p"
    using leaked_blocks_steps assms(2,3) by blast
qed

theorem replication_deadlock_witness:
  "\<exists>s. lock_step\<^sup>*\<^sup>* lock_init s \<and> threads s 7 = program CallSetOriginal \<and>
     (\<forall>s'. lock_step\<^sup>*\<^sup>* s s' \<longrightarrow> threads s' 7 = program CallSetOriginal)"
proof -
  let ?k = "\<lparr>gk_group = [], gk_kind = ''Secret''\<rparr>"
  let ?s = "(after_hit ?k)\<lparr>threads := (threads (after_hit ?k))(7 := program CallSetOriginal)\<rparr>"
  have "lock_step (after_hit ?k) ?s"
    by (rule call) (simp add: after_hit_def)
  then have s: "lock_step\<^sup>*\<^sup>* (after_hit ?k) ?s"
    by blast
  have t: "threads ?s 7 = Lock # [Access, Unlock]"
    by simp
  have "lock_step\<^sup>*\<^sup>* lock_init ?s"
    using replication_deadlock [OF s t rtranclp.rtrancl_refl] s by simp
  moreover have "threads s' 7 = program CallSetOriginal" if "lock_step\<^sup>*\<^sup>* ?s s'" for s'
    using replication_deadlock [OF s t that] by simp
  ultimately show ?thesis
    by (intro exI [of _ ?s]) simp
qed

end
