(* ===== verification/Enqueue.thy ===== *)
theory Enqueue
  imports Names Mappings
begin

text \<open>
  How requests reach the work queues: the enqueue multiplexer (package enqueue), the views
  of a queue for one cluster and for many clusters (controller/helper/queue.go), and the
  filtering and completion of requests (controller/helper/filter.go, request.go).

  A work queue belongs to client-go: it is a state with the operations of \<open>queue_ops\<close>, both
  parameters of the model.
\<close>

section \<open>Views of a work queue\<close>

record ('q, 'r) queue_ops =
  q_add :: "'r \<Rightarrow> 'q \<Rightarrow> 'q"
  q_get :: "'q \<Rightarrow> ('r \<times> bool) \<times> 'q"
  q_done :: "'r \<Rightarrow> 'q \<Rightarrow> 'q"
  q_add_after :: "'r \<Rightarrow> int \<Rightarrow> 'q \<Rightarrow> 'q"
  q_add_rate_limited :: "'r \<Rightarrow> 'q \<Rightarrow> 'q"
  q_forget :: "'r \<Rightarrow> 'q \<Rightarrow> 'q"
  q_num_requeues :: "'r \<Rightarrow> 'q \<Rightarrow> int"

definition mc_req :: "string \<Rightarrow> namespaced_name \<Rightarrow> mc_request" where
  "mc_req c item = \<lparr>mc_cluster = c, mc_object = item\<rparr>"

definition MapQueueMCtoCR ::
  "string \<Rightarrow> ('q, mc_request) queue_ops \<Rightarrow> ('q, namespaced_name) queue_ops" where
  "MapQueueMCtoCR c q =
     \<lparr>q_add = (\<lambda>item. q_add q (mc_req c item)),
      q_get = (\<lambda>s. case q_get q s of ((i, sd), s) \<Rightarrow> ((mc_object i, sd), s)),
      q_done = (\<lambda>item. q_done q (mc_req c item)),
      q_add_after = (\<lambda>item. q_add_after q (mc_req c item)),
      q_add_rate_limited = (\<lambda>item. q_add_rate_limited q (mc_req c item)),
      q_forget = (\<lambda>item. q_forget q (mc_req c item)),
      q_num_requeues = (\<lambda>item. q_num_requeues q (mc_req c item))\<rparr>"

definition queue_filter :: "string \<Rightarrow> mc_request \<Rightarrow> bool" where
  "queue_filter c item \<longleftrightarrow> mc_cluster item = c \<or> mc_cluster item = []"

definition MapQueueCRtoMC ::
  "string \<Rightarrow> ('q, namespaced_name) queue_ops \<Rightarrow> ('q, mc_request) queue_ops" where
  "MapQueueCRtoMC c q =
     \<lparr>q_add = (\<lambda>item s. if queue_filter c item then q_add q (mc_object item) s else s),
      q_get = (\<lambda>s. case q_get q s of ((i, sd), s) \<Rightarrow> ((mc_req c i, sd), s)),
      q_done = (\<lambda>item s. if queue_filter c item then q_done q (mc_object item) s else s),
      q_add_after = (\<lambda>item d s. if queue_filter c item then q_add_after q (mc_object item) d s else s),
      q_add_rate_limited =
        (\<lambda>item s. if queue_filter c item then q_add_rate_limited q (mc_object item) s else s),
      q_forget = (\<lambda>item s. if queue_filter c item then q_forget q (mc_object item) s else s),
      q_num_requeues =
        (\<lambda>item s. if queue_filter c item then q_num_requeues q (mc_object item) s else 0)\<rparr>"

section \<open>Event handlers\<close>

text \<open>
  A handler of events reads the cluster of its context, if any, and changes a queue. The
  four methods have the kind of event as their first argument.
\<close>

datatype event_kind = Create | Update | Delete | Generic

type_synonym ('e, 'q, 'r) event_handler =
  "event_kind \<Rightarrow> string option \<Rightarrow> 'e \<Rightarrow> ('q, 'r) queue_ops \<Rightarrow> 'q \<Rightarrow> 'q"

definition MapHandlerCRtoMC ::
  "string \<Rightarrow> ('e, 'q, namespaced_name) event_handler \<Rightarrow> ('e, 'q, mc_request) event_handler" where
  "MapHandlerCRtoMC clusterName h = (\<lambda>k ctx e w. h k ctx e (MapQueueMCtoCR clusterName w))"

definition MapHandlerMCtoCR ::
  "string \<Rightarrow> ('e, 'q, mc_request) event_handler \<Rightarrow> ('e, 'q, namespaced_name) event_handler" where
  "MapHandlerMCtoCR cluster h = (\<lambda>k ctx e w. h k ctx e (MapQueueCRtoMC cluster w))"

definition AnnotateHandler ::
  "string \<Rightarrow> ('e, 'q, mc_request) event_handler \<Rightarrow> ('e, 'q, mc_request) event_handler" where
  "AnnotateHandler cluster h = (\<lambda>k ctx e w. h k (Some cluster) e w)"

definition AnnotateMapFuncWithCluster ::
  "(string \<Rightarrow> string) \<Rightarrow> (string \<Rightarrow> ('e, 'q, mc_request) event_handler) \<Rightarrow> string \<Rightarrow>
   ('e, 'q, mc_request) event_handler" where
  "AnnotateMapFuncWithCluster clusters_Get handlerFunc clusterName =
     AnnotateHandler (clusters_Get clusterName) (handlerFunc clusterName)"

section \<open>Requests\<close>

definition FilterCluster ::
  "(string \<Rightarrow> bool) option \<Rightarrow> ('o \<Rightarrow> mc_request list) \<Rightarrow> 'o \<Rightarrow> namespaced_name list" where
  "FilterCluster match fn obj =
     foldl (\<lambda>a r. if (case match of None \<Rightarrow> False | Some f \<Rightarrow> mc_cluster r \<noteq> [] \<and> \<not> f (mc_cluster r))
                  then a else a @ [mc_object r]) [] (fn obj)"

definition LiftRequest :: "string \<Rightarrow> namespaced_name \<Rightarrow> mc_request" where
  "LiftRequest clusterName request = \<lparr>mc_cluster = clusterName, mc_object = request\<rparr>"

definition CompleteRequest :: "string \<Rightarrow> mc_request \<Rightarrow> mc_request" where
  "CompleteRequest clusterName request =
     (if mc_cluster request \<noteq> [] then request else request\<lparr>mc_cluster := clusterName\<rparr>)"

definition CompleteRequestWithMappings :: "mappings \<Rightarrow> string \<Rightarrow> mc_request \<Rightarrow> mc_request" where
  "CompleteRequestWithMappings mp clusterName request =
     (if mc_cluster request \<noteq> [] then request\<lparr>mc_cluster := Mappings_Map mp (mc_cluster request)\<rparr>
      else request\<lparr>mc_cluster := clusterName\<rparr>)"

definition RequestConverterFactoryForClusterCompletion ::
  "mappings \<Rightarrow> string \<Rightarrow> mc_request \<Rightarrow> mc_request" where
  "RequestConverterFactoryForClusterCompletion mp =
     (if is_none mp then CompleteRequest else CompleteRequestWithMappings mp)"

section \<open>The multiplexer\<close>

text \<open>
  Queues are numbered. The multiplexer keeps for every kind the queues that were started on
  its source; \<open>mx_delivered\<close> records the rate-limited additions, oldest first. The kind of
  an object by the scheme and the creation of requests are parameters.
\<close>

type_synonym gvk = "string \<times> string \<times> string"

record 'r mux =
  mx_enqueues :: "(gvk, nat list) gomap"
  mx_delivered :: "(nat \<times> 'r) list"

definition NewTypedMux :: "'r mux" where
  "NewTypedMux = \<lparr>mx_enqueues = [], mx_delivered = []\<rparr>"

definition TriggerSource :: "('o \<Rightarrow> gvk result) \<Rightarrow> 'o \<Rightarrow> 'r mux \<Rightarrow> gvk result \<times> 'r mux" where
  "TriggerSource scheme obj m =
     (case scheme obj of
        Inl err \<Rightarrow> (Inl err, m)
      | Inr k \<Rightarrow>
          (Inr k, case gget (mx_enqueues m) k of
                    None \<Rightarrow> m\<lparr>mx_enqueues := gset k [] (mx_enqueues m)\<rparr>
                  | Some e \<Rightarrow> m))"

definition typedenqueue_Start :: "nat \<Rightarrow> nat list \<Rightarrow> nat list" where
  "typedenqueue_Start w queues = (if w \<in> set queues then queues else queues @ [w])"

definition Start :: "gvk \<Rightarrow> nat \<Rightarrow> 'r mux \<Rightarrow> 'r mux" where
  "Start k w m =
     (case gget (mx_enqueues m) k of
        None \<Rightarrow> m
      | Some e \<Rightarrow> m\<lparr>mx_enqueues := gset k (typedenqueue_Start w e) (mx_enqueues m)\<rparr>)"

definition AddToQueue :: "nat list \<Rightarrow> 'r \<Rightarrow> (nat \<times> 'r) list \<Rightarrow> (nat \<times> 'r) list" where
  "AddToQueue queues req delivered = fold (\<lambda>q d. d @ [(q, req)]) queues delivered"

definition EnqueueByGVK ::
  "(namespaced_name \<Rightarrow> 'r result) \<Rightarrow> gvk \<Rightarrow> namespaced_name \<Rightarrow> 'r mux \<Rightarrow> gerror option \<times> 'r mux" where
  "EnqueueByGVK creator k key m =
     (case gget (mx_enqueues m) k of
        None \<Rightarrow> (None, m)
      | Some e \<Rightarrow>
          (case creator key of
             Inl err \<Rightarrow> (Some err, m)
           | Inr req \<Rightarrow> (None, m\<lparr>mx_delivered := AddToQueue e req (mx_delivered m)\<rparr>)))"

text \<open>\<open>typed_kind\<close> is the kind an object carries itself, if any, \<open>key_of\<close> is \<open>GetKey\<close>.\<close>

definition EnqueueByObject ::
  "('o \<Rightarrow> gvk result) \<Rightarrow> ('o \<Rightarrow> gvk option) \<Rightarrow> ('o \<Rightarrow> namespaced_name option) \<Rightarrow>
   (namespaced_name \<Rightarrow> 'r result) \<Rightarrow> 'o \<Rightarrow> 'r mux \<Rightarrow> gerror option \<times> 'r mux" where
  "EnqueueByObject scheme typed_kind key_of creator obj m =
     (case (case typed_kind obj of Some k \<Rightarrow> Inr k | None \<Rightarrow> scheme obj) of
        Inl err \<Rightarrow> (Some err, m)
      | Inr k \<Rightarrow>
          (case key_of obj of
             None \<Rightarrow> (Some (Errorf ''object does not implement client.Object'' []), m)
           | Some key \<Rightarrow> (None, snd (EnqueueByGVK creator k key m))))"

section \<open>Lemmas\<close>

lemma mc_req_simps [simp]:
  "mc_object (mc_req c i) = i" "mc_cluster (mc_req c i) = c" "queue_filter c (mc_req c i)"
  by (simp_all add: mc_req_def queue_filter_def)

lemma FilterCluster_filter:
  "FilterCluster match fn obj =
     map mc_object (filter (\<lambda>r. case match of None \<Rightarrow> True | Some f \<Rightarrow> mc_cluster r = [] \<or> f (mc_cluster r)) (fn obj))"
proof -
  have "foldl (\<lambda>a r. if P r then a else a @ [f r]) acc rs = acc @ map f (filter (\<lambda>r. \<not> P r) rs)"
    for P f acc and rs :: "mc_request list"
    by (induction rs arbitrary: acc) auto
  note fold = this
  show ?thesis
    using fold [of "\<lambda>_. False" mc_object]
    by (cases match) (simp_all add: FilterCluster_def fold)
qed

lemma AddToQueue_append: "AddToQueue queues req d = d @ map (\<lambda>q. (q, req)) queues"
  by (induction queues arbitrary: d) (auto simp: AddToQueue_def)

text \<open>The queues of every source are distinct, in the order in which they were started.\<close>

definition mux_ok :: "'r mux \<Rightarrow> bool" where
  "mux_ok m \<longleftrightarrow> (\<forall>k e. gget (mx_enqueues m) k = Some e \<longrightarrow> distinct e)"

lemma mux_ok_ops:
  "mux_ok NewTypedMux"
  "mux_ok m \<Longrightarrow> mux_ok (snd (TriggerSource scheme obj m))"
  "mux_ok m \<Longrightarrow> mux_ok (Start k w m)"
  "mux_ok m \<Longrightarrow> mux_ok (snd (EnqueueByGVK creator k key m))"
  by (auto simp: mux_ok_def NewTypedMux_def TriggerSource_def Start_def typedenqueue_Start_def
      EnqueueByGVK_def split: option.splits sum.splits)

section \<open>Properties\<close>

text \<open>
  Looking at a queue of one cluster as a multi-cluster queue and back is the same
  queue; the other way round it is the queue that ignores the requests of other clusters
  and completes those without a cluster. A handler for one cluster that is used for many
  and again for one is the same handler. A request that is completed and then filtered for
  its cluster keeps its object.
\<close>

theorem queue_views:
  fixes h :: "('e, 'q, namespaced_name) event_handler" and q :: "('p, namespaced_name) queue_ops"
  shows "MapQueueMCtoCR c (MapQueueCRtoMC c q) = q \<and>
   MapHandlerMCtoCR c (MapHandlerCRtoMC c h) = h \<and>
   q_add (MapQueueCRtoMC c (MapQueueMCtoCR c q')) item s =
     (if mc_cluster item \<in> {c, []} then q_add q' (CompleteRequest c item) s else s) \<and>
   q_done (MapQueueCRtoMC c (MapQueueMCtoCR c q')) item s =
     (if mc_cluster item \<in> {c, []} then q_done q' (CompleteRequest c item) s else s) \<and>
   FilterCluster (Some (\<lambda>n. n = c)) (\<lambda>o'. map (CompleteRequest c) (fn o')) obj =
     map mc_object (filter (\<lambda>r. mc_cluster r \<in> {c, []}) (fn obj))"
proof (intro conjI)
  have q: "MapQueueMCtoCR c (MapQueueCRtoMC c q) = q" for q :: "('z, namespaced_name) queue_ops"
    by (cases q) (simp add: MapQueueMCtoCR_def MapQueueCRtoMC_def case_prod_beta)
  then show "MapQueueMCtoCR c (MapQueueCRtoMC c q) = q" .
  show "MapHandlerMCtoCR c (MapHandlerCRtoMC c h) = h"
    by (simp add: MapHandlerMCtoCR_def MapHandlerCRtoMC_def q)
  have complete: "mc_req c (mc_object item) = CompleteRequest c item" if "mc_cluster item \<in> {c, []}" for item
    using that by (cases item) (auto simp: mc_req_def CompleteRequest_def)
  show "q_add (MapQueueCRtoMC c (MapQueueMCtoCR c q')) item s =
     (if mc_cluster item \<in> {c, []} then q_add q' (CompleteRequest c item) s else s)"
    "q_done (MapQueueCRtoMC c (MapQueueMCtoCR c q')) item s =
     (if mc_cluster item \<in> {c, []} then q_done q' (CompleteRequest c item) s else s)"
    by (auto simp: MapQueueCRtoMC_def MapQueueMCtoCR_def queue_filter_def complete)
  show "FilterCluster (Some (\<lambda>n. n = c)) (\<lambda>o'. map (CompleteRequest c) (fn o')) obj =
     map mc_object (filter (\<lambda>r. mc_cluster r \<in> {c, []}) (fn obj))"
    unfolding FilterCluster_filter
    by (induction "fn obj" arbitrary: obj rule: list.induct) (auto simp: CompleteRequest_def filter_map comp_def intro!: map_cong filter_cong)
qed

text \<open>
  Once a queue is started on the trigger source of a kind, enqueuing a key of that kind
  adds the request exactly once to every queue started on it and to no other; a kind
  without a source gets nothing. By object, the same happens, but the error of creating the
  request is lost.
\<close>

theorem mux_delivers:
  assumes "mux_ok m" "gget (mx_enqueues m) k = Some e"
  shows "mux_ok (Start k w m) \<and>
    (\<exists>e'. gget (mx_enqueues (Start k w m)) k = Some e' \<and> distinct e' \<and> set e' = insert w (set e)) \<and>
    (creator key = Inr req \<longrightarrow>
      EnqueueByGVK creator k key m = (None, m\<lparr>mx_delivered := mx_delivered m @ map (\<lambda>q. (q, req)) e\<rparr>)) \<and>
    (gget (mx_enqueues m) k' = None \<longrightarrow> EnqueueByGVK creator k' key m = (None, m)) \<and>
    (creator key = Inl err \<longrightarrow> EnqueueByGVK creator k key m = (Some err, m) \<and>
      EnqueueByObject scheme (\<lambda>_. Some k) (\<lambda>_. Some key) creator obj m = (None, m))"
  using assms mux_ok_ops(3) [OF assms(1), of k w] assms(1) [unfolded mux_ok_def, rule_format, OF assms(2)]
  by (auto simp: EnqueueByGVK_def EnqueueByObject_def AddToQueue_append Start_def mux_ok_def
      typedenqueue_Start_def)

theorem mux_delivers_witness:
  "\<exists>m e. gget (mx_enqueues m) ('''', ''v1'', ''Secret'') = Some e \<and> set e = {3} \<and>
     EnqueueByGVK Inr ('''', ''v1'', ''Secret'') \<lparr>nn_namespace = ''a'', nn_name = ''b''\<rparr> m =
       (None, m\<lparr>mx_delivered := [(3, \<lparr>nn_namespace = ''a'', nn_name = ''b''\<rparr>)]\<rparr>)"
proof -
  let ?k = "('''', ''v1'', ''Secret'')"
  define m :: "namespaced_name mux" where
    "m = Start ?k 3 (snd (TriggerSource (\<lambda>_. Inr ?k) () NewTypedMux))"
  have "mux_ok m"
    unfolding m_def by (intro mux_ok_ops)
  moreover have e: "gget (mx_enqueues m) ?k = Some [3]" and d: "mx_delivered m = []"
    by (simp_all add: m_def TriggerSource_def NewTypedMux_def Start_def typedenqueue_Start_def)
  ultimately have "EnqueueByGVK Inr ?k \<lparr>nn_namespace = ''a'', nn_name = ''b''\<rparr> m =
      (None, m\<lparr>mx_delivered := [(3, \<lparr>nn_namespace = ''a'', nn_name = ''b''\<rparr>)]\<rparr>)"
    using mux_delivers [of m ?k "[3]" 3 Inr "\<lparr>nn_namespace = ''a'', nn_name = ''b''\<rparr>"
        "\<lparr>nn_namespace = ''a'', nn_name = ''b''\<rparr>" ?k "External 0" "\<lambda>_. Inr ?k" "()"]
    by simp
  then show ?thesis
    using e by (intro exI [of _ m] exI [of _ "[3]"]) simp
qed

end
