(* ===== verification/ElementGroups.thy ===== *)
theory ElementGroups
  imports Kube_Prelude
begin

text \<open>
  Named groups of elements and sets of definitions (internal/group.go, definitions.go,
  element.go): the containers of clusters, indices, components and controllers. A group
  keeps the first element of every name and collects the errors of the rest.

  The error list and the wrapping of errors belong to github.com/mandelsoft/goutils and are a
  parameter, the record \<open>err_api\<close>: \<open>ea_wrap\<close> is \<open>errors.Wrap\<close>, \<open>ea_result\<close> the result of
  an error list of the given name to which the given values were added. \<open>err_documented\<close>
  says that nil stays nil and that the result is nil when no error was added.
\<close>

record err_api =
  ea_wrap :: "string list \<Rightarrow> gerror option \<Rightarrow> gerror option"
  ea_result :: "string \<Rightarrow> gerror option list \<Rightarrow> gerror option"

definition err_documented :: "err_api \<Rightarrow> bool" where
  "err_documented api \<longleftrightarrow>
     (\<forall>ctx e. ea_wrap api ctx e = None \<longleftrightarrow> e = None) \<and>
     (\<forall>n es. ea_result api n es = None \<longleftrightarrow> set es \<subseteq> {None})"

text \<open>What \<open>AddError\<close> tells apart in the value it is given.\<close>

datatype any_value =
    AnyNil
  | AnyError gerror
  | AnyProvider "gerror option"
  | AnyString string
  | AnyOther

section \<open>The containers\<close>

record error_container =
  ec_name :: string
  ec_errlist :: "gerror option list"

definition NewErrorContainer :: "string \<Rightarrow> error_container" where
  "NewErrorContainer name = \<lparr>ec_name = name, ec_errlist = []\<rparr>"

definition AddError ::
  "err_api \<Rightarrow> any_value \<Rightarrow> string list \<Rightarrow> error_container \<Rightarrow> gerror option \<times> error_container" where
  "AddError api a ctx c =
     (if a = AnyNil then (None, c)
      else let err = ea_wrap api ctx
                 (case a of
                    AnyError e \<Rightarrow> Some e
                  | AnyProvider e \<Rightarrow> e
                  | AnyString s \<Rightarrow> Some (Errorf ''%s'' [s])
                  | _ \<Rightarrow> None)
           in (err, c\<lparr>ec_errlist := ec_errlist c @ [err]\<rparr>))"

definition GetError :: "err_api \<Rightarrow> error_container \<Rightarrow> gerror option" where
  "GetError api c = ea_result api (ec_name c) (ec_errlist c)"

record 'e elem_group =
  gr_typename :: string
  gr_elements :: "(string, 'e) gomap"
  gr_errors :: error_container

definition NewGroup :: "string \<Rightarrow> 'e elem_group" where
  "NewGroup name =
     \<lparr>gr_typename = name, gr_elements = [], gr_errors = NewErrorContainer (name @ '' set'')\<rparr>"

definition Group_Len :: "'e elem_group \<Rightarrow> nat" where
  "Group_Len c = length (gr_elements c)"

definition Group_Get :: "'e elem_group \<Rightarrow> string \<Rightarrow> 'e option" where
  "Group_Get c name = gget (gr_elements c) name"

text \<open>\<open>name\<close> is \<open>GetName\<close> of an element, \<open>any\<close> the element as the argument of \<open>AddError\<close>.\<close>

fun group_add ::
  "err_api \<Rightarrow> ('e \<Rightarrow> string) \<Rightarrow> ('e \<Rightarrow> any_value) \<Rightarrow> 'e list \<Rightarrow> gerror option \<Rightarrow> 'e elem_group \<Rightarrow>
   gerror option \<times> 'e elem_group" where
  "group_add api name any [] err c = (err, c)"
| "group_add api name any (e # es) err c =
     (case gget (gr_elements c) (name e) of
        Some _ \<Rightarrow>
          (case AddError api (AnyError (Errorf ''%s %q already exists'' [gr_typename c, name e])) [] (gr_errors c) of
             (err', ec) \<Rightarrow> group_add api name any es err' (c\<lparr>gr_errors := ec\<rparr>))
      | None \<Rightarrow>
          (case AddError api (any e) [gr_typename c @ '' '' @ name e] (gr_errors c) of
             (err', ec) \<Rightarrow>
               group_add api name any es err'
                 (c\<lparr>gr_elements := gset (name e) e (gr_elements c), gr_errors := ec\<rparr>)))"

definition Group_Add ::
  "err_api \<Rightarrow> ('e \<Rightarrow> string) \<Rightarrow> ('e \<Rightarrow> any_value) \<Rightarrow> 'e list \<Rightarrow> 'e elem_group \<Rightarrow> gerror option \<times> 'e elem_group" where
  "Group_Add api name any es c = group_add api name any es None c"

text \<open>
  \<open>Elements\<close> ranges over a clone of the map until the consumer stops: with the state of the
  consumer made explicit, \<open>yield\<close> returns whether to go on.
\<close>

fun range_until :: "('k \<Rightarrow> 'e \<Rightarrow> 's \<Rightarrow> bool \<times> 's) \<Rightarrow> ('k, 'e) gomap \<Rightarrow> 's \<Rightarrow> 's" where
  "range_until yield [] s = s"
| "range_until yield ((n, e) # m) s =
     (case yield n e s of (go_on, s') \<Rightarrow> if go_on then range_until yield m s' else s')"

definition Group_Elements :: "(string \<Rightarrow> 'e \<Rightarrow> 's \<Rightarrow> bool \<times> 's) \<Rightarrow> 'e elem_group \<Rightarrow> 's \<Rightarrow> 's" where
  "Group_Elements yield c s = range_until yield (gr_elements c) s"

text \<open>
  A set of definitions is a group that also hands the options of its elements to an option
  set of flagutils: \<open>ds_options\<close> records the elements handed over.
\<close>

record 'e definitions = "'e elem_group" +
  ds_options :: "'e list"

definition NewDefinitions :: "string \<Rightarrow> 'e definitions" where
  "NewDefinitions typ =
     \<lparr>gr_typename = typ, gr_elements = [], gr_errors = NewErrorContainer (typ @ '' set''), ds_options = []\<rparr>"

definition ds_add_one ::
  "err_api \<Rightarrow> ('e \<Rightarrow> string) \<Rightarrow> ('e \<Rightarrow> any_value) \<Rightarrow> 'e \<Rightarrow> 'e definitions \<Rightarrow> 'e definitions" where
  "ds_add_one api name any e d =
     (case group_add api name any [e] None (elem_group.truncate d) of
        (err, g) \<Rightarrow>
          \<lparr>gr_typename = gr_typename g, gr_elements = gr_elements g, gr_errors = gr_errors g,
           ds_options = (if err = None then ds_options d @ [e] else ds_options d)\<rparr>)"

definition Definitions_Add ::
  "err_api \<Rightarrow> ('e \<Rightarrow> string) \<Rightarrow> ('e \<Rightarrow> any_value) \<Rightarrow> 'e list \<Rightarrow> 'e definitions \<Rightarrow> 'e definitions" where
  "Definitions_Add api name any es d = fold (ds_add_one api name any) es d"

section \<open>Lemmas\<close>

text \<open>The first element of every name.\<close>

definition firsts :: "('e \<Rightarrow> string) \<Rightarrow> 'e list \<Rightarrow> string \<Rightarrow> 'e option" where
  "firsts name es n = find (\<lambda>e. name e = n) es"

definition no_error :: "any_value \<Rightarrow> bool" where
  "no_error a \<longleftrightarrow> a \<in> {AnyNil, AnyProvider None, AnyOther}"

lemma AddError_fresh:
  assumes "err_documented api"
  shows "fst (AddError api a ctx c) = None \<longleftrightarrow> no_error a"
    "GetError api (snd (AddError api a ctx c)) = None \<longleftrightarrow> GetError api c = None \<and> no_error a"
  using assms by (cases a; auto simp: AddError_def GetError_def err_documented_def no_error_def Let_def)+

text \<open>One element added, without the value that is returned.\<close>

definition group_step ::
  "err_api \<Rightarrow> ('e \<Rightarrow> string) \<Rightarrow> ('e \<Rightarrow> any_value) \<Rightarrow> 'e \<Rightarrow> 'e elem_group \<Rightarrow> 'e elem_group" where
  "group_step api name any e c = snd (group_add api name any [e] None c)"

lemma group_add_fold: "snd (group_add api name any es err c) = fold (group_step api name any) es c"
proof (induction es arbitrary: err c)
  case (Cons e es)
  have "snd (group_add api name any (e # es) err c) =
      snd (group_add api name any es None (group_step api name any e c))"
    by (cases "gget (gr_elements c) (name e)") (simp_all add: group_step_def Cons.IH split: prod.splits)
  then show ?case
    by (simp add: Cons.IH)
qed simp

lemma group_step_elements:
  "gr_elements (group_step api name any e c) =
     (if gget (gr_elements c) (name e) = None then gset (name e) e (gr_elements c) else gr_elements c)"
  "gr_typename (group_step api name any e c) = gr_typename c"
  by (simp_all add: group_step_def split: option.splits prod.splits)

lemma group_step_keys:
  "set (gkeys (gr_elements (group_step api name any e c))) = insert (name e) (set (gkeys (gr_elements c)))"
proof (cases "gget (gr_elements c) (name e) = None")
  case True
  then show ?thesis
    using gkeys_gset [of "name e" e "gr_elements c"] by (simp add: group_step_elements)
next
  case False
  then have "name e \<in> set (gkeys (gr_elements c))"
    by (simp add: gget_None_iff)
  with False show ?thesis
    by (simp only: group_step_elements if_False insert_absorb)
qed

lemma group_step_GetError:
  assumes "err_documented api"
  shows "GetError api (gr_errors (group_step api name any e c)) = None \<longleftrightarrow>
    GetError api (gr_errors c) = None \<and> name e \<notin> set (gkeys (gr_elements c)) \<and> no_error (any e)"
proof (cases "gget (gr_elements c) (name e)")
  case None
  then have "name e \<notin> set (gkeys (gr_elements c))"
    by (simp add: gget_None_iff)
  then show ?thesis
    using AddError_fresh(2) [OF assms, of "any e" "[gr_typename c @ '' '' @ name e]" "gr_errors c"]
    by (simp add: group_step_def None case_prod_beta)
next
  case (Some x)
  then have "name e \<in> set (gkeys (gr_elements c))"
    by (metis gget_None_iff option.distinct(1))
  then show ?thesis
    using AddError_fresh(2) [OF assms,
        of "AnyError (Errorf ''%s %q already exists'' [gr_typename c, name e])" "[]" "gr_errors c"]
    by (simp add: group_step_def Some no_error_def case_prod_beta)
qed

lemmas group_steps = group_step_elements group_step_keys group_step_GetError

lemma fold_step_elements:
  "gget (gr_elements (fold (group_step api name any) es c)) n =
     (case gget (gr_elements c) n of Some e \<Rightarrow> Some e | None \<Rightarrow> firsts name es n)"
  by (induction es arbitrary: c) (auto simp: firsts_def group_step_elements split: option.splits)

lemma fold_step_keys:
  "set (gkeys (gr_elements (fold (group_step api name any) es c))) = name ` set es \<union> set (gkeys (gr_elements c))"
  by (induction es arbitrary: c) (simp_all add: group_step_keys del: set_map)

lemma fold_step_wf:
  "gwf (gr_elements c) \<Longrightarrow> gwf (gr_elements (fold (group_step api name any) es c))"
  by (induction es arbitrary: c) (simp_all add: group_step_elements)

lemma fold_step_typename [simp]:
  "gr_typename (fold (group_step api name any) es c) = gr_typename c"
  by (induction es arbitrary: c) (simp_all add: group_step_elements)

lemma fold_step_GetError:
  assumes "err_documented api"
  shows "GetError api (gr_errors (fold (group_step api name any) es c)) = None \<longleftrightarrow>
    GetError api (gr_errors c) = None \<and> distinct (map name es) \<and>
    set (gkeys (gr_elements c)) \<inter> name ` set es = {} \<and> (\<forall>e \<in> set es. no_error (any e))"
proof (induction es arbitrary: c)
  case (Cons e es)
  show ?case
    unfolding fold.simps comp_def Cons.IH group_step_GetError [OF assms] group_step_keys
    by auto
qed simp

lemma Group_Add_fold: "snd (Group_Add api name any es c) = fold (group_step api name any) es c"
  by (simp add: Group_Add_def group_add_fold)

lemma Group_Adds_fold:
  "fold (\<lambda>es c. snd (Group_Add api name any es c)) ess c = fold (group_step api name any) (concat ess) c"
  by (induction ess arbitrary: c) (simp_all add: Group_Add_fold)

lemma Definitions_Add_group:
  "elem_group.truncate (Definitions_Add api name any es d) =
     fold (group_step api name any) es (elem_group.truncate d)"
proof (induction es arbitrary: d)
  case (Cons e es)
  have "elem_group.truncate (ds_add_one api name any e d) =
      group_step api name any e (elem_group.truncate d)"
    by (simp add: ds_add_one_def group_step_def elem_group.truncate_def split: prod.splits)
  then show ?case
    using Cons by (simp add: Definitions_Add_def)
qed (simp add: Definitions_Add_def)

section \<open>Properties\<close>

definition err_demo :: err_api where
  "err_demo = \<lparr>ea_wrap = (\<lambda>ctx. map_option (Wrapf ctx)),
     ea_result = (\<lambda>n es. case filter (Not \<circ> Option.is_none) es of
       [] \<Rightarrow> None | e # es \<Rightarrow> Some (Wrapf [n] (Joins (map the (e # es)))))\<rparr>"

lemma err_demo_documented [simp]: "err_documented err_demo"
proof -
  have "filter (Not \<circ> Option.is_none) es = [] \<longleftrightarrow> set es \<subseteq> {None}" for es :: "gerror option list"
    by (auto simp: filter_empty_conv Option.is_none_def)
  then show ?thesis
    by (simp add: err_documented_def err_demo_def split: list.splits) (metis list.distinct(1))
qed

text \<open>
  After any sequence of additions a group holds exactly the first element of every name,
  counts the names, and reports an error if and only if a name came twice or an element that
  was added carries an error of its own. An addition of several elements reports the outcome
  of the last one only: a duplicate in front of a fresh element returns no error.
\<close>

theorem group_history:
  assumes "err_documented api"
    and c: "c = fold (\<lambda>es c. snd (Group_Add api name any es c)) ess (NewGroup typ)"
  shows "Group_Get c n = find (\<lambda>e. name e = n) (concat ess) \<and>
    Group_Len c = card (name ` set (concat ess)) \<and>
    (GetError api (gr_errors c) = None \<longleftrightarrow>
       distinct (map name (concat ess)) \<and> (\<forall>e \<in> set (concat ess). no_error (any e))) \<and>
    (name d \<in> name ` set (concat ess) \<and> name f \<notin> name ` set (concat ess) \<and> no_error (any f) \<longrightarrow>
       fst (Group_Add api name any [d, f] c) = None)"
proof (intro conjI impI)
  have c': "c = fold (group_step api name any) (concat ess) (NewGroup typ)"
    by (simp add: c Group_Adds_fold)
  show "Group_Get c n = find (\<lambda>e. name e = n) (concat ess)"
    by (simp add: c' Group_Get_def fold_step_elements NewGroup_def firsts_def)
  have keys: "set (gkeys (gr_elements c)) = name ` set (concat ess)"
    unfolding c' fold_step_keys by (simp add: NewGroup_def)
  moreover have "distinct (gkeys (gr_elements c))"
    using fold_step_wf [of "NewGroup typ"] by (simp add: c' NewGroup_def gwf_def)
  ultimately show "Group_Len c = card (name ` set (concat ess))"
    unfolding Group_Len_def by (metis distinct_card length_map)
  show "GetError api (gr_errors c) = None \<longleftrightarrow>
      distinct (map name (concat ess)) \<and> (\<forall>e \<in> set (concat ess). no_error (any e))"
    using assms(1) unfolding c' fold_step_GetError [OF assms(1)]
    by (simp add: NewGroup_def NewErrorContainer_def GetError_def err_documented_def)
  assume *: "name d \<in> name ` set (concat ess) \<and> name f \<notin> name ` set (concat ess) \<and> no_error (any f)"
  then obtain x where "gget (gr_elements c) (name d) = Some x" "gget (gr_elements c) (name f) = None"
    using keys by (metis gget_None_iff option.exhaust)
  then show "fst (Group_Add api name any [d, f] c) = None"
    using AddError_fresh(1) [OF assms(1), of "any f"] *
    by (simp add: Group_Add_def case_prod_beta)
qed

theorem group_history_witness:
  "fst (Group_Add err_demo fst (\<lambda>_. AnyOther) [(''a'', 2), (''b'', 3)]
      (snd (Group_Add err_demo fst (\<lambda>_. AnyOther) [(''a'', 1 :: nat)] (NewGroup ''cluster'')))) = None"
  using group_history [of err_demo _ fst "\<lambda>_. AnyOther" "[[(''a'', 1 :: nat)]]" "''cluster''" "''a''"
      "(''a'', 2)" "(''b'', 3)", OF err_demo_documented refl]
  by (simp add: no_error_def)

end
