(* ===== verification/ConfigRules.thy ===== *)
theory ConfigRules
  imports Kube_Prelude
begin

text \<open>
  How the configuration of a cluster is found (package cluster/config and the endpoint slice
  option of cluster/fleet/kcp/config): the rules, their options, the personalisation of rules
  for the name of a cluster, and the evaluation of a list of rules, first match first.

  Environment, files, client-go and the in-cluster configuration are the record \<open>world\<close>.
  \<open>'a\<close> is a loaded kubeconfig file, \<open>'r\<close> a rest configuration. A rule option holds the value
  that the flag parser put there, an unset flag is the empty string.
\<close>

section \<open>Options, configurations, rules\<close>

datatype sub_config = KCPFleetConfig (endpoint_slice: string)

record config_options =
  co_current_context :: string
  co_namespace :: string
  co_identity :: string
  co_sub :: "sub_config option"

definition no_options :: config_options where
  "no_options = \<lparr>co_current_context = [], co_namespace = [], co_identity = [], co_sub = None\<rparr>"

record 'r config =
  cf_identity :: string
  cf_rest :: 'r
  cf_namespace :: string
  cf_context :: string
  cf_sub :: "sub_config option"

record ('a, 'r) world =
  w_getenv :: "string \<Rightarrow> string"
  w_load_file :: "string \<Rightarrow> 'a result"
  w_merged_context :: "'a \<Rightarrow> config_options \<Rightarrow> string result"
  w_client_config :: "'a \<Rightarrow> config_options \<Rightarrow> 'r result"
  w_file_namespace :: "'a \<Rightarrow> config_options \<Rightarrow> string result"
  w_in_cluster :: "'r result"
  w_absent :: "gerror \<Rightarrow> bool"
  w_migrate :: "gerror option"
  w_home_file :: string

text \<open>
  \<open>KubeConfigOption\<close> keeps the error of its last evaluation, \<open>Rules\<close> a list of rules and the
  list it was derived from, if any.
\<close>

datatype rule =
    IdOption (ro_name: string) (ro_enabled: bool) (ro_id: string)
  | ContextOption (ro_name: string) (ro_context: string)
  | KubeConfigOption (ro_name: string) (ro_desc: string) (ro_special: "(string \<times> rule) list")
      (ro_path: string) (ro_err: "gerror option")
  | EnvironmentVariable (ro_name: string)
  | HomeDirectory
  | InClusterConfig
  | KCPFleetOption (ro_name: string) (ro_slice: string)
  | Rules (ro_rules: "rule list") (ro_orig: "rule list option")

definition or_default :: "string \<Rightarrow> string \<Rightarrow> string" where
  "or_default d s = (if s = [] then d else s)"

definition NewIdOption :: "string \<Rightarrow> rule" where
  "NewIdOption name = IdOption (or_default ''kubeconfig'' name) False []"

definition NewContextOption :: "string \<Rightarrow> rule" where
  "NewContextOption name = ContextOption (or_default ''kubeconfig'' name) []"

definition NewKubeconfigOption :: "string \<Rightarrow> string \<Rightarrow> rule" where
  "NewKubeconfigOption name desc =
     KubeConfigOption (or_default ''kubeconfig'' name) (or_default ''path to standard kubeconfig'' desc) [] [] None"

definition NewKCPFleetOption :: "string \<Rightarrow> rule" where
  "NewKCPFleetOption name = KCPFleetOption (or_default ''kubeconfig'' name) []"

definition NewEnvironmentVariable :: rule where
  "NewEnvironmentVariable = EnvironmentVariable ''KUBECONFIG''"

fun WithSpecialCase :: "string \<Rightarrow> rule \<Rightarrow> rule \<Rightarrow> rule" where
  "WithSpecialCase name r (KubeConfigOption n d special p e) = KubeConfigOption n d (gset name r special) p e"
| "WithSpecialCase name r other = other"

definition WithInClusterMode :: "rule \<Rightarrow> rule" where
  "WithInClusterMode r = WithSpecialCase ''in-cluster'' InClusterConfig r"

definition NewRules :: "rule list \<Rightarrow> rule" where
  "NewRules rs = Rules rs None"

section \<open>Personalisation\<close>

record personalization =
  pz_name :: string
  pz_description :: string

text \<open>Names are ASCII.\<close>

definition to_upper :: "string \<Rightarrow> string" where
  "to_upper = map (\<lambda>c. if 97 \<le> (of_char c :: nat) \<and> (of_char c :: nat) \<le> 122
                        then char_of ((of_char c :: nat) - 32) else c)"

definition personal_name :: "personalization \<Rightarrow> string \<Rightarrow> string" where
  "personal_name pz name = (if pz_name pz = [] then name else pz_name pz @ ''-'' @ name)"

definition personal_env :: "personalization \<Rightarrow> string \<Rightarrow> string" where
  "personal_env pz name = (if pz_name pz = [] then name else to_upper (pz_name pz) @ ''_'' @ name)"

text \<open>
  \<open>PersonalizeRule\<close> reaches the rules that are \<open>Personalizable\<close>. A nested list of rules is
  not: its method returns \<open>Rules\<close>, not \<open>Rule\<close>.
\<close>

fun PersonalizeRule :: "personalization \<Rightarrow> rule \<Rightarrow> rule" where
  "PersonalizeRule pz r =
     (if pz_name pz = [] then r
      else case r of
        IdOption n _ _ \<Rightarrow> IdOption (personal_name pz n) False []
      | ContextOption n _ \<Rightarrow> ContextOption (personal_name pz n) []
      | KubeConfigOption n d special _ _ \<Rightarrow>
          KubeConfigOption (personal_name pz n) (or_default d (pz_description pz))
            (map (\<lambda>(k, r). (k, PersonalizeRule pz r)) special) [] None
      | EnvironmentVariable n \<Rightarrow> EnvironmentVariable (personal_env pz n)
      | KCPFleetOption n _ \<Rightarrow> KCPFleetOption (personal_name pz n) []
      | other \<Rightarrow> other)"

fun PersonalizedWith :: "personalization \<Rightarrow> rule \<Rightarrow> rule" where
  "PersonalizedWith pz (Rules rs orig) =
     Rules (map (PersonalizeRule pz) (case orig of Some rs0 \<Rightarrow> rs0 | None \<Rightarrow> rs)) orig"
| "PersonalizedWith pz r = r"

definition DefaultRules :: rule where
  "DefaultRules = NewRules
     [NewIdOption [], NewContextOption [], WithInClusterMode (NewKubeconfigOption [] []),
      NewEnvironmentVariable, HomeDirectory, InClusterConfig]"

definition DedicatedConfigRules :: "string \<Rightarrow> string \<Rightarrow> rule list \<Rightarrow> rule" where
  "DedicatedConfigRules name desc rs =
     PersonalizedWith \<lparr>pz_name = name, pz_description = desc\<rparr>
       (NewRules (rs @ [NewIdOption [], NewContextOption [], WithInClusterMode (NewKubeconfigOption [] []),
                        NewEnvironmentVariable]))"

text \<open>The rules of a kcp fleet (cluster/fleet/kcp/type.go).\<close>

definition kcp_GetRules :: "string \<Rightarrow> string \<Rightarrow> rule" where
  "kcp_GetRules name desc =
     (if name = ''default'' then NewRules [NewKCPFleetOption [], DefaultRules]
      else DedicatedConfigRules name desc [NewKCPFleetOption []])"

fun RequireIdentity :: "rule \<Rightarrow> rule" where
  "RequireIdentity (IdOption n e i) = IdOption n True i"
| "RequireIdentity (Rules rs orig) = Rules (map RequireIdentity rs) orig"
| "RequireIdentity r = r"

text \<open>The names of the flags a rule registers.\<close>

fun flag_names :: "rule \<Rightarrow> string list" where
  "flag_names (IdOption n e i) = (if e then [n @ ''-identity''] else [])"
| "flag_names (ContextOption n c) = [n @ ''-context'']"
| "flag_names (KubeConfigOption n d sp p e) = [n]"
| "flag_names (KCPFleetOption n s) = [n @ ''-endpointslice'']"
| "flag_names (Rules rs orig) = concat (map flag_names rs)"
| "flag_names r = []"

section \<open>Evaluation\<close>

type_synonym 'r found = "'r config option \<times> gerror option"

definition PrepareConfigFor :: "'r \<Rightarrow> config_options \<Rightarrow> 'r config" where
  "PrepareConfigFor rest opts =
     \<lparr>cf_identity = co_identity opts, cf_rest = rest, cf_namespace = co_namespace opts,
      cf_context = co_current_context opts, cf_sub = co_sub opts\<rparr>"

definition GetRestConfigFromKubeconfig ::
  "('a, 'r) world \<Rightarrow> 'a \<Rightarrow> config_options \<Rightarrow> 'r found" where
  "GetRestConfigFromKubeconfig w api over =
     (case w_merged_context w api over of
        Inl err \<Rightarrow> (None, Some err)
      | Inr ctx \<Rightarrow>
     (case w_client_config w api over of
        Inl err \<Rightarrow> (None, Some err)
      | Inr rest \<Rightarrow>
     (case w_file_namespace w api over of
        Inl err \<Rightarrow> (None, Some err)
      | Inr ns \<Rightarrow> (Some ((PrepareConfigFor rest over)\<lparr>cf_context := ctx, cf_namespace := ns\<rparr>), None))))"

definition TryKubeconfigFile :: "('a, 'r) world \<Rightarrow> string \<Rightarrow> config_options \<Rightarrow> 'r found" where
  "TryKubeconfigFile w path opts =
     (case w_load_file w path of
        Inl err \<Rightarrow> (None, Some (Wrapf [''kubeconfig file'', path] err))
      | Inr api \<Rightarrow> GetRestConfigFromKubeconfig w api opts)"

definition InClusterConfig_GetConfig :: "('a, 'r) world \<Rightarrow> config_options \<Rightarrow> 'r found" where
  "InClusterConfig_GetConfig w opts =
     (case w_in_cluster w of
        Inl err \<Rightarrow> if w_absent w err then (None, None) else (None, Some err)
      | Inr rest \<Rightarrow>
          if co_sub opts \<noteq> None then (None, Some (Errorf ''incluster config not possible for sub type'' []))
          else (Some \<lparr>cf_identity = co_identity opts, cf_rest = rest, cf_namespace = [],
                      cf_context = co_current_context opts, cf_sub = None\<rparr>, None))"

definition HomeDirectory_GetConfig :: "('a, 'r) world \<Rightarrow> config_options \<Rightarrow> 'r found" where
  "HomeDirectory_GetConfig w opts =
     (case w_migrate w of
        Some err \<Rightarrow> (None, Some err)
      | None \<Rightarrow> TryKubeconfigFile w (w_home_file w) opts)"

definition EnvironmentVariable_GetConfig :: "('a, 'r) world \<Rightarrow> string \<Rightarrow> config_options \<Rightarrow> 'r found" where
  "EnvironmentVariable_GetConfig w name opts =
     (if w_getenv w name = [] then (None, None) else TryKubeconfigFile w (w_getenv w name) opts)"

definition KCPFleetOption_GetConfig :: "string \<Rightarrow> config_options \<Rightarrow> 'r found \<times> config_options" where
  "KCPFleetOption_GetConfig slice opts =
     (if slice = [] then ((None, None), opts)
      else if co_sub opts \<noteq> None
      then ((None, Some (Errorf (''cannot specify both endpointslices with subconfig of type '' @ [CHR 0x27] @ ''%s'' @ [CHR 0x27]) [''kcp-fleet''])), opts)
      else ((None, None), opts\<lparr>co_sub := Some (KCPFleetConfig slice)\<rparr>))"

text \<open>\<open>kubeconfig_context\<close> splits \<open>context@path\<close>.\<close>

definition kubeconfig_context :: "string \<Rightarrow> config_options \<Rightarrow> string \<times> config_options" where
  "kubeconfig_context path opts =
     (let (context, file) = (case index_of (CHR ''@'') path of
                               Some i \<Rightarrow> (take i path, drop (Suc i) path)
                             | None \<Rightarrow> (co_current_context opts, path))
      in (file, if context \<noteq> [] then opts\<lparr>co_current_context := context\<rparr> else opts))"

text \<open>The first rule with a configuration or an error decides; the options are threaded.\<close>

fun first_config ::
  "('rule \<Rightarrow> config_options \<Rightarrow> 'r found \<times> config_options \<times> 'rule) \<Rightarrow> 'rule list \<Rightarrow> config_options \<Rightarrow>
   'r found \<times> config_options \<times> 'rule list" where
  "first_config get [] opts = ((None, None), opts, [])"
| "first_config get (r # rs) opts =
     (case get r opts of
        (res, opts, r') \<Rightarrow>
          if res \<noteq> (None, None) then (res, opts, r' # rs)
          else (case first_config get rs opts of (res, opts, rs') \<Rightarrow> (res, opts, r' # rs')))"

lemma first_config_cong [fundef_cong]:
  assumes "rs = rs'" "opts = opts'" "\<And>r opts. r \<in> set rs' \<Longrightarrow> get r opts = get' r opts"
  shows "first_config get rs opts = first_config get' rs' opts'"
proof -
  have "(\<And>r opts. r \<in> set rs \<Longrightarrow> get r opts = get' r opts) \<Longrightarrow>
      first_config get rs opts = first_config get' rs opts" for rs opts
    by (induction rs arbitrary: opts) (auto split: prod.splits)
  then show ?thesis
    using assms by blast
qed

function rule_GetConfig ::
  "('a, 'r) world \<Rightarrow> rule \<Rightarrow> config_options \<Rightarrow> 'r found \<times> config_options \<times> rule" where
  "rule_GetConfig w (IdOption n enabled i) opts =
     ((None, None), (if i \<noteq> [] \<and> enabled then opts\<lparr>co_identity := i\<rparr> else opts), IdOption n enabled i)"
| "rule_GetConfig w (ContextOption n context) opts =
     ((None, None), (if context \<noteq> [] then opts\<lparr>co_current_context := context\<rparr> else opts), ContextOption n context)"
| "rule_GetConfig w (KubeConfigOption n d special path err) opts =
     (if path = [] then ((None, err), opts, KubeConfigOption n d special path err)
      else case gget special path of
        Some s \<Rightarrow>
          (case rule_GetConfig w s opts of
             ((cfg, err'), opts, s') \<Rightarrow>
               ((cfg, err'), opts, KubeConfigOption n d (gset path s' special) path err'))
      | None \<Rightarrow>
          (case kubeconfig_context path opts of
             (file, opts) \<Rightarrow>
               (TryKubeconfigFile w file opts, opts,
                KubeConfigOption n d special path (snd (TryKubeconfigFile w file opts)))))"
| "rule_GetConfig w (EnvironmentVariable n) opts =
     (EnvironmentVariable_GetConfig w n opts, opts, EnvironmentVariable n)"
| "rule_GetConfig w HomeDirectory opts = (HomeDirectory_GetConfig w opts, opts, HomeDirectory)"
| "rule_GetConfig w InClusterConfig opts = (InClusterConfig_GetConfig w opts, opts, InClusterConfig)"
| "rule_GetConfig w (KCPFleetOption n slice) opts =
     (case KCPFleetOption_GetConfig slice opts of (res, opts) \<Rightarrow> (res, opts, KCPFleetOption n slice))"
| "rule_GetConfig w (Rules rs orig) opts =
     (case first_config (rule_GetConfig w) rs opts of (res, opts, rs') \<Rightarrow> (res, opts, Rules rs' orig))"
  by pat_completeness auto

lemma size_special: "gget special path = Some s \<Longrightarrow> size s < Suc (size_list (size_prod (\<lambda>_. 0) size) special)"
  by (induction special) (auto split: if_splits)

termination rule_GetConfig
  by (relation "measure (\<lambda>(w, r, opts). size r)")
    (auto dest!: size_special simp: less_Suc_eq_le intro: le_SucI size_list_estimation' [THEN trans_le_add1])

text \<open>
  Parsing a flag writes its value into the option that registered it; \<open>AddFlags\<close> of a
  definition registers the flags of its rules and the redirection (cluster/def.go).
\<close>

fun set_flag :: "string \<Rightarrow> string \<Rightarrow> rule \<Rightarrow> rule" where
  "set_flag f v (IdOption n e i) = IdOption n e (if e \<and> f = n @ ''-identity'' then v else i)"
| "set_flag f v (ContextOption n c) = ContextOption n (if f = n @ ''-context'' then v else c)"
| "set_flag f v (KubeConfigOption n d sp p e) = KubeConfigOption n d sp (if f = n then v else p) e"
| "set_flag f v (KCPFleetOption n s) = KCPFleetOption n (if f = n @ ''-endpointslice'' then v else s)"
| "set_flag f v (Rules rs orig) = Rules (map (set_flag f v) rs) orig"
| "set_flag f v r = r"

definition definition_flags :: "string \<Rightarrow> rule \<Rightarrow> string list" where
  "definition_flags name r =
     flag_names r @ (if name \<noteq> ''default'' then [name @ ''-redirect''] else [])"

section \<open>Lemmas\<close>

lemmas rule_defs = NewIdOption_def NewContextOption_def NewKubeconfigOption_def NewKCPFleetOption_def
  NewEnvironmentVariable_def WithInClusterMode_def NewRules_def DedicatedConfigRules_def
  DefaultRules_def kcp_GetRules_def or_default_def gset_def

lemma dedicated_rules:
  assumes "name \<noteq> []"
  shows "RequireIdentity (DedicatedConfigRules name desc []) =
    Rules [IdOption (name @ ''-kubeconfig'') True [], ContextOption (name @ ''-kubeconfig'') [],
      KubeConfigOption (name @ ''-kubeconfig'') (or_default ''path to standard kubeconfig'' desc)
        [(''in-cluster'', InClusterConfig)] [] None,
      EnvironmentVariable (to_upper name @ ''_KUBECONFIG'')] None"
  using assms by (simp add: rule_defs personal_name_def personal_env_def)

lemma dedicated_flags:
  assumes "name \<noteq> []"
  shows "flag_names (RequireIdentity (DedicatedConfigRules name desc [])) =
      map (\<lambda>s. name @ s) [''-kubeconfig-identity'', ''-kubeconfig-context'', ''-kubeconfig'']"
    "flag_names (RequireIdentity (DedicatedConfigRules name desc [NewKCPFleetOption []])) =
      map (\<lambda>s. name @ s)
        [''-kubeconfig-endpointslice'', ''-kubeconfig-identity'', ''-kubeconfig-context'', ''-kubeconfig'']"
  using assms by (simp_all add: rule_defs personal_name_def)

lemma default_flags:
  "flag_names (RequireIdentity DefaultRules) = [''kubeconfig-identity'', ''kubeconfig-context'', ''kubeconfig'']"
  by (simp add: rule_defs)

text \<open>The flag suffixes: none is a suffix of another one.\<close>

definition suffixes :: "string list" where
  "suffixes = [''-kubeconfig-endpointslice'', ''-kubeconfig-identity'', ''-kubeconfig-context'', ''-kubeconfig'', ''-redirect'']"

lemma suffix_last:
  assumes "s \<in> set suffixes" "t \<in> set suffixes" "n @ s = m @ t"
  shows "n = m \<and> s = t"
proof -
  have "\<forall>s \<in> set suffixes. 2 \<le> length s"
    by (simp add: suffixes_def)
  then have "take 2 (rev (n @ s)) = take 2 (rev s)" "take 2 (rev (m @ t)) = take 2 (rev t)"
    using assms(1,2) by simp_all
  then have "take 2 (rev s) = take 2 (rev t)"
    using assms(3) by argo
  moreover have "distinct (map (\<lambda>s. take 2 (rev s)) suffixes)"
    by (simp add: suffixes_def)
  ultimately have "s = t"
    using assms by (auto simp: distinct_map inj_on_def)
  with assms show ?thesis
    by simp
qed

text \<open>What a cluster definition registers: its name, its description and whether it is a fleet.\<close>

definition registered :: "string \<times> string \<times> bool \<Rightarrow> string list" where
  "registered d = (case d of (name, desc, kcp) \<Rightarrow>
     definition_flags name (RequireIdentity
       (if kcp then kcp_GetRules name desc else DedicatedConfigRules name desc [])))"

lemma registered_suffixes:
  assumes "fst d \<noteq> []" "fst d \<noteq> ''default''"
  shows "set (registered d) \<subseteq> (\<lambda>s. fst d @ s) ` set suffixes" "distinct (registered d)"
proof -
  obtain name desc kcp where d: "d = (name, desc, kcp)"
    by (cases d)
  have reg: "registered d = map (\<lambda>s. name @ s)
      ((if kcp then [''-kubeconfig-endpointslice''] else []) @
        [''-kubeconfig-identity'', ''-kubeconfig-context'', ''-kubeconfig'', ''-redirect''])"
    using assms dedicated_flags [of name desc]
    by (simp add: d registered_def definition_flags_def kcp_GetRules_def)
  show "set (registered d) \<subseteq> (\<lambda>s. fst d @ s) ` set suffixes"
    unfolding reg by (cases kcp) (simp_all add: d suffixes_def)
  show "distinct (registered d)"
    unfolding reg by (cases kcp) simp_all
qed

lemma distinct_registered:
  "distinct (map fst ds) \<Longrightarrow> [] \<notin> set (map fst ds) \<Longrightarrow> ''default'' \<notin> set (map fst ds) \<Longrightarrow>
    distinct (concat (map registered ds))"
proof (induction ds)
  case (Cons d ds)
  have "x \<notin> set (registered d')" if x_in: "x \<in> set (registered d)" and d_in: "d' \<in> set ds" for x d'
  proof
    assume "x \<in> set (registered d')"
    have ok: "fst d \<noteq> []" "fst d \<noteq> ''default''" "fst d' \<noteq> []" "fst d' \<noteq> ''default''"
      using Cons.prems d_in by force+
    obtain s where "x = fst d @ s" "s \<in> set suffixes"
      using registered_suffixes(1) [OF ok(1,2)] x_in by blast
    moreover obtain t where "x = fst d' @ t" "t \<in> set suffixes"
      using registered_suffixes(1) [OF ok(3,4)] \<open>x \<in> set (registered d')\<close> by blast
    ultimately have "fst d = fst d'"
      using suffix_last by metis
    then show False
      using Cons.prems(1) d_in by force
  qed
  moreover have "distinct (registered d)"
    using Cons.prems by (intro registered_suffixes(2)) auto
  ultimately show ?case
    using Cons by (auto simp: disjoint_iff)
qed simp

section \<open>Properties\<close>

text \<open>
  The command line of a set of cluster definitions never registers a flag twice, which
  would be a panic of the flag library: definitions with distinct names, none of them empty
  or the default name, and the default cluster have pairwise distinct flags, fleets included.
\<close>

theorem flag_names_unique:
  assumes "distinct (map fst ds)" "[] \<notin> set (map fst ds)" "''default'' \<notin> set (map fst ds)"
  shows "distinct (definition_flags ''default'' (RequireIdentity DefaultRules) @ concat (map registered ds))"
proof -
  have flags: "definition_flags ''default'' (RequireIdentity DefaultRules) =
      [''kubeconfig-identity'', ''kubeconfig-context'', ''kubeconfig'']"
    using default_flags by (simp add: definition_flags_def)
  have "x \<notin> set (registered d)"
    if in_ds: "d \<in> set ds" and x_main: "x \<in> set (definition_flags ''default'' (RequireIdentity DefaultRules))" for x d
  proof
    assume "x \<in> set (registered d)"
    moreover have ok: "fst d \<noteq> []" "fst d \<noteq> ''default''"
      using assms in_ds by force+
    ultimately obtain s where x: "x = fst d @ s" "s \<in> set suffixes"
      using registered_suffixes(1) by blast
    have "CHR ''-'' # x \<in> set suffixes"
      using x_main unfolding flags by (auto simp: suffixes_def)
    then have "CHR ''-'' # fst d = []"
      using suffix_last [of s "CHR ''-'' # x" "CHR ''-'' # fst d" "[]"] x by simp
    then show False
      by simp
  qed
  moreover have "distinct (definition_flags ''default'' (RequireIdentity DefaultRules))"
    unfolding flags by simp
  ultimately show ?thesis
    using distinct_registered [OF assms] by (auto simp: disjoint_iff)
qed

theorem flag_names_unique_witness:
  "distinct (definition_flags ''default'' (RequireIdentity DefaultRules) @
     concat (map registered [(''source'', ''from'', False), (''target'', ''to'', True)]))"
  by (rule flag_names_unique) simp_all

text \<open>The rules of a definition after the flags were parsed.\<close>

definition parsed_rules :: "string \<Rightarrow> string \<Rightarrow> string \<Rightarrow> string \<Rightarrow> string \<Rightarrow> rule" where
  "parsed_rules name desc ident ctx path =
     set_flag (name @ ''-kubeconfig-identity'') ident
       (set_flag (name @ ''-kubeconfig-context'') ctx
         (set_flag (name @ ''-kubeconfig'') path (RequireIdentity (DedicatedConfigRules name desc []))))"

definition parsed_options :: "string \<Rightarrow> string \<Rightarrow> config_options" where
  "parsed_options ident ctx = no_options\<lparr>co_identity := ident, co_current_context := ctx\<rparr>"

lemma TryKubeconfigFile_decides: "TryKubeconfigFile w path opts \<noteq> (None, None)"
  by (simp add: TryKubeconfigFile_def GetRestConfigFromKubeconfig_def split: sum.splits)

lemma TryKubeconfigFile_identity:
  "TryKubeconfigFile w path opts = (Some cfg, e) \<Longrightarrow> cf_identity cfg = co_identity opts \<and> cf_sub cfg = co_sub opts"
  by (auto simp: TryKubeconfigFile_def GetRestConfigFromKubeconfig_def PrepareConfigFor_def split: sum.splits)

lemma parsed_rules_eq:
  assumes "name \<noteq> []"
  shows "parsed_rules name desc ident ctx path =
    Rules [IdOption (name @ ''-kubeconfig'') True ident, ContextOption (name @ ''-kubeconfig'') ctx,
      KubeConfigOption (name @ ''-kubeconfig'') (or_default ''path to standard kubeconfig'' desc)
        [(''in-cluster'', InClusterConfig)] path None,
      EnvironmentVariable (to_upper name @ ''_KUBECONFIG'')] None"
  by (simp add: parsed_rules_def dedicated_rules [OF assms])

text \<open>The options when the kubeconfig option and the environment are reached.\<close>

lemma parsed_evaluation:
  assumes "name \<noteq> []"
  shows "fst (rule_GetConfig w (parsed_rules name desc ident ctx path) no_options) =
    (case rule_GetConfig w (KubeConfigOption (name @ ''-kubeconfig'') (or_default ''path to standard kubeconfig'' desc)
        [(''in-cluster'', InClusterConfig)] path None) (parsed_options ident ctx) of
      (res, opts, _) \<Rightarrow>
        if res \<noteq> (None, None) then res
        else EnvironmentVariable_GetConfig w (to_upper name @ ''_KUBECONFIG'') opts)"
proof -
  have ident: "rule_GetConfig w (IdOption n True ident) no_options =
      ((None, None), no_options\<lparr>co_identity := ident\<rparr>, IdOption n True ident)" for n
    by (simp add: no_options_def)
  have ctx: "rule_GetConfig w (ContextOption n ctx) (no_options\<lparr>co_identity := ident\<rparr>) =
      ((None, None), parsed_options ident ctx, ContextOption n ctx)" for n
    by (simp add: parsed_options_def no_options_def)
  show ?thesis
    unfolding parsed_rules_eq [OF assms] rule_GetConfig.simps(8) first_config.simps ident prod.case ctx
    by (simp add: case_prod_beta del: rule_GetConfig.simps(1-3))
qed

text \<open>
  Where the configuration of a cluster comes from: a kubeconfig flag \<open>context@file\<close> or
  \<open>file\<close> decides alone, with the context in front of the file before the context flag;
  without the flag the environment variable of the cluster decides, and without that there is
  no configuration, no error, and the fallback is used. The flag \<open>in-cluster\<close> outside a
  cluster is no error either: the environment variable is tried next.
\<close>

theorem dedicated_resolution:
  assumes "name \<noteq> []" "file \<notin> {[], ''in-cluster''}" "CHR ''@'' \<notin> set file" "CHR ''@'' \<notin> set c"
    and "w_in_cluster outside = Inl e" "w_absent outside e"
  shows
    "fst (rule_GetConfig w (parsed_rules name desc ident ctx file) no_options) =
       TryKubeconfigFile w file (parsed_options ident ctx) \<and>
     fst (rule_GetConfig w (parsed_rules name desc ident ctx (c @ CHR ''@'' # file)) no_options) =
       TryKubeconfigFile w file (parsed_options ident (if c = [] then ctx else c)) \<and>
     fst (rule_GetConfig w (parsed_rules name desc ident ctx []) no_options) =
       (if w_getenv w (to_upper name @ ''_KUBECONFIG'') = [] then (None, None)
        else TryKubeconfigFile w (w_getenv w (to_upper name @ ''_KUBECONFIG'')) (parsed_options ident ctx)) \<and>
     fst (rule_GetConfig outside (parsed_rules name desc ident ctx ''in-cluster'') no_options) =
       fst (rule_GetConfig outside (parsed_rules name desc ident ctx []) no_options)"
proof (intro conjI)
  have options: "parsed_options ident ctx\<lparr>co_current_context := x\<rparr> = parsed_options ident x" for x
    by (simp add: parsed_options_def)
  have ctx: "co_current_context (parsed_options ident ctx) = ctx"
    by (simp add: parsed_options_def)
  have "index_of (CHR ''@'') file = None"
    using assms(3) by simp
  then have "kubeconfig_context file (parsed_options ident ctx) = (file, parsed_options ident ctx)"
    by (simp add: kubeconfig_context_def ctx options del: index_of_None)
  then show "fst (rule_GetConfig w (parsed_rules name desc ident ctx file) no_options) =
      TryKubeconfigFile w file (parsed_options ident ctx)"
    using assms(2) by (simp add: parsed_evaluation [OF assms(1)] TryKubeconfigFile_decides)
  have "kubeconfig_context (c @ CHR ''@'' # file) (parsed_options ident ctx) =
      (file, parsed_options ident (if c = [] then ctx else c))"
    using assms(4) by (simp add: kubeconfig_context_def ctx options)
  moreover have "c @ CHR ''@'' # file \<noteq> ''in-cluster''"
  proof
    assume "c @ CHR ''@'' # file = ''in-cluster''"
    then have "CHR ''@'' \<in> set ''in-cluster''"
      by (metis in_set_conv_decomp)
    then show False
      by simp
  qed
  ultimately show "fst (rule_GetConfig w (parsed_rules name desc ident ctx (c @ CHR ''@'' # file)) no_options) =
      TryKubeconfigFile w file (parsed_options ident (if c = [] then ctx else c))"
    by (simp add: parsed_evaluation [OF assms(1)] TryKubeconfigFile_decides)
  show "fst (rule_GetConfig w (parsed_rules name desc ident ctx []) no_options) =
      (if w_getenv w (to_upper name @ ''_KUBECONFIG'') = [] then (None, None)
       else TryKubeconfigFile w (w_getenv w (to_upper name @ ''_KUBECONFIG'')) (parsed_options ident ctx))"
    by (simp add: parsed_evaluation [OF assms(1)] EnvironmentVariable_GetConfig_def)
  show "fst (rule_GetConfig outside (parsed_rules name desc ident ctx ''in-cluster'') no_options) =
      fst (rule_GetConfig outside (parsed_rules name desc ident ctx []) no_options)"
    using assms(5,6) by (simp add: parsed_evaluation [OF assms(1)] InClusterConfig_GetConfig_def)
qed

text \<open>A laptop: one kubeconfig file, no environment variable, not in a cluster.\<close>

definition world_demo :: "(string, string) world" where
  "world_demo =
     \<lparr>w_getenv = (\<lambda>_. []), w_load_file = (\<lambda>f. if f = ''kc'' then Inr f else Inl (External 2)),
      w_merged_context = (\<lambda>_ opts. Inr (co_current_context opts)), w_client_config = (\<lambda>f _. Inr f),
      w_file_namespace = (\<lambda>_ _. Inr ''ns''), w_in_cluster = Inl (External 1),
      w_absent = (\<lambda>e. e = External 1), w_migrate = None, w_home_file = ''home''\<rparr>"

theorem dedicated_resolution_witness:
  "fst (rule_GetConfig world_demo (parsed_rules ''source'' [] ''me'' [] ''prod@kc'') no_options) =
     (Some \<lparr>cf_identity = ''me'', cf_rest = ''kc'', cf_namespace = ''ns'', cf_context = ''prod'', cf_sub = None\<rparr>, None) \<and>
   fst (rule_GetConfig world_demo (parsed_rules ''source'' [] ''me'' [] ''in-cluster'') no_options) = (None, None)"
  using dedicated_resolution [of "''source''" "''kc''" "''prod''" world_demo "External 1" world_demo "[]" "''me''" "[]"]
  by (simp add: world_demo_def TryKubeconfigFile_def GetRestConfigFromKubeconfig_def PrepareConfigFor_def
      parsed_options_def no_options_def)

end
