(* ===== verification/Clusters.thy ===== *)
theory Clusters
  imports Names Mappings ElementGroups
begin

text \<open>
  Clusters, fleets of clusters, their aliases and the set of clusters a manager works with
  (packages cluster, cluster/cluster, cluster/fleet, cluster/fleet/fpi and the registrations
  of cluster/fleet/kcp).

  A cluster is a value: a base cluster with its name, its identity and the number of its
  client, the same cluster seen as a member of a fleet, or an alias. A fleet keeps its identity \<open>kf_ref\<close>, its
  members under their local names, an alias of a fleet keeps a cache of the aliases of the
  members it handed out; the operations that use the cache return the changed fleet.
\<close>

section \<open>Clusters and their aliases\<close>

datatype cluster =
    BaseCluster (bc_name: string) (bc_id: string) (bc_client: nat)
  | MemberCluster (mb_fleet: string) (mb_cluster: cluster)
  | ClusterAlias (ca_name: string) (ca_cluster: cluster)

fun cluster_GetName :: "cluster \<Rightarrow> string" where
  "cluster_GetName (BaseCluster n i k) = n"
| "cluster_GetName (MemberCluster f c) = cluster_GetName c"
| "cluster_GetName (ClusterAlias n c) = n"

fun cluster_GetLocalName :: "cluster \<Rightarrow> string" where
  "cluster_GetLocalName (BaseCluster n i k) = n"
| "cluster_GetLocalName (MemberCluster f c) = snd (Split (cluster_GetName c))"
| "cluster_GetLocalName (ClusterAlias n c) = cluster_GetLocalName c"

fun cluster_GetEffective :: "cluster \<Rightarrow> cluster" where
  "cluster_GetEffective (BaseCluster n i k) = BaseCluster n i k"
| "cluster_GetEffective (MemberCluster f c) = cluster_GetEffective c"
| "cluster_GetEffective (ClusterAlias n c) = cluster_GetEffective c"

definition cluster_GetId :: "cluster \<Rightarrow> string" where
  "cluster_GetId c = bc_id (cluster_GetEffective c)"

fun cluster_AsCluster :: "cluster \<Rightarrow> cluster" where
  "cluster_AsCluster (BaseCluster n i k) = BaseCluster n i k"
| "cluster_AsCluster (MemberCluster f c) = MemberCluster f c"
| "cluster_AsCluster (ClusterAlias n c) = cluster_AsCluster c"

definition cluster_NewAlias :: "string \<Rightarrow> cluster \<Rightarrow> cluster" where
  "cluster_NewAlias name c = (if name = cluster_GetName c then c else ClusterAlias name c)"

text \<open>\<open>Match\<close> and \<open>Filter\<close> are those of the base cluster.\<close>

definition cluster_Match :: "cluster \<Rightarrow> string \<Rightarrow> bool" where
  "cluster_Match c clusterName \<longleftrightarrow> bc_name (cluster_GetEffective c) = Normalize clusterName"

definition cluster_FilterById :: "cluster \<Rightarrow> string \<Rightarrow> bool" where
  "cluster_FilterById c clusterId \<longleftrightarrow> clusterId = cluster_GetId c"

definition cluster_GetClusterById :: "cluster \<Rightarrow> string \<Rightarrow> cluster option" where
  "cluster_GetClusterById c clusterId =
     (if clusterId = cluster_GetId c then Some (cluster_GetEffective c) else None)"

fun cluster_LiftTechnical :: "cluster \<Rightarrow> string \<Rightarrow> string \<times> cluster option" where
  "cluster_LiftTechnical (BaseCluster n i k) clusterName =
     (if n = Normalize clusterName then (n, Some (BaseCluster n i k)) else ([], None))"
| "cluster_LiftTechnical (MemberCluster f c) clusterName = cluster_LiftTechnical c clusterName"
| "cluster_LiftTechnical (ClusterAlias n c) clusterName = (n, Some (ClusterAlias n c))"

section \<open>Fleets\<close>

text \<open>\<open>kf_clusters\<close> are the registrations of a kcp fleet, by local name.\<close>

record kcp_fleet =
  kf_name :: string
  kf_ref :: nat
  kf_id :: string
  kf_clusters :: "(string, cluster) gomap"

datatype fleet =
    KFleet kcp_fleet
  | FleetAlias string fleet "(string, cluster) gomap"

fun fleet_GetName :: "fleet \<Rightarrow> string" where
  "fleet_GetName (KFleet k) = kf_name k"
| "fleet_GetName (FleetAlias n f cache) = n"

fun fleet_GetEffective :: "fleet \<Rightarrow> kcp_fleet" where
  "fleet_GetEffective (KFleet k) = k"
| "fleet_GetEffective (FleetAlias n f cache) = fleet_GetEffective f"

definition fleet_AsFleet :: "fleet \<Rightarrow> fleet" where
  "fleet_AsFleet f = KFleet (fleet_GetEffective f)"

definition fleet_GetId :: "fleet \<Rightarrow> string" where
  "fleet_GetId f = kf_id (fleet_GetEffective f)"

definition fleet_NewAlias :: "string \<Rightarrow> fleet \<Rightarrow> fleet" where
  "fleet_NewAlias name f = (if fleet_GetName f = name then f else FleetAlias name f [])"

definition Support_Match :: "kcp_fleet \<Rightarrow> string \<Rightarrow> bool" where
  "Support_Match k clusterName \<longleftrightarrow> fst (Split clusterName) = kf_name k"

definition Support_FilterById :: "kcp_fleet \<Rightarrow> string \<Rightarrow> bool" where
  "Support_FilterById k clusterId \<longleftrightarrow> fst (Split clusterId) = kf_id k"

fun fleet_Match :: "fleet \<Rightarrow> string \<Rightarrow> bool" where
  "fleet_Match (KFleet k) name = Support_Match k name"
| "fleet_Match (FleetAlias n f cache) name = (Composer_Match n name \<or> fleet_Match f name)"

text \<open>\<open>Filter\<close> is inherited from the fleet: it does not know the name of an alias.\<close>

definition fleet_Filter :: "fleet \<Rightarrow> string \<Rightarrow> bool" where
  "fleet_Filter f clusterName = Support_Match (fleet_GetEffective f) clusterName"

definition registrations_GetCluster :: "kcp_fleet \<Rightarrow> string \<Rightarrow> cluster option" where
  "registrations_GetCluster k name = gget (kf_clusters k) name"

fun fleet_GetClusterByLocalName :: "fleet \<Rightarrow> string \<Rightarrow> cluster option \<times> fleet" where
  "fleet_GetClusterByLocalName (KFleet k) name = (registrations_GetCluster k name, KFleet k)"
| "fleet_GetClusterByLocalName (FleetAlias a f cache) name =
     (case fleet_GetClusterByLocalName f name of
        (Some n, f') \<Rightarrow>
          (case gget cache name of
             Some x \<Rightarrow>
               if cluster_GetEffective x \<noteq> n
               then (let x' = cluster_NewAlias (Compose a name) n
                     in (Some x', FleetAlias a f' (gset name x' cache)))
               else (Some x, FleetAlias a f' cache)
           | None \<Rightarrow>
               (let x' = cluster_NewAlias (Compose a name) n
                in (Some x', FleetAlias a f' (gset name x' cache))))
      | (None, f') \<Rightarrow> (None, FleetAlias a f' (gdel name cache)))"

definition fleet_GetCluster :: "fleet \<Rightarrow> string \<Rightarrow> cluster option \<times> fleet" where
  "fleet_GetCluster f name =
     (let (b, n) = Split name in
      case f of
        KFleet k \<Rightarrow> (if b \<noteq> kf_name k \<and> b \<noteq> [] then None else registrations_GetCluster k n, f)
      | FleetAlias a f' cache \<Rightarrow> if a = b then fleet_GetClusterByLocalName f n else (None, f))"

datatype cluster_eq = CE_Cluster cluster | CE_Fleet fleet

definition fleet_GetClusterById :: "fleet \<Rightarrow> string \<Rightarrow> cluster_eq option" where
  "fleet_GetClusterById f ident =
     (let k = fleet_GetEffective f in
      if ident = kf_id k then Some (CE_Fleet (KFleet k))
      else let (b, n) = Split ident in
           if b \<noteq> kf_id k then None else map_option CE_Cluster (registrations_GetCluster k n))"

text \<open>
  Lifting the technical name of a member to the name the alias has for it. For a fleet alias
  a foreign name is a panic, \<open>Inl\<close>.
\<close>

fun fleet_LiftTechnical :: "fleet \<Rightarrow> string \<Rightarrow> (string \<times> cluster option) result \<times> fleet" where
  "fleet_LiftTechnical (KFleet k) clusterName =
     (let (b, n) = Split clusterName in
      if b = kf_name k then (Inr (clusterName, registrations_GetCluster k n), KFleet k)
      else (Inr ([], None), KFleet k))"
| "fleet_LiftTechnical (FleetAlias a f cache) name =
     (let (b, n) = Split name in
      if fleet_GetName f = b
      then (case fleet_GetClusterByLocalName (FleetAlias a f cache) n of (c, f') \<Rightarrow> (Inr (Compose a n, c), f'))
      else (Inl (Errorf ''technical cluster %q does not match logical fleet %q[%s]''
                   [name, a, kf_name (fleet_GetEffective f)]), FleetAlias a f cache))"

text \<open>
  Engaging and disengaging a member (kcp registrations). The API server of the base cluster
  and the multi-cluster manager are parameters; a member whose manager refuses it stays
  registered.
\<close>

definition Engage ::
  "gerror option \<Rightarrow> gerror option \<Rightarrow> string \<Rightarrow> nat \<Rightarrow> kcp_fleet \<Rightarrow> gerror option \<times> kcp_fleet" where
  "Engage api_server aware name client k =
     (case api_server of
        Some err \<Rightarrow> (Some err, k)
      | None \<Rightarrow>
          (aware, k\<lparr>kf_clusters :=
             gset name (MemberCluster (kf_name k)
                         (BaseCluster (Compose (kf_name k) name) (Compose (kf_id k) name) client))
               (kf_clusters k)\<rparr>))"

definition Disengage :: "string \<Rightarrow> kcp_fleet \<Rightarrow> kcp_fleet" where
  "Disengage name k = k\<lparr>kf_clusters := gdel name (kf_clusters k)\<rparr>"

section \<open>Cluster equivalents\<close>

fun ce_GetName :: "cluster_eq \<Rightarrow> string" where
  "ce_GetName (CE_Cluster c) = cluster_GetName c"
| "ce_GetName (CE_Fleet f) = fleet_GetName f"

fun ce_GetId :: "cluster_eq \<Rightarrow> string" where
  "ce_GetId (CE_Cluster c) = cluster_GetId c"
| "ce_GetId (CE_Fleet f) = fleet_GetId f"

fun ce_GetEffective :: "cluster_eq \<Rightarrow> cluster_eq" where
  "ce_GetEffective (CE_Cluster c) = CE_Cluster (cluster_GetEffective c)"
| "ce_GetEffective (CE_Fleet f) = CE_Fleet (KFleet (fleet_GetEffective f))"

fun ce_AsFleet :: "cluster_eq \<Rightarrow> fleet option" where
  "ce_AsFleet (CE_Cluster c) = None"
| "ce_AsFleet (CE_Fleet f) = Some (fleet_AsFleet f)"

fun ce_AsCluster :: "cluster_eq \<Rightarrow> cluster option" where
  "ce_AsCluster (CE_Cluster c) = Some (cluster_AsCluster c)"
| "ce_AsCluster (CE_Fleet f) = None"

text \<open>The alias of the underlying object: an alias of an alias forgets the name in between.\<close>

fun NewAlias :: "string \<Rightarrow> cluster_eq \<Rightarrow> cluster_eq" where
  "NewAlias name (CE_Cluster c) =
     (if cluster_GetName c = name then CE_Cluster c
      else CE_Cluster (cluster_NewAlias name (cluster_AsCluster c)))"
| "NewAlias name (CE_Fleet f) =
     (if fleet_GetName f = name then CE_Fleet f else CE_Fleet (fleet_NewAlias name (fleet_AsFleet f)))"

fun ce_IsSameAs :: "cluster_eq \<Rightarrow> cluster_eq \<Rightarrow> bool" where
  "ce_IsSameAs (CE_Cluster c) (CE_Cluster d) = (bc_client (cluster_GetEffective c) = bc_client (cluster_GetEffective d))"
| "ce_IsSameAs (CE_Fleet f) (CE_Fleet g) = (kf_ref (fleet_GetEffective f) = kf_ref (fleet_GetEffective g))"
| "ce_IsSameAs _ _ = False"

definition GetClusterFor :: "cluster_eq option \<Rightarrow> string \<Rightarrow> cluster option" where
  "GetClusterFor c name =
     (case c of
        None \<Rightarrow> None
      | Some (CE_Fleet f) \<Rightarrow> fst (fleet_GetCluster (fleet_AsFleet f) name)
      | Some (CE_Cluster d) \<Rightarrow>
          if cluster_GetName (cluster_AsCluster d) = name then Some (cluster_AsCluster d) else None)"

section \<open>Listing objects under global keys\<close>

text \<open>
  The clients are a parameter: \<open>la_create\<close> is the creation of the list object, \<open>la_list\<close> what
  the client of a base cluster lists, \<open>la_providers\<close> the caches of a fleet, whose objects carry
  the local name of their member. A query is an optional index name with a value.
\<close>

type_synonym query = "(string \<times> string) option"

record list_api =
  la_create :: "gerror option"
  la_list :: "nat \<Rightarrow> query \<Rightarrow> namespaced_name list result"
  la_providers :: "nat \<Rightarrow> (query \<Rightarrow> (string \<times> namespaced_name) list result) list"

definition base_ListGlobalKeys :: "list_api \<Rightarrow> cluster \<Rightarrow> query \<Rightarrow> global_key list result" where
  "base_ListGlobalKeys api c opts =
     (case la_create api of
        Some err \<Rightarrow> Inl err
      | None \<Rightarrow>
          (case la_list api (bc_client c) opts of
             Inl err \<Rightarrow> Inr []
           | Inr xs \<Rightarrow> Inr (map (NewGlobalKey (bc_name c)) xs)))"

definition base_ListIndexed ::
  "k8s_naming \<Rightarrow> list_api \<Rightarrow> cluster \<Rightarrow> string \<Rightarrow> typed_global_key \<Rightarrow> global_key list result" where
  "base_ListIndexed nm api c ix key =
     (case la_create api of
        Some err \<Rightarrow> Inl err
      | None \<Rightarrow>
     (case la_list api (bc_client c) (Some (ix, TypedGlobalKey_AsKey nm True key)) of
        Inl err \<Rightarrow> Inl err
      | Inr xs \<Rightarrow>
          (let results = map (NewGlobalKey (bc_name c)) xs in
           if gk_cluster (tk_key key) = bc_name c
           then (case la_list api (bc_client c)
                        (Some (ix, TypedGlobalKey_AsKey nm True (TypedGlobalKey_AsLocalKey key))) of
                   Inl err \<Rightarrow> Inl err
                 | Inr ys \<Rightarrow> Inr (results @ map (NewGlobalKey (bc_name c)) ys))
           else Inr results)))"

definition cluster_mapNames :: "string \<Rightarrow> string \<Rightarrow> global_key list result \<Rightarrow> global_key list result" where
  "cluster_mapNames name eff res =
     (case res of
        Inl err \<Rightarrow> Inl err
      | Inr xs \<Rightarrow> Inr (map (\<lambda>k. if gk_cluster k = eff then k\<lparr>gk_cluster := name\<rparr> else k) xs))"

fun cluster_ListGlobalKeys :: "list_api \<Rightarrow> cluster \<Rightarrow> query \<Rightarrow> global_key list result" where
  "cluster_ListGlobalKeys api (ClusterAlias n c) opts =
     cluster_mapNames n (bc_name (cluster_GetEffective c)) (base_ListGlobalKeys api (cluster_GetEffective c) opts)"
| "cluster_ListGlobalKeys api c opts = base_ListGlobalKeys api (cluster_GetEffective c) opts"

fun cluster_ListIndexed ::
  "k8s_naming \<Rightarrow> list_api \<Rightarrow> cluster \<Rightarrow> string \<Rightarrow> typed_global_key \<Rightarrow> global_key list result" where
  "cluster_ListIndexed nm api (ClusterAlias n c) ix key =
     cluster_mapNames n (bc_name (cluster_GetEffective c)) (base_ListIndexed nm api (cluster_GetEffective c) ix key)"
| "cluster_ListIndexed nm api c ix key = base_ListIndexed nm api (cluster_GetEffective c) ix key"

definition member_key :: "kcp_fleet \<Rightarrow> string \<times> namespaced_name \<Rightarrow> global_key" where
  "member_key k x = NewGlobalKey (Compose (kf_name k) (fst x)) (snd x)"

fun kcp_list ::
  "kcp_fleet \<Rightarrow> query \<Rightarrow> (query \<Rightarrow> (string \<times> namespaced_name) list result) list \<Rightarrow> global_key list result" where
  "kcp_list k q [] = Inr []"
| "kcp_list k q (pp # pps) =
     (case pp q of
        Inl err \<Rightarrow> Inl err
      | Inr xs \<Rightarrow>
          (case kcp_list k q pps of
             Inl err \<Rightarrow> Inl err
           | Inr rest \<Rightarrow> Inr (map (member_key k) xs @ rest)))"

definition kcp_ListGlobalKeys :: "list_api \<Rightarrow> kcp_fleet \<Rightarrow> query \<Rightarrow> global_key list result" where
  "kcp_ListGlobalKeys api k opts =
     (case la_create api of
        Some err \<Rightarrow> Inl err
      | None \<Rightarrow> kcp_list k (map_option (\<lambda>(f, v). (f, ''*/'' @ v)) opts) (la_providers api (kf_ref k)))"

fun kcp_list_indexed ::
  "kcp_fleet \<Rightarrow> query \<Rightarrow> query \<Rightarrow> string \<Rightarrow> (query \<Rightarrow> (string \<times> namespaced_name) list result) list \<Rightarrow>
   global_key list result" where
  "kcp_list_indexed k q lq owner [] = Inr []"
| "kcp_list_indexed k q lq owner (pp # pps) =
     (case pp q of
        Inl err \<Rightarrow> Inl err
      | Inr xs \<Rightarrow>
          (case pp lq of
             Inl err \<Rightarrow> Inl err
           | Inr ys \<Rightarrow>
               (case kcp_list_indexed k q lq owner pps of
                  Inl err \<Rightarrow> Inl err
                | Inr rest \<Rightarrow>
                    Inr (map (member_key k) xs @
                         filter (\<lambda>r. gk_cluster r = owner) (map (member_key k) ys) @ rest))))"

definition kcp_ListIndexed ::
  "k8s_naming \<Rightarrow> list_api \<Rightarrow> kcp_fleet \<Rightarrow> string \<Rightarrow> typed_global_key \<Rightarrow> global_key list result" where
  "kcp_ListIndexed nm api k ix key =
     (case la_create api of
        Some err \<Rightarrow> Inl err
      | None \<Rightarrow>
          kcp_list_indexed k (Some (ix, ''*/'' @ TypedGlobalKey_AsKey nm True key))
            (Some (ix, ''*/'' @ TypedGlobalKey_AsKey nm True (TypedGlobalKey_AsLocalKey key)))
            (gk_cluster (tk_key key)) (la_providers api (kf_ref k)))"

definition fleet_mapNames :: "string \<Rightarrow> string \<Rightarrow> global_key list result \<Rightarrow> global_key list result" where
  "fleet_mapNames a eff res =
     (case res of
        Inl err \<Rightarrow> Inl err
      | Inr xs \<Rightarrow>
          Inr (map (\<lambda>k. let (b, n) = Split (gk_cluster k) in
                      if b = eff then k\<lparr>gk_cluster := Compose a n\<rparr> else k) xs))"

fun fleet_ListGlobalKeys :: "list_api \<Rightarrow> fleet \<Rightarrow> query \<Rightarrow> global_key list result" where
  "fleet_ListGlobalKeys api (KFleet k) opts = kcp_ListGlobalKeys api k opts"
| "fleet_ListGlobalKeys api (FleetAlias a f cache) opts =
     fleet_mapNames a (kf_name (fleet_GetEffective f)) (kcp_ListGlobalKeys api (fleet_GetEffective f) opts)"

fun fleet_ListIndexed ::
  "k8s_naming \<Rightarrow> list_api \<Rightarrow> fleet \<Rightarrow> string \<Rightarrow> typed_global_key \<Rightarrow> global_key list result" where
  "fleet_ListIndexed nm api (KFleet k) ix key = kcp_ListIndexed nm api k ix key"
| "fleet_ListIndexed nm api (FleetAlias a f cache) ix key =
     fleet_mapNames a (kf_name (fleet_GetEffective f)) (kcp_ListIndexed nm api (fleet_GetEffective f) ix key)"

section \<open>The indices and the start of a cluster\<close>

text \<open>
  \<open>cr_indices\<close> are the indices of a cluster or a fleet, \<open>cr_started\<close> and \<open>cr_synced\<close> the two
  \<open>sync.Once\<close>, \<open>cr_syncer_calls\<close> the calls of the syncer. The outcomes of controller-runtime
  are arguments.
\<close>

record 'i cluster_runtime =
  cr_indices :: "(string, 'i) gomap"
  cr_started :: bool
  cr_synced :: bool
  cr_syncer_calls :: nat

definition CreateIndex ::
  "gerror option \<Rightarrow> 'i result option \<Rightarrow> 'i result \<Rightarrow> string \<Rightarrow> 'i cluster_runtime \<Rightarrow> 'i result \<times> 'i cluster_runtime" where
  "CreateIndex field_indexer wrapped default_index name r =
     (if gget (cr_indices r) name \<noteq> None then (Inl (Errorf ''index %q already defined'' [name]), r)
      else case field_indexer of
        Some err \<Rightarrow> (Inl err, r)
      | None \<Rightarrow>
          (case (case wrapped of Some w \<Rightarrow> w | None \<Rightarrow> default_index) of
             Inl err \<Rightarrow> (Inl err, r)
           | Inr idx \<Rightarrow> (Inr idx, r\<lparr>cr_indices := gset name idx (cr_indices r)\<rparr>)))"

definition cluster_Start :: "gerror option \<Rightarrow> 'i cluster_runtime \<Rightarrow> gerror option \<times> 'i cluster_runtime" where
  "cluster_Start outcome r = (if cr_started r then (None, r) else (outcome, r\<lparr>cr_started := True\<rparr>))"

definition WaitForCacheSync :: "bool \<Rightarrow> bool \<Rightarrow> 'i cluster_runtime \<Rightarrow> bool \<times> 'i cluster_runtime" where
  "WaitForCacheSync cache_synced has_syncer r =
     (if cr_synced r then (True, r)
      else (cache_synced,
            r\<lparr>cr_synced := True, cr_syncer_calls := (if has_syncer then Suc (cr_syncer_calls r) else cr_syncer_calls r)\<rparr>))"

section \<open>Sets of clusters\<close>

record cluster_set =
  cs_group :: "cluster_eq elem_group"
  cs_multi :: bool
  cs_disabled :: "string list"

definition newClusters :: cluster_set where
  "newClusters = \<lparr>cs_group = NewGroup ''cluster'', cs_multi = False, cs_disabled = []\<rparr>"

definition set_Get :: "cluster_set \<Rightarrow> string \<Rightarrow> cluster_eq option" where
  "set_Get cs name =
     (let (b, n) = Split name in
      if b = [] then Group_Get (cs_group cs) n
      else case Group_Get (cs_group cs) b of
        None \<Rightarrow> None
      | Some ce \<Rightarrow>
          (case ce_AsFleet ce of
             None \<Rightarrow> None
           | Some f \<Rightarrow> map_option CE_Cluster (fst (fleet_GetClusterByLocalName f n))))"

definition IsDisabled :: "cluster_set \<Rightarrow> string \<Rightarrow> bool" where
  "IsDisabled cs name \<longleftrightarrow> name \<in> set (cs_disabled cs)"

fun find_by_id :: "string \<Rightarrow> (string, cluster_eq) gomap \<Rightarrow> cluster_eq option" where
  "find_by_id ident [] = None"
| "find_by_id ident ((_, cl) # m) =
     (if ce_GetId cl = ident then Some cl
      else case ce_AsFleet cl of
        None \<Rightarrow> find_by_id ident m
      | Some fl \<Rightarrow>
          (case fleet_GetClusterById fl ident of
             Some c \<Rightarrow> Some c
           | None \<Rightarrow> find_by_id ident m))"

definition set_GetClusterById :: "cluster_set \<Rightarrow> string \<Rightarrow> cluster_eq option" where
  "set_GetClusterById cs ident = find_by_id ident (gr_elements (cs_group cs))"

definition set_Add :: "err_api \<Rightarrow> cluster_eq list \<Rightarrow> cluster_set \<Rightarrow> gerror option \<times> cluster_set" where
  "set_Add api elems cs =
     (case Group_Add api ce_GetName (\<lambda>_. AnyOther) elems (cs_group cs) of
        (Some err, g) \<Rightarrow> (Some err, cs\<lparr>cs_group := g\<rparr>)
      | (None, g) \<Rightarrow>
          (None, cs\<lparr>cs_group := g,
             cs_multi := fold (\<lambda>elem multi. if ce_AsFleet elem \<noteq> None then True
                                 else if Group_Len g > 1 then True else multi) elems (cs_multi cs)\<rparr>))"

text \<open>\<open>Map\<close> projects a set to the names a controller uses; the error of \<open>Add\<close> is dropped.\<close>

fun project :: "err_api \<Rightarrow> mappings \<Rightarrow> cluster_set \<Rightarrow> string list \<Rightarrow> cluster_set \<Rightarrow> cluster_set result" where
  "project api mp cl [] n = Inr n"
| "project api mp cl (local # names) n =
     (let global = Mappings_Map mp local in
      case set_Get cl global of
        None \<Rightarrow> Inl (Errorf ''global cluster %q for %q not defined'' [global, local])
      | Some c \<Rightarrow> project api mp cl names (snd (set_Add api [NewAlias local c] n)))"

definition set_Map :: "err_api \<Rightarrow> mappings \<Rightarrow> cluster_set \<Rightarrow> string list \<Rightarrow> cluster_set result" where
  "set_Map api mp cl names = project api mp cl names newClusters"

definition CreateMappingsProvidedBy :: "cluster_set \<Rightarrow> mappings" where
  "CreateMappingsProvidedBy cs =
     Some (fold (\<lambda>(n, c) m. if n \<noteq> ce_GetName (ce_GetEffective c)
                    then Mappings_Add n (ce_GetName (ce_GetEffective c)) m else m)
             (gr_elements (cs_group cs)) [])"

section \<open>Lemmas\<close>

lemma effective_base [simp]: "\<exists>n i k. cluster_GetEffective c = BaseCluster n i k"
  by (induction c) auto

lemma effective_effective [simp]: "cluster_GetEffective (cluster_GetEffective c) = cluster_GetEffective c"
  by (induction c) auto

lemma AsCluster_effective [simp]: "cluster_GetEffective (cluster_AsCluster c) = cluster_GetEffective c"
  by (induction c) auto

lemma cluster_NewAlias_simps [simp]:
  "cluster_GetName (cluster_NewAlias n c) = n"
  "cluster_GetEffective (cluster_NewAlias n c) = cluster_GetEffective c"
  by (auto simp: cluster_NewAlias_def)

lemma NewAlias_simps [simp]:
  "ce_GetName (NewAlias n c) = n"
  "ce_GetEffective (NewAlias n c) = ce_GetEffective c"
  "ce_AsFleet (NewAlias n c) = ce_AsFleet c"
  by (cases c; auto simp: fleet_NewAlias_def fleet_AsFleet_def)+

lemma set_Add_elements:
  "gr_elements (cs_group (snd (set_Add api es cs))) =
     gr_elements (fold (group_step api ce_GetName (\<lambda>_. AnyOther)) es (cs_group cs))"
proof -
  have "fold (group_step api ce_GetName (\<lambda>_. AnyOther)) es (cs_group cs) =
      snd (Group_Add api ce_GetName (\<lambda>_. AnyOther) es (cs_group cs))"
    by (simp add: Group_Add_fold)
  then show ?thesis
    by (simp add: set_Add_def split: prod.splits option.splits)
qed

lemma set_Add_Get:
  "Group_Get (cs_group (snd (set_Add api es cs))) n =
     (case Group_Get (cs_group cs) n of Some c \<Rightarrow> Some c | None \<Rightarrow> find (\<lambda>c. ce_GetName c = n) es)"
  unfolding Group_Get_def set_Add_elements fold_step_elements firsts_def ..

lemma set_Add_wf:
  "gwf (gr_elements (cs_group cs)) \<Longrightarrow> gwf (gr_elements (cs_group (snd (set_Add api es cs))))"
  by (simp add: set_Add_elements fold_step_wf)

lemma newClusters_empty [simp]:
  "Group_Get (cs_group newClusters) n = None" "gwf (gr_elements (cs_group newClusters))"
  by (simp_all add: newClusters_def NewGroup_def Group_Get_def)

lemma set_Get_plain:
  "CHR ''#'' \<notin> set n \<Longrightarrow> set_Get cs n = Group_Get (cs_group cs) n"
  by (simp add: set_Get_def)

lemma project_ok:
  "\<forall>l \<in> set names. set_Get cl (Mappings_Map mp l) \<noteq> None \<Longrightarrow> distinct names \<Longrightarrow>
   gwf (gr_elements (cs_group n)) \<Longrightarrow> \<forall>l \<in> set names. Group_Get (cs_group n) l = None \<Longrightarrow>
   \<exists>n'. project api mp cl names n = Inr n' \<and> gwf (gr_elements (cs_group n')) \<and>
     (\<forall>l. Group_Get (cs_group n') l =
        (if l \<in> set names then Some (NewAlias l (the (set_Get cl (Mappings_Map mp l))))
         else Group_Get (cs_group n) l))"
proof (induction names arbitrary: n)
  case (Cons l names)
  obtain c where c: "set_Get cl (Mappings_Map mp l) = Some c"
    using Cons.prems(1) by auto
  let ?n = "snd (set_Add api [NewAlias l c] n)"
  have "\<forall>l' \<in> set names. Group_Get (cs_group ?n) l' = None"
    using Cons.prems(2,4) by (auto simp: set_Add_Get)
  then obtain n' where "project api mp cl names ?n = Inr n'" "gwf (gr_elements (cs_group n'))"
    and get: "\<And>l'. Group_Get (cs_group n') l' =
        (if l' \<in> set names then Some (NewAlias l' (the (set_Get cl (Mappings_Map mp l'))))
         else Group_Get (cs_group ?n) l')"
    using Cons.IH [of ?n] Cons.prems(1-3) set_Add_wf by auto
  moreover have "Group_Get (cs_group n') l' =
      (if l' \<in> set (l # names) then Some (NewAlias l' (the (set_Get cl (Mappings_Map mp l'))))
       else Group_Get (cs_group n) l')" for l'
    using Cons.prems(2,4) by (auto simp: get c set_Add_Get split: option.splits)
  ultimately show ?case
    by (auto simp: c Let_def)
qed auto

lemma project_error:
  "\<exists>l \<in> set names. set_Get cl (Mappings_Map mp l) = None \<Longrightarrow>
   \<exists>l \<in> set names. set_Get cl (Mappings_Map mp l) = None \<and>
     project api mp cl names n =
       Inl (Errorf ''global cluster %q for %q not defined'' [Mappings_Map mp l, l])"
  by (induction names arbitrary: n) (auto simp: Let_def split: option.splits)

lemma provided_mappings:
  assumes "gwf m"
  shows "gget (fold (\<lambda>(n, c) m. if n \<noteq> ce_GetName (ce_GetEffective c)
                    then Mappings_Add n (ce_GetName (ce_GetEffective c)) m else m) m acc) n =
    (case gget m n of
       None \<Rightarrow> gget acc n
     | Some c \<Rightarrow> if n \<noteq> ce_GetName (ce_GetEffective c) then Some (ce_GetName (ce_GetEffective c)) else gget acc n)"
  using assms
  by (induction m arbitrary: acc) (auto simp: gwf_Cons Mappings_Add_def split: option.splits)

text \<open>The members of a kcp fleet are what \<open>Engage\<close> registers.\<close>

definition member_of :: "kcp_fleet \<Rightarrow> string \<Rightarrow> nat \<Rightarrow> cluster" where
  "member_of k n client =
     MemberCluster (kf_name k) (BaseCluster (Compose (kf_name k) n) (Compose (kf_id k) n) client)"

definition kcp_ok :: "kcp_fleet \<Rightarrow> bool" where
  "kcp_ok k \<longleftrightarrow> (\<forall>n c. gget (kf_clusters k) n = Some c \<longrightarrow> (\<exists>client. c = member_of k n client))"

lemma kcp_ok_ops:
  "kcp_ok k \<Longrightarrow> kcp_ok (snd (Engage e1 e2 n client k))"
  "kcp_ok k \<Longrightarrow> kcp_ok (Disengage n k)"
  by (auto simp: kcp_ok_def Engage_def Disengage_def member_of_def split: option.splits)

lemma member_of_simps [simp]:
  "cluster_GetName (member_of k n client) = Compose (kf_name k) n"
  "cluster_GetEffective (member_of k n client) = BaseCluster (Compose (kf_name k) n) (Compose (kf_id k) n) client"
  "cluster_GetEffective x \<noteq> member_of k n client"
proof -
  show "cluster_GetEffective x \<noteq> member_of k n client"
    using effective_base [of x] by (auto simp: member_of_def simp del: effective_base)
qed (simp_all add: member_of_def)

lemma Compose_inject: "CHR ''#'' \<notin> set a \<Longrightarrow> CHR ''#'' \<notin> set b \<Longrightarrow> n \<noteq> [] \<Longrightarrow> Compose a n = Compose b n \<longleftrightarrow> a = b"
  by (metis Split_Compose prod.inject)

text \<open>An alias answers from its fleet; its cache never decides the answer.\<close>

lemma alias_lookup:
  assumes "kcp_ok k" "a \<noteq> kf_name k" "CHR ''#'' \<notin> set a" "CHR ''#'' \<notin> set (kf_name k)" "n \<noteq> []"
  shows "fst (fleet_GetClusterByLocalName (FleetAlias a (KFleet k) cache) n) =
    map_option (ClusterAlias (Compose a n)) (registrations_GetCluster k n)"
proof (cases "registrations_GetCluster k n")
  case (Some c)
  then obtain client where c: "c = member_of k n client"
    using assms(1) by (auto simp: kcp_ok_def registrations_GetCluster_def)
  have "cluster_NewAlias (Compose a n) c = ClusterAlias (Compose a n) c"
    using assms Compose_inject [of a "kf_name k" n] by (auto simp: c cluster_NewAlias_def)
  then show ?thesis
    by (simp add: Some c Let_def split: option.split)
qed simp

text \<open>The members listed by a fleet.\<close>

lemma kcp_list_members:
  "kcp_list k q pps = Inr keys \<Longrightarrow> key \<in> set keys \<Longrightarrow>
    \<exists>pp \<in> set pps. \<exists>xs. pp q = Inr xs \<and> (\<exists>x \<in> set xs. key = member_key k x)"
  by (induction pps arbitrary: keys) (fastforce split: sum.splits)+

section \<open>Properties\<close>

text \<open>
  Projecting a set of clusters to the names of a controller succeeds exactly if every
  name is mapped to a defined cluster; then the projection has exactly these names, each an
  alias with its own name for the same effective cluster, and the mapping derived from it
  leads back to the name of the effective cluster. Otherwise the error names an undefined
  cluster.
\<close>

theorem cluster_projection:
  assumes "distinct names" "\<forall>l \<in> set names. CHR ''#'' \<notin> set l"
  shows "if \<forall>l \<in> set names. set_Get cl (Mappings_Map mp l) \<noteq> None
    then \<exists>n. set_Map api mp cl names = Inr n \<and>
      (\<forall>l. CHR ''#'' \<notin> set l \<longrightarrow>
        (l \<notin> set names \<longrightarrow> set_Get n l = None) \<and>
        (l \<in> set names \<longrightarrow>
          (\<exists>c. set_Get n l = Some c \<and> ce_GetName c = l \<and>
            ce_GetEffective c = ce_GetEffective (the (set_Get cl (Mappings_Map mp l))) \<and>
            (ce_GetName (ce_GetEffective c) \<noteq> [] \<longrightarrow>
              Mappings_Map (CreateMappingsProvidedBy n) l = ce_GetName (ce_GetEffective c)))))
    else \<exists>l \<in> set names. set_Get cl (Mappings_Map mp l) = None \<and>
      set_Map api mp cl names = Inl (Errorf ''global cluster %q for %q not defined'' [Mappings_Map mp l, l])"
proof (cases "\<forall>l \<in> set names. set_Get cl (Mappings_Map mp l) \<noteq> None")
  case True
  then obtain n where n: "set_Map api mp cl names = Inr n" and wf: "gwf (gr_elements (cs_group n))"
    and get: "\<And>l. Group_Get (cs_group n) l =
        (if l \<in> set names then Some (NewAlias l (the (set_Get cl (Mappings_Map mp l)))) else None)"
    using project_ok [OF True assms(1), of newClusters api] by (auto simp: set_Map_def)
  have provided: "Mappings_Map (CreateMappingsProvidedBy n) l = ce_GetName (ce_GetEffective c)"
    if "Group_Get (cs_group n) l = Some c" "ce_GetName (ce_GetEffective c) \<noteq> []" for l c
    using that provided_mappings [OF wf, of "[]" l]
    by (auto simp: Mappings_Map_def CreateMappingsProvidedBy_def mget_def Group_Get_def)
  have "(l \<notin> set names \<longrightarrow> set_Get n l = None) \<and>
      (l \<in> set names \<longrightarrow>
        (\<exists>c. set_Get n l = Some c \<and> ce_GetName c = l \<and>
          ce_GetEffective c = ce_GetEffective (the (set_Get cl (Mappings_Map mp l))) \<and>
          (ce_GetName (ce_GetEffective c) \<noteq> [] \<longrightarrow>
            Mappings_Map (CreateMappingsProvidedBy n) l = ce_GetName (ce_GetEffective c))))"
    if "CHR ''#'' \<notin> set l" for l
    using provided [of l] get [of l] by (auto simp: set_Get_plain [OF that])
  then show ?thesis
    using True n by auto
next
  case False
  then show ?thesis
    using project_error [of names cl mp api newClusters] by (auto simp: set_Map_def)
qed

theorem cluster_projection_witness:
  "\<exists>n. set_Map err_demo (Some [(''src'', ''main'')])
      (snd (set_Add err_demo [CE_Cluster (BaseCluster ''main'' ''id'' 7)] newClusters)) [''src''] = Inr n \<and>
    set_Get n ''main'' = None"
proof -
  let ?cl = "snd (set_Add err_demo [CE_Cluster (BaseCluster ''main'' ''id'' 7)] newClusters)"
  have "set_Get ?cl (Mappings_Map (Some [(''src'', ''main'')]) ''src'') \<noteq> None"
    by (simp add: set_Get_plain set_Add_Get Mappings_Map_def mget_def)
  then show ?thesis
    using cluster_projection [of "[''src'']" ?cl "Some [(''src'', ''main'')]" err_demo] by fastforce
qed

text \<open>
  What an alias of a fleet says about its members is consistent: every key it lists
  carries a name that it matches, and looking this name up gives a cluster of that name for
  the same effective cluster, whatever the cache of the alias contains; a technical name is
  lifted to the same cluster. The cache is never used: an entry is rebuilt on every lookup.
\<close>

theorem alias_keys_resolve:
  assumes k: "kcp_ok k" "CHR ''#'' \<notin> set (kf_name k)"
    and a: "a \<noteq> kf_name k" "CHR ''#'' \<notin> set a"
    and listed: "\<And>pp q xs x. pp \<in> set (la_providers api (kf_ref k)) \<Longrightarrow> pp q = Inr xs \<Longrightarrow> x \<in> set xs \<Longrightarrow>
        fst x \<noteq> [] \<and> registrations_GetCluster k (fst x) \<noteq> None"
    and keys: "fleet_ListGlobalKeys api (FleetAlias a (KFleet k) cache) q = Inr keys" "key \<in> set keys"
  shows "\<exists>n c. n \<noteq> [] \<and> gk_cluster key = Compose a n \<and> registrations_GetCluster k n = Some c \<and>
    fleet_Match (FleetAlias a (KFleet k) cache) (gk_cluster key) \<and>
    fst (fleet_GetCluster (FleetAlias a (KFleet k) cache) (gk_cluster key)) = Some (ClusterAlias (gk_cluster key) c) \<and>
    fst (fleet_LiftTechnical (FleetAlias a (KFleet k) cache) (cluster_GetName c)) =
      Inr (gk_cluster key, Some (ClusterAlias (gk_cluster key) c))"
proof -
  obtain keys0 key0 where "kcp_ListGlobalKeys api k q = Inr keys0" "key0 \<in> set keys0"
    and key: "key = (let (b, n) = Split (gk_cluster key0) in
                      if b = kf_name k then key0\<lparr>gk_cluster := Compose a n\<rparr> else key0)"
    using keys by (auto simp: fleet_mapNames_def split: sum.splits)
  then obtain pp q' xs x where "pp \<in> set (la_providers api (kf_ref k))" "pp q' = Inr xs" and
    x: "x \<in> set xs" "key0 = member_key k x"
    using kcp_list_members by (fastforce simp: kcp_ListGlobalKeys_def split: option.splits)
  then have n: "fst x \<noteq> []" and "registrations_GetCluster k (fst x) \<noteq> None"
    using listed by auto
  then obtain c where "registrations_GetCluster k (fst x) = Some c"
    by blast
  moreover obtain client where "c = member_of k (fst x) client"
    using k(1) calculation by (auto simp: kcp_ok_def registrations_GetCluster_def)
  ultimately have c: "registrations_GetCluster k (fst x) = Some c" "c = member_of k (fst x) client"
    by simp_all
  have key': "gk_cluster key = Compose a (fst x)"
    using n k(2) by (simp add: key x(2) member_key_def NewGlobalKey_def)
  have lookup: "fst (fleet_GetClusterByLocalName (FleetAlias a (KFleet k) cache) (fst x)) =
      Some (ClusterAlias (Compose a (fst x)) c)"
    by (simp only: alias_lookup [OF k(1) a k(2) n] c(1) option.map)
  have "fleet_Match (FleetAlias a (KFleet k) cache) (Compose a (fst x))"
    using a n by (simp add: Composer_Match_def)
  moreover have "fst (fleet_GetCluster (FleetAlias a (KFleet k) cache) (Compose a (fst x))) =
      Some (ClusterAlias (Compose a (fst x)) c)"
    using lookup a n by (simp add: fleet_GetCluster_def del: fleet_GetClusterByLocalName.simps)
  moreover have "fst (fleet_LiftTechnical (FleetAlias a (KFleet k) cache) (cluster_GetName c)) =
      Inr (Compose a (fst x), Some (ClusterAlias (Compose a (fst x)) c))"
    using lookup k(2) n by (simp add: c(2) case_prod_beta del: fleet_GetClusterByLocalName.simps)
  ultimately show ?thesis
    using n c(1) by (auto simp: key' simp del: fleet_LiftTechnical.simps fleet_Match.simps)
qed

text \<open>A fleet with one engaged member and one object in it.\<close>

definition fleet_demo :: kcp_fleet where
  "fleet_demo = snd (Engage None None ''ws1'' 4 \<lparr>kf_name = ''kcp'', kf_ref = 0, kf_id = ''kcp'', kf_clusters = []\<rparr>)"

definition api_demo :: list_api where
  "api_demo = \<lparr>la_create = None, la_list = (\<lambda>_ _. Inr []),
     la_providers = (\<lambda>_. [\<lambda>_. Inr [(''ws1'', \<lparr>nn_namespace = ''ns'', nn_name = ''obj''\<rparr>)]])\<rparr>"

theorem alias_keys_resolve_witness:
  "\<exists>n c. n \<noteq> [] \<and> ''src#ws1'' = Compose ''src'' n \<and>
    fst (fleet_GetCluster (FleetAlias ''src'' (KFleet fleet_demo) []) ''src#ws1'') = Some (ClusterAlias ''src#ws1'' c)"
proof -
  have ok: "kcp_ok fleet_demo"
    unfolding fleet_demo_def by (intro kcp_ok_ops) (simp add: kcp_ok_def)
  have list: "fleet_ListGlobalKeys api_demo (FleetAlias ''src'' (KFleet fleet_demo) []) None =
      Inr [NewGlobalKey ''src#ws1'' \<lparr>nn_namespace = ''ns'', nn_name = ''obj''\<rparr>]"
    by (simp add: api_demo_def fleet_demo_def Engage_def kcp_ListGlobalKeys_def fleet_mapNames_def
        member_key_def NewGlobalKey_def Compose_def Split_def)
  have listed: "pp \<in> set (la_providers api_demo (kf_ref fleet_demo)) \<Longrightarrow> pp q = Inr xs \<Longrightarrow> x \<in> set xs \<Longrightarrow>
      fst x \<noteq> [] \<and> registrations_GetCluster fleet_demo (fst x) \<noteq> None" for pp q xs x
    by (auto simp: api_demo_def fleet_demo_def Engage_def registrations_GetCluster_def)
  have name: "kf_name fleet_demo = ''kcp''"
    by (simp add: fleet_demo_def Engage_def)
  let ?key = "NewGlobalKey ''src#ws1'' \<lparr>nn_namespace = ''ns'', nn_name = ''obj''\<rparr>"
  let ?A = "FleetAlias ''src'' (KFleet fleet_demo) []"
  have "\<exists>n c. n \<noteq> [] \<and> gk_cluster ?key = Compose ''src'' n \<and> registrations_GetCluster fleet_demo n = Some c \<and>
      fleet_Match ?A (gk_cluster ?key) \<and>
      fst (fleet_GetCluster ?A (gk_cluster ?key)) = Some (ClusterAlias (gk_cluster ?key) c) \<and>
      fst (fleet_LiftTechnical ?A (cluster_GetName c)) = Inr (gk_cluster ?key, Some (ClusterAlias (gk_cluster ?key) c))"
    by (rule alias_keys_resolve [OF ok _ _ _ _ list])
      (simp add: name, simp add: name, simp, erule (2) listed, simp)
  moreover have "gk_cluster ?key = ''src#ws1''"
    by (simp add: NewGlobalKey_def)
  ultimately show ?thesis
    by metis
qed

text \<open>
  What happens to a member: it is engaged with a client, or the context of one of its
  engagements ends.
\<close>

datatype fleet_event = Engaged string nat | Ended string

fun run_event :: "fleet_event \<Rightarrow> kcp_fleet \<Rightarrow> kcp_fleet" where
  "run_event (Engaged n client) k = snd (Engage None None n client k)"
| "run_event (Ended n) k = Disengage n k"

fun event_name :: "fleet_event \<Rightarrow> string" where
  "event_name (Engaged n client) = n"
| "event_name (Ended n) = n"

lemma run_events_fields [simp]:
  "kf_name (fold run_event evs k) = kf_name k" "kf_id (fold run_event evs k) = kf_id k"
proof -
  have "kf_name (run_event e k) = kf_name k \<and> kf_id (run_event e k) = kf_id k" for e k
    by (cases e) (simp_all add: Engage_def Disengage_def)
  then show "kf_name (fold run_event evs k) = kf_name k" "kf_id (fold run_event evs k) = kf_id k"
    by (induction evs arbitrary: k) simp_all
qed

text \<open>
  After any history of engagements the fleet knows exactly the members whose last event
  is an engagement, each under its local name, with the composed name and identity and the
  client of that engagement, and finds it by its name and by its identity. The end of an
  older engagement removes a member that was engaged again in the meantime.
\<close>

theorem engage_history:
  assumes fresh: "kf_clusters k = []" and free: "CHR ''#'' \<notin> set (kf_name k)" "CHR ''#'' \<notin> set (kf_id k)"
    and n: "n \<noteq> []" and k': "k' = fold run_event evs k"
  shows "registrations_GetCluster k' n =
      (case find (\<lambda>e. event_name e = n) (rev evs) of
         Some (Engaged _ client) \<Rightarrow> Some (member_of k n client) | _ \<Rightarrow> None) \<and>
    fst (fleet_GetCluster (KFleet k') (Compose (kf_name k) n)) = registrations_GetCluster k' n \<and>
    (kf_id k \<noteq> Compose (kf_id k) n \<longrightarrow>
      fleet_GetClusterById (KFleet k') (Compose (kf_id k) n) = map_option CE_Cluster (registrations_GetCluster k' n)) \<and>
    registrations_GetCluster (fold run_event [Engaged n c1, Engaged n c2, Ended n] k') n = None"
proof (intro conjI impI)
  have "registrations_GetCluster (fold run_event evs k) n =
      (case find (\<lambda>e. event_name e = n) (rev evs) of
         Some (Engaged _ client) \<Rightarrow> Some (member_of k n client) | _ \<Rightarrow> None)"
  proof (induction evs rule: rev_induct)
    case (snoc e evs)
    then show ?case
      by (cases e) (auto simp: Engage_def Disengage_def registrations_GetCluster_def member_of_def)
  qed (simp add: registrations_GetCluster_def fresh)
  then show "registrations_GetCluster k' n =
      (case find (\<lambda>e. event_name e = n) (rev evs) of
         Some (Engaged _ client) \<Rightarrow> Some (member_of k n client) | _ \<Rightarrow> None)"
    by (simp add: k')
  show "fst (fleet_GetCluster (KFleet k') (Compose (kf_name k) n)) = registrations_GetCluster k' n"
    using free n by (simp add: fleet_GetCluster_def k')
  show "fleet_GetClusterById (KFleet k') (Compose (kf_id k) n) = map_option CE_Cluster (registrations_GetCluster k' n)"
    if "kf_id k \<noteq> Compose (kf_id k) n"
    using that free n by (simp add: fleet_GetClusterById_def k')
  show "registrations_GetCluster (fold run_event [Engaged n c1, Engaged n c2, Ended n] k') n = None"
    by (simp add: Disengage_def registrations_GetCluster_def)
qed

theorem engage_history_witness:
  "registrations_GetCluster (fold run_event [Engaged ''a'' 1, Ended ''b'', Engaged ''a'' 2]
      \<lparr>kf_name = ''kcp'', kf_ref = 0, kf_id = ''id'', kf_clusters = []\<rparr>) ''a'' =
    Some (MemberCluster ''kcp'' (BaseCluster ''kcp#a'' ''id#a'' 2))"
  using engage_history [of "\<lparr>kf_name = ''kcp'', kf_ref = 0, kf_id = ''id'', kf_clusters = []\<rparr>" "''a''" _
      "[Engaged ''a'' 1, Ended ''b'', Engaged ''a'' 2]", OF _ _ _ _ refl]
  by (simp add: member_of_def Compose_def)

text \<open>
  An index of a cluster is created at most once: a second creation under the same name
  is an error, and a creation that fails leaves the indices as they were. A cluster is
  started once, only the first start reports its outcome, and a failed synchronisation of
  the cache is reported to the first caller only: every later caller is told it succeeded.
\<close>

theorem index_and_start_once:
  "(gget (cr_indices r) name \<noteq> None \<longrightarrow>
      CreateIndex fi w d name r = (Inl (Errorf ''index %q already defined'' [name]), r)) \<and>
   (\<forall>e r'. CreateIndex fi w d name r = (Inl e, r') \<longrightarrow> r' = r) \<and>
   (\<forall>idx r'. CreateIndex fi w d name r = (Inr idx, r') \<longrightarrow>
      gget (cr_indices r) name = None \<and> fi = None \<and> gget (cr_indices r') = (gget (cr_indices r))(name \<mapsto> idx) \<and>
      fst (CreateIndex fi w d name r') = Inl (Errorf ''index %q already defined'' [name])) \<and>
   fst (cluster_Start e2 (snd (cluster_Start e1 r))) = None \<and>
   fst (WaitForCacheSync b2 s2 (snd (WaitForCacheSync False s1 r)))"
  by (auto simp: CreateIndex_def cluster_Start_def WaitForCacheSync_def split: option.splits sum.splits)

theorem index_and_start_once_witness:
  "fst (CreateIndex None None (Inr (5 :: nat)) ''owner''
      (snd (CreateIndex None None (Inr 5) ''owner'' \<lparr>cr_indices = [], cr_started = False, cr_synced = False, cr_syncer_calls = 0\<rparr>))) =
    Inl (Errorf ''index %q already defined'' [''owner''])"
  using index_and_start_once [of "\<lparr>cr_indices = [], cr_started = False, cr_synced = False, cr_syncer_calls = 0\<rparr>" "''owner''"
      None None "Inr (5 :: nat)" None None True True True]
  by (simp add: CreateIndex_def)

end
