(* ===== verification/ClusterDefs.thy ===== *)
theory ClusterDefs
  imports Clusters ConfigRules
begin

text \<open>
  The definitions of clusters and the validation that turns them into the set of clusters of
  a manager (cluster/def.go, def-cluster.go, def-fleet.go, defs.go, cluster/fleet/kcp/type.go
  and the constructors of cluster/cluster/cluster.go and cluster/fleet/kcp/fleet.go).

  Clients, type converters and the APIExport provider are created by external code: they are
  numbers given by the record \<open>cluster_env\<close>. The range over the definitions may meet them in
  another order in every pass: \<open>ord i\<close> is the order of pass \<open>i\<close>.
\<close>

record ('a, 'r) cluster_env =
  ce_world :: "('a, 'r) world"
  ce_client :: "'r \<Rightarrow> nat result"
  ce_converters :: "'r \<Rightarrow> gerror option"
  ce_apiexport :: "'r \<Rightarrow> string \<Rightarrow> nat result"

section \<open>Definitions\<close>

abbreviation DEFAULT :: string where
  "DEFAULT \<equiv> ''default''"

text \<open>A plain definition, or one for a fleet that may insist on being one.\<close>

datatype def_kind = ClusterKind | FleetKind bool

record cluster_def =
  cd_name :: string
  cd_fallback :: string
  cd_rules :: rule
  cd_desc :: string
  cd_kind :: def_kind

definition newBase :: "def_kind \<Rightarrow> string \<Rightarrow> string \<Rightarrow> rule list \<Rightarrow> cluster_def" where
  "newBase kind name desc rs =
     (let rs = (if rs = []
                then if name = DEFAULT then [DedicatedConfigRules [] desc []]
                     else [DedicatedConfigRules name desc []]
                else rs)
      in \<lparr>cd_name = name, cd_fallback = DEFAULT, cd_rules = NewRules rs, cd_desc = desc, cd_kind = kind\<rparr>)"

definition Define :: "string \<Rightarrow> string \<Rightarrow> rule list \<Rightarrow> cluster_def" where
  "Define name desc rs = newBase ClusterKind name desc rs"

definition DefineFleet :: "string \<Rightarrow> string \<Rightarrow> cluster_def" where
  "DefineFleet name desc =
     (newBase (FleetKind False) name desc [])\<lparr>cd_rules := kcp_GetRules name desc\<rparr>"

definition MustBeFleet :: "cluster_def \<Rightarrow> cluster_def" where
  "MustBeFleet d = d\<lparr>cd_kind := FleetKind True\<rparr>"

definition WithFallback :: "string \<Rightarrow> cluster_def \<Rightarrow> cluster_def" where
  "WithFallback fallback d = d\<lparr>cd_fallback := fallback\<rparr>"

definition AcceptFleet :: "cluster_def \<Rightarrow> bool" where
  "AcceptFleet d \<longleftrightarrow> cd_kind d \<noteq> ClusterKind"

definition NewCluster :: "('a, 'r) cluster_env \<Rightarrow> string \<Rightarrow> 'r config \<Rightarrow> cluster result" where
  "NewCluster env name cfg =
     (case ce_client env (cf_rest cfg) of
        Inl err \<Rightarrow> Inl err
      | Inr client \<Rightarrow>
          (case ce_converters env (cf_rest cfg) of
             Some err \<Rightarrow> Inl err
           | None \<Rightarrow> Inr (BaseCluster name (or_default name (cf_identity cfg)) client)))"

definition kcp_New :: "('a, 'r) cluster_env \<Rightarrow> string \<Rightarrow> string \<Rightarrow> 'r \<Rightarrow> string \<Rightarrow> fleet result" where
  "kcp_New env name ident rest slice =
     (case ce_client env rest of
        Inl err \<Rightarrow> Inl err
      | Inr client \<Rightarrow>
          (case ce_converters env rest of
             Some err \<Rightarrow> Inl (Wrapf [''cluster %v: cannot create converter''] err)
           | None \<Rightarrow>
               (case ce_apiexport env rest slice of
                  Inl err \<Rightarrow> Inl err
                | Inr p \<Rightarrow>
                    Inr (KFleet \<lparr>kf_name = name, kf_ref = p, kf_id = or_default name ident, kf_clusters = []\<rparr>))))"

definition kcp_Create :: "('a, 'r) cluster_env \<Rightarrow> string \<Rightarrow> 'r config \<Rightarrow> fleet option result" where
  "kcp_Create env name cfg =
     (case cf_sub cfg of
        None \<Rightarrow> Inr None
      | Some (KCPFleetConfig slice) \<Rightarrow>
          (case kcp_New env name (or_default name (cf_identity cfg)) (cf_rest cfg) slice of
             Inl err \<Rightarrow> Inl err
           | Inr f \<Rightarrow> Inr (Some f)))"

definition def_GetConfig :: "('a, 'r) cluster_env \<Rightarrow> cluster_def \<Rightarrow> 'r found" where
  "def_GetConfig env d = fst (rule_GetConfig (ce_world env) (cd_rules d) no_options)"

text \<open>The error of \<open>NewCluster\<close> is dropped: the result is then no cluster.\<close>

definition clusterDef_Create :: "('a, 'r) cluster_env \<Rightarrow> cluster_def \<Rightarrow> cluster_eq option result" where
  "clusterDef_Create env d =
     (case def_GetConfig env d of
        (_, Some err) \<Rightarrow> Inl (Wrapf [''cluster'', cd_name d] err)
      | (None, None) \<Rightarrow> Inr None
      | (Some cfg, None) \<Rightarrow>
          (case NewCluster env (cd_name d) cfg of
             Inl err \<Rightarrow> Inr None
           | Inr c \<Rightarrow> Inr (Some (CE_Cluster c))))"

definition fleetDef_Create :: "('a, 'r) cluster_env \<Rightarrow> cluster_def \<Rightarrow> bool \<Rightarrow> cluster_eq option result" where
  "fleetDef_Create env d required =
     (case def_GetConfig env d of
        (_, Some err) \<Rightarrow> Inl (Wrapf [''cluster'', cd_name d] err)
      | (None, None) \<Rightarrow> Inr None
      | (Some cfg, None) \<Rightarrow>
          (case kcp_Create env (cd_name d) cfg of
             Inl err \<Rightarrow> Inl err
           | Inr (Some f) \<Rightarrow> Inr (Some (CE_Fleet f))
           | Inr None \<Rightarrow>
               if required then Inl (Errorf ''feet configuration for type %q missing'' [''kcp-fleet''])
               else clusterDef_Create env d))"

definition def_Create :: "('a, 'r) cluster_env \<Rightarrow> cluster_def \<Rightarrow> cluster_eq option result" where
  "def_Create env d =
     (case cd_kind d of
        ClusterKind \<Rightarrow> clusterDef_Create env d
      | FleetKind required \<Rightarrow> fleetDef_Create env d required)"

section \<open>The set of definitions\<close>

record cluster_defs =
  df_group :: "cluster_def definitions"
  df_main :: cluster_def
  df_clusters :: "cluster_set option"

definition NewClusterDefinitions :: cluster_defs where
  "NewClusterDefinitions =
     \<lparr>df_group = NewDefinitions ''cluster'', df_main = Define DEFAULT ''standard cluster'' [DefaultRules],
      df_clusters = None\<rparr>"

definition defs_Add :: "err_api \<Rightarrow> cluster_def list \<Rightarrow> cluster_defs \<Rightarrow> cluster_defs" where
  "defs_Add api ds d =
     fold (\<lambda>x d. if cd_name x = DEFAULT then d\<lparr>df_main := x\<rparr>
                 else d\<lparr>df_group := Definitions_Add api cd_name (\<lambda>_. AnyOther) [x] (df_group d)\<rparr>) ds d"

definition require_identity :: "cluster_def \<Rightarrow> cluster_def" where
  "require_identity d = d\<lparr>cd_rules := RequireIdentity (cd_rules d)\<rparr>"

definition defs_AddFlags :: "cluster_defs \<Rightarrow> cluster_defs" where
  "defs_AddFlags d =
     (if length (gr_elements (df_group d)) > 1
      then d\<lparr>df_main := require_identity (df_main d),
             df_group := (df_group d)\<lparr>gr_elements := map (\<lambda>(n, x). (n, require_identity x)) (gr_elements (df_group d))\<rparr>\<rparr>
      else d)"

text \<open>The names used by the filters, if there are activation options (utils/utils.go).\<close>

definition GetUsed :: "bool \<Rightarrow> string list list \<Rightarrow> string list" where
  "GetUsed activation_options filters = (if activation_options then concat filters else [])"

section \<open>Validation\<close>

record vstate =
  vs_clusters :: cluster_set
  vs_intermediate :: "string list"
  vs_missing :: bool
  vs_found :: bool

text \<open>A failure is recorded in the definitions with its context, or just returned.\<close>

datatype vfail = Recorded gerror "string list" | Plain gerror

definition vs_add :: "err_api \<Rightarrow> cluster_eq \<Rightarrow> vstate \<Rightarrow> vstate" where
  "vs_add api c s = s\<lparr>vs_clusters := snd (set_Add api [c] (vs_clusters s)), vs_found := True\<rparr>"

definition wanted :: "string list \<Rightarrow> vstate \<Rightarrow> string \<Rightarrow> bool" where
  "wanted required s n \<longleftrightarrow> n \<in> set required \<or> n \<in> set (vs_intermediate s)"

definition note_fallback :: "string list \<Rightarrow> string \<Rightarrow> vstate \<Rightarrow> vstate" where
  "note_fallback required fb s =
     (if fb \<notin> set (vs_intermediate s) \<and> fb \<notin> set required
      then s\<lparr>vs_intermediate := fb # vs_intermediate s, vs_found := True\<rparr> else s)"

definition visit ::
  "('a, 'r) cluster_env \<Rightarrow> err_api \<Rightarrow> gerror option \<Rightarrow> cluster_def \<Rightarrow> string list \<Rightarrow> string \<times> cluster_def \<Rightarrow> vstate \<Rightarrow>
   vfail option \<times> vstate" where
  "visit env api v_main main required = (\<lambda>(n, def) s.
     if set_Get (vs_clusters s) n \<noteq> None \<or> \<not> wanted required s n then (None, s)
     else case def_Create env def of
       Inl err \<Rightarrow> (Some (Recorded err [''cluster '', n]), s)
     | Inr (Some acc) \<Rightarrow> (None, vs_add api acc s)
     | Inr None \<Rightarrow>
         (let fb = cd_fallback def in
          if fb = [] then (None, s\<lparr>vs_missing := True\<rparr>)
          else case set_Get (vs_clusters s) fb of
            Some eff \<Rightarrow>
              if \<not> AcceptFleet def \<and> ce_AsFleet eff \<noteq> None \<and> cd_name def \<in> set required
              then (Some (Plain (Errorf ''fallback %q for cluster %q is fleet, but no fleet accepted for this logical cluster''
                                   [fb, cd_name def])), s)
              else (None, vs_add api (NewAlias n eff) s)
          | None \<Rightarrow>
              (let s = note_fallback required fb s in
               if fb = DEFAULT
               then (case v_main of
                       Some err \<Rightarrow> (Some (Recorded err [''cluster '', cd_name main]), s)
                     | None \<Rightarrow>
                         (case def_Create env main of
                            Inl err \<Rightarrow> (Some (Recorded err [''cluster '', cd_name main]), s)
                          | Inr (Some acc) \<Rightarrow> (None, vs_add api acc s)
                          | Inr None \<Rightarrow> (None, s\<lparr>vs_missing := True\<rparr>)))
               else (None, s\<lparr>vs_missing := True\<rparr>))))"

fun visit_all :: "('x \<Rightarrow> vstate \<Rightarrow> vfail option \<times> vstate) \<Rightarrow> 'x list \<Rightarrow> vstate \<Rightarrow> vfail option \<times> vstate" where
  "visit_all f [] s = (None, s)"
| "visit_all f (x # xs) s =
     (case f x s of
        (Some e, s) \<Rightarrow> (Some e, s)
      | (None, s) \<Rightarrow> visit_all f xs s)"

partial_function (option) resolve_loop ::
  "(nat \<Rightarrow> vstate \<Rightarrow> vfail option \<times> vstate) \<Rightarrow> nat \<Rightarrow> vstate \<Rightarrow> (vfail option \<times> vstate \<times> nat) option" where
  "resolve_loop pass i s =
     (if vs_missing s \<and> vs_found s
      then (case pass i (s\<lparr>vs_missing := False, vs_found := False\<rparr>) of
              (Some e, s) \<Rightarrow> Some (Some e, s, Suc i)
            | (None, s) \<Rightarrow> resolve_loop pass (Suc i) s)
      else Some (None, s, i))"

text \<open>
  \<open>Validate\<close>: \<open>required\<close> are the used names, \<open>v_set\<close> and \<open>v_main\<close> the outcomes of validating
  the options of the definitions and of the default cluster. The result is the error and the
  new definitions, \<open>None\<close> if the loop does not end.
\<close>

definition record_error :: "err_api \<Rightarrow> vfail \<Rightarrow> cluster_defs \<Rightarrow> gerror option \<times> cluster_defs" where
  "record_error api f d =
     (case f of
        Plain err \<Rightarrow> (Some err, d)
      | Recorded err ctx \<Rightarrow>
          (case AddError api (AnyError err) ctx (gr_errors (df_group d)) of
             (e, ec) \<Rightarrow> (e, d\<lparr>df_group := (df_group d)\<lparr>gr_errors := ec\<rparr>\<rparr>)))"

definition unresolved :: "string list \<Rightarrow> vstate \<Rightarrow> string \<Rightarrow> bool" where
  "unresolved required s n \<longleftrightarrow> set_Get (vs_clusters s) n = None \<and> wanted required s n"

definition resolve ::
  "('a, 'r) cluster_env \<Rightarrow> err_api \<Rightarrow> gerror option \<Rightarrow> cluster_def \<Rightarrow> string list \<Rightarrow> (nat \<Rightarrow> (string \<times> cluster_def) list) \<Rightarrow>
   (vfail option \<times> vstate) option" where
  "resolve env api v_main main required ord =
     map_option
       (\<lambda>(e, s, i).
          if e = None \<and> vs_missing s
          then (case find (\<lambda>(n, _). unresolved required s n) (ord i) of
                  Some (n, _) \<Rightarrow> (Some (Recorded (Errorf ''kubeconfig required'' []) [''cluster '', n]), s)
                | None \<Rightarrow> (None, s))
          else (e, s))
       (resolve_loop (\<lambda>i. visit_all (visit env api v_main main required) (ord i)) 0
          \<lparr>vs_clusters = newClusters, vs_intermediate = [], vs_missing = True, vs_found = True\<rparr>)"

definition disable_rest :: "(string \<times> cluster_def) list \<Rightarrow> cluster_set \<Rightarrow> cluster_set" where
  "disable_rest elements cs =
     cs\<lparr>cs_disabled := cs_disabled cs @ filter (\<lambda>n. set_Get cs n = None) (gkeys elements)\<rparr>"

definition defs_Validate ::
  "('a, 'r) cluster_env \<Rightarrow> err_api \<Rightarrow> gerror option \<Rightarrow> gerror option \<Rightarrow> string list \<Rightarrow>
   (nat \<Rightarrow> (string \<times> cluster_def) list) \<Rightarrow> cluster_defs \<Rightarrow> (gerror option \<times> cluster_defs) option" where
  "defs_Validate env api v_set v_main used ord d =
     (let elements = gr_elements (df_group d);
          required = (if used = [] then gkeys elements else used);
          err = GetError api (gr_errors (df_group d))
      in
      if df_clusters d = None \<and> err = None
      then (case v_set of
              Some e \<Rightarrow> Some (record_error api (Recorded e [''validation'']) d)
            | None \<Rightarrow>
                map_option
                  (\<lambda>(f, s).
                     case f of
                       Some f \<Rightarrow> record_error api f (d\<lparr>df_clusters := Some (vs_clusters s)\<rparr>)
                     | None \<Rightarrow> (err, d\<lparr>df_clusters := Some (disable_rest elements (vs_clusters s))\<rparr>))
                  (resolve env api v_main (df_main d) required ord))
      else Some (err, d))"

section \<open>Well-formed definitions\<close>

text \<open>Every definition is kept under its name; the default definition is kept apart.\<close>

definition named_ok :: "(string \<times> cluster_def) list \<Rightarrow> bool" where
  "named_ok elements \<longleftrightarrow> gwf elements \<and>
     (\<forall>(n, def) \<in> set elements. cd_name def = n \<and> CHR ''#'' \<notin> set n \<and> n \<noteq> DEFAULT)"

definition defs_ok :: "cluster_defs \<Rightarrow> bool" where
  "defs_ok d \<longleftrightarrow> named_ok (gr_elements (df_group d)) \<and> cd_name (df_main d) = DEFAULT"

lemma named_okD:
  "named_ok elements \<Longrightarrow> (n, def) \<in> set elements \<Longrightarrow> cd_name def = n \<and> CHR ''#'' \<notin> set n \<and> n \<noteq> DEFAULT"
  by (auto simp: named_ok_def)

lemma named_ok_unique:
  assumes "named_ok elements" "(n, def) \<in> set elements" "(n, def') \<in> set elements"
  shows "def' = def"
proof -
  have "gwf elements"
    using assms(1) by (simp add: named_ok_def)
  then show ?thesis
    using gget_Some_iff assms(2,3) by (metis option.inject)
qed

lemma Definitions_Add_elements:
  "gr_elements (Definitions_Add api name any es g) =
     gr_elements (fold (group_step api name any) es (elem_group.truncate g))"
  by (metis Definitions_Add_group elem_group.truncate_def elem_group.select_convs(2))

lemma defs_ok_Add_one:
  assumes "named_ok (gr_elements g)" "CHR ''#'' \<notin> set (cd_name x)" "cd_name x \<noteq> DEFAULT"
  shows "named_ok (gr_elements (Definitions_Add api cd_name any [x] g))"
proof -
  have "gr_elements (elem_group.truncate g) = gr_elements g"
    by (simp add: elem_group.truncate_def)
  moreover have "set (gset n x m) \<subseteq> insert (n, x) (set m)" for n and m :: "(string, cluster_def) gomap"
    unfolding gset_def by (induction m) auto
  ultimately show ?thesis
    using assms by (fastforce simp: Definitions_Add_elements named_ok_def group_step_elements)
qed

lemma defs_ok_Add:
  assumes "defs_ok d" "\<forall>x \<in> set xs. CHR ''#'' \<notin> set (cd_name x)"
  shows "defs_ok (defs_Add api xs d)"
  using assms
proof (induction xs arbitrary: d)
  case (Cons x xs)
  let ?d = "if cd_name x = DEFAULT then d\<lparr>df_main := x\<rparr>
            else d\<lparr>df_group := Definitions_Add api cd_name (\<lambda>_. AnyOther) [x] (df_group d)\<rparr>"
  have "defs_ok ?d"
    using Cons.prems by (auto simp: defs_ok_def intro: defs_ok_Add_one)
  then show ?case
    using Cons.IH [of ?d] Cons.prems(2) by (simp add: defs_Add_def)
qed (simp add: defs_Add_def)

lemma defs_ok_New: "defs_ok NewClusterDefinitions"
  by (simp add: defs_ok_def named_ok_def NewClusterDefinitions_def NewDefinitions_def Define_def newBase_def)

lemma Create_name: "def_Create env def = Inr (Some c) \<Longrightarrow> ce_GetName c = cd_name def"
  by (auto simp: def_Create_def clusterDef_Create_def fleetDef_Create_def NewCluster_def kcp_Create_def kcp_New_def
      split: def_kind.splits prod.splits option.splits sum.splits if_splits sub_config.splits)

lemma Create_fleet:
  "def_Create env def = Inr (Some c) \<Longrightarrow> \<not> AcceptFleet def \<Longrightarrow> ce_AsFleet c = None"
  by (auto simp: def_Create_def AcceptFleet_def clusterDef_Create_def
      split: def_kind.splits prod.splits option.splits sum.splits)

section \<open>Growing sets of clusters\<close>

lemma set_Add_mono:
  assumes "set_Get cs x = Some c"
  shows "set_Get (snd (set_Add api es cs)) x = Some c"
proof (cases "fst (Split x) = []")
  case True
  then show ?thesis
    using assms by (simp add: set_Get_def set_Add_Get case_prod_beta)
next
  case False
  then obtain ce where "Group_Get (cs_group cs) (fst (Split x)) = Some ce"
    using assms by (auto simp: set_Get_def case_prod_beta split: option.splits)
  then show ?thesis
    using assms False by (simp add: set_Get_def set_Add_Get case_prod_beta)
qed

lemma set_Add_new:
  assumes "CHR ''#'' \<notin> set (ce_GetName c)" "set_Get cs (ce_GetName c) = None"
  shows "set_Get (snd (set_Add api [c] cs)) (ce_GetName c) = Some c"
  using assms by (simp add: set_Get_plain set_Add_Get)

lemma set_Add_other:
  assumes "CHR ''#'' \<notin> set x" "ce_GetName c \<noteq> x"
  shows "set_Get (snd (set_Add api [c] cs)) x = set_Get cs x"
  using assms by (simp add: set_Get_plain set_Add_Get split: option.splits)

text \<open>
  One step of the resolution never forgets a cluster, an intermediate name or a flag, and it
  sets \<open>found\<close> only if a name of \<open>U\<close> got its cluster or a name of \<open>F\<close> became intermediate.
\<close>

definition progress :: "string set \<Rightarrow> string set \<Rightarrow> string list \<Rightarrow> vstate \<Rightarrow> vstate \<Rightarrow> bool" where
  "progress U F required s s' \<longleftrightarrow>
     (\<forall>x c. set_Get (vs_clusters s) x = Some c \<longrightarrow> set_Get (vs_clusters s') x = Some c) \<and>
     set (vs_intermediate s) \<subseteq> set (vs_intermediate s') \<and>
     (vs_missing s \<longrightarrow> vs_missing s') \<and> (vs_found s \<longrightarrow> vs_found s') \<and>
     (vs_found s' \<longrightarrow> vs_found s \<or>
       (\<exists>x \<in> U. set_Get (vs_clusters s) x = None \<and> set_Get (vs_clusters s') x \<noteq> None) \<or>
       (\<exists>f \<in> F. f \<notin> set (vs_intermediate s) \<and> f \<notin> set required \<and> f \<in> set (vs_intermediate s')))"

lemma progress_refl [simp]: "progress U F required s s"
  by (simp add: progress_def)

lemma progress_trans:
  assumes "progress U F required s s'" "progress U F required s' s''"
  shows "progress U F required s s''"
proof -
  have "vs_found s \<or>
      (\<exists>x \<in> U. set_Get (vs_clusters s) x = None \<and> set_Get (vs_clusters s'') x \<noteq> None) \<or>
      (\<exists>f \<in> F. f \<notin> set (vs_intermediate s) \<and> f \<notin> set required \<and> f \<in> set (vs_intermediate s''))"
    if "vs_found s''"
  proof (cases "vs_found s'")
    case True
    then show ?thesis
      using assms unfolding progress_def by (metis not_None_eq subsetD)
  next
    case False
    then show ?thesis
      using assms that unfolding progress_def by (metis not_None_eq subsetD)
  qed
  then show ?thesis
    using assms unfolding progress_def by blast
qed

lemma progress_add:
  assumes "ce_GetName c \<in> U" "CHR ''#'' \<notin> set (ce_GetName c)" "set_Get (vs_clusters s) (ce_GetName c) = None"
  shows "progress U F required s (vs_add api c s)"
  using set_Add_mono set_Add_new [OF assms(2,3), of api] assms(1,3) by (auto simp: progress_def vs_add_def)

lemma progress_note:
  assumes "fb \<in> F"
  shows "progress U F required s (note_fallback required fb s)"
  using assms by (auto simp: progress_def note_fallback_def)

lemma progress_missing: "progress U F required s (s\<lparr>vs_missing := True\<rparr>)"
  by (simp add: progress_def)

lemmas progresses = progress_add progress_note progress_missing

definition mu :: "string set \<Rightarrow> string set \<Rightarrow> string list \<Rightarrow> vstate \<Rightarrow> nat" where
  "mu U F required s =
     card {x \<in> U. set_Get (vs_clusters s) x = None} +
     card {f \<in> F. f \<notin> set (vs_intermediate s) \<and> f \<notin> set required}"

lemma progress_mu:
  assumes "progress U F required s s'" "finite U" "finite F" "\<not> vs_found s" "vs_found s'"
  shows "mu U F required s' < mu U F required s"
proof -
  let ?A = "\<lambda>s. {x \<in> U. set_Get (vs_clusters s) x = None}"
  let ?B = "\<lambda>s. {f \<in> F. f \<notin> set (vs_intermediate s) \<and> f \<notin> set required}"
  have "set_Get (vs_clusters s) x = None" if "set_Get (vs_clusters s') x = None" for x
    using assms(1) that unfolding progress_def by (metis not_None_eq)
  moreover have "set (vs_intermediate s) \<subseteq> set (vs_intermediate s')"
    using assms(1) by (simp add: progress_def)
  ultimately have sub: "?A s' \<subseteq> ?A s" "?B s' \<subseteq> ?B s"
    by auto
  have psub: "A \<subset> B" if "A \<subseteq> B" "\<exists>x. x \<in> B \<and> x \<notin> A" for A B :: "string set"
    using that by blast
  have "(\<exists>x. x \<in> ?A s \<and> x \<notin> ?A s') \<or> (\<exists>f. f \<in> ?B s \<and> f \<notin> ?B s')"
    using assms(1,4,5) unfolding progress_def by auto
  then have "?A s' \<subset> ?A s \<or> ?B s' \<subset> ?B s"
    using psub [OF sub(1)] psub [OF sub(2)] by argo
  moreover have "finite (?A s)" "finite (?B s)"
    using assms by auto
  ultimately show ?thesis
    using sub card_mono [of "?A s" "?A s'"] card_mono [of "?B s" "?B s'"]
      psubset_card_mono [of "?A s" "?A s'"] psubset_card_mono [of "?B s" "?B s'"]
    unfolding mu_def by linarith
qed

section \<open>One visit\<close>

text \<open>
  What a successful visit of the definition \<open>def\<close> of \<open>n\<close> does, as the cases of \<open>visit\<close>
  without the failures.
\<close>

inductive visited ::
  "('a, 'r) cluster_env \<Rightarrow> err_api \<Rightarrow> cluster_def \<Rightarrow> string list \<Rightarrow> string \<Rightarrow> cluster_def \<Rightarrow> vstate \<Rightarrow> vstate \<Rightarrow> bool"
  for env api main required n def s where
    skip: "set_Get (vs_clusters s) n \<noteq> None \<or> \<not> wanted required s n \<Longrightarrow> visited env api main required n def s s"
  | created: "set_Get (vs_clusters s) n = None \<Longrightarrow> wanted required s n \<Longrightarrow> def_Create env def = Inr (Some acc) \<Longrightarrow>
      visited env api main required n def s (vs_add api acc s)"
  | fallback: "set_Get (vs_clusters s) n = None \<Longrightarrow> wanted required s n \<Longrightarrow> def_Create env def = Inr None \<Longrightarrow>
      cd_fallback def \<noteq> [] \<Longrightarrow> set_Get (vs_clusters s) (cd_fallback def) = Some eff \<Longrightarrow>
      AcceptFleet def \<or> ce_AsFleet eff = None \<or> cd_name def \<notin> set required \<Longrightarrow>
      visited env api main required n def s (vs_add api (NewAlias n eff) s)"
  | main: "set_Get (vs_clusters s) n = None \<Longrightarrow> wanted required s n \<Longrightarrow> def_Create env def = Inr None \<Longrightarrow>
      cd_fallback def = DEFAULT \<Longrightarrow> set_Get (vs_clusters s) DEFAULT = None \<Longrightarrow>
      def_Create env main = Inr (Some acc) \<Longrightarrow>
      visited env api main required n def s (vs_add api acc (note_fallback required DEFAULT s))"
  | missing: "set_Get (vs_clusters s) n = None \<Longrightarrow> wanted required s n \<Longrightarrow> def_Create env def = Inr None \<Longrightarrow>
      s' = s \<or> s' = note_fallback required (cd_fallback def) s \<Longrightarrow>
      visited env api main required n def s (s'\<lparr>vs_missing := True\<rparr>)"

inductive_cases visitedE: "visited env api main required n def s s'"

lemma visit_visited:
  assumes "visit env api v_main main required (n, def) s = (None, s')"
  shows "visited env api main required n def s s'"
proof (cases "set_Get (vs_clusters s) n \<noteq> None \<or> \<not> wanted required s n")
  case True
  with assms have "s' = s"
    by (simp add: visit_def)
  with True show ?thesis
    by (simp add: visited.skip)
next
  case False
  note w = False
  show ?thesis
  proof (cases "def_Create env def")
    case (Inl err)
    with assms w show ?thesis
      by (simp add: visit_def)
  next
    case (Inr res)
    show ?thesis
    proof (cases res)
      case (Some acc)
      with assms w Inr show ?thesis
        by (auto simp: visit_def intro: visited.created)
    next
      case None
      note create = Inr [unfolded None]
      show ?thesis
      proof (cases "cd_fallback def = []")
        case True
        with assms w create show ?thesis
          by (auto simp: visit_def intro: visited.missing)
      next
        case fb: False
        show ?thesis
        proof (cases "set_Get (vs_clusters s) (cd_fallback def)")
          case (Some eff)
          with assms w create fb show ?thesis
            by (auto simp: visit_def Let_def intro!: visited.fallback split: if_splits)
        next
          case no: None
          show ?thesis
          proof (cases "cd_fallback def = DEFAULT \<and> (\<exists>acc. def_Create env main = Inr (Some acc))")
            case True
            with assms w create no show ?thesis
              by (auto simp: visit_def Let_def intro!: visited.main split: option.splits)
          next
            case False
            have "s' = (note_fallback required (cd_fallback def) s)\<lparr>vs_missing := True\<rparr>"
              using assms w create fb no False
              by (auto simp: visit_def Let_def split: if_splits option.splits sum.splits)
            with w create show ?thesis
              by (auto intro: visited.missing)
          qed
        qed
      qed
    qed
  qed
qed

lemma visit_fails:
  assumes "visit env api v_main main required (n, def) s = (Some e, s')"
  shows "s' = s \<or> s' = note_fallback required (cd_fallback def) s"
  using assms by (auto simp: visit_def Let_def split: if_splits option.splits sum.splits)

lemma note_fallback_clusters [simp]: "vs_clusters (note_fallback required fb s) = vs_clusters s"
  by (simp add: note_fallback_def)

lemma visited_progress:
  assumes "visited env api main required n def s s'" "cd_name def = n" "CHR ''#'' \<notin> set n" "cd_name main = DEFAULT"
    and "n \<in> U" "DEFAULT \<in> U" "cd_fallback def \<in> F"
  shows "progress U F required s s'"
  using assms(1)
proof cases
  case (created acc)
  then show ?thesis
    using Create_name [OF created(4)] assms by (auto intro: progress_add)
next
  case (fallback eff)
  then show ?thesis
    using assms by (auto intro: progress_add)
next
  case (main acc)
  have "progress U F required (note_fallback required DEFAULT s) s'"
    unfolding main(1) using Create_name [OF main(7)] main(6) assms(4,6) by (intro progress_add) auto
  moreover have "progress U F required s (note_fallback required DEFAULT s)"
    using main(5) assms(7) by (auto intro: progress_note)
  ultimately show ?thesis
    by (blast intro: progress_trans)
next
  case (missing s0)
  have "progress U F required s s0"
    using missing(5) assms(7) by (auto intro: progress_note)
  then show ?thesis
    unfolding missing(1) by (blast intro: progress_trans progress_missing)
qed simp

lemma visit_all_induct:
  assumes step: "\<And>x s e s'. x \<in> set xs \<Longrightarrow> P s \<Longrightarrow> f x s = (e, s') \<Longrightarrow> P s'"
  shows "visit_all f xs s = (e, s') \<Longrightarrow> P s \<Longrightarrow> P s'"
  using step
proof (induction xs arbitrary: s)
  case (Cons x xs)
  obtain e1 s1 where f: "f x s = (e1, s1)"
    by fastforce
  then have P: "P s1"
    using Cons.prems(2,3) by auto
  show ?case
  proof (cases e1)
    case None
    then show ?thesis
      using Cons.IH [of s1] Cons.prems(1,3) f P by auto
  next
    case (Some err)
    then show ?thesis
      using Cons.prems(1) f P by simp
  qed
qed simp

text \<open>The context of a resolution.\<close>

definition resolution_ok :: "cluster_def \<Rightarrow> (string \<times> cluster_def) list \<Rightarrow> (nat \<Rightarrow> (string \<times> cluster_def) list) \<Rightarrow> bool" where
  "resolution_ok main elements ord \<longleftrightarrow>
     named_ok elements \<and> cd_name main = DEFAULT \<and> (\<forall>i. set (ord i) = set elements)"

definition all_names :: "(string \<times> cluster_def) list \<Rightarrow> string set" where
  "all_names elements = insert DEFAULT (fst ` set elements)"

definition all_fallbacks :: "(string \<times> cluster_def) list \<Rightarrow> string set" where
  "all_fallbacks elements = (\<lambda>x. cd_fallback (snd x)) ` set elements"

lemma visit_progress:
  assumes ok: "resolution_ok main elements ord" and x: "x \<in> set elements"
    and v: "visit env api v_main main required x s = (e, s')"
  shows "progress (all_names elements) (all_fallbacks elements) required s s'"
proof -
  obtain n def where x': "x = (n, def)"
    by (cases x)
  have names: "n \<in> all_names elements" "DEFAULT \<in> all_names elements" "cd_fallback def \<in> all_fallbacks elements"
    "cd_name def = n" "CHR ''#'' \<notin> set n" "cd_name main = DEFAULT"
    using x x' ok unfolding all_names_def all_fallbacks_def resolution_ok_def named_ok_def by force+
  show ?thesis
  proof (cases e)
    case None
    with v x' names visited_progress visit_visited show ?thesis
      by metis
  next
    case (Some err)
    then show ?thesis
      using v x' names visit_fails by (metis progress_note progress_refl)
  qed
qed

lemma pass_progress:
  assumes ok: "resolution_ok main elements ord"
    and v: "visit_all (visit env api v_main main required) (ord i) s = (e, s')"
  shows "progress (all_names elements) (all_fallbacks elements) required s s'"
proof -
  have "set (ord i) = set elements"
    using ok by (simp add: resolution_ok_def)
  then show ?thesis
    using visit_all_induct [OF _ v, of "progress (all_names elements) (all_fallbacks elements) required s"]
      visit_progress [OF ok] progress_trans by (metis progress_refl)
qed

lemma resolve_loop_terminates:
  assumes ok: "resolution_ok main elements ord"
  shows "\<exists>r. resolve_loop (\<lambda>i. visit_all (visit env api v_main main required) (ord i)) i s = Some r"
proof (induction "mu (all_names elements) (all_fallbacks elements) required s" arbitrary: i s rule: less_induct)
  case less
  let ?pass = "\<lambda>i. visit_all (visit env api v_main main required) (ord i)"
  let ?s = "s\<lparr>vs_missing := False, vs_found := False\<rparr>"
  obtain e s' where p: "?pass i ?s = (e, s')"
    by fastforce
  show ?case
  proof (cases "vs_missing s \<and> vs_found s \<and> e = None")
    case True
    show ?thesis
    proof (cases "vs_found s'")
      case f: True
      have "mu (all_names elements) (all_fallbacks elements) required s' <
          mu (all_names elements) (all_fallbacks elements) required ?s"
        using f by (intro progress_mu [OF pass_progress [OF ok p]]) (simp_all add: all_names_def all_fallbacks_def)
      then have "\<exists>r. resolve_loop ?pass (Suc i) s' = Some r"
        by (intro less) (simp add: mu_def)
      then show ?thesis
        using True p by (subst resolve_loop.simps) simp
    next
      case False
      then show ?thesis
        using True p by (subst resolve_loop.simps, subst resolve_loop.simps) simp
    qed
  next
    case False
    then show ?thesis
      using p by (subst resolve_loop.simps) (auto split: option.splits)
  qed
qed

section \<open>What a resolution yields\<close>

text \<open>
  A cluster is justified for a definition if the definition created it, or if it is the alias
  of the cluster of its fallback, which is no fleet where no fleet is accepted.
\<close>

definition justified ::
  "('a, 'r) cluster_env \<Rightarrow> string list \<Rightarrow> cluster_set \<Rightarrow> string \<Rightarrow> cluster_def \<Rightarrow> cluster_eq \<Rightarrow> bool" where
  "justified env required cs n def c \<longleftrightarrow>
     ce_GetName c = n \<and>
     (def_Create env def = Inr (Some c) \<or>
      def_Create env def = Inr None \<and> (\<exists>eff. set_Get cs (cd_fallback def) = Some eff \<and> c = NewAlias n eff)) \<and>
     (n \<in> set required \<and> \<not> AcceptFleet def \<longrightarrow> ce_AsFleet c = None)"

definition sound ::
  "('a, 'r) cluster_env \<Rightarrow> cluster_def \<Rightarrow> (string \<times> cluster_def) list \<Rightarrow> string list \<Rightarrow> cluster_set \<Rightarrow> bool" where
  "sound env main elements required cs \<longleftrightarrow>
     (\<forall>(n, def) \<in> set elements. \<forall>c. set_Get cs n = Some c \<longrightarrow> justified env required cs n def c) \<and>
     (\<forall>c. set_Get cs DEFAULT = Some c \<longrightarrow> def_Create env main = Inr (Some c)) \<and> cs_disabled cs = []"

definition resolved :: "vstate \<Rightarrow> string \<times> cluster_def \<Rightarrow> bool" where
  "resolved s x \<longleftrightarrow> set_Get (vs_clusters s) (fst x) \<noteq> None \<or>
     cd_fallback (snd x) = DEFAULT \<and> set_Get (vs_clusters s) DEFAULT \<noteq> None"

definition complete :: "string list \<Rightarrow> vstate \<Rightarrow> (string \<times> cluster_def) set \<Rightarrow> bool" where
  "complete required s V \<longleftrightarrow>
     (\<not> vs_missing s \<longrightarrow> (\<forall>x \<in> V. wanted required s (fst x) \<longrightarrow> resolved s x))"

lemma set_Add_disabled [simp]: "cs_disabled (snd (set_Add api es cs)) = cs_disabled cs"
  by (simp add: set_Add_def split: prod.splits option.splits)

lemma sound_add:
  assumes s: "sound env main elements required cs" and ok: "named_ok elements"
    and c: "ce_GetName c = m" "CHR ''#'' \<notin> set m" "set_Get cs m = None"
    and j: "\<And>def. (m, def) \<in> set elements \<Longrightarrow> justified env required (snd (set_Add api [c] cs)) m def c"
    and d: "m = DEFAULT \<Longrightarrow> def_Create env main = Inr (Some c)"
  shows "sound env main elements required (snd (set_Add api [c] cs))"
proof -
  let ?cs = "snd (set_Add api [c] cs)"
  have new: "set_Get ?cs m = Some c"
    using set_Add_new [of c cs api] c by simp
  have same: "set_Get ?cs n = set_Get cs n" if "n \<noteq> m" "CHR ''#'' \<notin> set n" for n
    using set_Add_other [of n c api cs] c(1) that by simp
  have "justified env required ?cs n def c'"
    if x: "(n, def) \<in> set elements" and get: "set_Get ?cs n = Some c'" for n def c'
  proof (cases "n = m")
    case True
    with x get new j show ?thesis
      by simp
  next
    case False
    have "CHR ''#'' \<notin> set n"
      using ok x by (auto simp: named_ok_def)
    then have "justified env required cs n def c'"
      using s x get same [OF False] by (auto simp: sound_def)
    then show ?thesis
      using set_Add_mono [of cs _ _ api "[c]"] by (auto simp: justified_def)
  qed
  moreover have "def_Create env main = Inr (Some c')" if "set_Get ?cs DEFAULT = Some c'" for c'
    using that new d s same [of DEFAULT] by (cases "m = DEFAULT") (auto simp: sound_def)
  moreover have "cs_disabled ?cs = []"
    using s by (simp add: sound_def)
  ultimately show ?thesis
    unfolding sound_def by blast
qed

lemma visited_sound:
  assumes v: "visited env api main required n def s s'" and x: "(n, def) \<in> set elements"
    and ok: "named_ok elements" "cd_name main = DEFAULT"
    and s: "sound env main elements required (vs_clusters s)"
  shows "sound env main elements required (vs_clusters s')"
proof -
  have n: "cd_name def = n" "CHR ''#'' \<notin> set n" "n \<noteq> DEFAULT"
    using x ok(1) by (auto simp: named_ok_def)
  have unique: "def' = def" if "(n, def') \<in> set elements" for def'
    using named_ok_unique [OF ok(1) x that] .
  have no_default: "(DEFAULT, def') \<notin> set elements" for def'
    using ok(1) by (auto simp: named_ok_def)
  show ?thesis
    using v
  proof cases
    case (created acc)
    have "sound env main elements required (snd (set_Add api [acc] (vs_clusters s)))"
      using created(2,4) Create_name [OF created(4)] Create_fleet [OF created(4)] n unique
      by (intro sound_add [OF s ok(1), of _ n]) (auto simp: justified_def)
    then show ?thesis
      by (simp add: created(1) vs_add_def)
  next
    case (fallback eff)
    have "justified env required (snd (set_Add api [NewAlias n eff] (vs_clusters s))) n def (NewAlias n eff)"
      using fallback(4,7) set_Add_mono [OF fallback(6), of api "[NewAlias n eff]"] n(1)
      by (auto simp: justified_def)
    then have "sound env main elements required (snd (set_Add api [NewAlias n eff] (vs_clusters s)))"
      using fallback(2) n unique by (intro sound_add [OF s ok(1), of _ n]) auto
    then show ?thesis
      by (simp add: fallback(1) vs_add_def)
  next
    case (main acc)
    have "sound env main elements required (snd (set_Add api [acc] (vs_clusters s)))"
      using main(6,7) Create_name [OF main(7)] ok(2) no_default
      by (intro sound_add [OF s ok(1), of _ DEFAULT]) auto
    then show ?thesis
      by (simp add: main(1) vs_add_def)
  next
    case (missing s0)
    then show ?thesis
      using s by auto
  qed (simp add: s)
qed

lemma visited_complete:
  assumes v: "visited env api main required n def s s'" and x: "(n, def) \<in> set elements"
    and ok: "named_ok elements" "cd_name main = DEFAULT" and V: "V \<subseteq> set elements"
    and c: "complete required s V"
  shows "complete required s' (insert (n, def) V)"
proof -
  have n: "cd_name def = n" "CHR ''#'' \<notin> set n"
    using x ok(1) by (auto simp: named_ok_def)
  have V_names: "fst y \<noteq> DEFAULT" if "y \<in> V" for y
    using that V named_okD [OF ok(1), of "fst y" "snd y"] by auto
  have grow: "complete required (vs_add api a s0) (insert (n, def) V)"
    if get: "vs_clusters s0 = vs_clusters s" "vs_missing s0 = vs_missing s"
      and w: "\<And>y. y \<noteq> DEFAULT \<Longrightarrow> wanted required s0 y \<longleftrightarrow> wanted required s y"
      and r: "resolved (vs_add api a s0) (n, def)" for a s0
  proof -
    have keep: "set_Get (vs_clusters (vs_add api a s0)) x \<noteq> None" if "set_Get (vs_clusters s) x \<noteq> None" for x
      using that set_Add_mono [of "vs_clusters s" x _ api "[a]"] get(1) by (auto simp: vs_add_def)
    have "resolved (vs_add api a s0) y" if "resolved s y" for y
      using that keep unfolding resolved_def by blast
    moreover have "wanted required (vs_add api a s0) y \<longleftrightarrow> wanted required s0 y" for y
      by (simp add: wanted_def vs_add_def)
    ultimately show ?thesis
      using c r V_names get(2) w unfolding complete_def by (auto simp: vs_add_def)
  qed
  show ?thesis
    using v
  proof cases
    case skip
    then show ?thesis
      using c by (auto simp: complete_def resolved_def)
  next
    case (created acc)
    have "set_Get (snd (set_Add api [acc] (vs_clusters s))) n = Some acc"
      using set_Add_new [of acc "vs_clusters s" api] created(2) n Create_name [OF created(4)] by simp
    then have "resolved (vs_add api acc s) (n, def)"
      by (simp add: resolved_def vs_add_def)
    then show ?thesis
      unfolding created(1) by (intro grow) auto
  next
    case (fallback eff)
    have "set_Get (snd (set_Add api [NewAlias n eff] (vs_clusters s))) n = Some (NewAlias n eff)"
      using set_Add_new [of "NewAlias n eff" "vs_clusters s" api] fallback(2) n by simp
    then have "resolved (vs_add api (NewAlias n eff) s) (n, def)"
      by (simp add: resolved_def vs_add_def)
    then show ?thesis
      unfolding fallback(1) by (intro grow) auto
  next
    case (main acc)
    have "set_Get (snd (set_Add api [acc] (vs_clusters s))) DEFAULT = Some acc"
      using set_Add_new [of acc "vs_clusters s" api] main(6) ok(2) Create_name [OF main(7)] by simp
    then have "resolved (vs_add api acc (note_fallback required DEFAULT s)) (n, def)"
      using main(5) by (simp add: resolved_def vs_add_def)
    then show ?thesis
      unfolding main(1) by (intro grow) (auto simp: note_fallback_def wanted_def)
  next
    case (missing s0)
    then show ?thesis
      by (simp add: complete_def)
  qed
qed

lemma pass_complete:
  "visit_all (visit env api v_main main required) xs s = (None, s') \<Longrightarrow> set xs \<subseteq> set elements \<Longrightarrow>
   named_ok elements \<Longrightarrow> cd_name main = DEFAULT \<Longrightarrow> V \<subseteq> set elements \<Longrightarrow> complete required s V \<Longrightarrow>
   sound env main elements required (vs_clusters s) \<Longrightarrow>
   complete required s' (V \<union> set xs) \<and> sound env main elements required (vs_clusters s')"
proof (induction xs arbitrary: s V)
  case (Cons x xs)
  obtain n def where x: "x = (n, def)"
    by (cases x)
  obtain s1 where s1: "visit env api v_main main required x s = (None, s1)"
    using Cons.prems(1) by (auto split: prod.splits option.splits)
  then have v: "visited env api main required n def s s1"
    using visit_visited x by blast
  have "complete required s1 (insert x V)"
    using visited_complete [OF v _ Cons.prems(3,4,5,6)] Cons.prems(2) x by simp
  moreover have "sound env main elements required (vs_clusters s1)"
    using visited_sound [OF v _ Cons.prems(3,4,7)] Cons.prems(2) x by simp
  ultimately show ?case
    using Cons.IH [of s1 "insert x V"] Cons.prems s1 by simp
qed simp

lemma loop_complete:
  assumes ok: "resolution_ok main elements ord"
    and run: "resolve_loop (\<lambda>i. visit_all (visit env api v_main main required) (ord i)) i s = Some (None, s', j)"
    and s: "sound env main elements required (vs_clusters s)"
    and start: "vs_missing s \<or> complete required s (set elements)"
  shows "sound env main elements required (vs_clusters s') \<and> complete required s' (set elements)"
proof -
  let ?pass = "\<lambda>i. visit_all (visit env api v_main main required) (ord i)"
  have "sound env main elements required (vs_clusters s) \<Longrightarrow> vs_missing s \<or> complete required s (set elements) \<Longrightarrow>
      sound env main elements required (vs_clusters s') \<and> complete required s' (set elements)"
    using run
  proof (induction "mu (all_names elements) (all_fallbacks elements) required s" arbitrary: i s rule: less_induct)
    case less
    show ?case
    proof (cases "vs_missing s \<and> vs_found s")
      case False
      then have "s' = s"
        using less.prems(3) by (subst (asm) resolve_loop.simps) auto
      then show ?thesis
        using less.prems by (auto simp: complete_def)
    next
      case True
      let ?s = "s\<lparr>vs_missing := False, vs_found := False\<rparr>"
      obtain e s1 where p: "?pass i ?s = (e, s1)"
        by fastforce
      have e: "e = None" and rest: "resolve_loop ?pass (Suc i) s1 = Some (None, s', j)"
        using less.prems(3) True p by (subst (asm) resolve_loop.simps, auto split: option.splits)+
      have c1: "complete required s1 (set elements) \<and> sound env main elements required (vs_clusters s1)"
        using pass_complete [of env api v_main main required "ord i" ?s s1 elements "{}"] p ok less.prems(1)
        by (simp add: resolution_ok_def e complete_def)
      show ?thesis
      proof (cases "vs_found s1")
        case f: True
        have "mu (all_names elements) (all_fallbacks elements) required s1 <
            mu (all_names elements) (all_fallbacks elements) required ?s"
          using f by (intro progress_mu [OF pass_progress [OF ok p]]) (simp_all add: all_names_def all_fallbacks_def)
        then show ?thesis
          using less.hyps [of s1 "Suc i"] rest c1 by (simp add: mu_def)
      next
        case no: False
        then have "s' = s1"
          using rest by (subst (asm) resolve_loop.simps) auto
        then show ?thesis
          using c1 by simp
      qed
    qed
  qed
  then show ?thesis
    using s start by blast
qed

lemma resolve_terminates:
  assumes "resolution_ok main elements ord"
  shows "\<exists>r. resolve env api v_main main required ord = Some r"
proof -
  obtain r where "resolve_loop (\<lambda>i. visit_all (visit env api v_main main required) (ord i)) 0
      \<lparr>vs_clusters = newClusters, vs_intermediate = [], vs_missing = True, vs_found = True\<rparr> = Some r"
    using resolve_loop_terminates [OF assms] by blast
  then show ?thesis
    by (simp add: resolve_def)
qed

lemma sound_new: "sound env main elements required newClusters" if "named_ok elements"
proof -
  have "set_Get newClusters n = None" if "CHR ''#'' \<notin> set n" for n
    by (simp add: set_Get_plain [OF that])
  then show ?thesis
    using named_okD [OF that] by (auto simp: sound_def newClusters_def)
qed

lemma resolve_complete:
  assumes ok: "resolution_ok main elements ord"
    and run: "resolve env api v_main main required ord = Some (None, s)"
  shows "sound env main elements required (vs_clusters s) \<and>
    (\<forall>x \<in> set elements. wanted required s (fst x) \<longrightarrow> resolved s x)"
proof -
  let ?s = "\<lparr>vs_clusters = newClusters, vs_intermediate = [], vs_missing = True, vs_found = True\<rparr>"
  obtain j where loop: "resolve_loop (\<lambda>i. visit_all (visit env api v_main main required) (ord i)) 0 ?s = Some (None, s, j)"
    and rest: "vs_missing s \<longrightarrow> find (\<lambda>(n, _). unresolved required s n) (ord j) = None"
    using run by (auto simp: resolve_def split: if_splits option.splits)
  have "sound env main elements required (vs_clusters s)" and c: "complete required s (set elements)"
    using loop_complete [OF ok loop] sound_new [of elements] ok by (auto simp: resolution_ok_def)
  moreover have "\<forall>x \<in> set elements. wanted required s (fst x) \<longrightarrow> resolved s x"
  proof (cases "vs_missing s")
    case True
    then have "\<forall>x \<in> set elements. \<not> unresolved required s (fst x)"
      using rest ok by (auto simp: find_None_iff resolution_ok_def)
    then show ?thesis
      by (auto simp: unresolved_def resolved_def)
  next
    case False
    with c show ?thesis
      by (simp add: complete_def)
  qed
  ultimately show ?thesis
    by blast
qed

lemma record_error_fails:
  assumes "err_documented api" "record_error api f d = (e, d')"
  shows "e \<noteq> None"
  using assms by (cases f) (auto simp: record_error_def AddError_def err_documented_def Let_def)

definition required_names :: "string list \<Rightarrow> cluster_defs \<Rightarrow> string list" where
  "required_names used d = (if used = [] then gkeys (gr_elements (df_group d)) else used)"

section \<open>An example\<close>

text \<open>
  A laptop with a kubeconfig in its home directory: the default cluster exists, a cluster
  \<open>source\<close> has no configuration of its own.
\<close>

definition env_demo :: "(string, string) cluster_env" where
  "env_demo = \<lparr>ce_world = world_demo\<lparr>w_home_file := ''kc''\<rparr>, ce_client = (\<lambda>_. Inr 7),
     ce_converters = (\<lambda>_. None), ce_apiexport = (\<lambda>_ _. Inr 0)\<rparr>"

definition defs_demo :: cluster_defs where
  "defs_demo = defs_Add err_demo [Define ''source'' [] []] NewClusterDefinitions"

lemma defs_demo_simps:
  "defs_ok defs_demo" "gr_elements (df_group defs_demo) = [(''source'', Define ''source'' [] [])]"
  "df_clusters defs_demo = None" "cd_fallback (Define ''source'' [] []) = DEFAULT"
  "df_main defs_demo = Define DEFAULT ''standard cluster'' [DefaultRules]"
proof -
  show "defs_ok defs_demo"
    unfolding defs_demo_def by (intro defs_ok_Add defs_ok_New) (simp add: Define_def newBase_def Let_def)
  show "gr_elements (df_group defs_demo) = [(''source'', Define ''source'' [] [])]"
    by (simp add: defs_demo_def defs_Add_def NewClusterDefinitions_def Definitions_Add_def ds_add_one_def
        NewDefinitions_def elem_group.truncate_def Define_def newBase_def gset_def split: prod.splits)
qed (simp_all add: defs_demo_def defs_Add_def NewClusterDefinitions_def Define_def newBase_def Let_def)

lemma demo_Create:
  "def_Create env_demo (Define ''source'' [] []) = Inr None"
  "def_Create env_demo (Define DEFAULT ''standard cluster'' [DefaultRules]) =
     Inr (Some (CE_Cluster (BaseCluster DEFAULT DEFAULT 7)))"
  by (simp_all add: def_Create_def clusterDef_Create_def def_GetConfig_def Define_def newBase_def env_demo_def
      world_demo_def rule_defs personal_name_def personal_env_def to_upper_def no_options_def
      EnvironmentVariable_GetConfig_def HomeDirectory_GetConfig_def TryKubeconfigFile_def
      GetRestConfigFromKubeconfig_def PrepareConfigFor_def NewCluster_def)

lemma defs_demo_error: "GetError err_demo (gr_errors (df_group defs_demo)) = None"
proof -
  have "gr_errors (df_group defs_demo) = \<lparr>ec_name = ''cluster set'', ec_errlist = [None]\<rparr>"
    by (simp add: defs_demo_def defs_Add_def NewClusterDefinitions_def Definitions_Add_def ds_add_one_def
        NewDefinitions_def NewErrorContainer_def elem_group.truncate_def Define_def newBase_def AddError_def err_demo_def
        split: prod.splits)
  then show ?thesis
    by (simp add: GetError_def err_demo_def)
qed

text \<open>A single definition that falls back to the default cluster.\<close>

lemma single_default_run:
  assumes "gr_elements (df_group d) = [(n, def)]" "named_ok [(n, def)]" "cd_name (df_main d) = DEFAULT"
    and "df_clusters d = None" "GetError api (gr_errors (df_group d)) = None"
    and "def_Create env def = Inr None" "cd_fallback def = DEFAULT" "def_Create env (df_main d) = Inr (Some c)"
    and "n \<in> set (required_names used d)"
  shows "\<exists>d' cs. defs_Validate env api None None used (\<lambda>_. gr_elements (df_group d)) d = Some (None, d') \<and>
    df_clusters d' = Some cs \<and> set_Get cs DEFAULT = Some c \<and> set_Get cs n = None \<and> IsDisabled cs n"
proof -
  have n: "cd_name def = n" "CHR ''#'' \<notin> set n" "n \<noteq> DEFAULT"
    using named_okD [OF assms(2), of n def] by simp_all
  let ?R = "required_names used d" and ?pass = "visit env api None (df_main d) (required_names used d)"
  let ?s = "\<lparr>vs_clusters = newClusters, vs_intermediate = [], vs_missing = False, vs_found = False\<rparr>"
  let ?t = "vs_add api c (note_fallback ?R DEFAULT ?s)"
  have none: "set_Get newClusters x = None" if "CHR ''#'' \<notin> set x" for x
    by (simp add: set_Get_plain [OF that])
  have default: "ce_GetName c = DEFAULT" "set_Get (vs_clusters ?t) DEFAULT = Some c"
    using Create_name [OF assms(8)] assms(3) set_Add_new [of c newClusters api] none [of DEFAULT]
    by (simp_all add: vs_add_def)
  have lost: "set_Get (vs_clusters ?t) n = None"
    using set_Add_other [OF n(2), of c api newClusters] default(1) n none by (simp add: vs_add_def)
  have visit: "?pass (n, def) ?s = (None, ?t)"
    using assms(6-9) n none [of n] none [of DEFAULT]
    by (simp add: visit_def wanted_def Let_def)
  have stop: "\<not> vs_missing ?t"
    by (simp add: vs_add_def note_fallback_def)
  have "resolve_loop (\<lambda>i. visit_all ?pass [(n, def)]) 0 (?s\<lparr>vs_missing := True, vs_found := True\<rparr>) = Some (None, ?t, 1)"
    by (subst resolve_loop.simps, simp add: visit, subst resolve_loop.simps, simp add: stop)
  then have "resolve env api None (df_main d) ?R (\<lambda>_. [(n, def)]) = Some (None, ?t)"
    using stop by (simp add: resolve_def)
  then have "defs_Validate env api None None used (\<lambda>_. gr_elements (df_group d)) d =
      Some (None, d\<lparr>df_clusters := Some (disable_rest [(n, def)] (vs_clusters ?t))\<rparr>)"
    using assms(1,4,5) by (simp add: defs_Validate_def Let_def flip: required_names_def) (auto simp: required_names_def)
  moreover have "set_Get (disable_rest [(n, def)] cs) x = set_Get cs x" for cs x
    by (simp add: disable_rest_def set_Get_def case_prod_beta)
  moreover have "IsDisabled (disable_rest [(n, def)] (vs_clusters ?t)) n"
    using lost by (simp add: IsDisabled_def disable_rest_def)
  ultimately show ?thesis
    using default lost by simp
qed

lemma demo_Validate:
  "\<exists>d'. defs_Validate env_demo err_demo None None [] (\<lambda>_. gr_elements (df_group defs_demo)) defs_demo = Some (None, d')"
proof -
  have "named_ok [(''source'', Define ''source'' [] [])]"
    using defs_demo_simps(1) by (simp add: defs_ok_def defs_demo_simps(2))
  then show ?thesis
    using single_default_run [OF defs_demo_simps(2) _ _ defs_demo_simps(3) defs_demo_error demo_Create(1)
        defs_demo_simps(4), of "CE_Cluster (BaseCluster DEFAULT DEFAULT 7)" "[]"] defs_demo_simps
    by (auto simp: defs_ok_def demo_Create(2) required_names_def)
qed

section \<open>Properties\<close>

text \<open>
  C23: the validation of cluster definitions ends, in whatever order every pass meets the
  definitions: a pass that asks for another one has resolved a cluster or asked for a new
  intermediate one.
\<close>

theorem validate_terminates:
  assumes "defs_ok d" "\<forall>i. set (ord i) = set (gr_elements (df_group d))"
  shows "\<exists>r. defs_Validate env api v_set v_main used ord d = Some r"
proof -
  have "resolution_ok (df_main d) (gr_elements (df_group d)) ord"
    using assms by (simp add: resolution_ok_def defs_ok_def)
  then obtain r where "resolve env api v_main (df_main d) (required_names used d) ord = Some r"
    using resolve_terminates by blast
  then show ?thesis
    unfolding required_names_def by (cases v_set) (simp_all add: defs_Validate_def Let_def)
qed

theorem validate_terminates_witness:
  "\<exists>r. defs_Validate env_demo err_demo None None [] (\<lambda>_. gr_elements (df_group defs_demo)) defs_demo = Some r"
  by (rule validate_terminates) (simp_all add: defs_demo_simps)

text \<open>
  C5: after a successful validation every definition is either disabled or has a cluster of
  its name that it created itself or that is the alias of the cluster of its fallback, and
  a required definition that accepts no fleet never ends up with one. A required definition
  is resolved, with one exception: if its fallback is the default cluster it may be left
  without a cluster although the default cluster exists.
\<close>

theorem validate_resolves:
  assumes ok: "defs_ok d" "\<forall>i. set (ord i) = set (gr_elements (df_group d))" "err_documented api"
    and run: "defs_Validate env api v_set v_main used ord d = Some (None, d')" "df_clusters d = None"
  shows "\<exists>cs. df_clusters d' = Some cs \<and> (\<forall>(n, def) \<in> set (gr_elements (df_group d)).
    (IsDisabled cs n \<longleftrightarrow> set_Get cs n = None) \<and>
    (\<forall>c. set_Get cs n = Some c \<longrightarrow> ce_GetName c = n \<and>
      (def_Create env def = Inr (Some c) \<or>
       def_Create env def = Inr None \<and> (\<exists>eff. set_Get cs (cd_fallback def) = Some eff \<and> c = NewAlias n eff)) \<and>
      (n \<in> set (required_names used d) \<and> \<not> AcceptFleet def \<longrightarrow> ce_AsFleet c = None)) \<and>
    (n \<in> set (required_names used d) \<and> set_Get cs n = None \<longrightarrow>
      cd_fallback def = DEFAULT \<and> set_Get cs DEFAULT \<noteq> None))"
proof -
  let ?E = "gr_elements (df_group d)" and ?R = "required_names used d"
  have r_ok: "resolution_ok (df_main d) ?E ord"
    using ok by (simp add: resolution_ok_def defs_ok_def)
  have failed: "record_error api f x \<noteq> (None, d')" for f x
    using record_error_fails [OF ok(3)] by blast
  have no_err: "GetError api (gr_errors (df_group d)) = None"
    using run by (auto simp: defs_Validate_def Let_def split: if_splits)
  have no_set: "v_set = None"
    using run no_err failed by (cases v_set) (simp_all add: defs_Validate_def Let_def)
  obtain f s where s': "resolve env api v_main (df_main d) ?R ord = Some (f, s)"
    using resolve_terminates [OF r_ok] by (metis surj_pair)
  have f: "f = None"
    using run no_err no_set s' failed by (cases f) (simp_all add: defs_Validate_def Let_def flip: required_names_def)
  have s: "resolve env api v_main (df_main d) ?R ord = Some (None, s)"
    and d': "df_clusters d' = Some (disable_rest ?E (vs_clusters s))"
    using run no_err no_set s' by (simp_all add: f defs_Validate_def Let_def flip: required_names_def) (auto simp: f)
  have sound: "sound env (df_main d) ?E ?R (vs_clusters s)"
    and complete: "\<forall>x \<in> set ?E. wanted ?R s (fst x) \<longrightarrow> resolved s x"
    using resolve_complete [OF r_ok s] by auto
  have get: "set_Get (disable_rest ?E (vs_clusters s)) x = set_Get (vs_clusters s) x" for x
    by (simp add: disable_rest_def set_Get_def case_prod_beta)
  have "IsDisabled (disable_rest ?E (vs_clusters s)) n \<longleftrightarrow> set_Get (vs_clusters s) n = None"
    if "(n, def) \<in> set ?E" for n def
    using that sound by (force simp: IsDisabled_def disable_rest_def sound_def)
  moreover have "justified env ?R (vs_clusters s) n def c"
    if "(n, def) \<in> set ?E" "set_Get (vs_clusters s) n = Some c" for n def c
    using that sound by (auto simp: sound_def)
  moreover have "cd_fallback def = DEFAULT \<and> set_Get (vs_clusters s) DEFAULT \<noteq> None"
    if "(n, def) \<in> set ?E" "n \<in> set ?R" "set_Get (vs_clusters s) n = None" for n def
    using that complete by (fastforce simp: wanted_def resolved_def)
  ultimately show ?thesis
    unfolding d' by (intro exI [of _ "disable_rest ?E (vs_clusters s)"] conjI [OF refl] ballI)
      (simp only: get justified_def split_paired_all prod.case, blast)
qed

theorem validate_resolves_witness:
  "\<exists>cs. df_clusters (snd (the (defs_Validate env_demo err_demo None None [] (\<lambda>_. gr_elements (df_group defs_demo)) defs_demo))) = Some cs \<and>
     (IsDisabled cs ''source'' \<longleftrightarrow> set_Get cs ''source'' = None)"
proof -
  obtain d' where "defs_Validate env_demo err_demo None None [] (\<lambda>_. gr_elements (df_group defs_demo)) defs_demo = Some (None, d')"
    using demo_Validate by blast
  then show ?thesis
    using validate_resolves [OF defs_demo_simps(1) _ err_demo_documented _ defs_demo_simps(3)]
    by (fastforce simp: defs_demo_simps(2))
qed

text \<open>
  A single cluster that falls back to the default cluster is lost: the validation
  succeeds and creates the default cluster, but ends before it makes the alias, so the
  cluster is disabled although it is required, and a controller that uses it cannot be set
  up. The documentation promises that the fallback is used instead.
\<close>

theorem default_fallback_lost:
  assumes "gr_elements (df_group d) = [(n, def)]" "named_ok [(n, def)]" "cd_name (df_main d) = DEFAULT"
    and "df_clusters d = None" "GetError api (gr_errors (df_group d)) = None"
    and "def_Create env def = Inr None" "cd_fallback def = DEFAULT" "def_Create env (df_main d) = Inr (Some c)"
    and "n \<in> set (required_names used d)"
  shows "\<exists>d' cs. defs_Validate env api None None used (\<lambda>_. gr_elements (df_group d)) d = Some (None, d') \<and>
    df_clusters d' = Some cs \<and> set_Get cs DEFAULT = Some c \<and> set_Get cs n = None \<and> IsDisabled cs n \<and>
    set_Map api None cs [n] = Inl (Errorf ''global cluster %q for %q not defined'' [n, n])"
  using single_default_run [OF assms] by (fastforce simp: set_Map_def Mappings_Map_def Let_def)

theorem default_fallback_lost_witness:
  "\<exists>d' cs. defs_Validate env_demo err_demo None None [] (\<lambda>_. gr_elements (df_group defs_demo)) defs_demo = Some (None, d') \<and>
     df_clusters d' = Some cs \<and> IsDisabled cs ''source''"
  using default_fallback_lost [OF defs_demo_simps(2) _ _ defs_demo_simps(3) defs_demo_error demo_Create(1)
      defs_demo_simps(4), of "CE_Cluster (BaseCluster DEFAULT DEFAULT 7)" "[]"] defs_demo_simps
  by (auto simp: defs_ok_def demo_Create(2) required_names_def)

end
