(* ===== verification/CacheIndexes.thy ===== *)
theory CacheIndexes
  imports Clusters
begin

text \<open>
  The state of a controller manager that its elements share, and the indices on the caches
  of clusters: their definitions, their creation and sharing, and their import under the
  names a component or controller uses (packages cacheindex and cacheindex/idxutils).

  The scheme of a cluster and its field indexer are parameters. A resource is the name of
  its Go type. \<open>ie_kinds\<close> is \<open>scheme.ObjectKinds\<close>, \<open>ie_new\<close> the outcome of \<open>scheme.New\<close>,
  \<open>ie_gvk\<close> is \<open>apiutil.GVKForObject\<close> and \<open>ie_field\<close> the outcome of registering an index with a
  given name at the client of a cluster.
\<close>

type_synonym version_kind = "string \<times> string \<times> string"

record index_env =
  ie_kinds :: "string \<Rightarrow> version_kind list result"
  ie_new :: "version_kind \<Rightarrow> gerror option"
  ie_gvk :: "string \<Rightarrow> version_kind result"
  ie_field :: "string \<Rightarrow> string \<Rightarrow> gerror option"

section \<open>Indices\<close>

text \<open>An index of an effective cluster; \<open>ci_list\<close> is the kind of list it creates.\<close>

record cindex =
  ci_name :: string
  ci_cluster :: cluster_eq
  ci_gvk :: version_kind
  ci_resource :: string
  ci_list :: version_kind

datatype index_ref = IndexBase cindex | IndexAlias string index_ref

fun index_GetName :: "index_ref \<Rightarrow> string" where
  "index_GetName (IndexBase i) = ci_name i"
| "index_GetName (IndexAlias n i) = n"

fun index_GetEffective :: "index_ref \<Rightarrow> cindex" where
  "index_GetEffective (IndexBase i) = i"
| "index_GetEffective (IndexAlias n i) = index_GetEffective i"

definition index_NewAlias :: "string \<Rightarrow> index_ref \<Rightarrow> index_ref" where
  "index_NewAlias name idx = (if name = index_GetName idx then idx else IndexAlias name idx)"

definition group_kind_of :: "version_kind \<Rightarrow> group_kind" where
  "group_kind_of k = (case k of (g, v, kd) \<Rightarrow> \<lparr>gk_group = g, gk_kind = kd\<rparr>)"

definition GKForObject :: "index_env \<Rightarrow> string \<Rightarrow> group_kind result" where
  "GKForObject env obj =
     (case ie_gvk env obj of Inl err \<Rightarrow> Inl err | Inr gvk \<Rightarrow> Inr (group_kind_of gvk))"

definition createListFactoryFromObject :: "index_env \<Rightarrow> string \<Rightarrow> version_kind result" where
  "createListFactoryFromObject env obj =
     (case ie_kinds env obj of
        Inl err \<Rightarrow> Inl (Wrapf [''could not determine GVK for object''] err)
      | Inr [] \<Rightarrow> Inl (Errorf ''could not determine GVK for object: %w'' [])
      | Inr ((g, v, k) # _) \<Rightarrow>
          (let listGVK = (g, v, k @ ''List'') in
           case ie_new env listGVK of
             Some err \<Rightarrow> Inl (Wrapf [''could not create list type'', k @ ''List''] err)
           | None \<Rightarrow> Inr listGVK))"

definition NewDefaultIndex :: "index_env \<Rightarrow> string \<Rightarrow> cluster_eq \<Rightarrow> string \<Rightarrow> cindex result" where
  "NewDefaultIndex env name c obj =
     (case createListFactoryFromObject env obj of
        Inl err \<Rightarrow> Inl err
      | Inr fac \<Rightarrow>
          (case ie_gvk env obj of
             Inl err \<Rightarrow> Inl err
           | Inr gvk \<Rightarrow>
               Inr \<lparr>ci_name = name, ci_cluster = c, ci_gvk = gvk, ci_resource = obj, ci_list = fac\<rparr>))"

text \<open>
  Reading an index: \<open>lister cluster index namespace key\<close> is the client of its cluster. The
  action on an item may fail and may change a state, for \<open>Trigger\<close> it enqueues the object.
\<close>

definition index_GetList ::
  "index_env \<Rightarrow> (string \<Rightarrow> string \<Rightarrow> string \<Rightarrow> string \<Rightarrow> 'o list result) \<Rightarrow> cindex \<Rightarrow> string \<Rightarrow> string \<Rightarrow> 'o list result" where
  "index_GetList env lister i ns key =
     (case ie_new env (ci_list i) of
        Some err \<Rightarrow> Inl err
      | None \<Rightarrow> lister (ce_GetName (ci_cluster i)) (ci_name i) ns key)"

fun each_item :: "('o \<Rightarrow> 's \<Rightarrow> gerror option \<times> 's) \<Rightarrow> 'o list \<Rightarrow> 's \<Rightarrow> gerror option \<times> 's" where
  "each_item action [] s = (None, s)"
| "each_item action (x # xs) s =
     (case action x s of
        (Some err, s) \<Rightarrow> (Some err, s)
      | (None, s) \<Rightarrow> each_item action xs s)"

definition ForEachItem ::
  "index_env \<Rightarrow> (string \<Rightarrow> string \<Rightarrow> string \<Rightarrow> string \<Rightarrow> 'o list result) \<Rightarrow> cindex \<Rightarrow> string \<Rightarrow> string \<Rightarrow>
   ('o \<Rightarrow> 's \<Rightarrow> gerror option \<times> 's) \<Rightarrow> 's \<Rightarrow> gerror option \<times> 's" where
  "ForEachItem env lister i ns key action s =
     (case index_GetList env lister i ns key of
        Inl err \<Rightarrow> (Some err, s)
      | Inr xs \<Rightarrow> each_item action xs s)"

section \<open>The manager\<close>

text \<open>
  A component is known by its name, or by the name of an alias for one. \<open>mg_runtime\<close> is the
  state of the effective cluster of the given name; the names of the health checks and the
  runnables that were registered are in the order of their registration.
\<close>

datatype component = Component (cp_name: string) | ComponentAlias (cp_name: string) component

record manager =
  mg_name :: string
  mg_clusters :: cluster_set
  mg_indices :: "cindex elem_group"
  mg_runtime :: "string \<Rightarrow> cindex cluster_runtime"
  mg_components :: "component elem_group"
  mg_controllers :: "string elem_group"
  mg_readyz :: "string list"
  mg_healthz :: "string list"
  mg_runnables :: "string list"

definition mgr_GetIndex :: "manager \<Rightarrow> string \<Rightarrow> cindex option" where
  "mgr_GetIndex mgr name = Group_Get (mg_indices mgr) name"

text \<open>The comparison of effective clusters compares the objects, for a fleet its identity.\<close>

fun same_effective :: "cluster_eq \<Rightarrow> cluster_eq \<Rightarrow> bool" where
  "same_effective (CE_Cluster c) (CE_Cluster d) = (cluster_GetEffective c = cluster_GetEffective d)"
| "same_effective (CE_Fleet f) (CE_Fleet g) = (kf_ref (fleet_GetEffective f) = kf_ref (fleet_GetEffective g))"
| "same_effective _ _ = False"

section \<open>Definitions\<close>

text \<open>
  A definition of an index; a reference has no indexer factory. The factory sees the clusters
  of the definition and may fail.
\<close>

record index_def =
  id_name :: string
  id_target :: string
  id_resource :: string
  id_factory :: "(cluster_set \<Rightarrow> gerror option) option"

definition Ref :: "string \<Rightarrow> string \<Rightarrow> string \<Rightarrow> index_def" where
  "Ref name tgt res = \<lparr>id_name = ComposeName name tgt, id_target = tgt, id_resource = res, id_factory = None\<rparr>"

definition index_Define :: "string \<Rightarrow> string \<Rightarrow> string \<Rightarrow> index_def" where
  "index_Define name tgt res =
     \<lparr>id_name = ComposeName name tgt, id_target = tgt, id_resource = res, id_factory = Some (\<lambda>_. None)\<rparr>"

definition DefineByFactory :: "string \<Rightarrow> string \<Rightarrow> string \<Rightarrow> (cluster_set \<Rightarrow> gerror option) \<Rightarrow> index_def" where
  "DefineByFactory name tgt res factory =
     \<lparr>id_name = ComposeName name tgt, id_target = tgt, id_resource = res, id_factory = Some factory\<rparr>"

definition index_Match :: "cindex \<Rightarrow> group_kind \<Rightarrow> cluster_eq \<Rightarrow> gerror option" where
  "index_Match i gk c =
     (if group_kind_of (ci_gvk i) \<noteq> gk
      then Some (Errorf ''group kind mismatch: expected %s, but found %s'' [gk_kind gk, snd (snd (ci_gvk i))])
      else if \<not> same_effective (ci_cluster i) c
      then Some (Errorf ''cluster mismatch: expected %s->%s, but found %s''
                   [ce_GetName c, ce_GetName (ce_GetEffective c), ce_GetName (ce_GetEffective (ci_cluster i))])
      else None)"

definition nil_panic :: gerror where
  "nil_panic = Errorf ''runtime error: invalid memory address or nil pointer dereference'' []"

definition index_Apply ::
  "err_api \<Rightarrow> index_env \<Rightarrow> index_def \<Rightarrow> controller_mappings option \<Rightarrow> manager \<Rightarrow> gerror option \<times> manager" where
  "index_Apply api env d m mgr =
     (let mp = DefaultMappings m in
      case set_Map api (clusters mp) (mg_clusters mgr) [id_target d] of
        Inl err \<Rightarrow> (Some err, mgr)
      | Inr cs \<Rightarrow>
     (case set_Get cs (id_target d) of
        None \<Rightarrow> (Some nil_panic, mgr)
      | Some c0 \<Rightarrow>
     (let c = ce_GetEffective c0; glob = MapName (id_name d) mp in
      case GKForObject env (id_resource d) of
        Inl err \<Rightarrow> (Some (Wrapf [''cannot determine group/kind for'', id_resource d] err), mgr)
      | Inr gk \<Rightarrow>
     (case id_factory d of
        None \<Rightarrow> (Some (Errorf ''indexer required for %T'' [id_resource d]), mgr)
      | Some factory \<Rightarrow>
     (case mgr_GetIndex mgr glob of
        Some old \<Rightarrow> (index_Match old gk c, mgr)
      | None \<Rightarrow>
     (case factory cs of
        Some err \<Rightarrow> (Some err, mgr)
      | None \<Rightarrow>
     (case CreateIndex (ie_field env (ce_GetName c) glob) (Some (NewDefaultIndex env glob c (id_resource d)))
             (NewDefaultIndex env glob c (id_resource d)) glob (mg_runtime mgr (ce_GetName c)) of
        (Inl err, r) \<Rightarrow> (Some err, mgr\<lparr>mg_runtime := (mg_runtime mgr)(ce_GetName c := r)\<rparr>)
      | (Inr idx, r) \<Rightarrow>
          (case Group_Add api ci_name (\<lambda>_. AnyOther) [idx] (mg_indices mgr) of
             (err, g) \<Rightarrow>
               (err, mgr\<lparr>mg_runtime := (mg_runtime mgr)(ce_GetName c := r), mg_indices := g\<rparr>)))))))))"

text \<open>\<open>CreateIndices\<close> of a set of definitions; the clusters of the manager may be disabled.\<close>

fun create_indices ::
  "err_api \<Rightarrow> index_env \<Rightarrow> controller_mappings option \<Rightarrow> (string \<times> index_def) list \<Rightarrow> manager \<Rightarrow>
   gerror option \<times> manager" where
  "create_indices api env m [] mgr = (None, mgr)"
| "create_indices api env m ((n, i) # is) mgr =
     (if IsDisabled (mg_clusters mgr) (id_target i) then create_indices api env m is mgr
      else case index_Apply api env i m mgr of
        (Some err, mgr) \<Rightarrow> (Some (Wrapf [''index'', n] err), mgr)
      | (None, mgr) \<Rightarrow> create_indices api env m is mgr)"

definition index_CreateIndices ::
  "err_api \<Rightarrow> index_env \<Rightarrow> index_def definitions \<Rightarrow> controller_mappings option \<Rightarrow> manager \<Rightarrow>
   gerror option \<times> manager" where
  "index_CreateIndices api env d m mgr =
     (case GetError api (gr_errors d) of
        Some err \<Rightarrow> (Some err, mgr)
      | None \<Rightarrow> create_indices api env m (gr_elements d) mgr)"

text \<open>
  A definition with mappings of its own. \<open>MapIndex\<close> files the new name under the name of the
  target cluster.
\<close>

record mapped_index =
  mi_def :: index_def
  mi_mappings :: controller_mappings

definition index_WithMappings :: "index_def \<Rightarrow> mapped_index" where
  "index_WithMappings d = \<lparr>mi_def = d, mi_mappings = newConfigurableMappings\<rparr>"

definition mapped_MapCluster :: "string \<Rightarrow> mapped_index \<Rightarrow> mapped_index" where
  "mapped_MapCluster tgt m = m\<lparr>mi_mappings := MapCluster (id_target (mi_def m)) tgt (mi_mappings m)\<rparr>"

definition mapped_MapIndex :: "string \<Rightarrow> mapped_index \<Rightarrow> mapped_index" where
  "mapped_MapIndex tgt m = m\<lparr>mi_mappings := MapIndex (id_target (mi_def m)) tgt (mi_mappings m)\<rparr>"

definition mapped_GetTarget :: "mapped_index \<Rightarrow> string" where
  "mapped_GetTarget m = Mappings_Map (clusters (mi_mappings m)) (id_target (mi_def m))"

definition mapped_Apply ::
  "err_api \<Rightarrow> index_env \<Rightarrow> mapped_index \<Rightarrow> controller_mappings option \<Rightarrow> manager \<Rightarrow> gerror option \<times> manager" where
  "mapped_Apply api env m mappings mgr =
     index_Apply api env (mi_def m) (Some (ControllerMappings_ApplyTo (mi_mappings m) mappings)) mgr"

section \<open>Import\<close>

definition ImportIndex ::
  "index_def \<Rightarrow> cluster_set \<Rightarrow> controller_mappings \<Rightarrow> manager \<Rightarrow> (string \<Rightarrow> string) option \<Rightarrow>
   (string, cindex) gomap \<Rightarrow> (string, cindex) gomap result" where
  "ImportIndex i cs mp mgr mapper local =
     (let n = id_name i in
      case set_Get cs (id_target i) of
        None \<Rightarrow> Inl nil_panic
      | Some c0 \<Rightarrow>
     (let c = ce_GetEffective c0; glob = MapName n mp in
      case mgr_GetIndex mgr glob of
        None \<Rightarrow> Inl (Errorf ''imported index %q->%q not found'' [n, glob])
      | Some idx \<Rightarrow>
          if id_resource i \<noteq> ci_resource idx
          then Inl (Errorf ''index %q->%g resource type mismatch: expected %T, but found %T''
                      [n, glob, id_resource i, ci_resource idx])
          else if \<not> same_effective c (ci_cluster idx)
          then Inl (Errorf ''index %q->%q cluster mismatch: expected %s[%s], but found %s''
                      [n, glob, id_target i, ce_GetName c, ce_GetName (ce_GetEffective (ci_cluster idx))])
          else let n' = (case mapper of Some f \<Rightarrow> f n | None \<Rightarrow> n) in
               if gget local n' \<noteq> None
               then Inl (Errorf ''index %q->%q cluster mismatch: expected %s[%s], but found %s''
                           [n', glob, id_target i, ce_GetName c, ce_GetName (ce_GetEffective (ci_cluster idx))])
               else Inr (gset n' idx local)))"

text \<open>
  The short names: the map grows while it is ranged over; an entry met again is a short name
  for itself, so ranging over the entries there were is enough.
\<close>

definition base_count :: "(string, 'e) gomap \<Rightarrow> string \<Rightarrow> nat" where
  "base_count m b = length (filter (\<lambda>n. BaseName n = b) (gkeys m))"

definition AddShortNames :: "string \<Rightarrow> (string, 'e) gomap \<Rightarrow> (string, 'e) gomap" where
  "AddShortNames local m =
     fold (\<lambda>n r. let (b, c) = SplitName n in
             if base_count m b = 1 \<or> c = [] \<or> c = local
             then (case gget r n of Some e \<Rightarrow> gset b e r | None \<Rightarrow> r) else r) (gkeys m) m"

fun import_all ::
  "index_def list \<Rightarrow> cluster_set \<Rightarrow> controller_mappings \<Rightarrow> manager \<Rightarrow> (string, cindex) gomap \<Rightarrow>
   (string, cindex) gomap result" where
  "import_all [] cs mp mgr all = Inr all"
| "import_all (i # is) cs mp mgr all =
     (case ImportIndex i cs mp mgr None all of
        Inl err \<Rightarrow> Inl err
      | Inr all \<Rightarrow> import_all is cs mp mgr all)"

definition ImportIndices ::
  "err_api \<Rightarrow> (string, cindex) gomap \<Rightarrow> string \<Rightarrow> cluster_set \<Rightarrow> controller_mappings \<Rightarrow> manager \<Rightarrow>
   index_def definitions list \<Rightarrow> index_ref elem_group result" where
  "ImportIndices api all local cs mp mgr defs =
     (case import_all (concat (map (\<lambda>d. map snd (gr_elements d)) defs)) cs mp mgr all of
        Inl err \<Rightarrow> Inl err
      | Inr all \<Rightarrow>
          Inr (fold (\<lambda>(n, i) g. snd (Group_Add api index_GetName (\<lambda>_. AnyOther) [index_NewAlias n (IndexBase i)] g))
                 (AddShortNames local all) (NewGroup ''index'')))"

text \<open>\<open>Map\<close> of projection.go, and the typed access by \<open>GetIndexFrom\<close>.\<close>

fun index_project ::
  "err_api \<Rightarrow> index_ref elem_group \<Rightarrow> mappings \<Rightarrow> string list \<Rightarrow> index_ref elem_group \<Rightarrow> index_ref elem_group result" where
  "index_project api idx mp [] n = Inr n"
| "index_project api idx mp (local # names) n =
     (let global = Mappings_Map mp local in
      case Group_Get idx global of
        None \<Rightarrow> Inl (Errorf ''global index %q for %q not defined'' [global, local])
      | Some c \<Rightarrow>
          index_project api idx mp names
            (snd (Group_Add api index_GetName (\<lambda>_. AnyOther) [index_NewAlias local c] n)))"

definition GetIndexFrom :: "index_ref elem_group \<Rightarrow> string \<Rightarrow> string \<Rightarrow> cindex result" where
  "GetIndexFrom g name res =
     (case Group_Get g name of
        None \<Rightarrow> Inl (Errorf ''no index for %q found'' [name])
      | Some i \<Rightarrow>
          if ci_resource (index_GetEffective i) = res then Inr (index_GetEffective i)
          else Inl (Errorf ''type mismatch for %q: %T expected, but found %T''
                      [name, res, ci_resource (index_GetEffective i)]))"

section \<open>Lemmas\<close>

lemma same_effective_sym: "same_effective c d \<longleftrightarrow> same_effective d c"
  by (cases c; cases d) auto

lemma same_effective_eff [simp]:
  "same_effective (ce_GetEffective c) d = same_effective c d"
  "same_effective c (ce_GetEffective d) = same_effective c d"
  "same_effective c c"
  by (cases c; cases d; auto)+

lemma NewDefaultIndex_Inr:
  "NewDefaultIndex env name c obj = Inr i \<Longrightarrow>
    ci_name i = name \<and> ci_cluster i = c \<and> ci_resource i = obj \<and> GKForObject env obj = Inr (group_kind_of (ci_gvk i))"
  by (auto simp: NewDefaultIndex_def GKForObject_def split: sum.splits)

lemma CreateIndex_wrapped:
  "CreateIndex fi (Some w) d name r = (Inr idx, r') \<Longrightarrow> w = Inr idx"
  by (auto simp: CreateIndex_def split: if_splits option.splits sum.splits)

lemma index_Apply_success:
  assumes "index_Apply api env d m mgr = (None, mgr')"
  obtains cs c0 gk i where "set_Map api (clusters (DefaultMappings m)) (mg_clusters mgr) [id_target d] = Inr cs"
    "set_Get cs (id_target d) = Some c0" "GKForObject env (id_resource d) = Inr gk" "id_factory d \<noteq> None"
    "mgr_GetIndex mgr' (MapName (id_name d) (DefaultMappings m)) = Some i"
    "group_kind_of (ci_gvk i) = gk" "same_effective (ci_cluster i) c0"
    "mgr_GetIndex mgr (MapName (id_name d) (DefaultMappings m)) = None \<longrightarrow> ci_resource i = id_resource d"
    "\<forall>k j. mgr_GetIndex mgr k = Some j \<longrightarrow> mgr_GetIndex mgr' k = Some j"
    "mg_clusters mgr' = mg_clusters mgr"
proof -
  let ?glob = "MapName (id_name d) (DefaultMappings m)"
  obtain cs where cs: "set_Map api (clusters (DefaultMappings m)) (mg_clusters mgr) [id_target d] = Inr cs"
    using assms by (auto simp: index_Apply_def Let_def split: sum.splits)
  obtain c0 where c0: "set_Get cs (id_target d) = Some c0"
    using assms cs by (auto simp: index_Apply_def Let_def split: option.splits)
  obtain gk where gk: "GKForObject env (id_resource d) = Inr gk"
    using assms cs c0 by (auto simp: index_Apply_def Let_def split: sum.splits)
  obtain factory where factory: "id_factory d = Some factory"
    using assms cs c0 gk by (auto simp: index_Apply_def Let_def split: option.splits)
  note run = assms [unfolded index_Apply_def Let_def, simplified cs c0 gk factory sum.case option.case]
  show ?thesis
  proof (cases "mgr_GetIndex mgr ?glob")
    case (Some old)
    then have "index_Match old gk (ce_GetEffective c0) = None" "mgr' = mgr"
      using run by simp_all
    then show ?thesis
      using that [OF cs c0 gk, of old] factory Some by (auto simp: index_Match_def split: if_splits)
  next
    case None
    let ?c = "ce_GetEffective c0" and ?w = "NewDefaultIndex env ?glob (ce_GetEffective c0) (id_resource d)"
    have "factory cs = None"
      using run None by (auto split: option.splits)
    with run None obtain idx r g where
      create: "CreateIndex (ie_field env (ce_GetName ?c) ?glob) (Some ?w) ?w ?glob (mg_runtime mgr (ce_GetName ?c)) = (Inr idx, r)"
      and g: "Group_Add api ci_name (\<lambda>_. AnyOther) [idx] (mg_indices mgr) = (None, g)"
      and mgr': "mgr' = mgr\<lparr>mg_runtime := (mg_runtime mgr)(ce_GetName ?c := r), mg_indices := g\<rparr>"
      by (auto split: prod.splits sum.splits)
    have idx: "ci_name idx = ?glob" "ci_cluster idx = ?c" "ci_resource idx = id_resource d"
      "GKForObject env (id_resource d) = Inr (group_kind_of (ci_gvk idx))"
      using NewDefaultIndex_Inr [of env ?glob ?c "id_resource d" idx] CreateIndex_wrapped [OF create] by auto
    have "mgr_GetIndex mgr' n = (case mgr_GetIndex mgr n of Some j \<Rightarrow> Some j | None \<Rightarrow> if n = ?glob then Some idx else None)" for n
      using fold_step_elements [of api ci_name "\<lambda>_. AnyOther" "[idx]" "mg_indices mgr" n] g
        Group_Add_fold [of api ci_name "\<lambda>_. AnyOther" "[idx]" "mg_indices mgr"] idx(1)
      by (auto simp: mgr_GetIndex_def mgr' Group_Get_def firsts_def split: option.splits)
    then show ?thesis
      using that [OF cs c0 gk, of idx] factory None idx gk by (auto simp: mgr')
  qed
qed

text \<open>Names with at most one colon, and a cluster behind it.\<close>

definition index_name_ok :: "string \<Rightarrow> bool" where
  "index_name_ok n \<longleftrightarrow>
     (if ClusterName n = [] then n = BaseName n else n = ComposeName (BaseName n) (ClusterName n))"

lemma BaseName_plain: "CHR '':'' \<notin> set (BaseName n)"
  using SplitName_parts [of n] by (cases "SplitName n") (auto simp: BaseName_def)

definition short_for :: "string \<Rightarrow> (string, 'e) gomap \<Rightarrow> string \<Rightarrow> string \<Rightarrow> bool" where
  "short_for local m b n \<longleftrightarrow> n \<in> set (gkeys m) \<and> BaseName n = b \<and> n \<noteq> b \<and> (base_count m b = 1 \<or> ClusterName n = local)"

lemma base_count_single:
  assumes "base_count m b = 1" "n \<in> set (gkeys m)" "n' \<in> set (gkeys m)" "BaseName n = b" "BaseName n' = b"
  shows "n = n'"
proof -
  obtain x where x: "filter (\<lambda>n. BaseName n = b) (gkeys m) = [x]"
    using assms(1) unfolding base_count_def by (metis One_nat_def length_0_conv length_Suc_conv)
  have "n \<in> set (filter (\<lambda>n. BaseName n = b) (gkeys m))" "n' \<in> set (filter (\<lambda>n. BaseName n = b) (gkeys m))"
    using assms(2-5) by (simp_all only: set_filter mem_Collect_eq)
  then show ?thesis
    by (simp add: x)
qed

lemma index_name_ok_inj:
  "index_name_ok n \<Longrightarrow> index_name_ok n' \<Longrightarrow> BaseName n = BaseName n' \<Longrightarrow> ClusterName n = ClusterName n' \<Longrightarrow> n = n'"
  unfolding index_name_ok_def by metis

lemma short_for_unique:
  assumes "\<forall>n \<in> set (gkeys m). index_name_ok n" "short_for local m b n" "short_for local m b n'"
  shows "n' = n"
proof (cases "base_count m b = 1")
  case True
  then show ?thesis
    using assms base_count_single unfolding short_for_def by metis
next
  case False
  then have "ClusterName n = local" "ClusterName n' = local" "BaseName n = BaseName n'"
    "index_name_ok n" "index_name_ok n'" "n \<noteq> BaseName n" "n' \<noteq> BaseName n'"
    using assms unfolding short_for_def by auto
  then show ?thesis
    unfolding index_name_ok_def by (metis)
qed

lemma find_short:
  assumes "P n" "n \<in> set ns" "\<And>n'. P n' \<Longrightarrow> n' = n"
  shows "find P ns = Some n"
  using assms(2)
proof (induction ns)
  case (Cons x xs)
  then show ?case
    using assms(1) assms(3) [of x] by (cases "P x") auto
qed simp

text \<open>The steps of \<open>AddShortNames\<close> over a part of the names.\<close>

definition short_step :: "string \<Rightarrow> (string, 'e) gomap \<Rightarrow> string \<Rightarrow> (string, 'e) gomap \<Rightarrow> (string, 'e) gomap" where
  "short_step local m n r =
     (let (b, c) = SplitName n in
      if base_count m b = 1 \<or> c = [] \<or> c = local
      then (case gget r n of Some e \<Rightarrow> gset b e r | None \<Rightarrow> r) else r)"

definition agrees_full :: "(string, 'e) gomap \<Rightarrow> (string, 'e) gomap \<Rightarrow> bool" where
  "agrees_full m r \<longleftrightarrow> (\<forall>x. CHR '':'' \<in> set x \<longrightarrow> gget r x = gget m x)"

lemma index_name_ok_full:
  "index_name_ok n \<Longrightarrow> n \<noteq> BaseName n \<Longrightarrow> CHR '':'' \<in> set n"
proof -
  assume "index_name_ok n" "n \<noteq> BaseName n"
  then have "n = ComposeName (BaseName n) (ClusterName n)"
    unfolding index_name_ok_def by metis
  moreover have "CHR '':'' \<in> set (ComposeName (BaseName n) (ClusterName n))"
    by (simp add: ComposeName_def)
  ultimately show ?thesis
    by metis
qed

lemma short_step_get:
  assumes "index_name_ok n" "agrees_full m r" "n \<in> set (gkeys m)"
  shows "gget (short_step local m n r) x = (if short_for local m x n then gget m n else gget r x)"
proof (cases "n = BaseName n")
  case True
  then show ?thesis
    by (cases "SplitName n") (auto simp: short_step_def short_for_def BaseName_def split: option.splits)
next
  case False
  with assms have "gget r n = gget m n"
    using index_name_ok_full unfolding agrees_full_def by blast
  moreover obtain e where "gget m n = Some e"
    using assms(3) by (metis gget_None_iff not_None_eq)
  ultimately show ?thesis
    using assms False by (cases "SplitName n")
      (auto simp: short_step_def short_for_def BaseName_def ClusterName_def index_name_ok_def)
qed

lemma short_step_agrees:
  assumes "index_name_ok n" "agrees_full m r" "n \<in> set (gkeys m)"
  shows "agrees_full m (short_step local m n r)"
  unfolding agrees_full_def
  using short_step_get [OF assms] assms(2) BaseName_plain [of n] by (auto simp: short_for_def agrees_full_def)

lemma short_steps_get:
  assumes "\<forall>n \<in> set (gkeys m). index_name_ok n"
  shows "set ns \<subseteq> set (gkeys m) \<Longrightarrow> agrees_full m r \<Longrightarrow>
    gget (fold (short_step local m) ns r) x =
      (case find (short_for local m x) ns of Some n \<Rightarrow> gget m n | None \<Rightarrow> gget r x)"
proof (induction ns arbitrary: r)
  case (Cons n ns)
  then have n: "index_name_ok n" "n \<in> set (gkeys m)"
    using assms by auto
  have "find (short_for local m x) ns = Some n' \<Longrightarrow> short_for local m x n \<Longrightarrow> n' = n" for n'
    using short_for_unique [OF assms] by (auto simp: find_Some_iff)
  then show ?case
    using Cons short_step_get [OF n(1) Cons.prems(2) n(2)] short_step_agrees [OF n(1) Cons.prems(2) n(2)]
    by (cases "find (short_for local m x) ns") auto
qed simp

lemma AddShortNames_get:
  assumes "\<forall>n \<in> set (gkeys m). index_name_ok n"
  shows "gget (AddShortNames local m) x =
    (case find (short_for local m x) (gkeys m) of Some n \<Rightarrow> gget m n | None \<Rightarrow> gget m x)"
proof -
  have "AddShortNames local m = fold (short_step local m) (gkeys m) m"
    unfolding AddShortNames_def by (rule arg_cong [where f = "\<lambda>f. fold f _ _"]) (auto simp: short_step_def fun_eq_iff)
  then show ?thesis
    using short_steps_get [OF assms, of "gkeys m" m local x] by (simp add: agrees_full_def)
qed

section \<open>Properties\<close>

lemma index_Apply_again:
  assumes "set_Map api (clusters (DefaultMappings m)) (mg_clusters mgr) [id_target d] = Inr cs"
    "set_Get cs (id_target d) = Some c0" "GKForObject env (id_resource d) = Inr gk" "id_factory d \<noteq> None"
    "mgr_GetIndex mgr (MapName (id_name d) (DefaultMappings m)) = Some i"
  shows "index_Apply api env d m mgr = (index_Match i gk (ce_GetEffective c0), mgr)"
  using assms by (auto simp: index_Apply_def Let_def)

text \<open>
  Once an index is applied, the manager knows an index of that global name, of the kind of
  the object and on the effective cluster of the definition, and every index there was before
  is kept. Applying the definition again shares the index and leaves the manager as it is, an
  object of another kind under the same name is refused and changes nothing, and a reference
  imports the new index under its local name.
\<close>

theorem index_apply_import:
  assumes "index_Apply api env (index_Define n t res) m mgr = (None, mgr')"
  shows "\<exists>cs i gk.
    set_Map api (clusters (DefaultMappings m)) (mg_clusters mgr) [t] = Inr cs \<and>
    GKForObject env res = Inr gk \<and>
    mgr_GetIndex mgr' (MapName (ComposeName n t) (DefaultMappings m)) = Some i \<and>
    group_kind_of (ci_gvk i) = gk \<and>
    (\<forall>c. set_Get cs t = Some c \<longrightarrow> same_effective (ci_cluster i) c) \<and>
    (\<forall>k j. mgr_GetIndex mgr k = Some j \<longrightarrow> mgr_GetIndex mgr' k = Some j) \<and>
    index_Apply api env (index_Define n t res) m mgr' = (None, mgr') \<and>
    (\<forall>res' gk'. GKForObject env res' = Inr gk' \<longrightarrow> gk' \<noteq> gk \<longrightarrow>
      (\<exists>err. index_Apply api env (index_Define n t res') m mgr' = (Some err, mgr'))) \<and>
    (\<forall>local. mgr_GetIndex mgr (MapName (ComposeName n t) (DefaultMappings m)) = None \<longrightarrow>
      gget local (ComposeName n t) = None \<longrightarrow>
      ImportIndex (Ref n t res) cs (DefaultMappings m) mgr' None local = Inr (gset (ComposeName n t) i local))"
proof -
  have d: "id_target (index_Define n t r) = t" "id_name (index_Define n t r) = ComposeName n t"
    "id_resource (index_Define n t r) = r" "id_factory (index_Define n t r) \<noteq> None" for r
    by (simp_all add: index_Define_def)
  have ref: "id_target (Ref n t res) = t" "id_name (Ref n t res) = ComposeName n t" "id_resource (Ref n t res) = res"
    by (simp_all add: Ref_def)
  obtain cs c0 gk i where ok: "set_Map api (clusters (DefaultMappings m)) (mg_clusters mgr) [t] = Inr cs"
    "set_Get cs t = Some c0" "GKForObject env res = Inr gk"
    "mgr_GetIndex mgr' (MapName (ComposeName n t) (DefaultMappings m)) = Some i"
    "group_kind_of (ci_gvk i) = gk" "same_effective (ci_cluster i) c0"
    "mgr_GetIndex mgr (MapName (ComposeName n t) (DefaultMappings m)) = None \<longrightarrow> ci_resource i = res"
    "\<forall>k j. mgr_GetIndex mgr k = Some j \<longrightarrow> mgr_GetIndex mgr' k = Some j"
    "mg_clusters mgr' = mg_clusters mgr"
    by (rule index_Apply_success [OF assms, unfolded d]) (rule that, assumption+)
  have again: "index_Apply api env (index_Define n t r) m mgr' = (index_Match i g (ce_GetEffective c0), mgr')"
    if "GKForObject env r = Inr g" for r g
    using index_Apply_again [of api m mgr' "index_Define n t r" cs c0 env g i] ok(1,2,4,9) that by (simp add: d)
  have import: "ImportIndex (Ref n t res) cs (DefaultMappings m) mgr' None local = Inr (gset (ComposeName n t) i local)"
    if "mgr_GetIndex mgr (MapName (ComposeName n t) (DefaultMappings m)) = None" "gget local (ComposeName n t) = None" for local
    using ok(2,4,6,7) that same_effective_sym by (simp add: ImportIndex_def ref Let_def)
  have "index_Apply api env (index_Define n t res) m mgr' = (None, mgr')"
    using again [OF ok(3)] ok(5,6) by (simp add: index_Match_def)
  moreover have "\<exists>err. index_Apply api env (index_Define n t r) m mgr' = (Some err, mgr')"
    if "GKForObject env r = Inr g" "g \<noteq> gk" for r g
    using again [OF that(1)] that(2) ok(5) by (simp add: index_Match_def)
  ultimately show ?thesis
    using ok import by auto
qed

definition ienv_demo :: index_env where
  "ienv_demo = \<lparr>ie_kinds = (\<lambda>r. Inr [(''apps'', ''v1'', r)]), ie_new = (\<lambda>_. None),
    ie_gvk = (\<lambda>r. Inr (''apps'', ''v1'', r)), ie_field = (\<lambda>_ _. None)\<rparr>"

definition mgr_demo :: manager where
  "mgr_demo = \<lparr>mg_name = ''mgr'', mg_clusters = snd (set_Add err_demo [CE_Cluster (BaseCluster ''main'' ''id'' 7)] newClusters),
    mg_indices = NewGroup ''index'', mg_runtime = (\<lambda>_. \<lparr>cr_indices = [], cr_started = False, cr_synced = False, cr_syncer_calls = 0\<rparr>),
    mg_components = NewGroup ''component'', mg_controllers = NewGroup ''controller'',
    mg_readyz = [], mg_healthz = [], mg_runnables = []\<rparr>"

theorem index_apply_import_witness:
  "\<exists>i. ImportIndex (Ref ''owner'' ''main'' ''Deployment'')
      (snd (set_Add err_demo [CE_Cluster (BaseCluster ''main'' ''id'' 7)] newClusters)) (DefaultMappings None)
      (snd (index_Apply err_demo ienv_demo (index_Define ''owner'' ''main'' ''Deployment'') None mgr_demo)) None [] =
    Inr [(''owner:main'', i)]"
proof -
  let ?r = "index_Apply err_demo ienv_demo (index_Define ''owner'' ''main'' ''Deployment'') None mgr_demo"
  have "fst ?r = None"
    by code_simp
  moreover have "mgr_GetIndex mgr_demo (MapName (ComposeName ''owner'' ''main'') (DefaultMappings None)) = None"
    by code_simp
  moreover have "set_Map err_demo (clusters (DefaultMappings None)) (mg_clusters mgr_demo) [''main''] =
      Inr (snd (set_Add err_demo [CE_Cluster (BaseCluster ''main'' ''id'' 7)] newClusters))"
    by code_simp
  ultimately show ?thesis
    using index_apply_import [of err_demo ienv_demo "''owner''" "''main''" "''Deployment''" None mgr_demo "snd ?r"]
    by (cases ?r) (auto simp: ComposeName_def gset_def)
qed

text \<open>
  The short names of indices. A full name keeps its index. A short name stands for the only
  index of that name, or among several for the one on the local cluster; without such an index
  it has the index it had before, if any.
\<close>

theorem short_index_names:
  assumes "\<forall>n \<in> set (gkeys m). index_name_ok n"
  shows "(\<forall>x. CHR '':'' \<in> set x \<longrightarrow> gget (AddShortNames local m) x = gget m x) \<and>
    (\<forall>n. n \<in> set (gkeys m) \<longrightarrow> base_count m (BaseName n) = 1 \<or> ClusterName n = local \<longrightarrow>
      gget (AddShortNames local m) (BaseName n) = gget m n) \<and>
    (\<forall>x. (\<forall>n \<in> set (gkeys m). BaseName n = x \<longrightarrow> base_count m x \<noteq> 1 \<and> ClusterName n \<noteq> local) \<longrightarrow>
      gget (AddShortNames local m) x = gget m x)"
proof (intro conjI allI impI)
  fix x :: string
  assume "CHR '':'' \<in> set x"
  then have "\<not> short_for local m x n" for n
    using BaseName_plain [of n] by (auto simp: short_for_def)
  then have "find (short_for local m x) (gkeys m) = None"
    by (simp add: find_None_iff)
  then show "gget (AddShortNames local m) x = gget m x"
    by (simp add: AddShortNames_get [OF assms])
next
  fix n
  assume n: "n \<in> set (gkeys m)" "base_count m (BaseName n) = 1 \<or> ClusterName n = local"
  show "gget (AddShortNames local m) (BaseName n) = gget m n"
  proof (cases "n = BaseName n")
    case True
    have "\<not> short_for local m n n'" for n'
      using n True base_count_single [of m n n n'] index_name_ok_inj [of n n'] assms unfolding short_for_def by metis
    then have "find (short_for local m n) (gkeys m) = None"
      by (simp add: find_None_iff)
    then show ?thesis
      using AddShortNames_get [OF assms, of local n] True by simp
  next
    case False
    then have "short_for local m (BaseName n) n"
      using n by (simp add: short_for_def)
    then show ?thesis
      using AddShortNames_get [OF assms, of local "BaseName n"] short_for_unique [OF assms]
        find_short [of "short_for local m (BaseName n)" n "gkeys m"] n(1) by simp
  qed
next
  fix x
  assume none: "\<forall>n \<in> set (gkeys m). BaseName n = x \<longrightarrow> base_count m x \<noteq> 1 \<and> ClusterName n \<noteq> local"
  then have "find (short_for local m x) (gkeys m) = None"
    by (auto simp: find_None_iff short_for_def)
  then show "gget (AddShortNames local m) x = gget m x"
    by (simp add: AddShortNames_get [OF assms])
qed

theorem short_index_names_witness:
  "gget (AddShortNames ''dst'' [(''owner:src'', 1 :: nat), (''owner:dst'', 2), (''usage:src'', 3)]) ''owner'' = Some 2"
proof -
  let ?m = "[(''owner:src'', 1 :: nat), (''owner:dst'', 2), (''usage:src'', 3)]"
  have "\<forall>n \<in> set (gkeys ?m). index_name_ok n" "''owner:dst'' \<in> set (gkeys ?m)" "ClusterName ''owner:dst'' = ''dst''"
    "BaseName ''owner:dst'' = ''owner''" "gget ?m ''owner:dst'' = Some 2"
    by code_simp+
  then show ?thesis
    using short_index_names [of ?m "''dst''"] by metis
qed

end
