(* ===== verification/Components.thy ===== *)
theory Components
  imports CacheIndexes Constraints TopoSort
begin

text \<open>
  Components: their definitions, the selection of those that are used, and their creation in
  the order of their dependencies (package component), with the health checks they bring
  along (package health).

  A definition is a plain one, or one with name mappings around another definition. The
  factory of a component is a parameter, it sees what the component can reach. \<open>None\<close> as the
  outcome of a call says that it does not return a value: it panics or does not end.
\<close>

section \<open>Components of a manager\<close>

definition component_NewAlias :: "string \<Rightarrow> component \<Rightarrow> component" where
  "component_NewAlias name c = (if name = cp_name c then c else ComponentAlias name c)"

definition NewComponents :: "component elem_group" where
  "NewComponents = NewGroup ''cluster''"

fun components_Map ::
  "err_api \<Rightarrow> mappings \<Rightarrow> component elem_group \<Rightarrow> string list \<Rightarrow> component elem_group \<Rightarrow> component elem_group result" where
  "components_Map api mp cl [] n = Inr n"
| "components_Map api mp cl (local # names) n =
     (let global = Mappings_Map mp local in
      case Group_Get cl global of
        None \<Rightarrow> Inl (Errorf ''global component %q for %q not defined'' [global, local])
      | Some c \<Rightarrow>
          components_Map api mp cl names
            (snd (Group_Add api cp_name (\<lambda>_. AnyOther) [component_NewAlias local c] n)))"

section \<open>Health checks\<close>

text \<open>The factories of probes by name; \<open>check\<close> is the outcome of adding a check to the manager.\<close>

record health_handlers =
  hh_readiness :: "(string, string) gomap"
  hh_liveness :: "(string, string) gomap"

definition NewHealthHandlers :: health_handlers where
  "NewHealthHandlers = \<lparr>hh_readiness = [], hh_liveness = []\<rparr>"

definition AddReadiness :: "string \<Rightarrow> string \<Rightarrow> health_handlers \<Rightarrow> health_handlers" where
  "AddReadiness name factory h = h\<lparr>hh_readiness := gset name factory (hh_readiness h)\<rparr>"

definition AddLiveness :: "string \<Rightarrow> string \<Rightarrow> health_handlers \<Rightarrow> health_handlers" where
  "AddLiveness name factory h = h\<lparr>hh_liveness := gset name factory (hh_liveness h)\<rparr>"

fun add_checks :: "(string \<Rightarrow> gerror option) \<Rightarrow> string \<Rightarrow> string list \<Rightarrow> string list \<Rightarrow> gerror option \<times> string list" where
  "add_checks check base [] reg = (None, reg)"
| "add_checks check base (n # ns) reg =
     (case check (base @ ''.'' @ n) of
        Some err \<Rightarrow> (Some err, reg)
      | None \<Rightarrow> add_checks check base ns (reg @ [base @ ''.'' @ n]))"

definition ApplyHealthChecks ::
  "(string \<Rightarrow> gerror option) \<Rightarrow> string \<Rightarrow> health_handlers \<Rightarrow> manager \<Rightarrow> gerror option \<times> manager" where
  "ApplyHealthChecks check base h mgr =
     (case add_checks check base (gkeys (hh_readiness h)) (mg_readyz mgr) of
        (Some err, rs) \<Rightarrow> (Some err, mgr\<lparr>mg_readyz := rs\<rparr>)
      | (None, rs) \<Rightarrow>
          (case add_checks check base (gkeys (hh_liveness h)) (mg_healthz mgr) of
             (err, ls) \<Rightarrow> (err, mgr\<lparr>mg_readyz := rs, mg_healthz := ls\<rparr>)))"

section \<open>Definitions of components\<close>

text \<open>What a component sees; it finds clusters, components and indices under its own names.\<close>

record comp_view =
  cv_name :: string
  cv_mappings :: mappings
  cv_clusters :: cluster_set
  cv_components :: "component elem_group"
  cv_indices :: "index_ref elem_group"

definition comp_GetCluster :: "comp_view \<Rightarrow> string \<Rightarrow> cluster_eq option" where
  "comp_GetCluster c name = set_Get (cv_clusters c) name"

definition comp_GetComponent :: "comp_view \<Rightarrow> string \<Rightarrow> component option" where
  "comp_GetComponent c name = Group_Get (cv_components c) name"

definition comp_GetIndex :: "comp_view \<Rightarrow> string \<Rightarrow> index_ref option" where
  "comp_GetIndex c name = Group_Get (cv_indices c) name"

text \<open>
  The outcome of a factory says whether the implementation is a runnable. The sets of names
  are lists without duplicates in the order in which they are ranged over.
\<close>

record comp_factory =
  cf_create :: "comp_view \<Rightarrow> bool result"
  cf_validate :: "gerror option option"

record comp_def =
  pd_name :: string
  pd_errors :: error_container
  pd_clusters :: "string list"
  pd_components :: "string list"
  pd_health :: health_handlers
  pd_constraints :: "constraint list"
  pd_foreign :: "index_def definitions"
  pd_imports :: "index_def definitions"
  pd_factory :: comp_factory

definition comp_Define :: "string \<Rightarrow> comp_factory \<Rightarrow> comp_def" where
  "comp_Define name fac =
     \<lparr>pd_name = name, pd_errors = NewErrorContainer (''component '' @ name), pd_clusters = [], pd_components = [],
      pd_health = NewHealthHandlers, pd_constraints = [], pd_foreign = NewDefinitions ''index'',
      pd_imports = NewDefinitions ''index'', pd_factory = fac\<rparr>"

definition add_names :: "string list \<Rightarrow> string list \<Rightarrow> string list" where
  "add_names ns l = fold (\<lambda>n l. if n \<in> set l then l else l @ [n]) ns l"

definition comp_UseCluster :: "string list \<Rightarrow> comp_def \<Rightarrow> comp_def" where
  "comp_UseCluster ns d = d\<lparr>pd_clusters := add_names ns (pd_clusters d)\<rparr>"

definition comp_UseComponent :: "string list \<Rightarrow> comp_def \<Rightarrow> comp_def" where
  "comp_UseComponent ns d = d\<lparr>pd_components := add_names ns (pd_components d)\<rparr>"

definition comp_WithActivationConstraint :: "constraint list \<Rightarrow> comp_def \<Rightarrow> comp_def" where
  "comp_WithActivationConstraint cs d = d\<lparr>pd_constraints := Constraints_Add cs (pd_constraints d)\<rparr>"

definition index_known :: "string \<Rightarrow> index_def definitions \<Rightarrow> bool" where
  "index_known n d \<longleftrightarrow> gget (gr_elements d) n \<noteq> None"

definition index_Add :: "err_api \<Rightarrow> index_def list \<Rightarrow> index_def definitions \<Rightarrow> index_def definitions" where
  "index_Add api is d = Definitions_Add api id_name (\<lambda>_. AnyOther) is d"

definition comp_ImportIndex :: "err_api \<Rightarrow> index_def \<Rightarrow> comp_def \<Rightarrow> comp_def" where
  "comp_ImportIndex api i d =
     (if index_known (id_name i) (pd_imports d) \<or> index_known (id_name i) (pd_foreign d)
      then d\<lparr>pd_errors := snd (AddError api (AnyError (Errorf ''duplicate dedinition of index %q'' [id_name i])) [] (pd_errors d))\<rparr>
      else d\<lparr>pd_errors := snd (AddError api AnyOther [''index '', id_name i] (pd_errors d)),
             pd_imports := index_Add api [i] (pd_imports d)\<rparr>)"

fun comp_AddForeignIndex :: "err_api \<Rightarrow> index_def list \<Rightarrow> comp_def \<Rightarrow> comp_def" where
  "comp_AddForeignIndex api [] d = d"
| "comp_AddForeignIndex api (i # is) d =
     comp_AddForeignIndex api is
       (if index_known (id_name i) (pd_imports d) \<or> index_known (id_name i) (pd_foreign d)
        then d\<lparr>pd_errors := snd (AddError api (AnyError (Errorf ''duplicate dedinition of index %q'' [id_name i])) [] (pd_errors d))\<rparr>
        else d\<lparr>pd_foreign := index_Add api [i] (pd_foreign d)\<rparr>)"

text \<open>\<open>fwd\<close> is the outcome of the validation of the options of the factory.\<close>

definition comp_Validate :: "gerror option \<Rightarrow> comp_def \<Rightarrow> gerror option" where
  "comp_Validate fwd d =
     (case cf_validate (pd_factory d) of
        Some err \<Rightarrow> map_option (Wrapf [pd_name d]) err
      | None \<Rightarrow>
          (case find (\<lambda>(_, i). id_target i \<notin> set (pd_clusters d)) (gr_elements (pd_foreign d)) of
             Some (_, i) \<Rightarrow>
               Some (Errorf ''component %q: foreign index %q uses undeclared cluster %q'' [pd_name d, id_name i, id_target i])
           | None \<Rightarrow> fwd))"

text \<open>The indices of an element are applied with the names of the element and the index in front of an error.\<close>

fun apply_indices ::
  "err_api \<Rightarrow> index_env \<Rightarrow> string list \<Rightarrow> controller_mappings option \<Rightarrow> (string \<times> index_def) list \<Rightarrow> manager \<Rightarrow>
   gerror option \<times> manager" where
  "apply_indices api env owner m [] mgr = (None, mgr)"
| "apply_indices api env owner m ((n, i) # is) mgr =
     (case index_Apply api env i m mgr of
        (Some err, mgr) \<Rightarrow> (Some (Wrapf (owner @ [''index'', n]) err), mgr)
      | (None, mgr) \<Rightarrow> apply_indices api env owner m is mgr)"

definition comp_CreateIndices ::
  "err_api \<Rightarrow> index_env \<Rightarrow> controller_mappings option \<Rightarrow> comp_def \<Rightarrow> manager \<Rightarrow> gerror option \<times> manager" where
  "comp_CreateIndices api env m d mgr =
     apply_indices api env [''component'', pd_name d] m (gr_elements (pd_foreign d)) mgr"

definition comp_Apply ::
  "err_api \<Rightarrow> (string \<Rightarrow> gerror option) \<Rightarrow> controller_mappings option \<Rightarrow> comp_def \<Rightarrow> manager \<Rightarrow> gerror option \<times> manager" where
  "comp_Apply api check m d mgr =
     (let mp = DefaultMappings m; tname = Mappings_Map (components mp) (pd_name d) in
      case set_Map api (clusters mp) (mg_clusters mgr) (pd_clusters d) of
        Inl err \<Rightarrow> (Some err, mgr)
      | Inr cs \<Rightarrow>
     (case components_Map api (components mp) (mg_components mgr) (pd_components d) NewComponents of
        Inl err \<Rightarrow> (Some err, mgr)
      | Inr comps \<Rightarrow>
     (case ImportIndices api [] [] cs mp mgr [pd_foreign d, pd_imports d] of
        Inl err \<Rightarrow> (Some err, mgr)
      | Inr idxs \<Rightarrow>
     (case cf_create (pd_factory d)
             \<lparr>cv_name = tname, cv_mappings = clusters mp, cv_clusters = cs, cv_components = comps, cv_indices = idxs\<rparr> of
        Inl err \<Rightarrow> (Some err, mgr)
      | Inr runnable \<Rightarrow>
     (case Group_Add api cp_name (\<lambda>_. AnyOther) [Component tname] (mg_components mgr) of
        (Some err, g) \<Rightarrow> (Some err, mgr\<lparr>mg_components := g\<rparr>)
      | (None, g) \<Rightarrow>
     (case ApplyHealthChecks check tname (pd_health d) (mgr\<lparr>mg_components := g\<rparr>) of
        (Some err, mgr) \<Rightarrow> (Some err, mgr)
      | (None, mgr) \<Rightarrow>
          (None, if runnable then mgr\<lparr>mg_runnables := mg_runnables mgr @ [tname]\<rparr> else mgr)))))))"

text \<open>Definitions, with name mappings around them or not.\<close>

datatype comp_decl = CompPlain comp_def | CompMapped comp_decl controller_mappings

fun decl_def :: "comp_decl \<Rightarrow> comp_def" where
  "decl_def (CompPlain d) = d"
| "decl_def (CompMapped c m) = decl_def c"

fun decl_GetName :: "comp_decl \<Rightarrow> string" where
  "decl_GetName (CompPlain d) = pd_name d"
| "decl_GetName (CompMapped c m) = Mappings_Map (components m) (decl_GetName c)"

definition comp_consumer :: "comp_def \<Rightarrow> default_consumer" where
  "comp_consumer d = \<lparr>dc_clusters = set (pd_clusters d), dc_components = set (pd_components d)\<rparr>"

fun decl_GetRequiredClusters :: "comp_decl \<Rightarrow> controller_mappings option \<Rightarrow> string set" where
  "decl_GetRequiredClusters (CompPlain d) m = DefaultConsumer_GetRequiredClusters m (comp_consumer d)"
| "decl_GetRequiredClusters (CompMapped c mp) m = GetRequiredClusters (set (pd_clusters (decl_def c))) mp m"

fun decl_GetRequiredComponents :: "comp_decl \<Rightarrow> controller_mappings option \<Rightarrow> string set" where
  "decl_GetRequiredComponents (CompPlain d) m = DefaultConsumer_GetRequiredComponents m (comp_consumer d)"
| "decl_GetRequiredComponents (CompMapped c mp) m = GetRequiredComponents (set (pd_components (decl_def c))) mp m"

fun decl_CreateIndices ::
  "err_api \<Rightarrow> index_env \<Rightarrow> controller_mappings option \<Rightarrow> comp_decl \<Rightarrow> manager \<Rightarrow> gerror option \<times> manager" where
  "decl_CreateIndices api env m (CompPlain d) mgr = comp_CreateIndices api env m d mgr"
| "decl_CreateIndices api env m (CompMapped c mp) mgr =
     decl_CreateIndices api env (Some (ControllerMappings_ApplyTo mp m)) c mgr"

fun decl_Apply ::
  "err_api \<Rightarrow> (string \<Rightarrow> gerror option) \<Rightarrow> controller_mappings option \<Rightarrow> comp_decl \<Rightarrow> manager \<Rightarrow> gerror option \<times> manager" where
  "decl_Apply api check m (CompPlain d) mgr = comp_Apply api check m d mgr"
| "decl_Apply api check m (CompMapped c mp) mgr =
     decl_Apply api check (Some (ControllerMappings_ApplyTo mp m)) c mgr"

section \<open>Sets of components\<close>

text \<open>A constraint on a context that is \<open>nil\<close>: the first method called on it panics.\<close>

fun nil_Match :: "constraint \<Rightarrow> verdict option"
  and nil_and :: "constraint list \<Rightarrow> activation \<Rightarrow> gerror option \<Rightarrow> verdict option"
  and nil_or :: "constraint list \<Rightarrow> activation \<Rightarrow> gerror option \<Rightarrow> bool \<Rightarrow> verdict option"
where
  "nil_Match (Activated names) = (if names = [] then Some (NoOpinion, None) else None)"
| "nil_Match Always = Some (Yes, None)"
| "nil_Match (Complete gs) = (if gs = [] then Some (NoOpinion, None) else None)"
| "nil_Match (Disjoint gs) = (if gs = [] then Some (NoOpinion, None) else None)"
| "nil_Match (And cs) = nil_and cs NoOpinion None"
| "nil_Match (Or cs) = nil_or cs NoOpinion None False"
| "nil_Match (Not x) = map_option (\<lambda>(a, err). (Activation_Not a, err)) (nil_Match x)"
| "nil_and [] r rerr = Some (r, rerr)"
| "nil_and (x # cs) r rerr =
     Option.bind (nil_Match x) (\<lambda>(ok, err).
       let r = Activation_And r ok
       in if r = No then Some (r, err)
          else nil_and cs r (if err \<noteq> None then join rerr err ''AND'' else rerr))"
| "nil_or [] r rerr found = Some (if found then (r, None) else (r, rerr))"
| "nil_or (x # cs) r rerr found =
     Option.bind (nil_Match x) (\<lambda>(ok, err).
       let r = Activation_Or r ok
       in if ok \<noteq> No
          then (if err = None then nil_or cs r rerr True
                else nil_or cs r (join rerr err ''OR'') found)
          else nil_or cs r rerr found)"

definition match_in :: "ctx option \<Rightarrow> constraint list \<Rightarrow> verdict option" where
  "match_in cctx cs = (case cctx of None \<Rightarrow> nil_Match (And cs) | Some c \<Rightarrow> Constraints_Match c cs)"

record component_defs =
  co_defs :: "comp_decl definitions"
  co_cctx :: "ctx option"
  co_required :: "string set"
  co_order :: "string list"

definition comps_NewDefinitions :: component_defs where
  "comps_NewDefinitions =
     \<lparr>co_defs = NewDefinitions ''component'', co_cctx = None, co_required = {}, co_order = []\<rparr>"

text \<open>An element that is added hands over the errors collected in its definition.\<close>

definition comps_Add :: "err_api \<Rightarrow> comp_decl list \<Rightarrow> component_defs \<Rightarrow> component_defs" where
  "comps_Add api cs d =
     d\<lparr>co_defs := Definitions_Add api decl_GetName (\<lambda>c. AnyProvider (GetError api (pd_errors (decl_def c)))) cs (co_defs d)\<rparr>"

definition comps_Get :: "component_defs \<Rightarrow> string \<Rightarrow> comp_decl option" where
  "comps_Get d n = gget (gr_elements (co_defs d)) n"

definition isUsed :: "component_defs \<Rightarrow> comp_decl \<Rightarrow> (bool \<times> gerror option) option" where
  "isUsed d c =
     Option.bind (match_in (co_cctx d) (pd_constraints (decl_def c))) (\<lambda>(ok, err).
       Some (if err \<noteq> None then (False, err)
             else if ok = Yes then (True, None)
             else if ok = No then (False, None)
             else (decl_GetName c \<in> co_required d, None)))"

text \<open>The loops that collect the names the used components require.\<close>

fun collect_used :: "component_defs \<Rightarrow> (comp_decl \<Rightarrow> string set) \<Rightarrow> comp_decl list \<Rightarrow> string set \<Rightarrow> string set option" where
  "collect_used d f [] names = Some names"
| "collect_used d f (c # cs) names =
     Option.bind (isUsed d c) (\<lambda>(ok, _). collect_used d f cs (if ok then names \<union> f c else names))"

definition comps_GetUsedClusters :: "component_defs \<Rightarrow> string set option" where
  "comps_GetUsedClusters d =
     collect_used d (\<lambda>c. decl_GetRequiredClusters c None) (map snd (gr_elements (co_defs d))) {}"

partial_function (option) used_loop :: "component_defs \<Rightarrow> string set \<Rightarrow> string set option" where
  "used_loop d names =
     Option.bind (collect_used d (\<lambda>c. decl_GetRequiredComponents c None) (map snd (gr_elements (co_defs d))) names)
       (\<lambda>names'. if card names' \<noteq> card names then used_loop d names' else Some names')"

definition comps_GetUsedComponents :: "component_defs \<Rightarrow> string set option" where
  "comps_GetUsedComponents d = used_loop d {}"

definition comps_deps :: "component_defs \<Rightarrow> comp_decl option \<Rightarrow> (string \<times> comp_decl option) list" where
  "comps_deps d c =
     (case c of None \<Rightarrow> [] | Some c \<Rightarrow> map (\<lambda>k. (k, comps_Get d k)) (pd_components (decl_def c)))"

text \<open>
  \<open>Validate\<close>: \<open>others\<close> are the names the other filters of the options require, \<open>listed\<close> says
  whether the set itself is among the filters, \<open>copts\<close> is the context of the activation
  options, if there are any, and \<open>fwd\<close> the outcome of the validation of the options of the
  elements. Sorting panics when it visits a component that is not defined, \<open>Get\<close> returns
  \<open>nil\<close> for it; it has visited one exactly if it is in the order built so far.
\<close>

definition comps_Required :: "ctx option \<Rightarrow> string set \<Rightarrow> bool \<Rightarrow> component_defs \<Rightarrow> string set option" where
  "comps_Required copts others listed d =
     (if copts = None then Some {}
      else if listed then map_option (\<lambda>s. others \<union> s) (comps_GetUsedComponents d)
      else Some others)"

definition comps_Validate ::
  "ctx option \<Rightarrow> string set \<Rightarrow> bool \<Rightarrow> (comp_decl list \<Rightarrow> gerror option) \<Rightarrow> component_defs \<Rightarrow>
   (gerror option \<times> component_defs) option" where
  "comps_Validate copts others listed fwd d =
     Option.bind (comps_Required copts others listed d) (\<lambda>required.
       let d = d\<lparr>co_required := required, co_cctx := (if copts \<noteq> None then copts else co_cctx d)\<rparr> in
       Option.bind (order_loop (comps_deps d) (map (\<lambda>(n, c). (n, Some c)) (gr_elements (co_defs d))) [] [])
         (\<lambda>(cycle, order).
           if \<exists>n \<in> set order. comps_Get d n = None then None
           else case cycle of
             Some c \<Rightarrow> Some (Some (Errorf ''dependency cyle for components: %s'' c), d)
           | None \<Rightarrow>
               (let d = d\<lparr>co_order := order\<rparr> in Some (fwd (ds_options (co_defs d)), d))))"

fun create_comp_indices ::
  "err_api \<Rightarrow> index_env \<Rightarrow> controller_mappings option \<Rightarrow> component_defs \<Rightarrow> comp_decl list \<Rightarrow> manager \<Rightarrow>
   (gerror option \<times> manager) option" where
  "create_comp_indices api env m d [] mgr = Some (None, mgr)"
| "create_comp_indices api env m d (c # cs) mgr =
     Option.bind (isUsed d c) (\<lambda>(ok, err).
       if err \<noteq> None then Some (err, mgr)
       else if \<not> ok then create_comp_indices api env m d cs mgr
       else case decl_CreateIndices api env m c mgr of
         (Some err, mgr) \<Rightarrow> Some (Some err, mgr)
       | (None, mgr) \<Rightarrow> create_comp_indices api env m d cs mgr)"

definition comps_CreateIndices ::
  "err_api \<Rightarrow> index_env \<Rightarrow> controller_mappings option \<Rightarrow> component_defs \<Rightarrow> manager \<Rightarrow> (gerror option \<times> manager) option" where
  "comps_CreateIndices api env m d mgr =
     create_comp_indices api env m d (map snd (gr_elements (co_defs d))) mgr"

fun apply_comps ::
  "err_api \<Rightarrow> (string \<Rightarrow> gerror option) \<Rightarrow> controller_mappings option \<Rightarrow> component_defs \<Rightarrow> string list \<Rightarrow> manager \<Rightarrow>
   (gerror option \<times> manager) option" where
  "apply_comps api check m d [] mgr = Some (None, mgr)"
| "apply_comps api check m d (n # ns) mgr =
     (case comps_Get d n of
        None \<Rightarrow> None
      | Some c \<Rightarrow>
          Option.bind (isUsed d c) (\<lambda>(ok, err).
            if \<not> ok \<or> err \<noteq> None then apply_comps api check m d ns mgr
            else case decl_Apply api check m c mgr of
              (Some err, mgr) \<Rightarrow> Some (Some (Wrapf [''component'', n] err), mgr)
            | (None, mgr) \<Rightarrow> apply_comps api check m d ns mgr))"

definition comps_Apply ::
  "err_api \<Rightarrow> (string \<Rightarrow> gerror option) \<Rightarrow> controller_mappings option \<Rightarrow> component_defs \<Rightarrow> manager \<Rightarrow>
   (gerror option \<times> manager) option" where
  "comps_Apply api check m d mgr = apply_comps api check m d (co_order d) mgr"

section \<open>Selection\<close>

text \<open>
  What the constraints of a component and the required names say: a verdict without an error,
  and the required names where there is no opinion.
\<close>

definition comp_selected :: "ctx \<Rightarrow> string set \<Rightarrow> comp_decl \<Rightarrow> bool" where
  "comp_selected cx required c \<longleftrightarrow>
     (let cs = And (pd_constraints (decl_def c)) in
      \<not> complains cx cs \<and> (opinion cx cs = Yes \<or> opinion cx cs = NoOpinion \<and> decl_GetName c \<in> required))"

lemma isUsed_selected:
  assumes "ctx_ok cx" "co_cctx d = Some cx"
  shows "\<exists>err. isUsed d c = Some (comp_selected cx (co_required d) c, err) \<and>
    (comp_selected cx (co_required d) c \<longrightarrow> err = None)"
proof -
  obtain e where "Match cx (And (pd_constraints (decl_def c))) = Some (opinion cx (And (pd_constraints (decl_def c))), e)"
    "e \<noteq> None \<longleftrightarrow> complains cx (And (pd_constraints (decl_def c)))"
    using Match_meaning(1) [OF assms(1)] by blast
  then show ?thesis
    using assms(2) by (cases "opinion cx (And (pd_constraints (decl_def c)))")
      (auto simp: isUsed_def match_in_def Constraints_Match_def comp_selected_def Let_def)
qed

lemma isUsed_plain:
  assumes "pd_constraints (decl_def c) = []"
  shows "isUsed d c = Some (decl_GetName c \<in> co_required d, None)"
  using assms by (auto simp: isUsed_def match_in_def Constraints_Match_def split: option.splits)

definition picked :: "component_defs \<Rightarrow> comp_decl \<Rightarrow> bool" where
  "picked d c \<longleftrightarrow> (\<exists>err. isUsed d c = Some (True, err))"

lemma collect_used_picked:
  assumes "\<forall>c \<in> set cs. isUsed d c \<noteq> None"
  shows "collect_used d f cs names = Some (names \<union> (\<Union>c \<in> {c \<in> set cs. picked d c}. f c))"
  using assms
proof (induction cs arbitrary: names)
  case (Cons c cs)
  obtain ok err where "isUsed d c = Some (ok, err)"
    using Cons.prems by auto
  then show ?case
    using Cons by (auto simp: picked_def)
qed simp

lemma finite_GetMapped: "finite s \<Longrightarrow> finite (Mappings_GetMapped m s)"
  by (cases m; cases "the m") (auto simp: GetMapped_image Mappings_GetMapped_def [of "None"] Mappings_GetMapped_def [of "Some []"])

lemma finite_required [simp]: "finite (decl_GetRequiredComponents c m)"
  by (cases c) (simp_all add: DefaultConsumer_GetRequiredComponents_def comp_consumer_def GetRequiredComponents_def finite_GetMapped)

section \<open>Environments\<close>

lemma component_NewAlias_name [simp]: "cp_name (component_NewAlias n c) = n"
  by (simp add: component_NewAlias_def)

lemma components_Map_ok:
  assumes "\<forall>n \<in> set names. Group_Get cl (Mappings_Map mp n) \<noteq> None"
  shows "\<exists>g. components_Map api mp cl names n0 = Inr g \<and>
    set (gkeys (gr_elements g)) = set names \<union> set (gkeys (gr_elements n0))"
  using assms
proof (induction names arbitrary: n0)
  case (Cons n names)
  then obtain c where c: "Group_Get cl (Mappings_Map mp n) = Some c"
    by auto
  then show ?case
    using Cons.IH [of "group_step api cp_name (\<lambda>_. AnyOther) (component_NewAlias n c) n0"] Cons.prems
    by (auto simp: Let_def Group_Add_fold group_step_keys simp del: set_map)
qed simp

lemma components_Map_missing:
  assumes "n \<in> set names" "Group_Get cl (Mappings_Map mp n) = None"
  shows "\<exists>err. components_Map api mp cl names n0 = Inl err"
  using assms by (induction names arbitrary: n0) (auto simp: Let_def split: option.splits)

lemma ApplyHealthChecks_ok:
  assumes "\<forall>n. check n = None"
  shows "\<exists>rs ls. ApplyHealthChecks check base h mgr = (None, mgr\<lparr>mg_readyz := rs, mg_healthz := ls\<rparr>)"
proof -
  have add: "\<exists>r. add_checks check base ns reg = (None, r)" for ns reg
    using assms by (induction ns arbitrary: reg) auto
  obtain rs ls where "add_checks check base (gkeys (hh_readiness h)) (mg_readyz mgr) = (None, rs)"
    "add_checks check base (gkeys (hh_liveness h)) (mg_healthz mgr) = (None, ls)"
    using add by meson
  then show ?thesis
    by (auto simp: ApplyHealthChecks_def)
qed

lemma ApplyHealthChecks_fields:
  "ApplyHealthChecks check base h mgr = (err, mgr') \<Longrightarrow>
    mg_components mgr' = mg_components mgr \<and> mg_clusters mgr' = mg_clusters mgr \<and> mg_indices mgr' = mg_indices mgr"
  by (auto simp: ApplyHealthChecks_def split: prod.splits option.splits)

lemma ImportIndex_indices:
  assumes "mg_indices mgr = mg_indices mgr'"
  shows "ImportIndex i cs mp mgr f l = ImportIndex i cs mp mgr' f l"
proof -
  have "mgr_GetIndex mgr = mgr_GetIndex mgr'"
    using assms by (simp add: mgr_GetIndex_def fun_eq_iff)
  then show ?thesis
    by (simp only: ImportIndex_def)
qed

lemma import_all_indices:
  "mg_indices mgr = mg_indices mgr' \<Longrightarrow> import_all is cs mp mgr l = import_all is cs mp mgr' l"
  by (induction "is" arbitrary: l) (simp_all add: ImportIndex_indices [of mgr mgr'] split: sum.splits)

lemma ImportIndices_indices:
  "mg_indices mgr = mg_indices mgr' \<Longrightarrow> ImportIndices api l lc cs mp mgr ds = ImportIndices api l lc cs mp mgr' ds"
  by (simp add: ImportIndices_def import_all_indices [of mgr mgr'])

lemma CreateGroup_fresh:
  assumes "err_documented api" "name \<notin> set (gkeys (gr_elements g))"
  shows "fst (Group_Add api cp_name (\<lambda>_. AnyOther) [Component name] g) = None"
proof -
  have "gget (gr_elements g) name = None"
    using assms(2) by (simp add: gget_None_iff)
  then show ?thesis
    using AddError_fresh(1) [OF assms(1), of AnyOther]
    by (simp add: Group_Add_def no_error_def case_prod_beta)
qed

section \<open>Creating a component\<close>

text \<open>The parts of the state of a manager that the creation of components leaves alone.\<close>

definition same_env :: "manager \<Rightarrow> manager \<Rightarrow> bool" where
  "same_env mgr mgr' \<longleftrightarrow> mg_clusters mgr' = mg_clusters mgr \<and> mg_indices mgr' = mg_indices mgr"

definition comp_names :: "manager \<Rightarrow> string set" where
  "comp_names mgr = set (gkeys (gr_elements (mg_components mgr)))"

definition comp_target :: "controller_mappings option \<Rightarrow> comp_def \<Rightarrow> string" where
  "comp_target m d = Mappings_Map (components (DefaultMappings m)) (pd_name d)"

text \<open>
  A component can be created in an environment: its clusters and indices can be resolved, the
  factory succeeds if it finds the components, and so does every health check.
\<close>

definition comp_ready ::
  "err_api \<Rightarrow> (string \<Rightarrow> gerror option) \<Rightarrow> controller_mappings option \<Rightarrow> manager \<Rightarrow> comp_def \<Rightarrow> bool" where
  "comp_ready api check m mgr d \<longleftrightarrow>
     (\<exists>cs idxs. set_Map api (clusters (DefaultMappings m)) (mg_clusters mgr) (pd_clusters d) = Inr cs \<and>
        ImportIndices api [] [] cs (DefaultMappings m) mgr [pd_foreign d, pd_imports d] = Inr idxs) \<and>
     (\<forall>v. (\<forall>k \<in> set (pd_components d). comp_GetComponent v k \<noteq> None) \<longrightarrow> (\<exists>r. cf_create (pd_factory d) v = Inr r)) \<and>
     (\<forall>n. check n = None)"

lemma comp_ready_env: "same_env mgr mgr' \<Longrightarrow> comp_ready api check m mgr' d = comp_ready api check m mgr d"
  using ImportIndices_indices [of mgr' mgr] by (simp add: comp_ready_def same_env_def)

lemma Group_Add_names:
  "Group_Add api cp_name any [Component n] g = (e, g') \<Longrightarrow>
    set (gkeys (gr_elements g')) = insert n (set (gkeys (gr_elements g)))"
  using Group_Add_fold [of api cp_name any "[Component n]" g] by (simp add: group_step_keys del: set_map)

lemma comp_Apply_cases:
  assumes g: "Group_Add api cp_name (\<lambda>_. AnyOther) [Component (comp_target m d)] (mg_components mgr) = (e, g)"
    and mgr2: "ApplyHealthChecks check (comp_target m d) (pd_health d) (mgr\<lparr>mg_components := g\<rparr>) = (e', mgr2)"
    and P: "P mgr" "P (mgr\<lparr>mg_components := g\<rparr>)" "P mgr2" "\<And>ns. P (mgr2\<lparr>mg_runnables := ns\<rparr>)"
  shows "P (snd (comp_Apply api check m d mgr))"
  using g mgr2 P unfolding comp_target_def comp_Apply_def Let_def
  by (simp split: sum.split option.split)

lemma comp_Apply_env:
  "same_env mgr (snd (comp_Apply api check m d mgr))"
  "comp_names (snd (comp_Apply api check m d mgr)) \<subseteq> insert (comp_target m d) (comp_names mgr)"
proof -
  let ?t = "comp_target m d"
  obtain e g where g: "Group_Add api cp_name (\<lambda>_. AnyOther) [Component ?t] (mg_components mgr) = (e, g)"
    by fastforce
  obtain e' mgr2 where mgr2: "ApplyHealthChecks check ?t (pd_health d) (mgr\<lparr>mg_components := g\<rparr>) = (e', mgr2)"
    by fastforce
  show "same_env mgr (snd (comp_Apply api check m d mgr))"
    by (rule comp_Apply_cases [OF g mgr2]) (use ApplyHealthChecks_fields [OF mgr2] in \<open>simp_all add: same_env_def\<close>)
  show "comp_names (snd (comp_Apply api check m d mgr)) \<subseteq> insert ?t (comp_names mgr)"
    by (rule comp_Apply_cases [OF g mgr2])
      (use ApplyHealthChecks_fields [OF mgr2] Group_Add_names [OF g] in \<open>auto simp: comp_names_def simp del: set_map\<close>)
qed

lemma comp_Apply_missing:
  assumes "k \<in> set (pd_components d)" "Mappings_Map (components (DefaultMappings m)) k \<notin> comp_names mgr"
  shows "\<exists>err. comp_Apply api check m d mgr = (Some err, mgr)"
proof -
  obtain err where "components_Map api (components (DefaultMappings m)) (mg_components mgr) (pd_components d) NewComponents = Inl err"
    using components_Map_missing [OF assms(1), of "mg_components mgr" "components (DefaultMappings m)"] assms(2)
    by (auto simp: Group_Get_def comp_names_def gget_None_iff simp del: set_map)
  then show ?thesis
    by (auto simp: comp_Apply_def Let_def split: sum.splits)
qed

lemma comp_Apply_ok:
  assumes "err_documented api" "comp_ready api check m mgr d" "comp_target m d \<notin> comp_names mgr"
    and "\<forall>k \<in> set (pd_components d). Mappings_Map (components (DefaultMappings m)) k \<in> comp_names mgr"
  shows "\<exists>mgr'. comp_Apply api check m d mgr = (None, mgr') \<and> comp_names mgr' = insert (comp_target m d) (comp_names mgr)"
proof -
  let ?mp = "DefaultMappings m" and ?t = "comp_target m d"
  obtain cs idxs where cs: "set_Map api (clusters ?mp) (mg_clusters mgr) (pd_clusters d) = Inr cs"
    and idxs: "ImportIndices api [] [] cs ?mp mgr [pd_foreign d, pd_imports d] = Inr idxs"
    using assms(2) by (auto simp: comp_ready_def)
  have "\<forall>k \<in> set (pd_components d). Group_Get (mg_components mgr) (Mappings_Map (components ?mp) k) \<noteq> None"
    using assms(4) by (simp add: Group_Get_def comp_names_def gget_None_iff del: set_map)
  then obtain g where g: "components_Map api (components ?mp) (mg_components mgr) (pd_components d) NewComponents = Inr g"
    "set (pd_components d) \<subseteq> set (gkeys (gr_elements g))"
    using components_Map_ok [of "pd_components d" "mg_components mgr" "components ?mp" api NewComponents] by auto
  let ?v = "\<lparr>cv_name = ?t, cv_mappings = clusters ?mp, cv_clusters = cs, cv_components = g, cv_indices = idxs\<rparr>"
  have "\<forall>k \<in> set (pd_components d). comp_GetComponent ?v k \<noteq> None"
    using g(2) by (auto simp: comp_GetComponent_def Group_Get_def gget_None_iff simp del: set_map)
  then obtain r where r: "cf_create (pd_factory d) ?v = Inr r"
    using assms(2) unfolding comp_ready_def by blast
  obtain h where h: "Group_Add api cp_name (\<lambda>_. AnyOther) [Component ?t] (mg_components mgr) = (None, h)"
    using CreateGroup_fresh [OF assms(1), of ?t "mg_components mgr"] assms(3) unfolding comp_names_def
    by (metis prod.collapse)
  obtain rs ls where "ApplyHealthChecks check ?t (pd_health d) (mgr\<lparr>mg_components := h\<rparr>) =
      (None, mgr\<lparr>mg_components := h, mg_readyz := rs, mg_healthz := ls\<rparr>)"
    using ApplyHealthChecks_ok [of check] assms(2) unfolding comp_ready_def by blast
  then show ?thesis
    using cs g(1) idxs r h Group_Add_names [OF h]
    by (simp add: comp_Apply_def Let_def comp_target_def [symmetric] comp_names_def del: set_map)
qed

section \<open>Order\<close>

definition comp_uses :: "component_defs \<Rightarrow> (string \<times> string) set" where
  "comp_uses d = {(n, k). \<exists>c. comps_Get d n = Some c \<and> k \<in> set (pd_components (decl_def c))}"

definition declared_names :: "component_defs \<Rightarrow> string set" where
  "declared_names d = set (gkeys (gr_elements (co_defs d)))"

text \<open>The order built so far holds visited elements only.\<close>

lemma order_loop_within:
  assumes closed: "\<And>i e. (i, e) \<in> S \<Longrightarrow> set (dp e) \<subseteq> S"
    and run: "order_loop dp kvs h o1 = Some r" and "set kvs \<subseteq> S"
  shows "set (snd r) \<subseteq> set o1 \<union> fst ` S"
proof -
  have "dp = dp \<longrightarrow> set kvs \<subseteq> S \<longrightarrow> set (snd r) \<subseteq> set o1 \<union> fst ` S"
  proof (rule order_loop.raw_induct [where P = "\<lambda>d kvs h o1 r. d = dp \<longrightarrow> set kvs \<subseteq> S \<longrightarrow> set (snd r) \<subseteq> set o1 \<union> fst ` S",
        OF _ run])
    fix f d kvs history o' r
    assume IH: "\<And>d kvs history o' y. f d kvs history o' = Some y \<Longrightarrow>
        d = dp \<longrightarrow> set kvs \<subseteq> S \<longrightarrow> set (snd y) \<subseteq> set o' \<union> fst ` S"
      and step: "(case kvs of [] \<Rightarrow> Some (None, o')
        | (i, e) # rest \<Rightarrow>
            if i \<in> set history then Some (Some (dropWhile (\<lambda>j. j \<noteq> i) history @ [i]), o')
            else if i \<in> set o' then f d rest history o'
            else Option.bind (f d (d e) (history @ [i]) o')
              (\<lambda>(cycle, o'). case cycle of Some c \<Rightarrow> Some (Some c, o') | None \<Rightarrow> f d rest history (o' @ [i]))) = Some r"
    show "d = dp \<longrightarrow> set kvs \<subseteq> S \<longrightarrow> set (snd r) \<subseteq> set o' \<union> fst ` S"
    proof (intro impI)
      assume d: "d = dp" and S: "set kvs \<subseteq> S"
      show "set (snd r) \<subseteq> set o' \<union> fst ` S"
      proof (cases kvs)
        case (Cons kv rest)
        obtain i e where kv: "kv = (i, e)"
          by (cases kv)
        have ie: "(i, e) \<in> S" "set rest \<subseteq> S" "i \<in> fst ` S"
          using S by (auto simp: Cons kv intro: rev_image_eqI)
        have inner: "set o2 \<subseteq> set o' \<union> fst ` S" if "f d (d e) (history @ [i]) o' = Some (c, o2)" for c o2
          using IH [OF that] closed [OF ie(1)] by (simp add: d)
        have later: "set (snd r) \<subseteq> set o2 \<union> fst ` S" if "f d rest history o2 = Some r" for o2
          using IH [OF that] ie(2) by (simp add: d)
        show ?thesis
        proof (cases "i \<in> set history \<or> i \<in> set o'")
          case True
          then show ?thesis
            using step later [of o'] unfolding Cons kv by (auto split: if_splits)
        next
          case False
          then obtain c o2 where o2: "f d (d e) (history @ [i]) o' = Some (c, o2)"
            using step unfolding Cons kv by (cases "f d (d e) (history @ [i]) o'") auto
          show ?thesis
            using step False later [of "o2 @ [i]"] inner [OF o2] ie(3) unfolding Cons kv
            by (cases c) (auto simp: o2)
        qed
      qed (use step in auto)
    qed
  qed
  then show ?thesis
    using assms(3) by simp
qed

lemma comps_updates [simp]:
  "comps_Get (d\<lparr>co_required := r\<rparr>) = comps_Get d" "comps_Get (d\<lparr>co_cctx := x\<rparr>) = comps_Get d"
  "comps_Get (d\<lparr>co_order := l\<rparr>) = comps_Get d" "comps_deps (d\<lparr>co_required := r\<rparr>) = comps_deps d"
  "comps_deps (d\<lparr>co_cctx := x\<rparr>) = comps_deps d" "comps_deps (d\<lparr>co_order := l\<rparr>) = comps_deps d"
  by (simp_all add: comps_Get_def comps_deps_def fun_eq_iff cong: option.case_cong)

lemma comps_Get_declared: "comps_Get d n \<noteq> None \<longleftrightarrow> n \<in> declared_names d"
  by (simp add: comps_Get_def declared_names_def gget_None_iff del: set_map)

lemma comps_deps_set: "set (comps_deps d (comps_Get d i)) = {(k, comps_Get d k) | k. (i, k) \<in> comp_uses d}"
  by (cases "comps_Get d i") (auto simp: comps_deps_def comp_uses_def)

lemma uses_comps: "uses (comps_deps d) (comps_Get d) = comp_uses d"
  by (force simp: uses_def comps_deps_set)

lemma comps_graph: "graph_ok (comps_deps d) (comps_Get d) (declared_names d \<union> Range (comp_uses d))"
proof -
  have "Range (comp_uses d) \<subseteq> (\<Union>n \<in> declared_names d. case comps_Get d n of Some c \<Rightarrow> set (pd_components (decl_def c)) | None \<Rightarrow> {})"
    using comps_Get_declared [of d] by (force simp: comp_uses_def)
  then have "finite (Range (comp_uses d))"
    by (rule finite_subset) (auto simp: declared_names_def split: option.splits)
  moreover have "fst ` set (comps_deps d (comps_Get d i)) \<subseteq> Range (comp_uses d)" for i
    by (auto simp: comps_deps_set)
  moreover have "of_graph (comps_Get d) (comps_deps d (comps_Get d i))" for i
    by (auto simp: comps_deps_set of_graph_def)
  ultimately show ?thesis
    by (auto simp: graph_ok_def declared_names_def)
qed

text \<open>The sort of the elements of a set: no cycle and an order, or a cycle.\<close>

lemma comps_sort:
  assumes "gwf (gr_elements (co_defs d))"
  obtains cycle order where
    "order_loop (comps_deps d) (map (\<lambda>(n, c). (n, Some c)) (gr_elements (co_defs d))) [] [] = Some (cycle, order)"
    "cycle = None \<longrightarrow> ordered (comp_uses d) order \<and> declared_names d \<subseteq> set order"
    "\<forall>c. cycle = Some c \<longrightarrow> is_cycle (comp_uses d) c"
    "Range (comp_uses d) \<subseteq> declared_names d \<longrightarrow> set order \<subseteq> declared_names d"
proof -
  let ?seq = "map (\<lambda>(n, c). (n, Some c)) (gr_elements (co_defs d))"
  have keys: "fst ` set ?seq = declared_names d"
    by (force simp: declared_names_def)
  have graph: "of_graph (comps_Get d) ?seq"
    by (auto simp: of_graph_def comps_Get_def gget_Some_iff [OF assms, THEN iffD2])
  obtain cycle order where run: "order_loop (comps_deps d) ?seq [] [] = Some (cycle, order)"
    "run_ok (comp_uses d) ?seq [] [] cycle order"
    using order_loop_run [OF comps_graph, of ?seq d "[]" "[]"] graph keys unfolding uses_comps by auto
  have "set order \<subseteq> declared_names d" if "Range (comp_uses d) \<subseteq> declared_names d"
  proof -
    let ?S = "{(k, comps_Get d k) | k. k \<in> declared_names d}"
    have "set (comps_deps d e) \<subseteq> ?S" if "(i, e) \<in> ?S" for i e
      using that \<open>Range (comp_uses d) \<subseteq> declared_names d\<close>
      by (auto simp: comps_deps_set)
    moreover have "set ?seq \<subseteq> ?S"
      using graph keys by (force simp: of_graph_def)
    ultimately show ?thesis
      using order_loop_within [OF _ run(1), of ?S] by auto
  qed
  moreover have "ordered (comp_uses d) order \<and> declared_names d \<subseteq> set order" if "cycle = None"
    using run(2) unfolding run_ok_def keys by (simp add: that)
  moreover have "is_cycle (comp_uses d) c" if "cycle = Some c" for c
    using run(2) unfolding run_ok_def by (simp add: that)
  ultimately show ?thesis
    using that run(1) by blast
qed

lemma comp_uses_declared: "(n, k) \<in> comp_uses d \<Longrightarrow> n \<in> declared_names d"
  using comps_Get_declared [of d n] by (auto simp: comp_uses_def)

lemma cycle_declared: "is_cycle (comp_uses d) c \<Longrightarrow> hd c \<in> declared_names d"
  using comps_Get_declared [of d "hd c"]
  by (cases c; cases "tl c") (auto simp: is_cycle_def comp_uses_def)

definition validated :: "ctx option \<Rightarrow> string set \<Rightarrow> component_defs \<Rightarrow> component_defs" where
  "validated copts required d =
     d\<lparr>co_required := required, co_cctx := (if copts \<noteq> None then copts else co_cctx d)\<rparr>"

lemma comps_Validate_run:
  assumes "gwf (gr_elements (co_defs d))" "comps_Required copts others listed d = Some required"
  obtains cycle order where
    "comps_Validate copts others listed fwd d =
      (if \<not> set order \<subseteq> declared_names d then None
       else case cycle of
         Some c \<Rightarrow> Some (Some (Errorf ''dependency cyle for components: %s'' c), validated copts required d)
       | None \<Rightarrow> Some (fwd (ds_options (co_defs d)), (validated copts required d)\<lparr>co_order := order\<rparr>))"
    "cycle = None \<longrightarrow> ordered (comp_uses d) order \<and> declared_names d \<subseteq> set order"
    "\<forall>c. cycle = Some c \<longrightarrow> is_cycle (comp_uses d) c"
    "Range (comp_uses d) \<subseteq> declared_names d \<longrightarrow> set order \<subseteq> declared_names d"
proof -
  obtain cycle order where sort: "order_loop (comps_deps d) (map (\<lambda>(n, c). (n, Some c)) (gr_elements (co_defs d))) [] [] = Some (cycle, order)"
    and ok: "cycle = None \<longrightarrow> ordered (comp_uses d) order \<and> declared_names d \<subseteq> set order"
    and cyc: "\<forall>c. cycle = Some c \<longrightarrow> is_cycle (comp_uses d) c"
    and decl: "Range (comp_uses d) \<subseteq> declared_names d \<longrightarrow> set order \<subseteq> declared_names d"
    by (rule comps_sort [OF assms(1)]) (rule that; assumption)
  have "(\<exists>n \<in> set order. comps_Get d n = None) \<longleftrightarrow> \<not> set order \<subseteq> declared_names d"
    using comps_Get_declared [of d] by blast
  then have "comps_Validate copts others listed fwd d =
      (if \<not> set order \<subseteq> declared_names d then None
       else case cycle of
         Some c \<Rightarrow> Some (Some (Errorf ''dependency cyle for components: %s'' c), validated copts required d)
       | None \<Rightarrow> Some (fwd (ds_options (co_defs d)), (validated copts required d)\<lparr>co_order := order\<rparr>))"
    by (cases cycle) (simp_all add: comps_Validate_def assms(2) sort Let_def validated_def)
  then show ?thesis
    using ok cyc decl by (rule that)
qed

section \<open>Properties\<close>

text \<open>
  The validation of a set of components. If all components in use are defined, the order is
  one of all components, each once and after those it uses, unless there is a cycle, which is
  reported. Without a cycle, a component that is not defined makes the validation panic.
\<close>

theorem component_order:
  assumes "gwf (gr_elements (co_defs d))" "comps_Required copts others listed d = Some required"
  shows "(Range (comp_uses d) \<subseteq> declared_names d \<and> (\<nexists>c. is_cycle (comp_uses d) c) \<longrightarrow>
      (\<exists>order. comps_Validate copts others listed fwd d =
         Some (fwd (ds_options (co_defs d)), (validated copts required d)\<lparr>co_order := order\<rparr>) \<and>
         ordered (comp_uses d) order \<and> set order = declared_names d)) \<and>
    (Range (comp_uses d) \<subseteq> declared_names d \<and> (\<exists>c. is_cycle (comp_uses d) c) \<longrightarrow>
      (\<exists>c d'. comps_Validate copts others listed fwd d =
         Some (Some (Errorf ''dependency cyle for components: %s'' c), d') \<and> is_cycle (comp_uses d) c)) \<and>
    (\<not> Range (comp_uses d) \<subseteq> declared_names d \<and> (\<nexists>c. is_cycle (comp_uses d) c) \<longrightarrow>
      comps_Validate copts others listed fwd d = None)"
proof -
  obtain cycle order where validate: "comps_Validate copts others listed fwd d =
      (if \<not> set order \<subseteq> declared_names d then None
       else case cycle of
         Some c \<Rightarrow> Some (Some (Errorf ''dependency cyle for components: %s'' c), validated copts required d)
       | None \<Rightarrow> Some (fwd (ds_options (co_defs d)), (validated copts required d)\<lparr>co_order := order\<rparr>))"
    and ok: "cycle = None \<longrightarrow> ordered (comp_uses d) order \<and> declared_names d \<subseteq> set order"
    and cyc: "\<forall>c. cycle = Some c \<longrightarrow> is_cycle (comp_uses d) c"
    and decl: "Range (comp_uses d) \<subseteq> declared_names d \<longrightarrow> set order \<subseteq> declared_names d"
    by (rule comps_Validate_run [OF assms]) (rule that; assumption)
  show ?thesis
  proof (cases cycle)
    case None
    have *: "ordered (comp_uses d) order" "declared_names d \<subseteq> set order"
      using ok None by simp_all
    have "\<not> is_cycle (comp_uses d) c" for c
      using ordered_no_cycle [OF *(1), of c] cycle_declared *(2) by blast
    note none = this
    have range: "Range (comp_uses d) \<subseteq> set order"
      using ordered_closed [OF *(1)] *(2) comp_uses_declared by blast
    show ?thesis
    proof (cases "Range (comp_uses d) \<subseteq> declared_names d")
      case True
      then have order: "set order = declared_names d"
        using decl *(2) by blast
      then have "comps_Validate copts others listed fwd d = Some (fwd (ds_options (co_defs d)), (validated copts required d)\<lparr>co_order := order\<rparr>)"
        unfolding validate None by simp
      then show ?thesis
        using True none order *(1) by blast
    next
      case False
      then have "comps_Validate copts others listed fwd d = None"
        using range unfolding validate by auto
      then show ?thesis
        using False none by blast
    qed
  next
    case (Some c)
    then have "comps_Validate copts others listed fwd d = Some (Some (Errorf ''dependency cyle for components: %s'' c), validated copts required d)"
      if "Range (comp_uses d) \<subseteq> declared_names d"
      using decl that unfolding validate by simp
    then show ?thesis
      using cyc Some by blast
  qed
qed

section \<open>Required components\<close>

definition comp_elements :: "component_defs \<Rightarrow> comp_decl list" where
  "comp_elements d = map snd (gr_elements (co_defs d))"

lemma GetUsedComponents_picked:
  assumes "\<forall>c \<in> set (comp_elements d). isUsed d c \<noteq> None"
  shows "comps_GetUsedComponents d =
    Some (\<Union>c \<in> {c \<in> set (comp_elements d). picked d c}. decl_GetRequiredComponents c None)"
proof -
  let ?U = "\<Union>c \<in> {c \<in> set (comp_elements d). picked d c}. decl_GetRequiredComponents c None"
  have collect: "collect_used d (\<lambda>c. decl_GetRequiredComponents c None) (map snd (gr_elements (co_defs d))) names =
      Some (names \<union> ?U)" for names
    using collect_used_picked [of "comp_elements d" d] assms by (simp add: comp_elements_def)
  have "used_loop d ?U = Some ?U"
    by (subst used_loop.simps) (simp only: collect Option.bind.bind_lunit Un_absorb simp_thms if_False)
  moreover have "finite ?U"
    by (auto simp: comp_elements_def)
  ultimately show ?thesis
    unfolding comps_GetUsedComponents_def by (subst used_loop.simps) (auto simp: collect card_0_eq)
qed

text \<open>The application of a list of plain components whose use is decided.\<close>

definition plain_comps :: "component_defs \<Rightarrow> bool" where
  "plain_comps d \<longleftrightarrow> (\<forall>n c. comps_Get d n = Some c \<longrightarrow> (\<exists>p. c = CompPlain p \<and> pd_name p = n))"

lemma comp_target_plain: "is_none (components (DefaultMappings m)) \<Longrightarrow> comp_target m p = pd_name p"
  by (auto simp: comp_target_def is_none_def)

lemma Map_none: "is_none mp \<Longrightarrow> Mappings_Map mp x = x"
  by (auto simp: is_none_def)

lemma apply_comps_missing:
  assumes "is_none (components (DefaultMappings m))" "plain_comps d"
    and "\<forall>n \<in> set ns. \<exists>c ok err. comps_Get d n = Some c \<and> isUsed d c = Some (ok, err)"
    and "n \<in> set ns" "comps_Get d n = Some (CompPlain p)" "isUsed d (CompPlain p) = Some (True, None)" "k \<in> set (pd_components p)"
    and "\<forall>q. comps_Get d k = Some q \<longrightarrow> \<not> picked d q" "k \<notin> comp_names mgr"
  shows "\<exists>err mgr'. apply_comps api check m d ns mgr = Some (Some err, mgr')"
  using assms(3,4,9)
proof (induction ns arbitrary: mgr)
  case (Cons x ns)
  obtain c ok err where c: "comps_Get d x = Some c" "isUsed d c = Some (ok, err)"
    using Cons.prems(1) by auto
  obtain q where q: "c = CompPlain q" "pd_name q = x"
    using assms(2) c(1) unfolding plain_comps_def by blast
  note cq = c [unfolded q(1)]
  show ?case
  proof (cases "ok \<and> err = None")
    case False
    then have "n \<in> set ns"
      using Cons.prems(2) assms(5,6) c by auto
    then show ?thesis
      using Cons.IH [of mgr] Cons.prems False by (auto simp: c)
  next
    case used: True
    show ?thesis
    proof (cases "comp_Apply api check m q mgr")
      case (Pair e mgr')
      show ?thesis
      proof (cases e)
        case None
        have "x \<noteq> k"
          using assms(8) c used by (auto simp: picked_def)
        moreover have "comp_names mgr' \<subseteq> insert x (comp_names mgr)"
          using comp_Apply_env(2) [of api check m q mgr] assms(1) by (simp add: Pair comp_target_plain q(2))
        moreover have "n \<noteq> x"
          using comp_Apply_missing [OF assms(7), of m mgr api check] Pair None c(1) assms(1,5,9) Cons.prems(3) q
          by (auto simp: Map_none)
        ultimately show ?thesis
          using Cons.IH [of mgr'] Cons.prems used by (auto simp: cq Pair None)
      qed (use used in \<open>simp add: cq Pair\<close>)
    qed
  qed
qed simp

text \<open>
  The components that components need. A set of components without constraints asks for no
  component itself, whatever its components use, so that a component only they use is not
  selected, and the creation of the components in use fails.
\<close>

theorem indirect_components_lost:
  assumes "gwf (gr_elements (co_defs d))" "plain_comps d" "co_required d = {}"
    and "\<forall>c \<in> set (comp_elements d). pd_constraints (decl_def c) = []"
    and "comps_Validate (Some cx) others True fwd d = Some (None, d')"
  shows "co_required d' = others \<and>
    (\<forall>c \<in> set (comp_elements d). isUsed d' c = Some (decl_GetName c \<in> others, None)) \<and>
    (\<forall>n p k m mgr. comps_Get d n = Some (CompPlain p) \<and> n \<in> others \<and> k \<in> set (pd_components p) \<and>
      k \<notin> others \<and> k \<notin> comp_names mgr \<and> is_none (components (DefaultMappings m)) \<longrightarrow>
      (\<exists>err mgr'. comps_Apply api check m d' mgr = Some (Some err, mgr')))"
proof -
  have "\<not> picked d c" if "c \<in> set (comp_elements d)" for c
    using isUsed_plain [of c d] assms(3,4) that by (simp add: picked_def)
  then have "comps_GetUsedComponents d = Some {}"
    using GetUsedComponents_picked [of d] isUsed_plain [of _ d] assms(4) by auto
  then have used: "comps_Required (Some cx) others True d = Some others"
    by (simp add: comps_Required_def)
  obtain cycle order where "comps_Validate (Some cx) others True fwd d =
      (if \<not> set order \<subseteq> declared_names d then None
       else case cycle of
         Some c \<Rightarrow> Some (Some (Errorf ''dependency cyle for components: %s'' c), validated (Some cx) others d)
       | None \<Rightarrow> Some (fwd (ds_options (co_defs d)), (validated (Some cx) others d)\<lparr>co_order := order\<rparr>))"
    "cycle = None \<longrightarrow> ordered (comp_uses d) order \<and> declared_names d \<subseteq> set order"
    by (rule comps_Validate_run [OF assms(1) used]) (rule that; assumption)
  then have d': "d' = (validated (Some cx) others d)\<lparr>co_order := order\<rparr>" and order: "set order = declared_names d"
    using assms(5) by (auto split: if_splits option.splits)
  have get: "comps_Get d' = comps_Get d"
    by (simp add: d' validated_def)
  have use: "isUsed d' c = Some (decl_GetName c \<in> others, None)" if "c \<in> set (comp_elements d)" for c
    using isUsed_plain [of c d'] assms(4) that by (simp add: d' validated_def)
  have elem: "c \<in> set (comp_elements d)" if "comps_Get d n = Some c" for n c
    using that by (force simp: comps_Get_def comp_elements_def dest: map_of_SomeD)
  have "\<exists>err mgr'. comps_Apply api check m d' mgr = Some (Some err, mgr')"
    if *: "comps_Get d n = Some (CompPlain p)" "n \<in> others" "k \<in> set (pd_components p)"
      "k \<notin> others" "k \<notin> comp_names mgr" "is_none (components (DefaultMappings m))" for n p k m mgr
  proof -
    have "pd_name p = n"
      using assms(2) *(1) by (auto simp: plain_comps_def)
    then have "isUsed d' (CompPlain p) = Some (True, None)"
      using use [OF elem [OF *(1)]] *(2) by simp
    moreover have "\<forall>q. comps_Get d' k = Some q \<longrightarrow> \<not> picked d' q"
      using assms(2) use elem *(4) by (fastforce simp: get plain_comps_def picked_def)
    moreover have "\<forall>x \<in> set order. \<exists>c ok err. comps_Get d' x = Some c \<and> isUsed d' c = Some (ok, err)"
      using comps_Get_declared [of d] use elem order by (metis get not_None_eq)
    moreover have "n \<in> set order"
      using comps_Get_declared [of d n] *(1) order by simp
    ultimately show ?thesis
      using apply_comps_missing [of m d' order n p k mgr api check] * assms(2)
      unfolding comps_Apply_def plain_comps_def get by (simp add: d')
  qed
  then show ?thesis
    using use by (auto simp: d' validated_def)
qed

text \<open>Applying the rest of an order whose components find what they need in the first part.\<close>

lemma apply_comps_ok:
  assumes api: "err_documented api" and m: "is_none (components (DefaultMappings m))" and "plain_comps d"
    and used: "\<And>c. \<exists>err. isUsed d c = Some (S c, err) \<and> (S c \<longrightarrow> err = None)"
    and ready: "\<And>n p. comps_Get d n = Some (CompPlain p) \<Longrightarrow> S (CompPlain p) \<Longrightarrow> comp_ready api check m mgr0 p \<and>
        (\<forall>k \<in> set (pd_components p). \<exists>q. comps_Get d k = Some q \<and> S q)"
  shows "ordered (comp_uses d) (ys @ zs) \<Longrightarrow> set (ys @ zs) \<subseteq> declared_names d \<Longrightarrow> same_env mgr0 mgr \<Longrightarrow>
    comp_names mgr = {n \<in> set ys. \<exists>c. comps_Get d n = Some c \<and> S c} \<Longrightarrow>
    \<exists>mgr'. apply_comps api check m d zs mgr = Some (None, mgr') \<and>
      comp_names mgr' = {n \<in> set (ys @ zs). \<exists>c. comps_Get d n = Some c \<and> S c}"
proof (induction zs arbitrary: ys mgr)
  case (Cons x zs)
  obtain c where c: "comps_Get d x = Some c"
    using Cons.prems(2) comps_Get_declared [of d x] by auto
  then obtain p where p: "comps_Get d x = Some (CompPlain p)" "pd_name p = x"
    using assms(3) unfolding plain_comps_def by blast
  obtain err where err: "isUsed d (CompPlain p) = Some (S (CompPlain p), err)" "S (CompPlain p) \<longrightarrow> err = None"
    using used by blast
  have shift: "ordered (comp_uses d) ((ys @ [x]) @ zs)" "set ((ys @ [x]) @ zs) \<subseteq> declared_names d"
    using Cons.prems(1,2) by simp_all
  show ?case
  proof (cases "S (CompPlain p)")
    case False
    then have "comp_names mgr = {n \<in> set (ys @ [x]). \<exists>c. comps_Get d n = Some c \<and> S c}"
      using Cons.prems(4) p(1) by auto
    then show ?thesis
      using Cons.IH [OF shift Cons.prems(3)] False err p(1) by simp
  next
    case True
    have "x \<notin> set ys"
      using Cons.prems(1) by (simp add: ordered_def)
    then have new: "comp_target m p \<notin> comp_names mgr"
      using Cons.prems(4) p(2) by (simp add: comp_target_plain [OF m])
    have "comp_uses d `` {x} \<subseteq> set ys"
      using Cons.prems(1) unfolding ordered_def by blast
    then have "\<forall>k \<in> set (pd_components p). k \<in> comp_names mgr"
      using ready [OF p(1) True] Cons.prems(4) p(1) by (auto simp: comp_uses_def)
    then obtain mgr' where mgr': "comp_Apply api check m p mgr = (None, mgr')" "comp_names mgr' = insert x (comp_names mgr)"
      using comp_Apply_ok [OF api _ new, of check] ready [OF p(1) True] comp_ready_env [OF Cons.prems(3)]
      by (auto simp: Map_none [OF m] comp_target_plain [OF m] p(2))
    have "same_env mgr0 mgr'"
      using comp_Apply_env(1) [of mgr api check m p] Cons.prems(3) by (simp add: mgr'(1) same_env_def)
    moreover have "comp_names mgr' = {n \<in> set (ys @ [x]). \<exists>c. comps_Get d n = Some c \<and> S c}"
      using Cons.prems(4) p(1) True by (auto simp: mgr'(2))
    ultimately obtain mgr'' where "apply_comps api check m d zs mgr' = Some (None, mgr'')"
      "comp_names mgr'' = {n \<in> set ((ys @ [x]) @ zs). \<exists>c. comps_Get d n = Some c \<and> S c}"
      using Cons.IH [OF shift] by blast
    then show ?thesis
      using True err p(1) mgr'(1) by simp
  qed
qed simp

lemma ordered_prefix: "ordered E (ys @ zs) \<Longrightarrow> ordered E ys"
  by (auto simp: ordered_def)

text \<open>
  C16: The creation of plain components without name mappings. If every selected component
  finds its clusters and indices and uses selected components only, if its factory succeeds
  once it finds them, and if no health check is refused, a validated set creates exactly the
  selected components, in an order in which each comes after those it uses: when the creation
  has come to some point of the order, exactly the selected components before it exist.
\<close>

theorem components_created:
  assumes "err_documented api" "ctx_ok cx" "gwf (gr_elements (co_defs d))" "plain_comps d"
    and "comps_Required (Some cx) others listed d = Some required"
    and "comps_Validate (Some cx) others listed fwd d = Some (None, d')"
    and "is_none (components (DefaultMappings m))" "comp_names mgr = {}"
    and "\<forall>n p. comps_Get d n = Some (CompPlain p) \<longrightarrow> comp_selected cx required (CompPlain p) \<longrightarrow>
      comp_ready api check m mgr p \<and>
      (\<forall>k \<in> set (pd_components p). \<exists>q. comps_Get d k = Some q \<and> comp_selected cx required q)"
  shows "ordered (comp_uses d) (co_order d') \<and>
    (\<forall>ys zs. co_order d' = ys @ zs \<longrightarrow>
      (\<exists>mgr'. apply_comps api check m d' ys mgr = Some (None, mgr') \<and>
        comp_names mgr' = {n \<in> set ys. \<exists>c. comps_Get d n = Some c \<and> comp_selected cx required c})) \<and>
    (\<exists>mgr'. comps_Apply api check m d' mgr = Some (None, mgr') \<and>
      comp_names mgr' = {n. \<exists>c. comps_Get d n = Some c \<and> comp_selected cx required c})"
proof -
  obtain cycle order where "comps_Validate (Some cx) others listed fwd d =
      (if \<not> set order \<subseteq> declared_names d then None
       else case cycle of
         Some c \<Rightarrow> Some (Some (Errorf ''dependency cyle for components: %s'' c), validated (Some cx) required d)
       | None \<Rightarrow> Some (fwd (ds_options (co_defs d)), (validated (Some cx) required d)\<lparr>co_order := order\<rparr>))"
    "cycle = None \<longrightarrow> ordered (comp_uses d) order \<and> declared_names d \<subseteq> set order"
    by (rule comps_Validate_run [OF assms(3,5)]) (rule that; assumption)
  then have d': "d' = (validated (Some cx) required d)\<lparr>co_order := order\<rparr>"
    and order: "ordered (comp_uses d) order" "set order = declared_names d"
    using assms(6) by (auto split: if_splits option.splits)
  have get: "comps_Get d' = comps_Get d"
    by (simp add: d' validated_def)
  have d'_ops: "comp_uses d' = comp_uses d" "declared_names d' = declared_names d" "plain_comps d'"
    "co_cctx d' = Some cx" "co_required d' = required" "co_order d' = order"
    using assms(4) by (simp_all add: comp_uses_def plain_comps_def get) (simp_all add: d' validated_def declared_names_def)
  have upto: "\<exists>mgr'. apply_comps api check m d' ys mgr = Some (None, mgr') \<and>
      comp_names mgr' = {n \<in> set ([] @ ys). \<exists>c. comps_Get d' n = Some c \<and> comp_selected cx required c}"
    if "order = ys @ zs" for ys zs
  proof (rule apply_comps_ok [OF assms(1,7) d'_ops(3)])
    show "\<exists>err. isUsed d' c = Some (comp_selected cx required c, err) \<and> (comp_selected cx required c \<longrightarrow> err = None)" for c
      using isUsed_selected [OF assms(2) d'_ops(4), of c] by (simp add: d'_ops(5))
    show "comp_ready api check m mgr p \<and> (\<forall>k \<in> set (pd_components p). \<exists>q. comps_Get d' k = Some q \<and> comp_selected cx required q)"
      if "comps_Get d' n = Some (CompPlain p)" "comp_selected cx required (CompPlain p)" for n p
      using assms(9) that by (simp add: get)
    show "ordered (comp_uses d') ([] @ ys)" "set ([] @ ys) \<subseteq> declared_names d'"
      using order that ordered_prefix by (auto simp: d'_ops)
  qed (use assms(8) in \<open>simp_all add: same_env_def\<close>)
  moreover have "{n \<in> set order. \<exists>c. comps_Get d n = Some c \<and> comp_selected cx required c} =
      {n. \<exists>c. comps_Get d n = Some c \<and> comp_selected cx required c}"
    using comps_Get_declared [of d] by (auto simp: order(2))
  ultimately show ?thesis
    using order(1) upto [of order "[]"] by (simp add: comps_Apply_def d'_ops(6) get)
qed

section \<open>Witnesses\<close>

definition fac_demo :: comp_factory where
  "fac_demo = \<lparr>cf_create = (\<lambda>v. if comp_GetComponent v ''db'' = None
     then Inl (Errorf ''no database'' []) else Inr False), cf_validate = None\<rparr>"

definition web_demo :: comp_def where
  "web_demo = comp_UseComponent [''db''] (comp_Define ''web'' fac_demo)"

definition db_demo :: comp_def where
  "db_demo = comp_Define ''db'' \<lparr>cf_create = (\<lambda>_. Inr False), cf_validate = None\<rparr>"

definition comps_demo :: component_defs where
  "comps_demo = comps_Add err_demo [CompPlain web_demo, CompPlain db_demo] comps_NewDefinitions"

lemma comps_demo_simps:
  "gr_elements (co_defs comps_demo) = [(''web'', CompPlain web_demo), (''db'', CompPlain db_demo)]"
  "ds_options (co_defs comps_demo) = [CompPlain web_demo, CompPlain db_demo]"
  "co_required comps_demo = {}" "co_cctx comps_demo = None"
  by (simp_all add: comps_demo_def comps_Add_def comps_NewDefinitions_def Definitions_Add_def ds_add_one_def
      NewDefinitions_def elem_group.truncate_def NewErrorContainer_def AddError_def err_demo_def gset_def
      web_demo_def db_demo_def comp_UseComponent_def comp_Define_def GetError_def Option.is_none_def)

lemma comps_demo_Get:
  "comps_Get comps_demo n = (if n = ''web'' then Some (CompPlain web_demo) else if n = ''db'' then Some (CompPlain db_demo) else None)"
  by (simp add: comps_Get_def comps_demo_simps)

lemma comps_demo_ok:
  "gwf (gr_elements (co_defs comps_demo))" "plain_comps comps_demo" "declared_names comps_demo = {''web'', ''db''}"
  "comp_uses comps_demo = {(''web'', ''db'')}" "comp_elements comps_demo = [CompPlain web_demo, CompPlain db_demo]"
  by (auto simp: comps_demo_simps gwf_def plain_comps_def comps_demo_Get declared_names_def comp_uses_def comp_elements_def
      web_demo_def db_demo_def comp_UseComponent_def comp_Define_def add_names_def split: if_splits)

lemma pd_demo: "pd_components web_demo = [''db'']" "pd_components db_demo = []"
  by (simp_all add: web_demo_def db_demo_def comp_UseComponent_def comp_Define_def add_names_def)

lemma comps_demo_Required: "comps_Required (Some demo_ctx) others True comps_demo = Some others"
proof -
  have "isUsed comps_demo c = Some (False, None)" if "c \<in> set (comp_elements comps_demo)" for c
    using that isUsed_plain [of c comps_demo]
    by (auto simp: comps_demo_ok(5) comps_demo_simps web_demo_def db_demo_def comp_UseComponent_def comp_Define_def)
  then show ?thesis
    using GetUsedComponents_picked [of comps_demo] by (auto simp: comps_Required_def picked_def)
qed

lemma demo_no_cycle: "\<not> is_cycle {(''web'', ''db'')} c"
proof
  assume c: "is_cycle {(''web'', ''db'')} c"
  then obtain a b r where "c = a # b # r"
    by (cases c; cases "tl c") (auto simp: is_cycle_def)
  with c show False
    by (cases r) (auto simp: is_cycle_def)
qed

lemma comps_demo_validates: "\<exists>d'. comps_Validate (Some demo_ctx) others True (\<lambda>_. None) comps_demo = Some (None, d')"
proof -
  obtain cycle order where "comps_Validate (Some demo_ctx) others True (\<lambda>_. None) comps_demo =
      (if \<not> set order \<subseteq> declared_names comps_demo then None
       else case cycle of
         Some c \<Rightarrow> Some (Some (Errorf ''dependency cyle for components: %s'' c), validated (Some demo_ctx) others comps_demo)
       | None \<Rightarrow> Some (None, (validated (Some demo_ctx) others comps_demo)\<lparr>co_order := order\<rparr>))"
    "\<forall>c. cycle = Some c \<longrightarrow> is_cycle (comp_uses comps_demo) c"
    "Range (comp_uses comps_demo) \<subseteq> declared_names comps_demo \<longrightarrow> set order \<subseteq> declared_names comps_demo"
    by (rule comps_Validate_run [OF comps_demo_ok(1) comps_demo_Required [of others]]) (rule that; assumption)
  then show ?thesis
    using demo_no_cycle by (cases cycle) (auto simp: comps_demo_ok(3,4))
qed

theorem component_order_witness:
  "\<exists>d'. comps_Validate (Some demo_ctx) {''web''} True (\<lambda>_. None) comps_demo = Some (None, d') \<and>
    co_required d' = {''web''} \<and> set (co_order d') = {''web'', ''db''}"
  using component_order [OF comps_demo_ok(1) comps_demo_Required [of "{''web''}"], of "\<lambda>_. None"] demo_no_cycle
  by (auto simp: comps_demo_ok(3,4) validated_def)

theorem indirect_components_lost_witness:
  "\<exists>d' err mgr'. comps_Validate (Some demo_ctx) {''web''} True (\<lambda>_. None) comps_demo = Some (None, d') \<and>
    comps_Apply err_demo (\<lambda>_. None) None d' mgr_demo = Some (Some err, mgr')"
proof -
  obtain d' where d': "comps_Validate (Some demo_ctx) {''web''} True (\<lambda>_. None) comps_demo = Some (None, d')"
    using comps_demo_validates by blast
  have "\<forall>c \<in> set (comp_elements comps_demo). pd_constraints (decl_def c) = []"
    by (simp add: comps_demo_ok(5) web_demo_def db_demo_def comp_UseComponent_def comp_Define_def)
  moreover have "comps_Get comps_demo ''web'' = Some (CompPlain web_demo)" "''db'' \<in> set (pd_components web_demo)"
    "''db'' \<notin> comp_names mgr_demo" "is_none (components (DefaultMappings None))"
    by (simp_all add: comps_demo_Get web_demo_def comp_UseComponent_def comp_Define_def add_names_def comp_names_def
        mgr_demo_def NewGroup_def is_none_def DefaultMappings_def NoMappings_def)
  ultimately have "\<exists>err mgr'. comps_Apply err_demo (\<lambda>_. None) None d' mgr_demo = Some (Some err, mgr')"
    using indirect_components_lost [OF comps_demo_ok(1,2) comps_demo_simps(3) _ d', of err_demo "\<lambda>_. None"] by blast
  then show ?thesis
    using d' by blast
qed

theorem components_created_witness:
  "\<exists>d' mgr'. comps_Validate (Some demo_ctx) {''web'', ''db''} True (\<lambda>_. None) comps_demo = Some (None, d') \<and>
    comps_Apply err_demo (\<lambda>_. None) None d' mgr_demo = Some (None, mgr') \<and> comp_names mgr' = {''web'', ''db''}"
proof -
  have cx: "ctx_ok demo_ctx"
    by (auto simp: ctx_ok_def demo_ctx_def Context_GetGroup_def)
  obtain d' where d': "comps_Validate (Some demo_ctx) {''web'', ''db''} True (\<lambda>_. None) comps_demo = Some (None, d')"
    using comps_demo_validates by blast
  have sel: "comp_selected demo_ctx {''web'', ''db''} (CompPlain p)" if "p \<in> {web_demo, db_demo}" for p
    using that by (auto simp: comp_selected_def Let_def web_demo_def db_demo_def comp_UseComponent_def comp_Define_def)
  have "comp_ready err_demo (\<lambda>_. None) None mgr_demo p" if "p \<in> {web_demo, db_demo}" for p
    using that by (auto simp: comp_ready_def web_demo_def db_demo_def comp_UseComponent_def comp_Define_def fac_demo_def
        add_names_def set_Map_def DefaultMappings_def NoMappings_def ImportIndices_def NewDefinitions_def split: if_splits)
  then have ready: "\<forall>n p. comps_Get comps_demo n = Some (CompPlain p) \<longrightarrow> comp_selected demo_ctx {''web'', ''db''} (CompPlain p) \<longrightarrow>
      comp_ready err_demo (\<lambda>_. None) None mgr_demo p \<and>
      (\<forall>k \<in> set (pd_components p). \<exists>q. comps_Get comps_demo k = Some q \<and> comp_selected demo_ctx {''web'', ''db''} q)"
    by (simp add: comps_demo_Get pd_demo sel)
  have "\<exists>mgr'. comps_Apply err_demo (\<lambda>_. None) None d' mgr_demo = Some (None, mgr') \<and>
      comp_names mgr' = {n. \<exists>c. comps_Get comps_demo n = Some c \<and> comp_selected demo_ctx {''web'', ''db''} c}"
    by (rule components_created [THEN conjunct2, THEN conjunct2, OF err_demo_documented cx comps_demo_ok(1,2) comps_demo_Required d' _ _ ready])
      (simp_all add: is_none_def DefaultMappings_def NoMappings_def comp_names_def mgr_demo_def NewGroup_def)
  moreover have "{n. \<exists>c. comps_Get comps_demo n = Some c \<and> comp_selected demo_ctx {''web'', ''db''} c} = {''web'', ''db''}"
    using sel by (auto simp: comps_demo_Get split: if_splits)
  ultimately show ?thesis
    using d' by auto
qed

end
