(* ===== verification/Controllers.thy ===== *)
theory Controllers
  imports Components ObjUtils
begin

text \<open>
  Controllers: their definitions, the sets they are collected in with groups, rules and the
  filter of activated controllers, and their creation on the manager (controller/def.go,
  defs.go, mappings.go, controller.go), and the completion of groups of utils.go.

  The reconciler factory, the event sources and the builder of multicluster-runtime are
  parameters; the model keeps which resources are watched on which cluster.
\<close>

section \<open>Definitions of controllers\<close>

text \<open>
  A trigger watches a resource, on the main cluster unless it names another; the outcome of
  its mapper factory is part of it.
\<close>

record trigger_def =
  tr_desc :: string
  tr_resource :: string
  tr_cluster :: string
  tr_mapper :: "gerror option"

definition OnCluster :: "string \<Rightarrow> trigger_def \<Rightarrow> trigger_def" where
  "OnCluster cl t = t\<lparr>tr_cluster := cl\<rparr>"

record ctl_view =
  kv_name :: string
  kv_manager :: string
  kv_mappings :: mappings
  kv_components :: "component elem_group"
  kv_clusters :: cluster_set
  kv_cluster :: cluster_eq
  kv_gk :: group_kind
  kv_local :: "(string, cindex) gomap"
  kv_indices :: "index_ref elem_group"
  kv_finalizer :: string
  kv_enforce :: bool

text \<open>
  The reconciler factory; \<open>rf_finalizer\<close> is \<open>ModifyFinalizer\<close>, if it has that method.
\<close>

record rec_factory =
  rf_create :: "ctl_view \<Rightarrow> gerror option"
  rf_finalizer :: "(string \<Rightarrow> string) option"
  rf_validate :: "gerror option option"

record ctl_def =
  kd_name :: string
  kd_errors :: error_container
  kd_clusters :: "string list"
  kd_components :: "string list"
  kd_health :: health_handlers
  kd_predicates :: "string list"
  kd_cluster :: string
  kd_proto :: string
  kd_reconciler :: rec_factory
  kd_indices :: "index_def definitions"
  kd_imports :: "index_def definitions"
  kd_foreign :: "index_def definitions"
  kd_triggers :: "trigger_def list"
  kd_constraints :: "constraint list"
  kd_groups :: "string list"
  kd_finalizer :: string

definition ctl_UseCluster :: "string list \<Rightarrow> ctl_def \<Rightarrow> ctl_def" where
  "ctl_UseCluster ns d = d\<lparr>kd_clusters := add_names ns (kd_clusters d)\<rparr>"

definition ctl_UseComponent :: "string list \<Rightarrow> ctl_def \<Rightarrow> ctl_def" where
  "ctl_UseComponent ns d = d\<lparr>kd_components := add_names ns (kd_components d)\<rparr>"

definition ctl_Define :: "string \<Rightarrow> string \<Rightarrow> string \<Rightarrow> rec_factory \<Rightarrow> ctl_def" where
  "ctl_Define name cl proto fac =
     ctl_UseCluster [cl]
       \<lparr>kd_name = name, kd_errors = NewErrorContainer (''controller '' @ name), kd_clusters = [], kd_components = [],
        kd_health = NewHealthHandlers, kd_predicates = [], kd_cluster = cl, kd_proto = proto, kd_reconciler = fac,
        kd_indices = NewDefinitions ''index'', kd_imports = NewDefinitions ''index'', kd_foreign = NewDefinitions ''index'',
        kd_triggers = [], kd_constraints = [], kd_groups = [], kd_finalizer = []\<rparr>"

definition InGroup :: "string list \<Rightarrow> ctl_def \<Rightarrow> ctl_def" where
  "InGroup gs d = d\<lparr>kd_groups := add_names gs (kd_groups d)\<rparr>"

definition WithPredicates :: "string list \<Rightarrow> ctl_def \<Rightarrow> ctl_def" where
  "WithPredicates ps d = d\<lparr>kd_predicates := kd_predicates d @ ps\<rparr>"

definition WithFinalizer :: "string \<Rightarrow> ctl_def \<Rightarrow> ctl_def" where
  "WithFinalizer s d = d\<lparr>kd_finalizer := s\<rparr>"

definition ctl_WithActivationConstraint :: "constraint list \<Rightarrow> ctl_def \<Rightarrow> ctl_def" where
  "ctl_WithActivationConstraint cs d = d\<lparr>kd_constraints := Constraints_Add cs (kd_constraints d)\<rparr>"

definition ctl_knows :: "string \<Rightarrow> ctl_def \<Rightarrow> bool" where
  "ctl_knows n d \<longleftrightarrow> index_known n (kd_indices d) \<or> index_known n (kd_imports d) \<or> index_known n (kd_foreign d)"

definition ctl_error :: "err_api \<Rightarrow> gerror \<Rightarrow> ctl_def \<Rightarrow> ctl_def" where
  "ctl_error api err d = d\<lparr>kd_errors := snd (AddError api (AnyError err) [] (kd_errors d))\<rparr>"

fun ctl_AddForeignIndex :: "err_api \<Rightarrow> index_def list \<Rightarrow> ctl_def \<Rightarrow> ctl_def" where
  "ctl_AddForeignIndex api [] d = d"
| "ctl_AddForeignIndex api (i # is) d =
     ctl_AddForeignIndex api is
       (if ctl_knows (id_name i) d
        then ctl_error api (Errorf ''duplicate definition of index %q'' [id_name i]) d
        else d\<lparr>kd_foreign := index_Add api [i] (kd_foreign d)\<rparr>)"

definition ctl_put_index :: "err_api \<Rightarrow> string \<Rightarrow> index_def \<Rightarrow> ctl_def \<Rightarrow> ctl_def" where
  "ctl_put_index api name i d =
     ctl_UseCluster [id_target i]
       (d\<lparr>kd_indices := index_Add api [i] (kd_indices d),
          kd_errors := snd (AddError api AnyOther [''index '', name] (kd_errors d))\<rparr>)"

definition ctl_AddIndex :: "err_api \<Rightarrow> string \<Rightarrow> ctl_def \<Rightarrow> ctl_def" where
  "ctl_AddIndex api name d =
     (let n = ComposeName name (kd_cluster d) in
      if ctl_knows n d
      then ctl_error api (Errorf ''duplicate definition of index %q[%s]'' [name, n]) d
      else ctl_put_index api name (index_Define name (kd_cluster d) (kd_proto d)) d)"

definition ctl_AddIndexByFactory :: "err_api \<Rightarrow> string \<Rightarrow> (cluster_set \<Rightarrow> gerror option) \<Rightarrow> ctl_def \<Rightarrow> ctl_def" where
  "ctl_AddIndexByFactory api name fac d =
     (let n = ComposeName name (kd_cluster d) in
      if ctl_knows n d
      then ctl_error api (Errorf ''duplicate definition of index %q[%s]'' [name, n]) d
      else ctl_put_index api name (DefineByFactory name (kd_cluster d) (kd_proto d) fac) d)"

definition ctl_ImportIndex :: "err_api \<Rightarrow> index_def \<Rightarrow> ctl_def \<Rightarrow> ctl_def" where
  "ctl_ImportIndex api i d =
     (if ctl_knows (id_name i) d
      then ctl_error api (Errorf ''duplicate dedinition of index %q'' [id_name i]) d
      else d\<lparr>kd_errors := snd (AddError api AnyOther [''index '', id_name i] (kd_errors d)),
             kd_imports := index_Add api [i] (kd_imports d)\<rparr>)"

fun ctl_AddTrigger :: "trigger_def list \<Rightarrow> ctl_def \<Rightarrow> ctl_def" where
  "ctl_AddTrigger [] d = d"
| "ctl_AddTrigger (t # ts) d =
     (let d = d\<lparr>kd_triggers := kd_triggers d @ [t]\<rparr> in
      ctl_AddTrigger ts (if tr_cluster t \<noteq> [] then ctl_UseCluster [tr_cluster t] d else d))"

definition ctl_Validate :: "gerror option \<Rightarrow> ctl_def \<Rightarrow> gerror option" where
  "ctl_Validate fwd d =
     (case rf_validate (kd_reconciler d) of
        Some err \<Rightarrow> map_option (Wrapf [kd_name d]) err
      | None \<Rightarrow>
          (case find (\<lambda>(_, i). id_target i \<notin> set (kd_clusters d)) (gr_elements (kd_foreign d)) of
             Some (_, i) \<Rightarrow> Some (Errorf ''foreign index %q uses undeclared cluster %q'' [id_name i, id_target i])
           | None \<Rightarrow> fwd))"

definition ctl_GetFinalizer :: "ctl_def \<Rightarrow> string" where
  "ctl_GetFinalizer d = (if kd_finalizer d = [] then kd_name d else kd_finalizer d)"

definition ctl_CreateIndices ::
  "err_api \<Rightarrow> index_env \<Rightarrow> controller_mappings option \<Rightarrow> ctl_def \<Rightarrow> manager \<Rightarrow> gerror option \<times> manager" where
  "ctl_CreateIndices api env m d mgr =
     (case apply_indices api env [''controller'', kd_name d] m (gr_elements (kd_indices d)) mgr of
        (Some err, mgr) \<Rightarrow> (Some err, mgr)
      | (None, mgr) \<Rightarrow> apply_indices api env [''controller'', kd_name d] m (gr_elements (kd_foreign d)) mgr)"

section \<open>Creation of a controller\<close>

text \<open>
  The run-time side: the configuration providers, the source of explicit triggers of a cluster
  for a resource, and the completion of the builder.
\<close>

record builder_env =
  be_config :: "string \<Rightarrow> gerror option"
  be_trigger :: "cluster_eq \<Rightarrow> string \<Rightarrow> gerror option"
  be_complete :: "string \<Rightarrow> gerror option"

definition addTrigger ::
  "index_env \<Rightarrow> ctl_def \<Rightarrow> ctl_view \<Rightarrow> trigger_def \<Rightarrow> (string \<times> cluster_eq) list \<Rightarrow> (string \<times> cluster_eq) list result" where
  "addTrigger env d c tdef ws =
     (case GKForObject env (tr_resource tdef) of
        Inl err \<Rightarrow> Inl (Wrapf [''cannot determine group kind for'', tr_resource tdef] err)
      | Inr gk \<Rightarrow>
     (let cname = (if tr_cluster tdef \<noteq> [] then tr_cluster tdef else kd_cluster d) in
      case set_Get (kv_clusters c) cname of
        None \<Rightarrow> Inl (Errorf ''cannot determine target cluster %q for trigger %s'' [cname, tr_desc tdef])
      | Some target \<Rightarrow>
          (case tr_mapper tdef of
             Some err \<Rightarrow> Inl (Wrapf [''trigger'', tr_desc tdef] err)
           | None \<Rightarrow> Inr (ws @ [(tr_resource tdef, target)]))))"

fun addTriggers ::
  "index_env \<Rightarrow> ctl_def \<Rightarrow> ctl_view \<Rightarrow> trigger_def list \<Rightarrow> (string \<times> cluster_eq) list \<Rightarrow> (string \<times> cluster_eq) list result" where
  "addTriggers env d c [] ws = Inr ws"
| "addTriggers env d c (t # ts) ws =
     (case addTrigger env d c t ws of
        Inl err \<Rightarrow> Inl (Wrapf [''resource-based trigger''] err)
      | Inr ws \<Rightarrow> addTriggers env d c ts ws)"

text \<open>The main resource is watched on the main cluster, before the triggers.\<close>

definition ctl_Complete ::
  "index_env \<Rightarrow> builder_env \<Rightarrow> ctl_def \<Rightarrow> ctl_view \<Rightarrow> (string \<times> cluster_eq) list result" where
  "ctl_Complete env be d c =
     (case be_config be (kd_name d) of
        Some err \<Rightarrow> Inl (Wrapf [''configuration provider for controller'', kd_name d] err)
      | None \<Rightarrow>
     (case be_trigger be (kv_cluster c) (kd_proto d) of
        Some err \<Rightarrow> Inl (Wrapf [''explicit trigger'', kd_proto d] err)
      | None \<Rightarrow>
     (case rf_create (kd_reconciler d) c of
        Some err \<Rightarrow> Inl err
      | None \<Rightarrow>
     (case addTriggers env d c (kd_triggers d) [(kd_proto d, kv_cluster c)] of
        Inl err \<Rightarrow> Inl err
      | Inr ws \<Rightarrow> (case be_complete be (kd_name d) of Some err \<Rightarrow> Inl err | None \<Rightarrow> Inr ws)))))"

text \<open>The local indices of a controller under their base names, and all under their full names.\<close>

fun import_local ::
  "index_def list \<Rightarrow> cluster_set \<Rightarrow> controller_mappings \<Rightarrow> manager \<Rightarrow> (string, cindex) gomap \<Rightarrow> (string, cindex) gomap \<Rightarrow>
   ((string, cindex) gomap \<times> (string, cindex) gomap) result" where
  "import_local [] cs mp mgr local all = Inr (local, all)"
| "import_local (i # is) cs mp mgr local all =
     (case ImportIndex i cs mp mgr (Some BaseName) local of
        Inl err \<Rightarrow> Inl err
      | Inr local \<Rightarrow>
          import_local is cs mp mgr local
            (case gget local (BaseName (id_name i)) of Some x \<Rightarrow> gset (id_name i) x all | None \<Rightarrow> all))"

definition ctl_Apply ::
  "err_api \<Rightarrow> index_env \<Rightarrow> builder_env \<Rightarrow> (string \<Rightarrow> gerror option) \<Rightarrow> controller_mappings option \<Rightarrow> ctl_def \<Rightarrow> manager \<Rightarrow>
   gerror option \<times> manager" where
  "ctl_Apply api env be check m d mgr =
     (case GetError api (kd_errors d) of
        Some err \<Rightarrow> (Some err, mgr)
      | None \<Rightarrow>
     (let mp = DefaultMappings m in
      case components_Map api (components mp) (mg_components mgr) (kd_components d) NewComponents of
        Inl err \<Rightarrow> (Some err, mgr)
      | Inr comps \<Rightarrow>
     (case set_Map api (clusters mp) (mg_clusters mgr) (kd_clusters d) of
        Inl err \<Rightarrow> (Some err, mgr)
      | Inr cs \<Rightarrow>
     (case set_Get cs (kd_cluster d) of
        None \<Rightarrow> (Some (Errorf ''cluster %q not found'' [kd_cluster d]), mgr)
      | Some c \<Rightarrow>
     (case GKForObject env (kd_proto d) of
        Inl err \<Rightarrow> (Some (Wrapf [''main resource''] err), mgr)
      | Inr gk \<Rightarrow>
     (case import_local (map snd (gr_elements (kd_indices d))) cs mp mgr [] [] of
        Inl err \<Rightarrow> (Some err, mgr)
      | Inr (local, all) \<Rightarrow>
     (case ImportIndices api all (kd_cluster d) cs mp mgr [kd_imports d, kd_foreign d] of
        Inl err \<Rightarrow> (Some err, mgr)
      | Inr idxs \<Rightarrow>
     (let finalizer = mg_name mgr @ ''/'' @ ctl_GetFinalizer d;
          view = \<lparr>kv_name = kd_name d, kv_manager = mg_name mgr, kv_mappings = clusters mp, kv_components = comps,
                  kv_clusters = cs, kv_cluster = c, kv_gk = gk, kv_local = local, kv_indices = idxs,
                  kv_finalizer = (case rf_finalizer (kd_reconciler d) of Some f \<Rightarrow> f finalizer | None \<Rightarrow> finalizer),
                  kv_enforce = False\<rparr> in
      case Group_Add api (\<lambda>n. n) (\<lambda>_. AnyOther) [kd_name d] (mg_controllers mgr) of
        (Some err, g) \<Rightarrow> (Some err, mgr\<lparr>mg_controllers := g\<rparr>)
      | (None, g) \<Rightarrow>
     (case ApplyHealthChecks check (kd_name d) (kd_health d) (mgr\<lparr>mg_controllers := g\<rparr>) of
        (Some err, mgr) \<Rightarrow> (Some err, mgr)
      | (None, mgr) \<Rightarrow>
          (case ctl_Complete env be d view of Inl err \<Rightarrow> (Some err, mgr) | Inr ws \<Rightarrow> (None, mgr)))))))))))"

definition GetFieldManager :: "ctl_view \<Rightarrow> string" where
  "GetFieldManager c = kv_manager c @ ''/'' @ kv_name c"

definition GetLocalIndex :: "ctl_view \<Rightarrow> string \<Rightarrow> cindex option" where
  "GetLocalIndex c name = gget (kv_local c) name"

text \<open>
  The names of generated objects carry the source cluster only if the target is another
  cluster and there is more than one source: a fleet, or more than two clusters.
\<close>

definition GenerateNameFor ::
  "(string \<Rightarrow> string) \<Rightarrow> manager \<Rightarrow> ctl_view \<Rightarrow> cluster option \<Rightarrow> cluster \<Rightarrow> string \<Rightarrow> string \<Rightarrow> string \<Rightarrow> int option \<Rightarrow>
   string option" where
  "GenerateNameFor sha256 mgr c src tgt prefix namespace name len =
     (case src of
        None \<Rightarrow> GenerateUniqueName sha256 prefix [] namespace name len
      | Some s \<Rightarrow>
          if ce_IsSameAs (CE_Cluster tgt) (CE_Cluster s) then GenerateUniqueName sha256 prefix [] namespace name len
          else if kv_enforce c \<or> ce_AsFleet (kv_cluster c) \<noteq> None \<or> 2 < Group_Len (cs_group (mg_clusters mgr))
          then GenerateUniqueName sha256 prefix (cluster_GetName s) namespace name len
          else GenerateUniqueName sha256 prefix [] namespace name len)"

section \<open>Sets of controllers\<close>

datatype ctl_decl = CtlPlain ctl_def | CtlMapped ctl_decl controller_mappings

fun ctl_of :: "ctl_decl \<Rightarrow> ctl_def" where
  "ctl_of (CtlPlain d) = d"
| "ctl_of (CtlMapped c m) = ctl_of c"

definition ctl_GetName :: "ctl_decl \<Rightarrow> string" where
  "ctl_GetName c = kd_name (ctl_of c)"

definition ctl_consumer :: "ctl_def \<Rightarrow> default_consumer" where
  "ctl_consumer d = \<lparr>dc_clusters = set (kd_clusters d), dc_components = set (kd_components d)\<rparr>"

fun ctl_GetRequiredClusters :: "ctl_decl \<Rightarrow> controller_mappings option \<Rightarrow> string set" where
  "ctl_GetRequiredClusters (CtlPlain d) m = DefaultConsumer_GetRequiredClusters m (ctl_consumer d)"
| "ctl_GetRequiredClusters (CtlMapped c mp) m = GetRequiredClusters (set (kd_clusters (ctl_of c))) mp m"

fun ctl_GetRequiredComponents :: "ctl_decl \<Rightarrow> controller_mappings option \<Rightarrow> string set" where
  "ctl_GetRequiredComponents (CtlPlain d) m = DefaultConsumer_GetRequiredComponents m (ctl_consumer d)"
| "ctl_GetRequiredComponents (CtlMapped c mp) m = GetRequiredComponents (set (kd_components (ctl_of c))) mp m"

fun ctl_decl_CreateIndices ::
  "err_api \<Rightarrow> index_env \<Rightarrow> controller_mappings option \<Rightarrow> ctl_decl \<Rightarrow> manager \<Rightarrow> gerror option \<times> manager" where
  "ctl_decl_CreateIndices api env m (CtlPlain d) mgr = ctl_CreateIndices api env m d mgr"
| "ctl_decl_CreateIndices api env m (CtlMapped c mp) mgr =
     ctl_decl_CreateIndices api env (Some (ControllerMappings_ApplyTo mp m)) c mgr"

fun ctl_decl_Apply ::
  "err_api \<Rightarrow> index_env \<Rightarrow> builder_env \<Rightarrow> (string \<Rightarrow> gerror option) \<Rightarrow> controller_mappings option \<Rightarrow> ctl_decl \<Rightarrow> manager \<Rightarrow>
   gerror option \<times> manager" where
  "ctl_decl_Apply api env be check m (CtlPlain d) mgr = ctl_Apply api env be check m d mgr"
| "ctl_decl_Apply api env be check m (CtlMapped c mp) mgr =
     ctl_decl_Apply api env be check (Some (ControllerMappings_ApplyTo mp m)) c mgr"

text \<open>\<open>kc_filter\<close> is the list of activated controllers, \<open>None\<close> if there is none.\<close>

record controller_defs =
  kc_defs :: "ctl_decl definitions"
  kc_groups :: groups
  kc_constraints :: "constraint list"
  kc_filter :: "string set option"

definition ctls_NewDefinitions :: controller_defs where
  "ctls_NewDefinitions =
     \<lparr>kc_defs = NewDefinitions ''controller'', kc_groups = [], kc_constraints = [], kc_filter = None\<rparr>"

definition filter_Use :: "string set option \<Rightarrow> string \<Rightarrow> bool" where
  "filter_Use f name = (case f of None \<Rightarrow> True | Some l \<Rightarrow> name \<in> l)"

definition filter_Filter :: "string set option \<Rightarrow> ctl_decl list \<Rightarrow> ctl_decl list" where
  "filter_Filter f opts = (case f of None \<Rightarrow> opts | Some _ \<Rightarrow> filter (\<lambda>c. filter_Use f (ctl_GetName c)) opts)"

definition AddRule :: "constraint list \<Rightarrow> controller_defs \<Rightarrow> controller_defs" where
  "AddRule cs d = d\<lparr>kc_constraints := Constraints_Add cs (kc_constraints d)\<rparr>"

definition append_group :: "string \<Rightarrow> string \<Rightarrow> groups \<Rightarrow> groups" where
  "append_group name g gs = gset g (Some (grp_of gs g @ [name])) gs"

definition ctls_Add :: "err_api \<Rightarrow> ctl_decl list \<Rightarrow> controller_defs \<Rightarrow> controller_defs" where
  "ctls_Add api es d =
     (let d = d\<lparr>kc_groups := fold (\<lambda>e gs. fold (append_group (ctl_GetName e)) (kd_groups (ctl_of e)) gs) es (kc_groups d)\<rparr> in
      d\<lparr>kc_defs := Definitions_Add api ctl_GetName (\<lambda>c. AnyProvider (GetError api (kd_errors (ctl_of c)))) es (kc_defs d)\<rparr>)"

definition ctls_GetNames :: "controller_defs \<Rightarrow> string list" where
  "ctls_GetNames d = sort (gkeys (gr_elements (kc_defs d)))"

definition GetControllerSet :: "controller_defs \<Rightarrow> controller_set" where
  "GetControllerSet d = \<lparr>cs_names = ctls_GetNames d, cs_groups = kc_groups d\<rparr>"

definition ctls_GetUsedClusters :: "ctx \<Rightarrow> controller_defs \<Rightarrow> string set" where
  "ctls_GetUsedClusters cx d =
     fold (\<lambda>(n, c) names. if Context_Has n cx then names \<union> ctl_GetRequiredClusters c None else names)
       (gr_elements (kc_defs d)) {}"

definition ctls_GetUsedComponents :: "ctx \<Rightarrow> controller_defs \<Rightarrow> string set" where
  "ctls_GetUsedComponents cx d =
     fold (\<lambda>(n, c) names. if Context_Has n cx then names \<union> ctl_GetRequiredComponents c None else names)
       (gr_elements (kc_defs d)) {}"

text \<open>
  \<open>copts\<close> is the activation of the activation options, if there are any, \<open>comps\<close> the component
  definitions of the options.
\<close>

fun unknown_component :: "component_defs option \<Rightarrow> (string \<times> ctl_decl) list \<Rightarrow> gerror option" where
  "unknown_component comps [] = None"
| "unknown_component comps ((n, c) # cs) =
     (case find (\<lambda>u. case comps of None \<Rightarrow> True | Some d \<Rightarrow> comps_Get d u = None) (kd_components (ctl_of c)) of
        Some u \<Rightarrow> Some (Errorf ''conroller %q used unknown component %q'' [n, u])
      | None \<Rightarrow> unknown_component comps cs)"

definition ctls_Validate ::
  "string set option option \<Rightarrow> component_defs option \<Rightarrow> (ctl_decl list \<Rightarrow> gerror option) \<Rightarrow> controller_defs \<Rightarrow>
   gerror option \<times> controller_defs" where
  "ctls_Validate copts comps fwd d =
     (let d = (case copts of Some act \<Rightarrow> d\<lparr>kc_filter := act\<rparr> | None \<Rightarrow> d) in
      case unknown_component comps (gr_elements (kc_defs d)) of
        Some err \<Rightarrow> (Some err, d)
      | None \<Rightarrow> (fwd (filter_Filter (kc_filter d) (ds_options (kc_defs d))), d))"

text \<open>The constraints of the set and of the controllers in use are checked before anything is created.\<close>

fun check_constraints :: "ctx \<Rightarrow> string set option \<Rightarrow> ctl_decl list \<Rightarrow> gerror option option" where
  "check_constraints cx f [] = Some None"
| "check_constraints cx f (c # cs) =
     (if \<not> filter_Use f (ctl_GetName c) then check_constraints cx f cs
      else Option.bind (Constraints_Match cx (kd_constraints (ctl_of c))) (\<lambda>(_, err).
        if err \<noteq> None then Some err else check_constraints cx f cs))"

fun create_ctl_indices ::
  "err_api \<Rightarrow> index_env \<Rightarrow> controller_mappings option \<Rightarrow> string set option \<Rightarrow> ctl_decl list \<Rightarrow> manager \<Rightarrow>
   gerror option \<times> manager" where
  "create_ctl_indices api env m f [] mgr = (None, mgr)"
| "create_ctl_indices api env m f (c # cs) mgr =
     (if \<not> filter_Use f (ctl_GetName c) then create_ctl_indices api env m f cs mgr
      else case ctl_decl_CreateIndices api env m c mgr of
        (Some err, mgr) \<Rightarrow> (Some err, mgr)
      | (None, mgr) \<Rightarrow> create_ctl_indices api env m f cs mgr)"

definition ctl_elements :: "controller_defs \<Rightarrow> ctl_decl list" where
  "ctl_elements d = map snd (gr_elements (kc_defs d))"

definition active_names :: "controller_defs \<Rightarrow> string set" where
  "active_names d = (case kc_filter d of Some l \<Rightarrow> l | None \<Rightarrow> set (ctls_GetNames d))"

definition ctls_CreateIndices ::
  "err_api \<Rightarrow> index_env \<Rightarrow> controller_mappings option \<Rightarrow> controller_defs \<Rightarrow> manager \<Rightarrow> (gerror option \<times> manager) option" where
  "ctls_CreateIndices api env m d mgr =
     (case GetError api (gr_errors (kc_defs d)) of
        Some err \<Rightarrow> Some (Some err, mgr)
      | None \<Rightarrow>
          Option.bind (NewContext (GetControllerSet d)) (\<lambda>cx.
            let cx = WithSelectedSet (active_names d) cx in
            Option.bind (Constraints_Match cx (kc_constraints d)) (\<lambda>(_, err).
              if err \<noteq> None then Some (err, mgr)
              else Option.bind (check_constraints cx (kc_filter d) (ctl_elements d)) (\<lambda>err.
                if err \<noteq> None then Some (err, mgr)
                else Some (create_ctl_indices api env m (kc_filter d) (ctl_elements d) mgr)))))"

fun apply_ctls ::
  "err_api \<Rightarrow> index_env \<Rightarrow> builder_env \<Rightarrow> (string \<Rightarrow> gerror option) \<Rightarrow> controller_mappings option \<Rightarrow> string set option \<Rightarrow>
   (string \<times> ctl_decl) list \<Rightarrow> manager \<Rightarrow> gerror option \<times> manager" where
  "apply_ctls api env be check m f [] mgr = (None, mgr)"
| "apply_ctls api env be check m f ((n, c) # cs) mgr =
     (if \<not> filter_Use f n then apply_ctls api env be check m f cs mgr
      else case ctl_decl_Apply api env be check m c mgr of
        (Some err, mgr) \<Rightarrow> (Some (Wrapf [''controller'', n] err), mgr)
      | (None, mgr) \<Rightarrow> apply_ctls api env be check m f cs mgr)"

definition ctls_Apply ::
  "err_api \<Rightarrow> index_env \<Rightarrow> builder_env \<Rightarrow> (string \<Rightarrow> gerror option) \<Rightarrow> controller_mappings option \<Rightarrow> controller_defs \<Rightarrow>
   manager \<Rightarrow> gerror option \<times> manager" where
  "ctls_Apply api env be check m d mgr =
     (case GetError api (gr_errors (kc_defs d)) of
        Some err \<Rightarrow> (Some err, mgr)
      | None \<Rightarrow> apply_ctls api env be check m (kc_filter d) (gr_elements (kc_defs d)) mgr)"

section \<open>The completion of groups\<close>

text \<open>References of names to controllers: a missing entry is a set that is \<open>nil\<close>.\<close>

type_synonym references = "(string, string set) gomap"

definition refs_AddAll :: "string \<Rightarrow> string set option \<Rightarrow> references \<Rightarrow> references" where
  "refs_AddAll n sub a =
     gset n ((case gget a n of None \<Rightarrow> {} | Some s \<Rightarrow> s) \<union> (case sub of None \<Rightarrow> {} | Some s \<Rightarrow> s)) a"

definition refs_Add :: "string \<Rightarrow> string \<Rightarrow> references \<Rightarrow> references" where
  "refs_Add n c a = gset n (insert c (case gget a n of None \<Rightarrow> {} | Some s \<Rightarrow> s)) a"

partial_function (option) refs_handle ::
  "string list \<Rightarrow> groups \<Rightarrow> string \<Rightarrow> string list \<Rightarrow> references \<Rightarrow> references option" where
  "refs_handle names groups name list r =
     (case list of
        [] \<Rightarrow> Some r
      | n # rest \<Rightarrow>
          Option.bind
            (if gget r n = None
             then (case gget groups n of
                     None \<Rightarrow> Some r
                   | Some sub \<Rightarrow>
                       Option.bind (refs_handle names groups n (case sub of None \<Rightarrow> [] | Some l \<Rightarrow> l) r)
                         (\<lambda>r. Some (refs_AddAll name (gget r n) r)))
             else Some r)
            (\<lambda>r. refs_handle names groups name rest (if n \<in> set names then refs_Add name n r else r)))"

fun refs_groups :: "string list \<Rightarrow> groups \<Rightarrow> groups \<Rightarrow> references \<Rightarrow> references option" where
  "refs_groups names groups [] r = Some r"
| "refs_groups names groups ((g, list) # gs) r =
     Option.bind (refs_handle names groups g (case list of None \<Rightarrow> [] | Some l \<Rightarrow> l) r)
       (\<lambda>r. refs_groups names groups gs r)"

definition CompleteSet :: "controller_set \<Rightarrow> references option" where
  "CompleteSet cs =
     refs_groups (cs_names cs) (cs_groups cs) (cs_groups cs) (fold (\<lambda>n r. refs_Add n n r) (cs_names cs) [])"

section \<open>Lemmas\<close>

lemma refs_AddAll_get [simp]:
  "gget (refs_AddAll n sub a) x = (if x = n then Some ((case gget a n of None \<Rightarrow> {} | Some s \<Rightarrow> s) \<union> (case sub of None \<Rightarrow> {} | Some s \<Rightarrow> s)) else gget a x)"
  by (simp add: refs_AddAll_def)

lemma refs_Add_get [simp]:
  "gget (refs_Add n c a) x = (if x = n then Some (insert c (case gget a n of None \<Rightarrow> {} | Some s \<Rightarrow> s)) else gget a x)"
  by (simp add: refs_Add_def)

lemma refs_names:
  "gget (fold (\<lambda>n r. refs_Add n n r) ns a) x =
    (if x \<in> set ns then Some (insert x (case gget a x of None \<Rightarrow> {} | Some s \<Rightarrow> s)) else gget a x)"
  by (induction ns arbitrary: a) auto

text \<open>A group that starts with a group of \<open>K\<close> which has no references yet is never left.\<close>

definition first_in :: "string set \<Rightarrow> string list \<Rightarrow> bool" where
  "first_in K l \<longleftrightarrow> (case l of [] \<Rightarrow> False | k # _ \<Rightarrow> k \<in> K)"

lemma refs_handle_cycle:
  assumes K: "\<And>k. k \<in> K \<Longrightarrow> \<exists>l. gget gs k = Some (Some l) \<and> first_in K l"
    and run: "refs_handle ns gs name l r = Some y" and r: "\<And>k. k \<in> K \<Longrightarrow> gget r k = None"
  shows "(name \<in> K \<longrightarrow> \<not> first_in K l) \<and> (name \<notin> K \<longrightarrow> (\<forall>k \<in> K. gget y k = None))"
proof -
  have "gs = gs \<longrightarrow> (\<forall>k \<in> K. gget r k = None) \<longrightarrow>
      (name \<in> K \<longrightarrow> \<not> first_in K l) \<and> (name \<notin> K \<longrightarrow> (\<forall>k \<in> K. gget y k = None))"
  proof (rule refs_handle.raw_induct [where P = "\<lambda>ns gs' name l r y. gs' = gs \<longrightarrow> (\<forall>k \<in> K. gget r k = None) \<longrightarrow>
        (name \<in> K \<longrightarrow> \<not> first_in K l) \<and> (name \<notin> K \<longrightarrow> (\<forall>k \<in> K. gget y k = None))", OF _ run])
    fix f ns gs' name l r y
    assume IH: "\<And>ns gs' name l r y. f ns gs' name l r = Some y \<Longrightarrow> gs' = gs \<longrightarrow> (\<forall>k \<in> K. gget r k = None) \<longrightarrow>
        (name \<in> K \<longrightarrow> \<not> first_in K l) \<and> (name \<notin> K \<longrightarrow> (\<forall>k \<in> K. gget y k = None))"
      and step: "(case l of [] \<Rightarrow> Some r
        | n # rest \<Rightarrow>
            Option.bind
              (if gget r n = None
               then (case gget gs' n of None \<Rightarrow> Some r
                     | Some sub \<Rightarrow>
                         Option.bind (f ns gs' n (case sub of None \<Rightarrow> [] | Some l \<Rightarrow> l) r)
                           (\<lambda>r. Some (refs_AddAll name (gget r n) r)))
               else Some r)
              (\<lambda>r. f ns gs' name rest (if n \<in> set ns then refs_Add name n r else r))) = Some y"
    show "gs' = gs \<longrightarrow> (\<forall>k \<in> K. gget r k = None) \<longrightarrow>
        (name \<in> K \<longrightarrow> \<not> first_in K l) \<and> (name \<notin> K \<longrightarrow> (\<forall>k \<in> K. gget y k = None))"
    proof (intro impI)
      assume gs: "gs' = gs" and r: "\<forall>k \<in> K. gget r k = None"
      show "(name \<in> K \<longrightarrow> \<not> first_in K l) \<and> (name \<notin> K \<longrightarrow> (\<forall>k \<in> K. gget y k = None))"
      proof (cases l)
        case Nil
        then show ?thesis
          using step r by (simp add: first_in_def)
      next
        case (Cons n rest)
        have n: "n \<notin> K"
        proof
          assume "n \<in> K"
          then obtain l' where "gget gs n = Some (Some l')" "first_in K l'" "gget r n = None"
            using K r by blast
          then show False
            using step IH [of ns gs n l' r] r \<open>n \<in> K\<close> unfolding Cons gs by (cases "f ns gs n l' r") auto
        qed
        have "\<forall>k \<in> K. gget y k = None" if name: "name \<notin> K"
        proof -
          obtain r1 where r1: "\<forall>k \<in> K. gget r1 k = None"
            "f ns gs name rest (if n \<in> set ns then refs_Add name n r1 else r1) = Some y"
          proof (cases "gget r n = None \<and> gget gs n \<noteq> None")
            case True
            then obtain sub r2 where r2: "gget gs n = Some sub" "f ns gs n (case sub of None \<Rightarrow> [] | Some l \<Rightarrow> l) r = Some r2"
              "f ns gs name rest (if n \<in> set ns then refs_Add name n (refs_AddAll name (gget r2 n) r2)
                 else refs_AddAll name (gget r2 n) r2) = Some y"
              using step unfolding Cons gs by (auto split: Option.bind_splits)
            then have "\<forall>k \<in> K. gget (refs_AddAll name (gget r2 n) r2) k = None"
              using IH [OF r2(2)] r n name by auto
            then show ?thesis
              using that r2(3) by blast
          next
            case False
            then show ?thesis
              using that [of r] step r unfolding Cons gs by (auto split: if_splits)
          qed
          then show ?thesis
            using IH [OF r1(2)] name by (auto split: if_splits)
        qed
        then show ?thesis
          using n by (simp add: first_in_def Cons)
      qed
    qed
  qed
  then show ?thesis
    using r by blast
qed

lemma refs_groups_cycle:
  assumes K: "\<And>k. k \<in> K \<Longrightarrow> \<exists>l. gget gs k = Some (Some l) \<and> first_in K l"
  shows "gwf todo \<Longrightarrow> \<forall>(g, l) \<in> set todo. gget gs g = Some l \<Longrightarrow> \<forall>k \<in> K. gget r k = None \<Longrightarrow>
    \<exists>k \<in> K. k \<in> set (gkeys todo) \<Longrightarrow> refs_groups ns gs todo r = None"
proof (induction todo arbitrary: r)
  case (Cons gl todo)
  obtain g l where gl: "gl = (g, l)"
    by (cases gl)
  let ?l = "case l of None \<Rightarrow> [] | Some l \<Rightarrow> l"
  show ?case
  proof (cases "refs_handle ns gs g ?l r")
    case (Some y)
    have y: "(g \<in> K \<longrightarrow> \<not> first_in K ?l) \<and> (g \<notin> K \<longrightarrow> (\<forall>k \<in> K. gget y k = None))"
      by (rule refs_handle_cycle [OF _ Some]) (use K Cons.prems(3) in auto)
    have "g \<notin> K"
      using y K [of g] Cons.prems(2) by (auto simp: gl)
    then show ?thesis
      using Cons y Some by (auto simp: gl gwf_Cons)
  qed (simp add: gl)
qed simp

text \<open>Members that are not groups without references.\<close>

lemma refs_handle_flat:
  "\<forall>n \<in> set l. gget gs n = None \<or> gget r n \<noteq> None \<Longrightarrow>
    refs_handle ns gs g l r = Some (fold (\<lambda>n r. if n \<in> set ns then refs_Add g n r else r) l r)"
proof (induction l arbitrary: r)
  case (Cons n l)
  then have "\<forall>n' \<in> set l. gget gs n' = None \<or> gget (if n \<in> set ns then refs_Add g n r else r) n' \<noteq> None"
    by auto
  then show ?case
    using Cons by (subst refs_handle.simps) auto
qed (simp add: refs_handle.simps)

lemma refs_members:
  "gget (fold (\<lambda>n r. if n \<in> set ns then refs_Add g n r else r) l r) x =
    (if x = g \<and> set l \<inter> set ns \<noteq> {} then Some (set l \<inter> set ns \<union> (case gget r g of None \<Rightarrow> {} | Some s \<Rightarrow> s)) else gget r x)"
  by (induction l arbitrary: r) (auto split: option.splits)

definition members_of :: "groups \<Rightarrow> string \<Rightarrow> string list" where
  "members_of gs g = (case gget gs g of Some (Some l) \<Rightarrow> l | _ \<Rightarrow> [])"

lemma refs_groups_flat:
  assumes flat: "\<forall>(g, l) \<in> set gs. \<forall>n \<in> set (case l of None \<Rightarrow> [] | Some l \<Rightarrow> l). gget gs n = None \<or> n \<in> set ns"
  shows "gwf todo \<Longrightarrow> set todo \<subseteq> set gs \<Longrightarrow> \<forall>n \<in> set ns. gget r n \<noteq> None \<Longrightarrow>
    \<exists>r'. refs_groups ns gs todo r = Some r' \<and>
      (\<forall>x. gget r' x = (if set (members_of todo x) \<inter> set ns \<noteq> {}
         then Some (set (members_of todo x) \<inter> set ns \<union> (case gget r x of None \<Rightarrow> {} | Some s \<Rightarrow> s)) else gget r x))"
proof (induction todo arbitrary: r)
  case (Cons gl todo)
  obtain g l where gl: "gl = (g, l)"
    by (cases gl)
  let ?l = "case l of None \<Rightarrow> [] | Some l \<Rightarrow> l"
  let ?r = "fold (\<lambda>n r. if n \<in> set ns then refs_Add g n r else r) ?l r"
  have "\<forall>n \<in> set ?l. gget gs n = None \<or> gget r n \<noteq> None"
    using flat Cons.prems(2,3) by (fastforce simp: gl)
  then have run: "refs_handle ns gs g ?l r = Some ?r"
    by (rule refs_handle_flat)
  have wf: "gget todo g = None" "gwf todo"
    using Cons.prems(1) by (simp_all add: gl gwf_Cons)
  have "\<forall>n \<in> set ns. gget ?r n \<noteq> None"
    using Cons.prems(3) by (simp add: refs_members)
  then obtain r' where r': "refs_groups ns gs todo ?r = Some r'"
    "\<forall>x. gget r' x = (if set (members_of todo x) \<inter> set ns \<noteq> {}
       then Some (set (members_of todo x) \<inter> set ns \<union> (case gget ?r x of None \<Rightarrow> {} | Some s \<Rightarrow> s)) else gget ?r x)"
    using Cons.IH [of ?r] wf(2) Cons.prems(2) by auto
  have "members_of (gl # todo) x = (if x = g then ?l else members_of todo x)" for x
    by (simp add: members_of_def gl split: option.split)
  moreover have "members_of todo g = []"
    by (simp add: members_of_def wf(1))
  ultimately show ?case
    using r' run by (auto simp: gl refs_members)
qed (simp add: members_of_def)

section \<open>Properties\<close>

text \<open>
  The completion of groups. For groups of controllers it ends with every controller
  standing for itself and every group for its members. A group of a group gets the members
  only if it is completed before the inner group, otherwise it gets nothing, and groups that
  begin with each other make the completion run forever.
\<close>

theorem complete_set:
  shows "(gwf gs \<and> (\<forall>(g, l) \<in> set gs. \<forall>n \<in> set (case l of None \<Rightarrow> [] | Some l \<Rightarrow> l). gget gs n = None \<or> n \<in> set ns) \<longrightarrow>
      (\<exists>r. CompleteSet \<lparr>cs_names = ns, cs_groups = gs\<rparr> = Some r \<and>
        (\<forall>x. gget r x = (let s = set (members_of gs x) \<inter> set ns \<union> (if x \<in> set ns then {x} else {})
           in if s = {} then None else Some s)))) \<and>
    (i \<notin> set ns \<and> g \<notin> set ns \<and> i \<noteq> g \<and> set cs \<subseteq> set ns \<and> cs \<noteq> [] \<longrightarrow>
      (\<exists>r. CompleteSet \<lparr>cs_names = ns, cs_groups = [(i, Some cs), (g, Some [i])]\<rparr> = Some r \<and>
        gget r i = Some (set cs) \<and> gget r g = None) \<and>
      (\<exists>r. CompleteSet \<lparr>cs_names = ns, cs_groups = [(g, Some [i]), (i, Some cs)]\<rparr> = Some r \<and>
        gget r i = Some (set cs) \<and> gget r g = Some (set cs))) \<and>
    (gwf gs \<and> K \<noteq> {} \<and> K \<inter> set ns = {} \<and> (\<forall>k \<in> K. \<exists>l. gget gs k = Some (Some l) \<and> first_in K l) \<longrightarrow>
      CompleteSet \<lparr>cs_names = ns, cs_groups = gs\<rparr> = None)"
proof (intro conjI impI)
  assume flat: "gwf gs \<and> (\<forall>(g, l) \<in> set gs. \<forall>n \<in> set (case l of None \<Rightarrow> [] | Some l \<Rightarrow> l). gget gs n = None \<or> n \<in> set ns)"
  let ?r0 = "fold (\<lambda>n r. refs_Add n n r) ns []"
  obtain r where "refs_groups ns gs gs ?r0 = Some r"
    "\<forall>x. gget r x = (if set (members_of gs x) \<inter> set ns \<noteq> {}
       then Some (set (members_of gs x) \<inter> set ns \<union> (case gget ?r0 x of None \<Rightarrow> {} | Some s \<Rightarrow> s)) else gget ?r0 x)"
    using refs_groups_flat [of gs ns gs ?r0] flat by (auto simp: refs_names)
  then show "\<exists>r. CompleteSet \<lparr>cs_names = ns, cs_groups = gs\<rparr> = Some r \<and>
      (\<forall>x. gget r x = (let s = set (members_of gs x) \<inter> set ns \<union> (if x \<in> set ns then {x} else {})
         in if s = {} then None else Some s))"
    by (auto simp: CompleteSet_def refs_names Let_def)
next
  assume "gwf gs \<and> K \<noteq> {} \<and> K \<inter> set ns = {} \<and> (\<forall>k \<in> K. \<exists>l. gget gs k = Some (Some l) \<and> first_in K l)"
  then have K: "gwf gs" "K \<noteq> {}" "K \<inter> set ns = {}" "\<And>k. k \<in> K \<Longrightarrow> \<exists>l. gget gs k = Some (Some l) \<and> first_in K l"
    by blast+
  have "refs_groups ns gs gs (fold (\<lambda>n r. refs_Add n n r) ns []) = None"
  proof (rule refs_groups_cycle [OF K(4) K(1)])
    show "\<exists>k \<in> K. k \<in> set (gkeys gs)"
      using K(2,4) by (metis ex_in_conv gget_None_iff option.distinct(1))
  qed (use K(3) in \<open>auto simp: refs_names gget_Some_iff [OF K(1)]\<close>)
  then show "CompleteSet \<lparr>cs_names = ns, cs_groups = gs\<rparr> = None"
    by (simp add: CompleteSet_def)
next
  assume *: "i \<notin> set ns \<and> g \<notin> set ns \<and> i \<noteq> g \<and> set cs \<subseteq> set ns \<and> cs \<noteq> []"
  let ?r0 = "fold (\<lambda>n r. refs_Add n n r) ns []"
  have cs: "set cs \<inter> set ns = set cs" "set cs \<noteq> {}"
    using * by auto
  have inner: "refs_handle ns gs i cs r = Some (fold (\<lambda>n r. if n \<in> set ns then refs_Add i n r else r) cs r)"
    if "\<forall>n \<in> set ns. gget r n \<noteq> None" for gs r
    using that * by (intro refs_handle_flat) auto
  let ?r1 = "fold (\<lambda>n r. if n \<in> set ns then refs_Add i n r else r) cs ?r0"
  have ig: "i \<noteq> g" "g \<noteq> i" "gget ?r0 i = None" "gget ?r0 g = None"
    using * by (auto simp: refs_names)
  then have r1: "gget ?r1 i = Some (set cs)" "gget ?r1 g = None"
    using cs by (simp_all add: refs_members)
  show "\<exists>r. CompleteSet \<lparr>cs_names = ns, cs_groups = [(i, Some cs), (g, Some [i])]\<rparr> = Some r \<and>
      gget r i = Some (set cs) \<and> gget r g = None"
    using * inner [of ?r0] r1 by (simp add: CompleteSet_def refs_names refs_handle.simps [of _ _ g])
  have "refs_handle ns [(g, Some [i]), (i, Some cs)] g [i] ?r0 = Some (refs_AddAll g (Some (set cs)) ?r1)"
    using * inner [of ?r0] r1 by (simp add: refs_names refs_handle.simps [of _ _ g])
  moreover have "\<forall>n \<in> set ns. gget (refs_AddAll g (Some (set cs)) ?r1) n \<noteq> None"
    using * by (simp add: refs_members refs_names)
  ultimately show "\<exists>r. CompleteSet \<lparr>cs_names = ns, cs_groups = [(g, Some [i]), (i, Some cs)]\<rparr> = Some r \<and>
      gget r i = Some (set cs) \<and> gget r g = Some (set cs)"
    using * inner [of "refs_AddAll g (Some (set cs)) ?r1"] ig cs by (simp add: CompleteSet_def refs_members)
qed

theorem complete_set_witness:
  "CompleteSet \<lparr>cs_names = [''a''], cs_groups = [(''A'', Some [''B'']), (''B'', Some [''A''])]\<rparr> = None"
proof -
  have "gwf [(''A'', Some [''B'']), (''B'', Some [''A''])]"
    "\<forall>k \<in> {''A'', ''B''}. \<exists>l. gget [(''A'', Some [''B'']), (''B'', Some [''A''])] k = Some (Some l) \<and> first_in {''A'', ''B''} l"
    by (simp_all add: gwf_def first_in_def)
  then show ?thesis
    using complete_set [of "[(''A'', Some [''B'']), (''B'', Some [''A''])]" "[''a'']" _ _ _ "{''A'', ''B''}"] by fastforce
qed

section \<open>Rules and the filter\<close>

definition ctl_names :: "manager \<Rightarrow> string set" where
  "ctl_names mgr = set (gkeys (gr_elements (mg_controllers mgr)))"

text \<open>The context of the rules of a set: its groups and the active controllers.\<close>

definition rule_ctx :: "controller_defs \<Rightarrow> ctx" where
  "rule_ctx d = WithSelectedSet (active_names d) (the (NewContext (GetControllerSet d)))"

lemma rule_ctx_ok: "ctx_ok (rule_ctx d)" "NewContext (GetControllerSet d) \<noteq> None"
  "selected (rule_ctx d) = active_names d"
proof -
  obtain c where c: "NewContext (GetControllerSet d) = Some c"
    "\<forall>g. Context_GetGroup g c =
      (if g \<in> set (gkeys (cs_groups (GetControllerSet d))) then Some (leaves_of (cs_groups (GetControllerSet d)) g) else None)"
    using NewContext_total [of "GetControllerSet d"] by blast
  have "finite s" if "Context_GetGroup g c = Some s" for g s
    using that c(2) by (metis finite_leaves option.distinct(1) option.inject)
  then show "ctx_ok (rule_ctx d)" "NewContext (GetControllerSet d) \<noteq> None" "selected (rule_ctx d) = active_names d"
    using c(1) by (auto simp: rule_ctx_def WithSelectedSet_def ctx_ok_def Context_GetGroup_def)
qed

lemma Constraints_Match_meaning:
  "ctx_ok cx \<Longrightarrow> \<exists>a e. Constraints_Match cx cs = Some (a, e) \<and> (e \<noteq> None \<longleftrightarrow> complains cx (And cs))"
  using Match_meaning(1) [of cx "And cs"] unfolding Constraints_Match_def by blast

lemma check_constraints_meaning:
  assumes "ctx_ok cx"
  shows "\<exists>e. check_constraints cx f cs = Some e \<and>
    (e \<noteq> None \<longleftrightarrow> (\<exists>c \<in> set cs. filter_Use f (ctl_GetName c) \<and> complains cx (And (kd_constraints (ctl_of c)))))"
proof (induction cs)
  case (Cons c cs)
  obtain a e where "Constraints_Match cx (kd_constraints (ctl_of c)) = Some (a, e)"
    "e \<noteq> None \<longleftrightarrow> complains cx (And (kd_constraints (ctl_of c)))"
    using Constraints_Match_meaning [OF assms] by blast
  then show ?case
    using Cons by auto
qed simp

text \<open>The creation of the indices: the outcome \<open>e\<close> of the rules, then the outcome \<open>e'\<close> of the constraints.\<close>

lemma ctls_CreateIndices_run:
  assumes "GetError api (gr_errors (kc_defs d)) = None"
  obtains e e' where
    "ctls_CreateIndices api env m d mgr =
      Some (if e \<noteq> None then (e, mgr) else if e' \<noteq> None then (e', mgr)
            else create_ctl_indices api env m (kc_filter d) (ctl_elements d) mgr)"
    "e \<noteq> None \<longleftrightarrow> complains (rule_ctx d) (And (kc_constraints d))"
    "e' \<noteq> None \<longleftrightarrow> (\<exists>c \<in> set (ctl_elements d). filter_Use (kc_filter d) (ctl_GetName c) \<and>
       complains (rule_ctx d) (And (kd_constraints (ctl_of c))))"
proof -
  obtain a e where rules: "Constraints_Match (rule_ctx d) (kc_constraints d) = Some (a, e)"
    "e \<noteq> None \<longleftrightarrow> complains (rule_ctx d) (And (kc_constraints d))"
    using Constraints_Match_meaning [OF rule_ctx_ok(1)] by blast
  obtain e' where own: "check_constraints (rule_ctx d) (kc_filter d) (ctl_elements d) = Some e'"
    "e' \<noteq> None \<longleftrightarrow> (\<exists>c \<in> set (ctl_elements d). filter_Use (kc_filter d) (ctl_GetName c) \<and>
       complains (rule_ctx d) (And (kd_constraints (ctl_of c))))"
    using check_constraints_meaning [OF rule_ctx_ok(1)] by blast
  obtain cx where cx: "NewContext (GetControllerSet d) = Some cx" "WithSelectedSet (active_names d) cx = rule_ctx d"
    using rule_ctx_ok(2) by (auto simp: rule_ctx_def)
  show ?thesis
    by (rule that [OF _ rules(2) own(2)]) (simp add: ctls_CreateIndices_def assms cx rules(1) own(1) Let_def)
qed

section \<open>Creation\<close>

lemma ctl_Group_Add:
  "Group_Add api (\<lambda>n. n) any [x] g = (e, g') \<Longrightarrow>
    set (gkeys (gr_elements g')) = insert x (set (gkeys (gr_elements g)))"
  using Group_Add_fold [of api "\<lambda>n. n" any "[x]" g] by (simp add: group_step_keys del: set_map)

lemma ApplyHealthChecks_controllers:
  "ApplyHealthChecks check base h mgr = (err, mgr') \<Longrightarrow> mg_controllers mgr' = mg_controllers mgr"
  by (auto simp: ApplyHealthChecks_def split: prod.splits option.splits)

text \<open>The outcomes of creating a controller: it is refused, or it is registered.\<close>

lemma ctl_Apply_cases:
  assumes g: "Group_Add api (\<lambda>n. n) (\<lambda>_. AnyOther) [kd_name d] (mg_controllers mgr) = (e, g)"
    and mgr2: "ApplyHealthChecks check (kd_name d) (kd_health d) (mgr\<lparr>mg_controllers := g\<rparr>) = (e', mgr2)"
    and P: "\<And>err. P (Some err, mgr)" "\<And>err. e = Some err \<Longrightarrow> P (Some err, mgr\<lparr>mg_controllers := g\<rparr>)"
      "e = None \<Longrightarrow> P (None, mgr2)" "\<And>err. e = None \<Longrightarrow> P (Some err, mgr2)"
  shows "P (ctl_Apply api env be check m d mgr)"
  using g mgr2 P unfolding ctl_Apply_def Let_def
  by (simp split: sum.split option.split prod.split)

lemma ctl_Apply_names:
  assumes "ctl_Apply api env be check m d mgr = (err, mgr')"
  shows "ctl_names mgr \<subseteq> ctl_names mgr' \<and> ctl_names mgr' \<subseteq> insert (kd_name d) (ctl_names mgr) \<and>
    (err = None \<longrightarrow> kd_name d \<in> ctl_names mgr') \<and>
    mg_clusters mgr' = mg_clusters mgr \<and> mg_indices mgr' = mg_indices mgr \<and> mg_components mgr' = mg_components mgr"
proof -
  obtain e g where g: "Group_Add api (\<lambda>n. n) (\<lambda>_. AnyOther) [kd_name d] (mg_controllers mgr) = (e, g)"
    by fastforce
  obtain e' mgr2 where mgr2: "ApplyHealthChecks check (kd_name d) (kd_health d) (mgr\<lparr>mg_controllers := g\<rparr>) = (e', mgr2)"
    by fastforce
  have "(\<lambda>(err, mgr'). ctl_names mgr \<subseteq> ctl_names mgr' \<and> ctl_names mgr' \<subseteq> insert (kd_name d) (ctl_names mgr) \<and>
      (err = None \<longrightarrow> kd_name d \<in> ctl_names mgr') \<and>
      mg_clusters mgr' = mg_clusters mgr \<and> mg_indices mgr' = mg_indices mgr \<and> mg_components mgr' = mg_components mgr)
     (ctl_Apply api env be check m d mgr)"
    by (rule ctl_Apply_cases [OF g mgr2])
      (use ctl_Group_Add [OF g] ApplyHealthChecks_fields [OF mgr2] ApplyHealthChecks_controllers [OF mgr2]
        in \<open>auto simp: ctl_names_def simp del: set_map\<close>)
  then show ?thesis
    by (simp add: assms)
qed

lemma ctl_decl_Apply_names:
  assumes "ctl_decl_Apply api env be check m c mgr = (err, mgr')"
  shows "ctl_names mgr \<subseteq> ctl_names mgr' \<and> ctl_names mgr' \<subseteq> insert (ctl_GetName c) (ctl_names mgr) \<and>
    (err = None \<longrightarrow> ctl_GetName c \<in> ctl_names mgr') \<and>
    mg_clusters mgr' = mg_clusters mgr \<and> mg_indices mgr' = mg_indices mgr \<and> mg_components mgr' = mg_components mgr"
  using assms
proof (induction c arbitrary: m)
  case (CtlPlain d)
  then show ?case
    using ctl_Apply_names [of api env be check m d mgr err mgr'] by (simp add: ctl_GetName_def)
next
  case (CtlMapped c mp)
  then show ?case
    using CtlMapped.IH [of "Some (ControllerMappings_ApplyTo mp m)"] by (simp add: ctl_GetName_def)
qed

lemma apply_ctls_names:
  assumes "\<forall>(n, c) \<in> set cs. ctl_GetName c = n" "apply_ctls api env be check m f cs mgr = (err, mgr')"
  shows "ctl_names mgr \<subseteq> ctl_names mgr' \<and>
    ctl_names mgr' \<subseteq> ctl_names mgr \<union> {n \<in> set (gkeys cs). filter_Use f n} \<and>
    (err = None \<longrightarrow> {n \<in> set (gkeys cs). filter_Use f n} \<subseteq> ctl_names mgr') \<and>
    mg_clusters mgr' = mg_clusters mgr \<and> mg_indices mgr' = mg_indices mgr \<and> mg_components mgr' = mg_components mgr"
  using assms
proof (induction cs arbitrary: mgr)
  case (Cons nc cs)
  obtain n c where nc: "nc = (n, c)" "ctl_GetName c = n"
    using Cons.prems(1) by (cases nc) auto
  show ?case
  proof (cases "filter_Use f n")
    case False
    then show ?thesis
      using Cons.IH [of mgr] Cons.prems by (auto simp: nc)
  next
    case True
    obtain e mgr1 where run: "ctl_decl_Apply api env be check m c mgr = (e, mgr1)"
      by fastforce
    note one = ctl_decl_Apply_names [OF run, unfolded nc(2)]
    show ?thesis
    proof (cases e)
      case None
      then show ?thesis
        using Cons.IH [of mgr1] Cons.prems True run one by (auto simp: nc(1))
    next
      case (Some x)
      then show ?thesis
        using Cons.prems(2) True run one by (auto simp: nc(1))
    qed
  qed
qed auto

text \<open>
  C24: Only activated controllers are created. Whatever the outcome, applying a set adds no
  other controller to the manager and keeps its clusters, indices and components; without an
  error it creates all activated ones, and a set with errors creates none.
\<close>

theorem active_controllers:
  assumes "\<forall>(n, c) \<in> set (gr_elements (kc_defs d)). ctl_GetName c = n"
    and "ctls_Apply api env be check m d mgr = (err, mgr')"
  shows "ctl_names mgr \<subseteq> ctl_names mgr' \<and>
    ctl_names mgr' \<subseteq> ctl_names mgr \<union> {n \<in> set (gkeys (gr_elements (kc_defs d))). filter_Use (kc_filter d) n} \<and>
    (err = None \<longrightarrow>
      ctl_names mgr' = ctl_names mgr \<union> {n \<in> set (gkeys (gr_elements (kc_defs d))). filter_Use (kc_filter d) n}) \<and>
    (GetError api (gr_errors (kc_defs d)) \<noteq> None \<longrightarrow> err = GetError api (gr_errors (kc_defs d)) \<and> mgr' = mgr) \<and>
    mg_clusters mgr' = mg_clusters mgr \<and> mg_indices mgr' = mg_indices mgr \<and> mg_components mgr' = mg_components mgr"
proof (cases "GetError api (gr_errors (kc_defs d))")
  case None
  then have "apply_ctls api env be check m (kc_filter d) (gr_elements (kc_defs d)) mgr = (err, mgr')"
    using assms(2) by (simp add: ctls_Apply_def)
  note apply_ctls_names [OF assms(1) this]
  then show ?thesis
    using None by auto
next
  case (Some x)
  then show ?thesis
    using assms(2) by (auto simp: ctls_Apply_def)
qed

section \<open>Well-formed definitions\<close>

text \<open>The definitions that the operations of the composition interface build.\<close>

inductive ctl_built :: "err_api \<Rightarrow> ctl_def \<Rightarrow> bool" for api where
  Built_Define: "ctl_built api (ctl_Define name cl proto fac)"
| Built_InGroup: "ctl_built api d \<Longrightarrow> ctl_built api (InGroup gs d)"
| Built_Predicates: "ctl_built api d \<Longrightarrow> ctl_built api (WithPredicates ps d)"
| Built_Finalizer: "ctl_built api d \<Longrightarrow> ctl_built api (WithFinalizer s d)"
| Built_UseCluster: "ctl_built api d \<Longrightarrow> ctl_built api (ctl_UseCluster ns d)"
| Built_UseComponent: "ctl_built api d \<Longrightarrow> ctl_built api (ctl_UseComponent ns d)"
| Built_Constraint: "ctl_built api d \<Longrightarrow> ctl_built api (ctl_WithActivationConstraint cs d)"
| Built_Foreign: "ctl_built api d \<Longrightarrow> ctl_built api (ctl_AddForeignIndex api is d)"
| Built_Index: "ctl_built api d \<Longrightarrow> ctl_built api (ctl_AddIndex api name d)"
| Built_Factory: "ctl_built api d \<Longrightarrow> ctl_built api (ctl_AddIndexByFactory api name fac d)"
| Built_Import: "ctl_built api d \<Longrightarrow> ctl_built api (ctl_ImportIndex api i d)"
| Built_Trigger: "ctl_built api d \<Longrightarrow> ctl_built api (ctl_AddTrigger ts d)"

text \<open>
  A definition is well-formed when it declares the clusters of its main resource and of its
  triggers, its own indices are on the cluster of the main resource, and the three sets of indices
  share no name. Nothing is required of the clusters of foreign and imported indices.
\<close>

definition index_names :: "index_def definitions \<Rightarrow> string set" where
  "index_names d = set (gkeys (gr_elements d))"

definition ctl_ok :: "ctl_def \<Rightarrow> bool" where
  "ctl_ok d \<longleftrightarrow> distinct (kd_clusters d) \<and> kd_cluster d \<in> set (kd_clusters d) \<and>
     (\<forall>t \<in> set (kd_triggers d). tr_cluster t = [] \<or> tr_cluster t \<in> set (kd_clusters d)) \<and>
     (\<forall>(n, i) \<in> set (gr_elements (kd_indices d)). id_name i = n \<and> id_target i = kd_cluster d) \<and>
     index_names (kd_indices d) \<inter> index_names (kd_imports d) = {} \<and>
     index_names (kd_indices d) \<inter> index_names (kd_foreign d) = {} \<and>
     index_names (kd_imports d) \<inter> index_names (kd_foreign d) = {}"

lemma add_names_set [simp]: "set (add_names ns l) = set l \<union> set ns"
  by (induction ns arbitrary: l) (auto simp: add_names_def)

lemma add_names_distinct: "distinct l \<Longrightarrow> distinct (add_names ns l)"
  by (induction ns arbitrary: l) (auto simp: add_names_def)

lemma index_Add_one:
  "gr_elements (index_Add api [i] d) = (if index_known (id_name i) d then gr_elements d else gset (id_name i) i (gr_elements d))"
proof -
  have "gr_elements (index_Add api [i] d) = gr_elements (fold (group_step api id_name (\<lambda>_. AnyOther)) [i] (elem_group.truncate d))"
    unfolding index_Add_def by (metis Definitions_Add_group elem_group.truncate_def elem_group.select_convs(2))
  then show ?thesis
    by (auto simp: group_step_elements elem_group.truncate_def index_known_def)
qed

lemma index_known_names: "index_known n d \<longleftrightarrow> n \<in> index_names d"
  by (simp add: index_known_def index_names_def gget_None_iff del: set_map)

lemma index_Add_names: "index_names (index_Add api [i] d) = insert (id_name i) (index_names d)"
proof (cases "index_known (id_name i) d")
  case True
  then show ?thesis
    by (auto simp: index_names_def index_Add_one index_known_names simp del: set_map)
next
  case False
  then show ?thesis
    by (simp add: index_names_def index_Add_one del: set_map)
qed

lemma ctl_ok_more:
  "ctl_ok d \<Longrightarrow> ctl_ok (ctl_UseCluster ns d)"
  by (auto simp: ctl_ok_def ctl_UseCluster_def add_names_distinct)

lemma ctl_ok_same:
  "ctl_ok d \<Longrightarrow> ctl_ok (InGroup gs d)" "ctl_ok d \<Longrightarrow> ctl_ok (WithPredicates ps d)" "ctl_ok d \<Longrightarrow> ctl_ok (WithFinalizer s d)"
  "ctl_ok d \<Longrightarrow> ctl_ok (ctl_UseComponent ns d)" "ctl_ok d \<Longrightarrow> ctl_ok (ctl_WithActivationConstraint cs d)"
  "ctl_ok d \<Longrightarrow> ctl_ok (ctl_error api e d)"
  by (simp_all add: ctl_ok_def InGroup_def WithPredicates_def WithFinalizer_def ctl_UseComponent_def
      ctl_WithActivationConstraint_def ctl_error_def)

lemma ctl_ok_foreign: "ctl_ok d \<Longrightarrow> ctl_ok (ctl_AddForeignIndex api is d)"
proof (induction api "is" d rule: ctl_AddForeignIndex.induct)
  case (2 api i "is" d)
  show ?case
  proof (cases "ctl_knows (id_name i) d")
    case False
    then have "ctl_ok (d\<lparr>kd_foreign := index_Add api [i] (kd_foreign d)\<rparr>)"
      using "2.prems" by (auto simp: ctl_ok_def ctl_knows_def index_known_names index_Add_names)
    then show ?thesis
      using "2.IH" False by simp
  qed (use 2 ctl_ok_same(6) in simp)
qed simp

lemma ctl_ok_import: "ctl_ok d \<Longrightarrow> ctl_ok (ctl_ImportIndex api i d)"
  by (auto simp: ctl_ImportIndex_def ctl_ok_same(6))
    (auto simp: ctl_ok_def ctl_knows_def index_known_names index_Add_names)

lemma ctl_ok_put:
  assumes "ctl_ok d" "\<not> ctl_knows (id_name i) d" "id_target i = kd_cluster d"
  shows "ctl_ok (ctl_put_index api name i d)"
proof -
  have elements: "gr_elements (index_Add api [i] (kd_indices d)) = gset (id_name i) i (gr_elements (kd_indices d))"
    using assms(2) by (simp add: index_Add_one ctl_knows_def)
  have "x \<in> set (gset (id_name i) i es) \<Longrightarrow> x = (id_name i, i) \<or> x \<in> set es" for x es
    by (induction es) (auto simp: gset_def split: if_splits)
  then show ?thesis
    using assms unfolding ctl_put_index_def
    by (intro ctl_ok_more) (fastforce simp: ctl_ok_def ctl_knows_def index_known_names index_Add_names elements)
qed

lemma ctl_ok_trigger: "ctl_ok d \<Longrightarrow> ctl_ok (ctl_AddTrigger ts d)"
proof (induction ts d rule: ctl_AddTrigger.induct)
  case (2 t ts d)
  have "ctl_ok (if tr_cluster t \<noteq> [] then ctl_UseCluster [tr_cluster t] (d\<lparr>kd_triggers := kd_triggers d @ [t]\<rparr>)
      else d\<lparr>kd_triggers := kd_triggers d @ [t]\<rparr>)"
    using "2.prems" by (auto simp: ctl_ok_def ctl_UseCluster_def add_names_distinct)
  then show ?case
    using "2.IH" [OF refl] by (simp add: Let_def)
qed simp

lemma ctl_built_ok: "ctl_built api d \<Longrightarrow> ctl_ok d"
proof (induction rule: ctl_built.induct)
  case (Built_Define name cl proto fac)
  then show ?case
    by (simp add: ctl_ok_def ctl_Define_def ctl_UseCluster_def add_names_def NewDefinitions_def index_names_def)
next
  case (Built_Index d name)
  then show ?case
    by (auto simp: ctl_AddIndex_def Let_def ctl_ok_same(6) index_Define_def intro!: ctl_ok_put)
next
  case (Built_Factory d name fac)
  then show ?case
    by (auto simp: ctl_AddIndexByFactory_def Let_def ctl_ok_same(6) DefineByFactory_def intro!: ctl_ok_put)
qed (simp_all add: ctl_ok_same ctl_ok_more ctl_ok_foreign ctl_ok_import ctl_ok_trigger)

text \<open>A projection resolves every name it is asked for.\<close>

lemma set_Map_resolves:
  assumes "set_Map api mp cl names = Inr cs" "distinct names" "n \<in> set names" "CHR ''#'' \<notin> set n"
  shows "set_Get cs n \<noteq> None"
proof -
  have ok: "\<forall>l \<in> set names. set_Get cl (Mappings_Map mp l) \<noteq> None"
    using project_error [of names cl mp api newClusters] assms(1) by (fastforce simp: set_Map_def)
  obtain n' where "project api mp cl names newClusters = Inr n'"
    "\<forall>l. Group_Get (cs_group n') l =
        (if l \<in> set names then Some (NewAlias l (the (set_Get cl (Mappings_Map mp l))))
         else Group_Get (cs_group newClusters) l)"
    using project_ok [OF ok assms(2), of newClusters api] by auto
  then show ?thesis
    using assms(1,3) by (simp add: set_Map_def set_Get_plain [OF assms(4)])
qed

text \<open>
  C32: A definition that the composition interface builds declares the clusters of its main
  resource and of its triggers, its own indices are on the cluster of the main resource, and no
  two of its indices share a name. Therefore, once the declared clusters are projected, the
  cluster of the main resource and of its own indices, and those of all triggers, are found when
  the controller is completed. A foreign index may be added for any cluster, declared or not: the
  validation refuses it if its cluster is not declared, unless the factory of the reconciler
  validates by itself, which replaces this check; a validated one is found as well.
\<close>

theorem built_controllers:
  assumes "ctl_built api d"
  shows "ctl_ok d \<and>
    (\<forall>mp cl cs. set_Map api mp cl (kd_clusters d) = Inr cs \<longrightarrow>
      (CHR ''#'' \<notin> set (kd_cluster d) \<longrightarrow> set_Get cs (kd_cluster d) \<noteq> None \<and>
        (\<forall>(n, i) \<in> set (gr_elements (kd_indices d)). set_Get cs (id_target i) \<noteq> None)) \<and>
      (\<forall>t \<in> set (kd_triggers d). CHR ''#'' \<notin> set (tr_cluster t) \<longrightarrow> tr_cluster t \<noteq> [] \<longrightarrow>
        set_Get cs (tr_cluster t) \<noteq> None) \<and>
      (\<forall>(n, i) \<in> set (gr_elements (kd_foreign d)). rf_validate (kd_reconciler d) = None \<and> ctl_Validate None d = None \<longrightarrow>
        CHR ''#'' \<notin> set (id_target i) \<longrightarrow> set_Get cs (id_target i) \<noteq> None)) \<and>
    (\<forall>i fwd. id_target i \<notin> set (kd_clusters d) \<and> \<not> ctl_knows (id_name i) d \<longrightarrow>
      (let d' = ctl_AddForeignIndex api [i] d in
       ctl_built api d' \<and> kd_errors d' = kd_errors d \<and>
       (rf_validate (kd_reconciler d) = None \<longrightarrow> ctl_Validate fwd d' \<noteq> None) \<and>
       (\<forall>err. rf_validate (kd_reconciler d) = Some err \<longrightarrow> ctl_Validate fwd d' = map_option (Wrapf [kd_name d]) err)))"
proof -
  have ok: "ctl_ok d"
    using assms by (rule ctl_built_ok)
  have declared: "id_target i \<in> set (kd_clusters d)"
    if "(n, i) \<in> set (gr_elements (kd_foreign d))" "rf_validate (kd_reconciler d) = None" "ctl_Validate None d = None" for n i
    using that by (auto simp: ctl_Validate_def find_None_iff split: option.splits)
  have found: "set_Get cs c \<noteq> None"
    if "set_Map api mp cl (kd_clusters d) = Inr cs" "c \<in> set (kd_clusters d)" "CHR ''#'' \<notin> set c" for mp cl cs c
    by (rule set_Map_resolves [OF that(1) _ that(2,3)]) (use ok in \<open>simp add: ctl_ok_def\<close>)
  have added: "let d' = ctl_AddForeignIndex api [i] d in
       ctl_built api d' \<and> kd_errors d' = kd_errors d \<and>
       (rf_validate (kd_reconciler d) = None \<longrightarrow> ctl_Validate fwd d' \<noteq> None) \<and>
       (\<forall>err. rf_validate (kd_reconciler d) = Some err \<longrightarrow> ctl_Validate fwd d' = map_option (Wrapf [kd_name d]) err)"
    if i: "id_target i \<notin> set (kd_clusters d) \<and> \<not> ctl_knows (id_name i) d" for i fwd
  proof -
    have "(id_name i, i) \<in> set (gr_elements (index_Add api [i] (kd_foreign d)))"
      using i by (simp add: index_Add_one ctl_knows_def) (metis gget_gset fun_upd_same map_of_SomeD)
    then have "find (\<lambda>(_, i). id_target i \<notin> set (kd_clusters d)) (gr_elements (index_Add api [i] (kd_foreign d))) \<noteq> None"
      using i unfolding find_None_iff by auto
    then show ?thesis
      using i ctl_built.Built_Foreign [OF assms, of "[i]"] by (auto simp: ctl_Validate_def split: option.split)
  qed
  show ?thesis
  proof (intro conjI allI impI ok)
    fix mp cl cs
    assume map: "set_Map api mp cl (kd_clusters d) = Inr cs"
    show "set_Get cs (kd_cluster d) \<noteq> None" if "CHR ''#'' \<notin> set (kd_cluster d)"
      using found [OF map _ that] ok by (simp add: ctl_ok_def)
    show "\<forall>(n, i) \<in> set (gr_elements (kd_indices d)). set_Get cs (id_target i) \<noteq> None" if "CHR ''#'' \<notin> set (kd_cluster d)"
      using found [OF map _ that] ok by (auto simp: ctl_ok_def)
    show "\<forall>t \<in> set (kd_triggers d). CHR ''#'' \<notin> set (tr_cluster t) \<longrightarrow> tr_cluster t \<noteq> [] \<longrightarrow> set_Get cs (tr_cluster t) \<noteq> None"
      using found [OF map] ok by (auto simp: ctl_ok_def)
    show "\<forall>(n, i) \<in> set (gr_elements (kd_foreign d)). rf_validate (kd_reconciler d) = None \<and> ctl_Validate None d = None \<longrightarrow>
        CHR ''#'' \<notin> set (id_target i) \<longrightarrow> set_Get cs (id_target i) \<noteq> None"
      using found [OF map] declared by blast
  qed (rule added)
qed

section \<open>Witnesses\<close>

definition rec_demo :: rec_factory where
  "rec_demo = \<lparr>rf_create = (\<lambda>_. None), rf_finalizer = None, rf_validate = None\<rparr>"

definition ctl_demo :: ctl_def where
  "ctl_demo = ctl_AddTrigger [\<lparr>tr_desc = ''owner'', tr_resource = ''Pod'', tr_cluster = ''target'', tr_mapper = None\<rparr>]
     (InGroup [''A''] (ctl_Define ''sync'' ''main'' ''Deployment'' rec_demo))"

theorem built_controllers_witness:
  "ctl_ok ctl_demo \<and> set (kd_clusters ctl_demo) = {''main'', ''target''}"
proof -
  have "ctl_built err_demo ctl_demo"
    unfolding ctl_demo_def by (intro ctl_built.intros)
  then have "ctl_ok ctl_demo"
    using built_controllers [of err_demo ctl_demo] by blast
  then show ?thesis
    by (auto simp: ctl_demo_def InGroup_def ctl_Define_def ctl_UseCluster_def Let_def)
qed

definition ctls_demo :: controller_defs where
  "ctls_demo = AddRule [Complete [''A'']] (ctls_Add err_demo
     [CtlPlain ctl_demo, CtlPlain (InGroup [''A''] (ctl_Define ''watch'' ''main'' ''Pod'' rec_demo))] ctls_NewDefinitions)"

definition be_demo :: builder_env where
  "be_demo = \<lparr>be_config = (\<lambda>_. None), be_trigger = (\<lambda>_ _. None), be_complete = (\<lambda>_. None)\<rparr>"

lemma ctls_demo_simps:
  "gr_elements (kc_defs ctls_demo) = [(''sync'', CtlPlain ctl_demo), (''watch'', CtlPlain (InGroup [''A''] (ctl_Define ''watch'' ''main'' ''Pod'' rec_demo)))]"
  "kc_filter ctls_demo = None" "GetError err_demo (gr_errors (kc_defs ctls_demo)) = None"
  "kc_groups ctls_demo = [(''A'', Some [''sync'', ''watch''])]" "kc_constraints ctls_demo = [Complete [''A'']]"
  by (simp_all add: ctls_demo_def AddRule_def ctls_Add_def ctls_NewDefinitions_def Definitions_Add_def ds_add_one_def
      NewDefinitions_def elem_group.truncate_def NewErrorContainer_def AddError_def err_demo_def gset_def Let_def
      ctl_demo_def InGroup_def ctl_Define_def ctl_UseCluster_def add_names_def ctl_GetName_def GetError_def
      Option.is_none_def append_group_def grp_of_def Constraints_Add_def)

definition watch_only :: controller_defs where
  "watch_only = ctls_demo\<lparr>kc_filter := Some {''watch''}\<rparr>"

lemma watch_only_simps:
  "kc_defs watch_only = kc_defs ctls_demo" "kc_filter watch_only = Some {''watch''}"
  "kc_groups watch_only = kc_groups ctls_demo" "kc_constraints watch_only = kc_constraints ctls_demo"
  by (simp_all add: watch_only_def)

theorem active_controllers_witness:
  "ctl_names (snd (ctls_Apply err_demo ienv_demo be_demo (\<lambda>_. None) None watch_only mgr_demo)) \<subseteq> {''watch''}"
proof -
  obtain err mgr' where run: "ctls_Apply err_demo ienv_demo be_demo (\<lambda>_. None) None watch_only mgr_demo = (err, mgr')"
    by fastforce
  have "\<forall>(n, c) \<in> set (gr_elements (kc_defs watch_only)). ctl_GetName c = n"
    by (simp add: watch_only_simps ctls_demo_simps ctl_GetName_def ctl_demo_def InGroup_def ctl_Define_def ctl_UseCluster_def Let_def)
  then have "ctl_names mgr' \<subseteq> ctl_names mgr_demo \<union> {n \<in> set (gkeys (gr_elements (kc_defs watch_only))). filter_Use (kc_filter watch_only) n}"
    using active_controllers [OF _ run] by blast
  moreover have "ctl_names mgr_demo = {}"
    by (simp add: ctl_names_def mgr_demo_def NewGroup_def)
  moreover have "filter_Use (kc_filter watch_only) n \<longleftrightarrow> n = ''watch''" for n
    by (simp add: watch_only_simps(2) filter_Use_def)
  ultimately show ?thesis
    using run by auto
qed

end
