(* ===== verification/ServerOptions.thy ===== *)
theory ServerOptions
  imports ConfigRules
begin

text \<open>
  The options of the servers of a manager (options/tlsopts, metricsopts, webhookopts,
  healthzopts), of its log (mlogopts) and of its kubeconfig (kubeconfigopts). Options that are
  providers of a configuration change the configuration a manager is created with.
\<close>

section \<open>The configuration of a manager\<close>

text \<open>
  The fields of the configuration that the repository sets. A TLS option changes the TLS
  configuration of a server, of which only the protocols are touched here. A webhook server
  stands for the options it was created with.
\<close>

record tls_config =
  tc_NextProtos :: "string list"

type_synonym tls_opt = "tls_config \<Rightarrow> tls_config"

record server_opts =
  sv_TLSOpts :: "tls_opt list"
  sv_CertDir :: string
  sv_CertName :: string
  sv_KeyName :: string

record metrics_opts = server_opts +
  mt_BindAddress :: string
  mt_SecureServing :: bool
  mt_FilterProvider :: "string option"

datatype webhook_server = NewServer server_opts

record ctrl_config =
  cc_HealthProbeBindAddress :: string
  cc_LeaderElection :: bool
  cc_LeaderElectionNamespace :: string
  cc_LeaderElectionID :: string
  cc_Metrics :: metrics_opts
  cc_WebhookServer :: "webhook_server option"

definition no_metrics :: metrics_opts where
  "no_metrics = \<lparr>sv_TLSOpts = [], sv_CertDir = [], sv_CertName = [], sv_KeyName = [],
     mt_BindAddress = [], mt_SecureServing = False, mt_FilterProvider = None\<rparr>"

type_synonym config_provider = "ctrl_config \<Rightarrow> ctrl_config result"

fun configure :: "config_provider list \<Rightarrow> config_provider" where
  "configure [] cfg = Inr cfg"
| "configure (c # cs) cfg = (case c cfg of Inl err \<Rightarrow> Inl err | Inr cfg \<Rightarrow> configure cs cfg)"

section \<open>TLS\<close>

record tls_options =
  tl_EnableHTTP2 :: bool

definition disableHTTP2 :: tls_opt where
  "disableHTTP2 c = c\<lparr>tc_NextProtos := [''http/1.1'']\<rparr>"

definition TlsOpts :: "tls_options option \<Rightarrow> tls_opt list" where
  "TlsOpts o' = (case o' of None \<Rightarrow> [] | Some t \<Rightarrow> if tl_EnableHTTP2 t then [disableHTTP2] else [])"

section \<open>Metrics\<close>

record metrics_options =
  mx_MetricsAddr :: string
  mx_CertPath :: string
  mx_CertName :: string
  mx_CertKey :: string
  mx_SecureMetrics :: bool
  mx_tlsOpts :: "tls_options option"

text \<open>\<open>Validate\<close> asks the option set for the validated TLS options.\<close>

definition metrics_Validate :: "tls_options option result \<Rightarrow> metrics_options \<Rightarrow> gerror option \<times> metrics_options" where
  "metrics_Validate tls o' = (case tls of Inl err \<Rightarrow> (Some err, o') | Inr t \<Rightarrow> (None, o'\<lparr>mx_tlsOpts := t\<rparr>))"

definition GetMetricsServerOpts :: "metrics_options option \<Rightarrow> metrics_opts" where
  "GetMetricsServerOpts o' =
     (case o' of
        None \<Rightarrow> no_metrics\<lparr>mt_BindAddress := ''0''\<rparr>
      | Some x \<Rightarrow>
          let s = no_metrics\<lparr>mt_BindAddress := mx_MetricsAddr x, mt_SecureServing := mx_SecureMetrics x,
                             sv_TLSOpts := TlsOpts (mx_tlsOpts x)\<rparr>;
              s = (if mx_SecureMetrics x then s\<lparr>mt_FilterProvider := Some ''WithAuthenticationAndAuthorization''\<rparr> else s)
          in if mx_CertPath x \<noteq> []
             then s\<lparr>sv_CertDir := mx_CertPath x, sv_CertName := mx_CertName x, sv_KeyName := mx_CertKey x\<rparr> else s)"

definition metrics_Configure :: "metrics_options option \<Rightarrow> config_provider" where
  "metrics_Configure o' cfg = Inr (cfg\<lparr>cc_Metrics := GetMetricsServerOpts o'\<rparr>)"

section \<open>Webhooks\<close>

record webhook_options =
  wh_CertPath :: string
  wh_CertName :: string
  wh_CertKey :: string
  wh_tlsOpts :: "tls_options option"
  wh_server :: "webhook_server option"

definition webhook_Validate :: "tls_options option result \<Rightarrow> webhook_options \<Rightarrow> gerror option \<times> webhook_options" where
  "webhook_Validate tls o' = (case tls of Inl err \<Rightarrow> (Some err, o') | Inr t \<Rightarrow> (None, o'\<lparr>wh_tlsOpts := t\<rparr>))"

definition webhook_server_opts :: "webhook_options \<Rightarrow> server_opts" where
  "webhook_server_opts x =
     (let s = \<lparr>sv_TLSOpts = [] @ TlsOpts (wh_tlsOpts x), sv_CertDir = [], sv_CertName = [], sv_KeyName = []\<rparr>
      in if wh_CertPath x \<noteq> []
         then s\<lparr>sv_CertDir := wh_CertPath x, sv_CertName := wh_CertName x, sv_KeyName := wh_CertKey x\<rparr> else s)"

text \<open>The server is created once.\<close>

definition GetServer :: "webhook_options option \<Rightarrow> webhook_server option \<times> webhook_options option" where
  "GetServer o' =
     (case o' of
        None \<Rightarrow> (None, None)
      | Some x \<Rightarrow>
          let x = (if wh_server x = None then x\<lparr>wh_server := Some (NewServer (webhook_server_opts x))\<rparr> else x)
          in (wh_server x, Some x))"

definition webhook_Configure :: "webhook_options option \<Rightarrow> ctrl_config \<Rightarrow> ctrl_config \<times> webhook_options option" where
  "webhook_Configure o' cfg = (case GetServer o' of (s, o') \<Rightarrow> (cfg\<lparr>cc_WebhookServer := s\<rparr>, o'))"

definition webhook_provider :: "webhook_options option \<Rightarrow> config_provider" where
  "webhook_provider o' cfg = Inr (fst (webhook_Configure o' cfg))"

section \<open>Health probes\<close>

text \<open>
  \<open>strconv.Atoi\<close> for 64-bit integers: an optional sign and decimal digits; \<open>None\<close> is an error.
\<close>

definition is_digit :: "char \<Rightarrow> bool" where
  "is_digit c \<longleftrightarrow> 48 \<le> (of_char c :: nat) \<and> (of_char c :: nat) \<le> 57"

fun digits_value :: "nat \<Rightarrow> string \<Rightarrow> nat option" where
  "digits_value n [] = Some n"
| "digits_value n (c # cs) = (if is_digit c then digits_value (10 * n + ((of_char c :: nat) - 48)) cs else None)"

definition unsigned :: "string \<Rightarrow> bool \<times> string" where
  "unsigned s = (case s of [] \<Rightarrow> (False, []) | c # cs \<Rightarrow> if c = CHR ''-'' then (True, cs) else if c = CHR ''+'' then (False, cs) else (False, s))"

definition Atoi :: "string \<Rightarrow> int option" where
  "Atoi s = (case unsigned s of (neg, ds) \<Rightarrow>
     if ds = [] then None
     else case digits_value 0 ds of
       None \<Rightarrow> None
     | Some n \<Rightarrow> if neg then (if n \<le> 2 ^ 63 then Some (- int n) else None) else (if n < 2 ^ 63 then Some (int n) else None))"

text \<open>\<open>atoi_err\<close> is the error of the conversion.\<close>

definition healthz_Validate :: "(string \<Rightarrow> gerror) \<Rightarrow> string \<Rightarrow> gerror option" where
  "healthz_Validate atoi_err addr =
     (let fields = split_on (CHR '':'') addr in
      if length fields \<noteq> 2 then Some (Errorf (''health probe bind address must contain '' @ [CHR 0x27] @ '':<port>'' @ [CHR 0x27]) [])
      else case Atoi (fields ! 1) of
        None \<Rightarrow> Some (Wrapf [''port must be integer''] (atoi_err (fields ! 1)))
      | Some _ \<Rightarrow> None)"

definition healthz_Configure :: "string \<Rightarrow> config_provider" where
  "healthz_Configure addr cfg = Inr (cfg\<lparr>cc_HealthProbeBindAddress := addr\<rparr>)"

section \<open>The log\<close>

text \<open>
  A logging context has a default level and rules. \<open>parse\<close> is \<open>logging.ParseLevel\<close>; the
  settings are a map from realms to levels.
\<close>

datatype log_condition = NewRealm string | NewRealmPrefix string

record 'l log_context =
  lc_level :: "'l option"
  lc_rules :: "('l \<times> log_condition) list"

record mlog_options =
  ml_auto :: bool
  ml_Level :: string
  ml_Settings :: "(string, string) gomap"

fun validate_settings :: "(string \<Rightarrow> 'l result) \<Rightarrow> (string, string) gomap \<Rightarrow> gerror option" where
  "validate_settings parse [] = None"
| "validate_settings parse ((n, s) # xs) =
     (case parse s of Inl err \<Rightarrow> Some (Wrapf [n] err) | Inr _ \<Rightarrow> validate_settings parse xs)"

definition realm_condition :: "string \<Rightarrow> log_condition" where
  "realm_condition n = (if has_suffix n ''/*'' then NewRealmPrefix (take (length n - 2) n) else NewRealm n)"

fun add_rules :: "(string \<Rightarrow> 'l result) \<Rightarrow> (string, string) gomap \<Rightarrow> 'l log_context \<Rightarrow> gerror option \<times> 'l log_context" where
  "add_rules parse [] ctx = (None, ctx)"
| "add_rules parse ((n, s) # xs) ctx =
     (case parse s of
        Inl err \<Rightarrow> (Some (Wrapf [n] err), ctx)
      | Inr l \<Rightarrow> add_rules parse xs (ctx\<lparr>lc_rules := lc_rules ctx @ [(l, realm_condition n)]\<rparr>))"

definition mlog_Configure :: "(string \<Rightarrow> 'l result) \<Rightarrow> mlog_options \<Rightarrow> 'l log_context \<Rightarrow> gerror option \<times> 'l log_context" where
  "mlog_Configure parse o' ctx =
     (case parse (ml_Level o') of
        Inl err \<Rightarrow> (Some err, ctx)
      | Inr l \<Rightarrow> add_rules parse (ml_Settings o') (ctx\<lparr>lc_level := Some l\<rparr>))"

text \<open>\<open>Validate\<close> ranges over the settings twice; \<open>settings'\<close> is the order met first.\<close>

definition mlog_Validate ::
  "(string \<Rightarrow> 'l result) \<Rightarrow> (string, string) gomap \<Rightarrow> mlog_options \<Rightarrow> 'l log_context \<Rightarrow> gerror option \<times> 'l log_context" where
  "mlog_Validate parse settings' o' ctx =
     (case parse (ml_Level o') of
        Inl err \<Rightarrow> (Some err, ctx)
      | Inr _ \<Rightarrow>
     (case validate_settings parse settings' of
        Some err \<Rightarrow> (Some err, ctx)
      | None \<Rightarrow> if ml_auto o' then mlog_Configure parse o' ctx else (None, ctx)))"

section \<open>Kubeconfig\<close>

text \<open>The given options are ignored. The rules are evaluated for empty ones, which are returned.\<close>

definition kubeconfig_New :: "rule list \<Rightarrow> rule" where
  "kubeconfig_New rs = NewRules rs"

definition kubeconfig_GetConfig ::
  "('a, 'r) world \<Rightarrow> rule \<Rightarrow> config_options \<Rightarrow> ('r config option \<times> config_options option \<times> gerror option) \<times> rule" where
  "kubeconfig_GetConfig w rules ignored =
     (case rule_GetConfig w rules no_options of
        ((cfg, err), opts, rules) \<Rightarrow>
          (if err \<noteq> None then (None, None, err) else (cfg, Some opts, None), rules))"

text \<open>
  The access by a path and a context: \<open>deferred\<close> is the configuration that client-go loads for
  them, with its namespace and its current context.
\<close>

definition path_GetConfig ::
  "('a, 'r) world \<Rightarrow> (string \<Rightarrow> string \<Rightarrow> 'r result \<times> string result \<times> string result) \<Rightarrow> string \<Rightarrow> string \<Rightarrow> 'r config result" where
  "path_GetConfig w deferred path context =
     (if path = ''in-cluster''
      then case w_in_cluster w of
             Inl err \<Rightarrow> Inl err
           | Inr rest \<Rightarrow> Inr \<lparr>cf_identity = [], cf_rest = rest, cf_namespace = [], cf_context = [], cf_sub = None\<rparr>
      else case deferred path context of (rest, ns, merged) \<Rightarrow>
        (case rest of Inl err \<Rightarrow> Inl err
         | Inr rest \<Rightarrow>
        (case ns of Inl err \<Rightarrow> Inl err
         | Inr ns \<Rightarrow>
        (case merged of Inl err \<Rightarrow> Inl err
         | Inr ctx \<Rightarrow> Inr \<lparr>cf_identity = [], cf_rest = rest, cf_namespace = ns, cf_context = ctx, cf_sub = None\<rparr>))))"

section \<open>Properties\<close>

text \<open>The protocols a server offers by its TLS options, applied in order to those it starts with.\<close>

definition offered :: "tls_opt list \<Rightarrow> string list \<Rightarrow> string list" where
  "offered opts protos = tc_NextProtos (fold (\<lambda>f c. f c) opts \<lparr>tc_NextProtos = protos\<rparr>)"

lemma offered_TlsOpts [simp]:
  "offered (TlsOpts t) protos = (if \<exists>x. t = Some x \<and> tl_EnableHTTP2 x then [''http/1.1''] else protos)"
  by (cases t) (simp_all add: offered_def TlsOpts_def disableHTTP2_def)

lemma metrics_TLS:
  "sv_TLSOpts (GetMetricsServerOpts m) = (case m of None \<Rightarrow> [] | Some x \<Rightarrow> TlsOpts (mx_tlsOpts x))"
  "mt_BindAddress (GetMetricsServerOpts m) = (case m of None \<Rightarrow> ''0'' | Some x \<Rightarrow> mx_MetricsAddr x)"
  "mt_FilterProvider (GetMetricsServerOpts m) \<noteq> None \<longleftrightarrow> mt_SecureServing (GetMetricsServerOpts m)"
  by (simp_all add: GetMetricsServerOpts_def no_metrics_def Let_def split: option.split)

text \<open>The certificate files of a server; without a path names of files do not count.\<close>

definition certificate :: "'x server_opts_scheme \<Rightarrow> string \<times> string \<times> string" where
  "certificate s = (sv_CertDir s, sv_CertName s, sv_KeyName s)"

definition given_certificate :: "string \<Rightarrow> string \<Rightarrow> string \<Rightarrow> string \<times> string \<times> string" where
  "given_certificate path crt key = (if path = [] then ([], [], []) else (path, crt, key))"

lemma metrics_fields:
  "mt_BindAddress (GetMetricsServerOpts (Some x)) = mx_MetricsAddr x"
  "mt_SecureServing (GetMetricsServerOpts (Some x)) = mx_SecureMetrics x"
  "mt_FilterProvider (GetMetricsServerOpts (Some x)) =
    (if mx_SecureMetrics x then Some ''WithAuthenticationAndAuthorization'' else None)"
  "certificate (GetMetricsServerOpts (Some x)) = given_certificate (mx_CertPath x) (mx_CertName x) (mx_CertKey x)"
  "sv_TLSOpts (GetMetricsServerOpts (Some x)) = TlsOpts (mx_tlsOpts x)"
  by (simp_all add: certificate_def given_certificate_def GetMetricsServerOpts_def no_metrics_def Let_def)

lemma webhook_certificate:
  "certificate (webhook_server_opts x) = given_certificate (wh_CertPath x) (wh_CertName x) (wh_CertKey x)"
  by (simp add: certificate_def given_certificate_def webhook_server_opts_def Let_def)

lemma webhook_TLS: "sv_TLSOpts (webhook_server_opts x) = TlsOpts (wh_tlsOpts x)"
  by (simp add: webhook_server_opts_def Let_def)

text \<open>The webhook server is made once, whatever happens to the TLS options in between.\<close>

definition server_call ::
  "tls_options option \<Rightarrow> unit \<Rightarrow> webhook_options option \<Rightarrow> (webhook_server option \<times> webhook_options option) option" where
  "server_call t k o' = Some (GetServer (map_option (\<lambda>x. x\<lparr>wh_tlsOpts := t\<rparr>) o'))"

interpretation ws: memo "\<lambda>o' _. Option.bind o' wh_server" server_call
  by unfold_locales (auto simp: server_call_def GetServer_def Let_def bind_eq_Some_conv split: option.splits if_splits)

lemma GetServer_once:
  "server_call t () o' = Some (Some s, o1) \<Longrightarrow> ws.calls qs o1 = Some o2 \<Longrightarrow> \<exists>o3. server_call t' () o2 = Some (Some s, o3)"
  using ws.made_once by blast

lemma digits_value_run: "digits_value n ds = Some m \<longleftrightarrow>
    (\<forall>c \<in> set ds. is_digit c) \<and> m = fold (\<lambda>c n. 10 * n + ((of_char c :: nat) - 48)) ds n"
  by (induction ds arbitrary: n) auto

text \<open>What the validation of a health address accepts.\<close>

definition health_port :: "string \<Rightarrow> bool" where
  "health_port s \<longleftrightarrow> (\<exists>sign ds. s = sign @ ds \<and> sign \<in> {[], ''-'', ''+''} \<and> ds \<noteq> [] \<and> (\<forall>c \<in> set ds. is_digit c) \<and>
     (let n = fold (\<lambda>c n. 10 * n + ((of_char c :: nat) - 48)) ds 0 in n < 2 ^ 63 \<or> sign = ''-'' \<and> n = 2 ^ 63))"

lemma not_digit [simp]: "\<not> is_digit (CHR ''-'')" "\<not> is_digit (CHR ''+'')" "\<not> is_digit (CHR '':'')"
  by (simp_all add: is_digit_def)

lemma unsigned_digits:
  "ds \<noteq> [] \<Longrightarrow> \<forall>c \<in> set ds. is_digit c \<Longrightarrow> unsigned ds = (False, ds)"
  by (cases ds) (auto simp: unsigned_def)

lemma unsigned_cases: "unsigned s = (neg, ds) \<Longrightarrow> (neg \<and> s = CHR ''-'' # ds) \<or> (\<not> neg \<and> (s = ds \<or> s = CHR ''+'' # ds))"
  by (auto simp: unsigned_def split: list.splits if_splits)

lemma Atoi_health_port: "Atoi s \<noteq> None \<longleftrightarrow> health_port s"
proof
  assume ok: "Atoi s \<noteq> None"
  obtain neg ds where u: "unsigned s = (neg, ds)"
    by (cases "unsigned s")
  then obtain n where ds: "ds \<noteq> []" "digits_value 0 ds = Some n" "if neg then n \<le> 2 ^ 63 else n < 2 ^ 63"
    using ok by (auto simp: Atoi_def split: if_splits option.splits)
  define sign where "sign = (if neg then ''-'' else if s = ds then [] else ''+'')"
  have "s = sign @ ds" "sign \<in> {[], ''-'', ''+''}"
    using unsigned_cases [OF u] by (auto simp: sign_def)
  moreover have "n < 2 ^ 63 \<or> sign = ''-'' \<and> n = 2 ^ 63"
    using ds(3) by (auto simp: sign_def split: if_splits)
  ultimately show "health_port s"
    unfolding health_port_def Let_def
    using ds(1) ds(2) [unfolded digits_value_run] by - (rule exI [of _ sign], rule exI [of _ ds], simp)
next
  assume "health_port s"
  then obtain sign ds where s: "s = sign @ ds" "sign \<in> {[], ''-'', ''+''}" "ds \<noteq> []" "\<forall>c \<in> set ds. is_digit c"
    and n: "fold (\<lambda>c n. 10 * n + ((of_char c :: nat) - 48)) ds 0 < 2 ^ 63 \<or>
       sign = ''-'' \<and> fold (\<lambda>c n. 10 * n + ((of_char c :: nat) - 48)) ds 0 = 2 ^ 63"
    unfolding health_port_def Let_def by blast
  have "digits_value 0 ds = Some (fold (\<lambda>c n. 10 * n + ((of_char c :: nat) - 48)) ds 0)"
    using s(4) by (simp add: digits_value_run)
  moreover have "unsigned s = (sign = ''-'', ds)"
    using s(1,2) unsigned_digits [OF s(3,4)] by (elim insertE) (auto simp: unsigned_def [of "_ # _"])
  ultimately show "Atoi s \<noteq> None"
    using s(3) n by (auto simp: Atoi_def)
qed

lemma colon_once: "length (split_on (CHR '':'') addr) = 2 \<longleftrightarrow>
    (\<exists>host port. addr = host @ '':'' @ port \<and> CHR '':'' \<notin> set host \<and> CHR '':'' \<notin> set port)"
proof
  assume l: "length (split_on (CHR '':'') addr) = 2"
  then obtain a b where ab: "split_on (CHR '':'') addr = [a, b]"
    by (auto simp: numeral_2_eq_2 length_Suc_conv)
  then have "CHR '':'' \<notin> set a" "CHR '':'' \<notin> set b" "addr = join_with (CHR '':'') [a, b]"
    using split_on_parts [of _ "CHR '':''" addr] join_split [of "CHR '':''" addr] by auto
  then show "\<exists>host port. addr = host @ '':'' @ port \<and> CHR '':'' \<notin> set host \<and> CHR '':'' \<notin> set port"
    by auto
qed auto

lemma health_port_colon: "health_port port \<Longrightarrow> CHR '':'' \<notin> set port"
proof -
  assume "health_port port"
  then obtain sign ds where "port = sign @ ds" "sign \<in> {[], ''-'', ''+''}" "\<forall>c \<in> set ds. is_digit c"
    unfolding health_port_def by blast
  moreover have "CHR '':'' \<notin> set ds"
    using calculation(3) not_digit(3) by blast
  ultimately show ?thesis
    by auto
qed

text \<open>
  The validation accepts exactly one host and one port, separated by a single colon, and any
  64-bit integer as the port. An address of IPv6 is refused, as is the \<open>0\<close> that turns
  probes off, while negative ports and ports above 65535 pass.
\<close>

theorem health_address:
  "(healthz_Validate atoi_err addr = None \<longleftrightarrow>
      (\<exists>host port. addr = host @ '':'' @ port \<and> CHR '':'' \<notin> set host \<and> health_port port)) \<and>
   healthz_Validate atoi_err '':-1'' = None \<and> healthz_Validate atoi_err '':65536'' = None \<and>
   healthz_Validate atoi_err ''0'' \<noteq> None \<and> healthz_Validate atoi_err ''[::1]:8081'' \<noteq> None"
proof -
  have "healthz_Validate atoi_err addr = None \<longleftrightarrow>
      length (split_on (CHR '':'') addr) = 2 \<and> Atoi (split_on (CHR '':'') addr ! 1) \<noteq> None"
    by (auto simp: healthz_Validate_def Let_def split: option.splits)
  also have "\<dots> \<longleftrightarrow> (\<exists>host port. addr = host @ '':'' @ port \<and> CHR '':'' \<notin> set host \<and> health_port port)"
  proof
    assume ok: "length (split_on (CHR '':'') addr) = 2 \<and> Atoi (split_on (CHR '':'') addr ! 1) \<noteq> None"
    then obtain host port where "addr = host @ '':'' @ port" "CHR '':'' \<notin> set host" "CHR '':'' \<notin> set port"
      unfolding colon_once by blast
    then show "\<exists>host port. addr = host @ '':'' @ port \<and> CHR '':'' \<notin> set host \<and> health_port port"
      using ok Atoi_health_port [of port] by - (rule exI [of _ host], rule exI [of _ port], simp)
  next
    assume "\<exists>host port. addr = host @ '':'' @ port \<and> CHR '':'' \<notin> set host \<and> health_port port"
    then obtain host port where "addr = host @ '':'' @ port" "CHR '':'' \<notin> set host" "health_port port"
      by blast
    then show "length (split_on (CHR '':'') addr) = 2 \<and> Atoi (split_on (CHR '':'') addr ! 1) \<noteq> None"
      using health_port_colon [of port] Atoi_health_port [of port] by simp
  qed
  finally have "healthz_Validate atoi_err addr = None \<longleftrightarrow>
      (\<exists>host port. addr = host @ '':'' @ port \<and> CHR '':'' \<notin> set host \<and> health_port port)" .
  moreover have "healthz_Validate atoi_err '':-1'' = None" "healthz_Validate atoi_err '':65536'' = None"
    "healthz_Validate atoi_err ''0'' \<noteq> None" "healthz_Validate atoi_err ''[::1]:8081'' \<noteq> None"
    by (simp_all add: healthz_Validate_def Atoi_def unsigned_def is_digit_def)
  ultimately show ?thesis
    by blast
qed

text \<open>The rules a log gets are those of the settings in their order, with a default level.\<close>

lemma validate_settings_ok: "validate_settings parse xs = None \<longleftrightarrow> (\<forall>(n, s) \<in> set xs. \<exists>l. parse s = Inr l)"
  by (induction parse xs rule: validate_settings.induct) (auto split: sum.splits)

lemma add_rules_ok:
  "\<forall>(n, s) \<in> set xs. \<exists>l. parse s = Inr l \<Longrightarrow>
    add_rules parse xs ctx = (None, ctx\<lparr>lc_rules := lc_rules ctx @ map (\<lambda>(n, s). (projr (parse s), realm_condition n)) xs\<rparr>)"
  by (induction parse xs ctx rule: add_rules.induct) auto

lemma mlog_valid:
  assumes "mlog_Validate parse xs o' ctx = (None, ctx')" "set xs = set (ml_Settings o')"
  shows "ctx' = (if ml_auto o'
    then \<lparr>lc_level = Some (projr (parse (ml_Level o'))),
          lc_rules = lc_rules ctx @ map (\<lambda>(n, s). (projr (parse s), realm_condition n)) (ml_Settings o')\<rparr>
    else ctx)"
proof -
  have ok: "validate_settings parse xs = None" and l: "\<exists>l. parse (ml_Level o') = Inr l"
    using assms(1) by (auto simp: mlog_Validate_def split: sum.splits option.splits)
  have "\<forall>(n, s) \<in> set (ml_Settings o'). \<exists>l. parse s = Inr l"
    using ok assms(2) by (simp add: validate_settings_ok)
  then show ?thesis
    using assms(1) ok l by (auto simp: mlog_Validate_def mlog_Configure_def add_rules_ok)
qed

lemma realm_condition_prefix: "realm_condition (n @ ''/*'') = NewRealmPrefix n"
  by (simp add: realm_condition_def has_suffix_def)

end
