(* ===== verification/Manager.thy ===== *)
theory Manager
  imports Controllers ClusterDefs ServerOptions
begin

text \<open>
  The controller manager: its definition (ctrlmgmt/def.go), the options with the choice of the
  main cluster and the engagement of clusters (options/manageropts), the readiness check, and
  the phases in which a manager is put together (ctrlmgmt/management.go, runc.go).

  The multi-cluster manager is a parameter: the outcomes of its creation and of the
  registrations at it.
\<close>

section \<open>The definition of a manager\<close>

record mgmt_def =
  md_name :: string
  md_main :: "string list"
  md_clusters :: cluster_defs
  md_indices :: "index_def definitions"
  md_components :: component_defs
  md_controllers :: controller_defs

definition mgmt_Define :: "string \<Rightarrow> string list \<Rightarrow> mgmt_def" where
  "mgmt_Define name main =
     \<lparr>md_name = name, md_main = main, md_clusters = NewClusterDefinitions, md_indices = NewDefinitions ''index'',
      md_components = comps_NewDefinitions, md_controllers = ctls_NewDefinitions\<rparr>"

definition AddCluster :: "err_api \<Rightarrow> cluster_def list \<Rightarrow> mgmt_def \<Rightarrow> mgmt_def" where
  "AddCluster api ds d = d\<lparr>md_clusters := defs_Add api ds (md_clusters d)\<rparr>"

definition AddComponent :: "err_api \<Rightarrow> comp_decl list \<Rightarrow> mgmt_def \<Rightarrow> mgmt_def" where
  "AddComponent api ds d = d\<lparr>md_components := comps_Add api ds (md_components d)\<rparr>"

definition AddController :: "err_api \<Rightarrow> ctl_decl list \<Rightarrow> mgmt_def \<Rightarrow> mgmt_def" where
  "AddController api ds d = d\<lparr>md_controllers := ctls_Add api ds (md_controllers d)\<rparr>"

definition AddControllerRule :: "constraint list \<Rightarrow> mgmt_def \<Rightarrow> mgmt_def" where
  "AddControllerRule cs d = d\<lparr>md_controllers := AddRule cs (md_controllers d)\<rparr>"

definition mgmt_AddIndex :: "err_api \<Rightarrow> index_def list \<Rightarrow> mgmt_def \<Rightarrow> mgmt_def" where
  "mgmt_AddIndex api is d = d\<lparr>md_indices := index_Add api is (md_indices d)\<rparr>"

definition errors_Join :: "gerror option list \<Rightarrow> gerror option" where
  "errors_Join es = (case filter (\<lambda>e. e \<noteq> None) es of [] \<Rightarrow> None | es \<Rightarrow> Some (Joins (map the es)))"

definition mgmt_GetError :: "err_api \<Rightarrow> mgmt_def \<Rightarrow> gerror option" where
  "mgmt_GetError api d =
     errors_Join [GetError api (gr_errors (df_group (md_clusters d))), GetError api (gr_errors (md_indices d)),
       GetError api (gr_errors (kc_defs (md_controllers d)))]"

section \<open>The main cluster and the engagement of clusters\<close>

text \<open>
  \<open>base\<close> gives the base cluster of a fleet. The names of the main cluster are \<open>nil\<close> if none are
  given.
\<close>

definition checkForCluster :: "(fleet \<Rightarrow> cluster option) \<Rightarrow> cluster_eq option \<Rightarrow> cluster option" where
  "checkForCluster base c =
     (case c of
        None \<Rightarrow> None
      | Some c \<Rightarrow>
          if ce_AsCluster c \<noteq> None then ce_AsCluster c
          else case ce_AsFleet c of None \<Rightarrow> None | Some f \<Rightarrow> base f)"

fun first_cluster :: "(fleet \<Rightarrow> cluster option) \<Rightarrow> cluster_eq option list \<Rightarrow> cluster option" where
  "first_cluster base [] = None"
| "first_cluster base (e # es) =
     (case checkForCluster base e of
        Some c \<Rightarrow> Some (cluster_AsCluster (cluster_GetEffective c))
      | None \<Rightarrow> first_cluster base es)"

definition SelectMain :: "(fleet \<Rightarrow> cluster option) \<Rightarrow> string list \<Rightarrow> cluster_set \<Rightarrow> cluster option" where
  "SelectMain base main cs =
     (if main = []
      then case checkForCluster base (set_Get cs DEFAULT) of
             Some c \<Rightarrow> Some c
           | None \<Rightarrow> first_cluster base (map (\<lambda>(n, e). Some e) (gr_elements (cs_group cs)))
      else first_cluster base (map (set_Get cs) main))"

definition mgropts_Validate ::
  "gerror option \<Rightarrow> cluster_set result \<Rightarrow> gerror option \<Rightarrow> (fleet \<Rightarrow> cluster option) \<Rightarrow> string list \<Rightarrow> gerror option" where
  "mgropts_Validate nested vcs configs base main =
     (if nested \<noteq> None then nested
      else case vcs of
        Inl err \<Rightarrow> Some err
      | Inr cs \<Rightarrow>
          if SelectMain base main cs = None then Some (Errorf ''could not find a main cluster'' []) else configs)"

text \<open>
  The multi-cluster manager: the clusters and fleets that are engaged with it by the names of
  the effective clusters, and the waiters of the readiness check. \<open>add\<close> is the outcome of
  engaging one.
\<close>

record mc_manager =
  mc_config :: ctrl_config
  mc_engaged :: "(string \<times> cluster_eq) list"
  mc_waiters :: "string list"

fun engage_all ::
  "(cluster_eq \<Rightarrow> gerror option) \<Rightarrow> cluster_eq list \<Rightarrow> string set \<Rightarrow> mc_manager \<Rightarrow> mc_manager result" where
  "engage_all add [] found m = Inr m"
| "engage_all add (c # cs) found m =
     (let eff = ce_GetEffective c in
      if ce_GetName eff \<in> found then engage_all add cs found m
      else let m = m\<lparr>mc_engaged := mc_engaged m @ [(ce_GetName eff, eff)],
                     mc_waiters := mc_waiters m @
                       [(if ce_AsFleet eff \<noteq> None then ''fleet '' else ''cluster '') @ ce_GetName eff]\<rparr>
           in case add eff of
                Some err \<Rightarrow> Inl err
              | None \<Rightarrow> engage_all add cs (insert (ce_GetName eff) found) m)"

record mgr_options =
  mo_main :: "string list"
  mo_EnableLeaderElection :: bool
  mo_LeaderElectionNamespace :: string
  mo_ProbeAddr :: string
  mo_ElectionId :: string
  mo_default_id :: string
  mo_configs :: "config_provider list"

text \<open>
  The configuration the manager starts from. Its scheme, its logger and the client and cache of
  the main cluster are left out.
\<close>

definition base_config :: "mgr_options \<Rightarrow> ctrl_config" where
  "base_config o' =
     \<lparr>cc_HealthProbeBindAddress = mo_ProbeAddr o', cc_LeaderElection = mo_EnableLeaderElection o',
      cc_LeaderElectionNamespace = mo_LeaderElectionNamespace o', cc_LeaderElectionID = mo_default_id o',
      cc_Metrics = no_metrics, cc_WebhookServer = None\<rparr>"

text \<open>The providers of the options come first, then the identity of the election, then its own providers.\<close>

definition manager_config :: "config_provider list \<Rightarrow> mgr_options \<Rightarrow> ctrl_config result" where
  "manager_config providers o' =
     (case configure providers (base_config o') of
        Inl err \<Rightarrow> Inl err
      | Inr cfg \<Rightarrow>
          configure (mo_configs o')
            (if mo_ElectionId o' \<noteq> [] then cfg\<lparr>cc_LeaderElectionID := mo_ElectionId o'\<rparr> else cfg))"

record mc_env =
  me_info :: bool
  me_base :: "fleet \<Rightarrow> cluster option"
  me_configs :: "config_provider list"
  me_new :: "gerror option"
  me_check :: "string \<Rightarrow> gerror option"
  me_add :: "cluster_eq \<Rightarrow> gerror option"

definition GetManager :: "mc_env \<Rightarrow> mgr_options \<Rightarrow> cluster_set option \<Rightarrow> mc_manager result" where
  "GetManager env opts configured =
     (case configured of
        None \<Rightarrow> Inl (Errorf ''no cluster definitions found in options'' [])
      | Some cs \<Rightarrow>
     (if SelectMain (me_base env) (mo_main opts) cs = None then Inl (Errorf ''could not find a main cluster'' [])
      else case manager_config (me_configs env) opts of
        Inl err \<Rightarrow> Inl err
      | Inr cfg \<Rightarrow>
     (case me_new env of
        Some err \<Rightarrow> Inl err
      | None \<Rightarrow>
     (case me_check env ''healthz'' of
        Some err \<Rightarrow> Inl (Wrapf [''unable to set up health check''] err)
      | None \<Rightarrow>
     (case me_check env ''readyz'' of
        Some err \<Rightarrow> Inl (Wrapf [''unable to set up ready check''] err)
      | None \<Rightarrow>
     (case engage_all (me_add env) (map snd (gr_elements (cs_group cs))) {}
             \<lparr>mc_config = cfg, mc_engaged = [], mc_waiters = []\<rparr> of
        Inl err \<Rightarrow> Inl err
      | Inr m \<Rightarrow>
          (case me_check env ''cachesync'' of
             Some err \<Rightarrow> Inl (Wrapf [''unable to set up cachesync check''] err)
           | None \<Rightarrow> Inr m)))))))"

text \<open>
  The readiness check: the errors stored while the waiters are waited for, the last one is
  the state. A waiter that fails cancels the manager, but the loop goes on.
\<close>

fun ready_run :: "(string \<times> bool) list \<Rightarrow> gerror option list \<times> nat" where
  "ready_run [] = ([None], 0)"
| "ready_run ((n, synced) # ws) =
     (case ready_run ws of (states, cancels) \<Rightarrow>
        (Some (Errorf ''waiting for %s'' [n]) #
           (if synced then states else Some (Errorf ''failed to get cache for %s ready'' [n]) # states),
         if synced then cancels else Suc cancels))"

definition ready_state :: "(string \<times> bool) list \<Rightarrow> gerror option" where
  "ready_state ws = last (fst (ready_run ws))"

section \<open>Putting a manager together\<close>

text \<open>The options a manager is created from; \<open>None\<close> where an option is missing.\<close>

record mgmt_opts =
  mo_def :: "mgmt_def option"
  mo_manager :: "mgr_options option"
  mo_clusters :: "cluster_set option"
  mo_indices :: "index_def definitions option"
  mo_components :: "component_defs option"
  mo_controllers :: "controller_defs option"

definition empty_runtime :: "string \<Rightarrow> cindex cluster_runtime" where
  "empty_runtime n = \<lparr>cr_indices = [], cr_started = False, cr_synced = False, cr_syncer_calls = 0\<rparr>"

definition new_manager :: "string \<Rightarrow> cluster_set \<Rightarrow> manager" where
  "new_manager name cs =
     \<lparr>mg_name = name, mg_clusters = cs, mg_indices = NewGroup ''index'', mg_runtime = empty_runtime,
      mg_components = NewComponents, mg_controllers = NewGroup ''controller'',
      mg_readyz = [], mg_healthz = [], mg_runnables = []\<rparr>"

text \<open>A phase of the creation runs on the manager and may fail, panic or not end.\<close>

type_synonym phase = "manager \<Rightarrow> (gerror option \<times> manager) option"

fun run_phases :: "(string \<times> phase) list \<Rightarrow> manager \<Rightarrow> manager result option" where
  "run_phases [] cm = Some (Inr cm)"
| "run_phases ((what, p) # ps) cm =
     Option.bind (p cm) (\<lambda>(err, cm).
       case err of Some e \<Rightarrow> Some (Inl (Wrapf [what] e)) | None \<Rightarrow> run_phases ps cm)"

definition manager_phases ::
  "err_api \<Rightarrow> index_env \<Rightarrow> builder_env \<Rightarrow> (string \<Rightarrow> gerror option) \<Rightarrow> controller_mappings \<Rightarrow> mgmt_opts \<Rightarrow>
   controller_defs \<Rightarrow> (string \<times> phase) list" where
  "manager_phases api env be check mp opts ctls =
     (case mo_indices opts of
        Some iopts \<Rightarrow> if gr_elements iopts \<noteq> []
          then [(''settingup indices'', \<lambda>cm. Some (index_CreateIndices api env iopts (Some mp) cm))] else []
      | None \<Rightarrow> []) @
     (case mo_components opts of
        Some co \<Rightarrow> if gr_elements (co_defs co) \<noteq> []
          then [(''setting up component indices'', comps_CreateIndices api env (Some mp) co)] else []
      | None \<Rightarrow> []) @
     (if gr_elements (kc_defs ctls) \<noteq> []
      then [(''setting up controller indices'', ctls_CreateIndices api env (Some mp) ctls)] else []) @
     (case mo_components opts of
        Some co \<Rightarrow> if gr_elements (co_defs co) \<noteq> []
          then [(''setting up components'', comps_Apply api check (Some mp) co)] else []
      | None \<Rightarrow> []) @
     [(''settingup controllers'', \<lambda>cm. Some (ctls_Apply api env be check (Some mp) ctls cm))]"

text \<open>
  The main cluster is logged before it is checked: without one the creation panics where
  \<open>me_info\<close> says that information is logged. The elements of the components are no runnables,
  so the loop over them registers none.
\<close>

definition NewControllerManagerByOpts ::
  "err_api \<Rightarrow> index_env \<Rightarrow> builder_env \<Rightarrow> mc_env \<Rightarrow> mgmt_opts \<Rightarrow> manager result option" where
  "NewControllerManagerByOpts api env be mc opts =
     (case mo_def opts of
        None \<Rightarrow> Some (Inl (Errorf ''no management definition found'' []))
      | Some def \<Rightarrow>
     (case mgmt_GetError api def of
        Some err \<Rightarrow> Some (Inl (Wrapf [''management definition''] err))
      | None \<Rightarrow>
     (case mo_manager opts of
        None \<Rightarrow> Some (Inl (Errorf ''no manager options found'' []))
      | Some mopts \<Rightarrow>
     (case mo_clusters opts of
        None \<Rightarrow> Some (Inl (Errorf ''no clusters found in options'' []))
      | Some cs \<Rightarrow>
      if me_info mc \<and> SelectMain (me_base mc) (mo_main mopts) cs = None then None else
     (case GetManager mc mopts (Some cs) of
        Inl err \<Rightarrow> Some (Inl (Wrapf [''settingup manager''] err))
      | Inr mcmgr \<Rightarrow>
     (case mo_controllers opts of
        None \<Rightarrow> Some (Inl (Errorf ''no controller definitions found'' []))
      | Some ctls \<Rightarrow>
          run_phases
            (manager_phases api env be (me_check mc) (NewControllerMappings (CreateMappingsProvidedBy cs)) opts ctls)
            (new_manager (md_name def) cs)))))))"

definition GetControllerManager ::
  "err_api \<Rightarrow> index_env \<Rightarrow> builder_env \<Rightarrow> mc_env \<Rightarrow> mgmt_opts \<Rightarrow> manager result option" where
  "GetControllerManager api env be mc opts = NewControllerManagerByOpts api env be mc opts"

text \<open>The data of a manager: the map is never created. \<open>None\<close> is the panic of the write.\<close>

definition GetData :: "(string, 'd) gomap option \<Rightarrow> string \<Rightarrow> 'd \<Rightarrow> ('d \<times> (string, 'd) gomap option) option" where
  "GetData data k v =
     (case (case data of None \<Rightarrow> None | Some m \<Rightarrow> gget m k) of
        Some old \<Rightarrow> Some (old, data)
      | None \<Rightarrow> (case data of None \<Rightarrow> None | Some m \<Rightarrow> Some (v, Some (gset k v m))))"

text \<open>Which definition is run: the one given or the one found in the options.\<close>

definition Setup :: "'d option \<Rightarrow> 'd option \<Rightarrow> ('d \<times> bool) result" where
  "Setup found def =
     (case found of
        Some f \<Rightarrow>
          if def \<noteq> None \<and> found \<noteq> def
          then Inl (Errorf ''options already contain a controller manager definition'' [])
          else Inr (f, False)
      | None \<Rightarrow>
          (case def of
             None \<Rightarrow> Inl (Errorf ''controller manager definition neither provided nor found in options'' [])
           | Some d \<Rightarrow> Inr (d, True)))"

section \<open>What the creation of indices leaves alone\<close>

text \<open>A step that only adds indices: the rest of the composition stays.\<close>

definition grows :: "manager \<Rightarrow> manager \<Rightarrow> bool" where
  "grows mgr mgr' \<longleftrightarrow> mg_name mgr' = mg_name mgr \<and> mg_clusters mgr' = mg_clusters mgr \<and>
     mg_components mgr' = mg_components mgr \<and> mg_controllers mgr' = mg_controllers mgr \<and>
     (\<forall>k. mgr_GetIndex mgr k \<noteq> None \<longrightarrow> mgr_GetIndex mgr' k = mgr_GetIndex mgr k)"

lemma grows_refl [simp]: "grows mgr mgr"
  by (simp add: grows_def)

lemma grows_trans: "grows a b \<Longrightarrow> grows b c \<Longrightarrow> grows a c"
  by (simp add: grows_def)

lemma grows_index: "grows a b \<Longrightarrow> mgr_GetIndex a k \<noteq> None \<Longrightarrow> mgr_GetIndex b k \<noteq> None"
  by (simp add: grows_def)

lemma grows_runtime: "grows mgr (mgr\<lparr>mg_runtime := r\<rparr>)"
  by (simp add: grows_def mgr_GetIndex_def)

lemma grows_add:
  assumes "Group_Add api ci_name any [idx] (mg_indices mgr) = (err, g)"
  shows "grows mgr (mgr\<lparr>mg_runtime := r, mg_indices := g\<rparr>)"
proof -
  have "g = group_step api ci_name any idx (mg_indices mgr)"
    using Group_Add_fold [of api ci_name any "[idx]" "mg_indices mgr"] by (simp add: assms)
  then show ?thesis
    by (auto simp: grows_def mgr_GetIndex_def Group_Get_def group_step_elements)
qed

lemma grows_create:
  "grows mgr (snd (case CreateIndex fi w d name (mg_runtime mgr c) of
      (Inl err, r) \<Rightarrow> (Some err, mgr\<lparr>mg_runtime := (mg_runtime mgr)(c := r)\<rparr>)
    | (Inr idx, r) \<Rightarrow>
        (case Group_Add api ci_name any [idx] (mg_indices mgr) of
           (err, g) \<Rightarrow> (err, mgr\<lparr>mg_runtime := (mg_runtime mgr)(c := r), mg_indices := g\<rparr>))))"
proof (cases "CreateIndex fi w d name (mg_runtime mgr c)")
  case (Pair res r)
  show ?thesis
  proof (cases res)
    case (Inr idx)
    obtain err g where "Group_Add api ci_name any [idx] (mg_indices mgr) = (err, g)"
      by fastforce
    then show ?thesis
      using grows_add by (simp add: Pair Inr)
  qed (simp add: Pair grows_runtime)
qed

lemma index_Apply_grows: "grows mgr (snd (index_Apply api env d m mgr))"
  using grows_create unfolding index_Apply_def Let_def
  by (simp split: sum.split option.split)

lemma create_indices_grows: "grows mgr (snd (create_indices api env m is mgr))"
proof (induction "is" arbitrary: mgr)
  case (Cons ni "is")
  then show ?case
    using index_Apply_grows [of mgr api env "snd ni" m] grows_trans
    by (cases ni; cases "index_Apply api env (snd ni) m mgr") (fastforce split: option.split)
qed simp

lemma apply_indices_grows: "grows mgr (snd (apply_indices api env owner m is mgr))"
proof (induction "is" arbitrary: mgr)
  case (Cons ni "is")
  then show ?case
    using index_Apply_grows [of mgr api env "snd ni" m] grows_trans
    by (cases ni; cases "index_Apply api env (snd ni) m mgr") (fastforce split: option.split)
qed simp


lemma decl_CreateIndices_grows: "grows mgr (snd (decl_CreateIndices api env m c mgr))"
  by (induction c arbitrary: m) (simp_all add: comp_CreateIndices_def apply_indices_grows)

lemma create_comp_indices_grows:
  "create_comp_indices api env m d cs mgr = Some (err, mgr') \<Longrightarrow> grows mgr mgr'"
proof (induction cs arbitrary: mgr)
  case (Cons c cs)
  have "grows mgr (snd (decl_CreateIndices api env m c mgr))"
    by (rule decl_CreateIndices_grows)
  then show ?case
    using Cons grows_trans by (fastforce split: Option.bind_splits if_splits prod.splits option.splits)
qed simp

text \<open>The global names of the indices a controller creates, and the indices of a set of definitions.\<close>

definition globals_of :: "controller_mappings option \<Rightarrow> (string \<times> index_def) list \<Rightarrow> string set" where
  "globals_of m is = (\<lambda>(n, i). MapName (id_name i) (DefaultMappings m)) ` set is"

fun ctl_globals :: "controller_mappings option \<Rightarrow> ctl_decl \<Rightarrow> string set" where
  "ctl_globals m (CtlPlain d) = globals_of m (gr_elements (kd_indices d) @ gr_elements (kd_foreign d))"
| "ctl_globals m (CtlMapped c mp) = ctl_globals (Some (ControllerMappings_ApplyTo mp m)) c"

definition has_indices :: "manager \<Rightarrow> string set \<Rightarrow> bool" where
  "has_indices mgr s \<longleftrightarrow> (\<forall>k \<in> s. mgr_GetIndex mgr k \<noteq> None)"

lemma has_indices_Un [simp]: "has_indices mgr (s \<union> t) \<longleftrightarrow> has_indices mgr s \<and> has_indices mgr t"
  by (auto simp: has_indices_def)

lemma has_indices_grows: "grows mgr mgr' \<Longrightarrow> has_indices mgr s \<Longrightarrow> has_indices mgr' s"
  using grows_index by (auto simp: has_indices_def simp del: not_None_eq)

lemma globals_of_simps [simp]:
  "globals_of m [] = {}" "globals_of m ((n, i) # is) = insert (MapName (id_name i) (DefaultMappings m)) (globals_of m is)"
  "globals_of m (is @ js) = globals_of m is \<union> globals_of m js"
  by (auto simp: globals_of_def)

lemma index_Apply_has:
  assumes "index_Apply api env d m mgr = (None, mgr')"
  shows "mgr_GetIndex mgr' (MapName (id_name d) (DefaultMappings m)) \<noteq> None"
  by (rule index_Apply_success [OF assms]) simp

lemma create_indices_has:
  "create_indices api env m is mgr = (None, mgr') \<Longrightarrow>
    has_indices mgr' (globals_of m (filter (\<lambda>(n, i). \<not> IsDisabled (mg_clusters mgr) (id_target i)) is))"
proof (induction "is" arbitrary: mgr)
  case (Cons ni "is")
  obtain n i where ni: "ni = (n, i)"
    by (cases ni)
  show ?case
  proof (cases "IsDisabled (mg_clusters mgr) (id_target i)")
    case True
    then show ?thesis
      using Cons by (simp add: ni)
  next
    case False
    then obtain mgr1 where one: "index_Apply api env i m mgr = (None, mgr1)" "create_indices api env m is mgr1 = (None, mgr')"
      using Cons.prems by (auto simp: ni split: prod.splits option.splits)
    have "grows mgr mgr1" "grows mgr1 mgr'"
      using index_Apply_grows [of mgr api env i m] create_indices_grows [of mgr1 api env m "is"] by (simp_all add: one)
    then show ?thesis
      using Cons.IH [OF one(2)] index_Apply_has [OF one(1)] grows_index [of mgr1 mgr'] False
      by (simp add: ni grows_def has_indices_def)
  qed
qed (simp add: has_indices_def)

lemma apply_indices_has:
  "apply_indices api env owner m is mgr = (None, mgr') \<Longrightarrow> has_indices mgr' (globals_of m is)"
proof (induction "is" arbitrary: mgr)
  case (Cons ni "is")
  obtain n i mgr1 where one: "ni = (n, i)" "index_Apply api env i m mgr = (None, mgr1)"
    "apply_indices api env owner m is mgr1 = (None, mgr')"
    using Cons.prems by (cases ni) (auto split: prod.splits option.splits)
  have "grows mgr1 mgr'"
    using apply_indices_grows [of mgr1 api env owner m "is"] by (simp add: one)
  then show ?case
    using Cons.IH [OF one(3)] index_Apply_has [OF one(2)] grows_index [of mgr1 mgr'] by (simp add: one(1) has_indices_def)
qed (simp add: has_indices_def)

lemma ctl_CreateIndices_grows: "grows mgr (snd (ctl_CreateIndices api env m d mgr))"
  using apply_indices_grows [of mgr api env "[''controller'', kd_name d]" m "gr_elements (kd_indices d)"] apply_indices_grows grows_trans
  unfolding ctl_CreateIndices_def
  by (cases "apply_indices api env [''controller'', kd_name d] m (gr_elements (kd_indices d)) mgr")
    (fastforce split: option.split)

lemma ctl_CreateIndices_has:
  assumes "ctl_CreateIndices api env m d mgr = (None, mgr')"
  shows "has_indices mgr' (ctl_globals m (CtlPlain d))"
proof -
  obtain mgr1 where one: "apply_indices api env [''controller'', kd_name d] m (gr_elements (kd_indices d)) mgr = (None, mgr1)"
    "apply_indices api env [''controller'', kd_name d] m (gr_elements (kd_foreign d)) mgr1 = (None, mgr')"
    using assms by (auto simp: ctl_CreateIndices_def split: prod.splits option.splits)
  have "grows mgr1 mgr'"
    using apply_indices_grows [of mgr1 api env "[''controller'', kd_name d]" m "gr_elements (kd_foreign d)"] by (simp add: one(2))
  then show ?thesis
    using apply_indices_has [OF one(1)] apply_indices_has [OF one(2)] has_indices_grows by simp
qed

lemma ctl_decl_CreateIndices_grows: "grows mgr (snd (ctl_decl_CreateIndices api env m c mgr))"
  by (induction c arbitrary: m) (simp_all add: ctl_CreateIndices_grows)

lemma ctl_decl_CreateIndices_has:
  "ctl_decl_CreateIndices api env m c mgr = (None, mgr') \<Longrightarrow> has_indices mgr' (ctl_globals m c)"
proof (induction c arbitrary: m)
  case (CtlPlain d)
  then show ?case
    using ctl_CreateIndices_has by (simp del: ctl_globals.simps)
qed simp

lemma create_ctl_indices_has:
  "create_ctl_indices api env m f cs mgr = (err, mgr') \<Longrightarrow> grows mgr mgr' \<and>
    (err = None \<longrightarrow> (\<forall>c \<in> set cs. filter_Use f (ctl_GetName c) \<longrightarrow> has_indices mgr' (ctl_globals m c)))"
proof (induction cs arbitrary: mgr)
  case (Cons c cs)
  show ?case
  proof (cases "filter_Use f (ctl_GetName c)")
    case True
    obtain e mgr1 where one: "ctl_decl_CreateIndices api env m c mgr = (e, mgr1)"
      by fastforce
    have step: "grows mgr mgr1"
      using ctl_decl_CreateIndices_grows [of mgr api env m c] by (simp add: one)
    show ?thesis
    proof (cases e)
      case None
      then have "create_ctl_indices api env m f cs mgr1 = (err, mgr')"
        using Cons.prems True by (simp add: one)
      note rest = Cons.IH [OF this]
      then show ?thesis
        using step grows_trans [OF step, of mgr'] ctl_decl_CreateIndices_has [OF one [unfolded None]] has_indices_grows [of mgr1 mgr']
        by auto
    qed (use Cons.prems True step in \<open>auto simp: one\<close>)
  qed (use Cons in auto)
qed simp


section \<open>What the creation of components and controllers leaves alone\<close>

definition keeps :: "manager \<Rightarrow> manager \<Rightarrow> bool" where
  "keeps mgr mgr' \<longleftrightarrow> mg_name mgr' = mg_name mgr \<and> mg_clusters mgr' = mg_clusters mgr \<and> mg_indices mgr' = mg_indices mgr"

lemma keeps_refl [simp]: "keeps mgr mgr"
  by (simp add: keeps_def)

lemma keeps_trans: "keeps a b \<Longrightarrow> keeps b c \<Longrightarrow> keeps a c"
  by (simp add: keeps_def)

lemma keeps_indices: "keeps mgr mgr' \<Longrightarrow> has_indices mgr' s = has_indices mgr s"
  by (simp add: keeps_def has_indices_def mgr_GetIndex_def)

lemma ApplyHealthChecks_keeps:
  "ApplyHealthChecks check base h mgr = (err, mgr') \<Longrightarrow> keeps mgr mgr' \<and> mg_controllers mgr' = mg_controllers mgr"
  by (auto simp: ApplyHealthChecks_def keeps_def split: prod.splits option.splits)

lemma comp_Apply_keeps:
  "keeps mgr (snd (comp_Apply api check m d mgr)) \<and> mg_controllers (snd (comp_Apply api check m d mgr)) = mg_controllers mgr"
proof -
  obtain e g where g: "Group_Add api cp_name (\<lambda>_. AnyOther) [Component (comp_target m d)] (mg_components mgr) = (e, g)"
    by fastforce
  obtain e' mgr2 where mgr2: "ApplyHealthChecks check (comp_target m d) (pd_health d) (mgr\<lparr>mg_components := g\<rparr>) = (e', mgr2)"
    by fastforce
  show ?thesis
    by (rule comp_Apply_cases [OF g mgr2]) (use ApplyHealthChecks_keeps [OF mgr2] in \<open>simp_all add: keeps_def\<close>)
qed

lemma decl_Apply_keeps:
  "keeps mgr (snd (decl_Apply api check m c mgr)) \<and> mg_controllers (snd (decl_Apply api check m c mgr)) = mg_controllers mgr"
  by (induction c arbitrary: m) (simp_all add: comp_Apply_keeps)

lemma apply_comps_keeps:
  "apply_comps api check m d ns mgr = Some (err, mgr') \<Longrightarrow> keeps mgr mgr' \<and> mg_controllers mgr' = mg_controllers mgr"
proof (induction ns arbitrary: mgr)
  case (Cons n ns)
  obtain c ok e where c: "comps_Get d n = Some c" "isUsed d c = Some (ok, e)"
    using Cons.prems by (auto split: option.splits Option.bind_splits)
  show ?case
  proof (cases "ok \<and> e = None")
    case True
    obtain e' mgr1 where one: "decl_Apply api check m c mgr = (e', mgr1)"
      by fastforce
    then show ?thesis
      using Cons.IH [of mgr1] Cons.prems decl_Apply_keeps [of mgr api check m c] c True keeps_trans
      by (cases e') auto
  qed (use Cons c in auto)
qed simp

lemma ctl_Apply_keeps: "keeps mgr (snd (ctl_Apply api env be check m d mgr))"
proof -
  obtain e g where g: "Group_Add api (\<lambda>n. n) (\<lambda>_. AnyOther) [kd_name d] (mg_controllers mgr) = (e, g)"
    by fastforce
  obtain e' mgr2 where mgr2: "ApplyHealthChecks check (kd_name d) (kd_health d) (mgr\<lparr>mg_controllers := g\<rparr>) = (e', mgr2)"
    by fastforce
  show ?thesis
    by (rule ctl_Apply_cases [OF g mgr2]) (use ApplyHealthChecks_keeps [OF mgr2] in \<open>simp_all add: keeps_def\<close>)
qed

lemma ctl_decl_Apply_keeps: "keeps mgr (snd (ctl_decl_Apply api env be check m c mgr))"
  by (induction c arbitrary: m) (simp_all add: ctl_Apply_keeps)

lemma apply_ctls_keeps: "keeps mgr (snd (apply_ctls api env be check m f cs mgr))"
proof (induction cs arbitrary: mgr)
  case (Cons nc cs)
  then show ?case
    using ctl_decl_Apply_keeps [of mgr api env be check m "snd nc"] keeps_trans
    by (cases nc; cases "ctl_decl_Apply api env be check m (snd nc) mgr") (fastforce split: option.split)
qed simp

section \<open>Phases\<close>

lemma run_phases_opt:
  "run_phases ((if b then [(w, p)] else []) @ ps) cm = Some (Inr cm') \<longleftrightarrow>
    (\<exists>cm1. (if b then p cm = Some (None, cm1) else cm1 = cm) \<and> run_phases ps cm1 = Some (Inr cm'))"
  by (cases "p cm") (auto split: option.splits)

lemma run_phases_option:
  "run_phases ((case x of Some a \<Rightarrow> if b a then [(w, p a)] else [] | None \<Rightarrow> []) @ ps) cm = Some (Inr cm') \<longleftrightarrow>
    (\<exists>cm1. (case x of Some a \<Rightarrow> if b a then p a cm = Some (None, cm1) else cm1 = cm | None \<Rightarrow> cm1 = cm) \<and>
       run_phases ps cm1 = Some (Inr cm'))"
  by (cases x) (simp_all add: run_phases_opt del: run_phases.simps)

lemma run_phases_last:
  "run_phases [(w, p)] cm = Some (Inr cm') \<longleftrightarrow> p cm = Some (None, cm')"
  by (cases "p cm") (auto split: option.splits)

lemma run_phases_total:
  "\<forall>(w, p) \<in> set ps. \<forall>cm. p cm \<noteq> None \<Longrightarrow> run_phases ps cm \<noteq> None"
  by (induction ps arbitrary: cm) (auto split: option.splits Option.bind_splits)

lemma ctls_CreateIndices_total: "ctls_CreateIndices api env m d mgr \<noteq> None"
proof (cases "GetError api (gr_errors (kc_defs d))")
  case None
  show ?thesis
    by (rule ctls_CreateIndices_run [OF None, of env m mgr]) simp
qed (simp add: ctls_CreateIndices_def)

text \<open>The phases of a creation that succeeds.\<close>

lemma manager_phases_run:
  assumes "run_phases (manager_phases api env be check mp opts ctls) cm0 = Some (Inr cm)"
  obtains cm1 cm2 cm3 cm4 where
    "case mo_indices opts of
       Some is \<Rightarrow> if gr_elements is \<noteq> [] then index_CreateIndices api env is (Some mp) cm0 = (None, cm1) else cm1 = cm0
     | None \<Rightarrow> cm1 = cm0"
    "case mo_components opts of
       Some co \<Rightarrow> if gr_elements (co_defs co) \<noteq> [] then comps_CreateIndices api env (Some mp) co cm1 = Some (None, cm2) else cm2 = cm1
     | None \<Rightarrow> cm2 = cm1"
    "if gr_elements (kc_defs ctls) \<noteq> [] then ctls_CreateIndices api env (Some mp) ctls cm2 = Some (None, cm3) else cm3 = cm2"
    "case mo_components opts of
       Some co \<Rightarrow> if gr_elements (co_defs co) \<noteq> [] then comps_Apply api check (Some mp) co cm3 = Some (None, cm4) else cm4 = cm3
     | None \<Rightarrow> cm4 = cm3"
    "ctls_Apply api env be check (Some mp) ctls cm4 = (None, cm)"
  using assms unfolding manager_phases_def append_assoc run_phases_option run_phases_opt run_phases_last option.inject
  by (elim exE conjE) (rule that; assumption)


lemma mgmt_errors:
  assumes "mgmt_GetError api def = None"
  shows "GetError api (gr_errors (df_group (md_clusters def))) = None" "GetError api (gr_errors (md_indices def)) = None"
    "GetError api (gr_errors (kc_defs (md_controllers def))) = None"
  using assms by (auto simp: mgmt_GetError_def errors_Join_def split: list.splits if_splits)

lemma manager_run:
  assumes "NewControllerManagerByOpts api env be mc opts = Some (Inr cm)"
  obtains def mopts cs mcmgr ctls where "mo_def opts = Some def" "mgmt_GetError api def = None"
    "mo_manager opts = Some mopts" "mo_clusters opts = Some cs" "GetManager mc mopts (Some cs) = Inr mcmgr"
    "mo_controllers opts = Some ctls"
    "run_phases (manager_phases api env be (me_check mc) (NewControllerMappings (CreateMappingsProvidedBy cs)) opts ctls)
       (new_manager (md_name def) cs) = Some (Inr cm)"
  using assms unfolding NewControllerManagerByOpts_def
  by (auto split: option.splits sum.splits if_splits)

lemma manager_components:
  assumes "mo_def opts = Some def" "mgmt_GetError api def = None"
  shows "NewControllerManagerByOpts api env be mc (opts\<lparr>mo_def := Some (def\<lparr>md_components := co\<rparr>)\<rparr>) =
    NewControllerManagerByOpts api env be mc opts"
proof -
  have "mgmt_GetError api (def\<lparr>md_components := co\<rparr>) = None"
    using assms(2) by (simp add: mgmt_GetError_def)
  moreover have "manager_phases api env be chk mp (opts\<lparr>mo_def := x\<rparr>) ctls = manager_phases api env be chk mp opts ctls" for chk mp x ctls
    by (simp add: manager_phases_def cong: option.case_cong)
  ultimately show ?thesis
    using assms by (simp add: NewControllerManagerByOpts_def cong: option.case_cong sum.case_cong if_cong)
qed

text \<open>The mappings of a manager are those the clusters provide.\<close>

definition manager_mappings :: "cluster_set \<Rightarrow> controller_mappings" where
  "manager_mappings cs = NewControllerMappings (CreateMappingsProvidedBy cs)"

text \<open>The global indices that are not defined for a disabled cluster.\<close>

definition enabled_indices :: "cluster_set \<Rightarrow> index_def definitions \<Rightarrow> (string \<times> index_def) list" where
  "enabled_indices cs is = filter (\<lambda>(n, i). \<not> IsDisabled cs (id_target i)) (gr_elements is)"

lemma indices_phase:
  assumes "index_CreateIndices api env is m mgr = (None, mgr')"
  shows "grows mgr mgr'" "has_indices mgr' (globals_of m (enabled_indices (mg_clusters mgr) is))"
proof -
  have run: "create_indices api env m (gr_elements is) mgr = (None, mgr')"
    using assms by (simp add: index_CreateIndices_def split: option.splits)
  show "grows mgr mgr'"
    using create_indices_grows [of mgr api env m "gr_elements is"] by (simp add: run)
  show "has_indices mgr' (globals_of m (enabled_indices (mg_clusters mgr) is))"
    using create_indices_has [OF run] by (simp add: enabled_indices_def)
qed

text \<open>The names of the global indices there are; a step may add some of a set.\<close>

definition global_indices :: "manager \<Rightarrow> string set" where
  "global_indices mgr = {k. mgr_GetIndex mgr k \<noteq> None}"

lemma has_indices_names: "has_indices mgr s \<longleftrightarrow> s \<subseteq> global_indices mgr"
  by (auto simp: has_indices_def global_indices_def)

lemma grows_names: "grows mgr mgr' \<Longrightarrow> global_indices mgr \<subseteq> global_indices mgr'"
  by (auto simp: grows_def global_indices_def)

lemma index_Apply_names:
  "global_indices (snd (index_Apply api env d m mgr)) \<subseteq> insert (MapName (id_name d) (DefaultMappings m)) (global_indices mgr)"
proof -
  let ?glob = "MapName (id_name d) (DefaultMappings m)"
  have add: "global_indices (mgr\<lparr>mg_runtime := q, mg_indices := g\<rparr>) \<subseteq> insert ?glob (global_indices mgr)"
    if "CreateIndex fi (Some (NewDefaultIndex env ?glob c obj)) w ?glob r0 = (Inr idx, r)"
      "Group_Add api ci_name any [idx] (mg_indices mgr) = (err, g)" for fi c obj w r0 idx r any err g q
  proof -
    have "ci_name idx = ?glob"
      using NewDefaultIndex_Inr [OF CreateIndex_wrapped [OF that(1)]] by simp
    moreover have "g = group_step api ci_name any idx (mg_indices mgr)"
      using Group_Add_fold [of api ci_name any "[idx]" "mg_indices mgr"] by (simp add: that(2))
    ultimately show ?thesis
      by (auto simp: global_indices_def mgr_GetIndex_def Group_Get_def group_step_elements split: if_splits)
  qed
  have "global_indices (mgr\<lparr>mg_runtime := q\<rparr>) = global_indices mgr" for q
    by (simp add: global_indices_def mgr_GetIndex_def)
  then show ?thesis
    using add unfolding index_Apply_def Let_def
    by (auto split: sum.splits option.splits prod.splits)
qed

lemma apply_indices_names:
  "global_indices (snd (apply_indices api env owner m is mgr)) \<subseteq> global_indices mgr \<union> globals_of m is"
proof (induction "is" arbitrary: mgr)
  case (Cons ni "is")
  obtain n i e mgr1 where one: "ni = (n, i)" "index_Apply api env i m mgr = (e, mgr1)"
    by (metis prod.collapse)
  then show ?case
    using index_Apply_names [of api env i m mgr] Cons.IH [of mgr1] by (cases e) auto
qed simp

lemma ctl_decl_CreateIndices_names:
  "global_indices (snd (ctl_decl_CreateIndices api env m c mgr)) \<subseteq> global_indices mgr \<union> ctl_globals m c"
proof (induction c arbitrary: m)
  case (CtlPlain d)
  obtain e mgr1 where one: "apply_indices api env [''controller'', kd_name d] m (gr_elements (kd_indices d)) mgr = (e, mgr1)"
    by fastforce
  then show ?case
    using apply_indices_names [of api env "[''controller'', kd_name d]" m "gr_elements (kd_indices d)" mgr]
      apply_indices_names [of api env "[''controller'', kd_name d]" m "gr_elements (kd_foreign d)" mgr1]
    by (cases e) (auto simp: ctl_CreateIndices_def)
qed simp

text \<open>The indices of the active controllers of a list.\<close>

definition active_globals :: "controller_mappings option \<Rightarrow> string set option \<Rightarrow> ctl_decl list \<Rightarrow> string set" where
  "active_globals m f cs = \<Union> (ctl_globals m ` {c \<in> set cs. filter_Use f (ctl_GetName c)})"

lemma active_globals_simps [simp]:
  "active_globals m f [] = {}"
  "active_globals m f (c # cs) = (if filter_Use f (ctl_GetName c) then ctl_globals m c else {}) \<union> active_globals m f cs"
  by (auto simp: active_globals_def)

lemma create_ctl_indices_names:
  "global_indices (snd (create_ctl_indices api env m f cs mgr)) \<subseteq> global_indices mgr \<union> active_globals m f cs"
proof (induction cs arbitrary: mgr)
  case (Cons c cs)
  obtain e mgr1 where one: "ctl_decl_CreateIndices api env m c mgr = (e, mgr1)"
    by fastforce
  then show ?case
    using ctl_decl_CreateIndices_names [of api env m c mgr] Cons.IH [of mgr] Cons.IH [of mgr1] by (cases e) auto
qed simp

text \<open>
  C29: The rules are enforced before anything is created. Creating the indices of a set always
  returns. If its definitions have errors, if a rule of the set complains about the active
  controllers, or if a constraint of an active controller does, it returns an error and leaves the
  manager as it is. Otherwise it only adds indices, and only those that active controllers define
  or access; if it returns no error, there are all of them, and none of the others is new.
\<close>

theorem rules_enforced:
  "\<exists>e mgr'. ctls_CreateIndices api env m d mgr = Some (e, mgr') \<and>
    (if GetError api (gr_errors (kc_defs d)) \<noteq> None \<or> complains (rule_ctx d) (And (kc_constraints d)) \<or>
       (\<exists>c \<in> set (ctl_elements d). filter_Use (kc_filter d) (ctl_GetName c) \<and>
          complains (rule_ctx d) (And (kd_constraints (ctl_of c))))
     then e \<noteq> None \<and> mgr' = mgr
     else mg_clusters mgr' = mg_clusters mgr \<and> mg_components mgr' = mg_components mgr \<and> mg_controllers mgr' = mg_controllers mgr \<and>
       (let defined = \<Union> (ctl_globals m ` {c \<in> set (ctl_elements d). filter_Use (kc_filter d) (ctl_GetName c)}) in
        (e = None \<longrightarrow> global_indices mgr' = global_indices mgr \<union> defined) \<and>
        global_indices mgr \<subseteq> global_indices mgr' \<and> global_indices mgr' \<subseteq> global_indices mgr \<union> defined))"
proof (cases "GetError api (gr_errors (kc_defs d))")
  case None
  obtain e e' where run: "ctls_CreateIndices api env m d mgr =
      Some (if e \<noteq> None then (e, mgr) else if e' \<noteq> None then (e', mgr)
            else create_ctl_indices api env m (kc_filter d) (ctl_elements d) mgr)"
    and e: "e \<noteq> None \<longleftrightarrow> complains (rule_ctx d) (And (kc_constraints d))"
    and e': "e' \<noteq> None \<longleftrightarrow> (\<exists>c \<in> set (ctl_elements d). filter_Use (kc_filter d) (ctl_GetName c) \<and>
       complains (rule_ctx d) (And (kd_constraints (ctl_of c))))"
    by (rule ctls_CreateIndices_run [OF None]) (rule that; assumption)
  obtain err mgr' where create: "create_ctl_indices api env m (kc_filter d) (ctl_elements d) mgr = (err, mgr')"
    by fastforce
  note has = create_ctl_indices_has [OF create] and
    names = create_ctl_indices_names [of api env m "kc_filter d" "ctl_elements d" mgr, unfolded create snd_conv active_globals_def]
  have "global_indices mgr' = global_indices mgr \<union> \<Union> (ctl_globals m ` {c \<in> set (ctl_elements d). filter_Use (kc_filter d) (ctl_GetName c)})"
    if "err = None"
    using has that names grows_names [of mgr mgr'] by (auto simp: has_indices_names)
  then show ?thesis
    unfolding run create e [symmetric] e' [symmetric] Let_def
    using has names grows_names [of mgr mgr'] None by (cases e; cases e') (auto simp: grows_def)
qed (simp add: ctls_CreateIndices_def)

definition rules_ok :: "controller_defs \<Rightarrow> bool" where
  "rules_ok d \<longleftrightarrow> \<not> complains (rule_ctx d) (And (kc_constraints d)) \<and>
     (\<forall>c \<in> set (ctl_elements d). filter_Use (kc_filter d) (ctl_GetName c) \<longrightarrow>
       \<not> complains (rule_ctx d) (And (kd_constraints (ctl_of c))))"

definition has_ctl_indices :: "manager \<Rightarrow> controller_mappings option \<Rightarrow> controller_defs \<Rightarrow> bool" where
  "has_ctl_indices mgr m d \<longleftrightarrow>
     (\<forall>c \<in> set (ctl_elements d). filter_Use (kc_filter d) (ctl_GetName c) \<longrightarrow> has_indices mgr (ctl_globals m c))"

lemma controllers_phase:
  assumes "GetError api (gr_errors (kc_defs d)) = None" "ctls_CreateIndices api env m d mgr = Some (None, mgr')"
  shows "grows mgr mgr' \<and> has_ctl_indices mgr' m d \<and> rules_ok d"
proof -
  obtain e e' where "ctls_CreateIndices api env m d mgr =
      Some (if e \<noteq> None then (e, mgr) else if e' \<noteq> None then (e', mgr)
            else create_ctl_indices api env m (kc_filter d) (ctl_elements d) mgr)"
    and e: "e \<noteq> None \<longleftrightarrow> complains (rule_ctx d) (And (kc_constraints d))"
    and e': "e' \<noteq> None \<longleftrightarrow> (\<exists>c \<in> set (ctl_elements d). filter_Use (kc_filter d) (ctl_GetName c) \<and>
       complains (rule_ctx d) (And (kd_constraints (ctl_of c))))"
    by (rule ctls_CreateIndices_run [OF assms(1)]) (rule that; assumption)
  then have "e = None" "e' = None" "create_ctl_indices api env m (kc_filter d) (ctl_elements d) mgr = (None, mgr')"
    using assms(2) by (auto split: if_splits)
  then show ?thesis
    using create_ctl_indices_has e e' by (auto simp: rules_ok_def has_ctl_indices_def)
qed

text \<open>
  C11: A manager that is put together is complete. The definitions of its clusters, indices and
  controllers have no error, while errors of its component definitions go unnoticed: the manager
  is the same whatever they are. It has the name and the clusters of its definition and options,
  every global index on a cluster that is not disabled, the indices of all active controllers,
  and exactly the active controllers; if there are controllers, neither a rule nor a constraint
  of an active one complains.
\<close>

theorem manager_composed:
  assumes "NewControllerManagerByOpts api env be mc opts = Some (Inr cm)"
    and "mo_def opts = Some def" "mo_clusters opts = Some cs" "mo_controllers opts = Some ctls"
    and "\<forall>(n, c) \<in> set (gr_elements (kc_defs ctls)). ctl_GetName c = n"
  shows "GetError api (gr_errors (df_group (md_clusters def))) = None \<and> GetError api (gr_errors (md_indices def)) = None \<and>
    GetError api (gr_errors (kc_defs (md_controllers def))) = None \<and>
    (\<forall>co. NewControllerManagerByOpts api env be mc (opts\<lparr>mo_def := Some (def\<lparr>md_components := co\<rparr>)\<rparr>) = Some (Inr cm)) \<and>
    mg_name cm = md_name def \<and> mg_clusters cm = cs \<and>
    (\<forall>is. mo_indices opts = Some is \<longrightarrow>
       has_indices cm (globals_of (Some (manager_mappings cs)) (enabled_indices cs is))) \<and>
    (ctl_elements ctls \<noteq> [] \<longrightarrow> has_ctl_indices cm (Some (manager_mappings cs)) ctls \<and> rules_ok ctls) \<and>
    ctl_names cm = {n \<in> set (gkeys (gr_elements (kc_defs ctls))). filter_Use (kc_filter ctls) n}"
proof -
  let ?m = "Some (manager_mappings cs)" and ?cm0 = "new_manager (md_name def) cs"
  obtain err: "mgmt_GetError api def = None" and
    run: "run_phases (manager_phases api env be (me_check mc) (manager_mappings cs) opts ctls) ?cm0 = Some (Inr cm)"
    by (rule manager_run [OF assms(1)]) (simp add: assms manager_mappings_def)
  obtain cm1 cm2 cm3 cm4 where
    c1: "case mo_indices opts of
       Some is \<Rightarrow> if gr_elements is \<noteq> [] then index_CreateIndices api env is ?m ?cm0 = (None, cm1) else cm1 = ?cm0
     | None \<Rightarrow> cm1 = ?cm0" and
    c2: "case mo_components opts of
       Some co \<Rightarrow> if gr_elements (co_defs co) \<noteq> [] then comps_CreateIndices api env ?m co cm1 = Some (None, cm2) else cm2 = cm1
     | None \<Rightarrow> cm2 = cm1" and
    c3: "if gr_elements (kc_defs ctls) \<noteq> [] then ctls_CreateIndices api env ?m ctls cm2 = Some (None, cm3) else cm3 = cm2" and
    c4: "case mo_components opts of
       Some co \<Rightarrow> if gr_elements (co_defs co) \<noteq> [] then comps_Apply api (me_check mc) ?m co cm3 = Some (None, cm4) else cm4 = cm3
     | None \<Rightarrow> cm4 = cm3" and
    c5: "ctls_Apply api env be (me_check mc) ?m ctls cm4 = (None, cm)"
    by (rule manager_phases_run [OF run]) (rule that; assumption)
  have cm0: "mg_name ?cm0 = md_name def" "mg_clusters ?cm0 = cs" "ctl_names ?cm0 = {}"
    by (simp_all add: new_manager_def ctl_names_def NewGroup_def)
  have s1: "grows ?cm0 cm1" "\<forall>is. mo_indices opts = Some is \<longrightarrow> has_indices cm1 (globals_of ?m (enabled_indices cs is))"
    using c1 indices_phase [of api env _ ?m ?cm0 cm1] cm0(2)
    by (auto simp: enabled_indices_def has_indices_def split: option.splits if_splits)
  have s2: "grows cm1 cm2"
    using c2 create_comp_indices_grows by (auto simp: comps_CreateIndices_def split: option.splits if_splits)
  have none: "GetError api (gr_errors (kc_defs ctls)) = None" and
    c5': "apply_ctls api env be (me_check mc) ?m (kc_filter ctls) (gr_elements (kc_defs ctls)) cm4 = (None, cm)"
    using c5 by (auto simp: ctls_Apply_def split: option.splits)
  have s3: "grows cm2 cm3" "ctl_elements ctls \<noteq> [] \<longrightarrow> has_ctl_indices cm3 ?m ctls \<and> rules_ok ctls"
    using c3 controllers_phase [OF none, of env ?m cm2 cm3] by (auto simp: ctl_elements_def split: if_splits)
  have s4: "keeps cm3 cm4" "mg_controllers cm4 = mg_controllers cm3"
    using c4 apply_comps_keeps [of api "me_check mc" ?m _ _ cm3 None cm4] by (auto simp: comps_Apply_def split: option.splits if_splits)
  have s5: "keeps cm4 cm"
    using apply_ctls_keeps [of cm4 api env be "me_check mc" ?m "kc_filter ctls" "gr_elements (kc_defs ctls)"] c5' by simp
  have same: "has_indices cm s = has_indices cm3 s" for s
    using keeps_indices [OF s4(1)] keeps_indices [OF s5] by simp
  have "ctl_names cm4 = {}"
    using s1(1) s2 s3(1) s4(2) cm0(3) by (simp add: ctl_names_def grows_def)
  moreover have "mg_name cm = md_name def" "mg_clusters cm = cs"
    using s1(1) s2 s3(1) s4(1) s5 cm0 by (simp_all add: grows_def keeps_def)
  moreover have "has_indices cm s" if "has_indices cm1 s" for s
    using has_indices_grows [OF s3(1)] has_indices_grows [OF s2] that by (simp add: same)
  moreover have "NewControllerManagerByOpts api env be mc (opts\<lparr>mo_def := Some (def\<lparr>md_components := co\<rparr>)\<rparr>) = Some (Inr cm)" for co
    using assms(1) by (simp add: manager_components [OF assms(2) err])
  ultimately show ?thesis
    using apply_ctls_names [OF assms(5) c5'] mgmt_errors [OF err] s1(2) s3(2) by (auto simp: has_ctl_indices_def same)
qed


section \<open>Engagement and readiness\<close>

definition waiter :: "string \<times> cluster_eq \<Rightarrow> string" where
  "waiter e = (if ce_AsFleet (snd e) \<noteq> None then ''fleet '' else ''cluster '') @ fst e"

definition engages :: "cluster_eq list \<Rightarrow> string set \<Rightarrow> mc_manager \<Rightarrow> mc_manager \<Rightarrow> (string \<times> cluster_eq) list \<Rightarrow> bool" where
  "engages cs found m m' es \<longleftrightarrow>
     mc_engaged m' = mc_engaged m @ es \<and> mc_waiters m' = mc_waiters m @ map waiter es \<and>
     mc_config m' = mc_config m \<and> distinct (map fst es) \<and> fst ` set es \<inter> found = {} \<and>
     found \<union> fst ` set es = found \<union> (\<lambda>c. ce_GetName (ce_GetEffective c)) ` set cs \<and>
     (\<forall>(n, e) \<in> set es. n = ce_GetName e \<and> e \<in> ce_GetEffective ` set cs)"

lemma engages_skip:
  "engages cs found m m' es \<Longrightarrow> ce_GetName (ce_GetEffective c) \<in> found \<Longrightarrow> engages (c # cs) found m m' es"
  by (auto simp: engages_def)

lemma engages_step:
  assumes "engages cs (insert n found) (m\<lparr>mc_engaged := mc_engaged m @ [(n, e)], mc_waiters := mc_waiters m @ [waiter (n, e)]\<rparr>) m' es"
    and "n = ce_GetName e" "e = ce_GetEffective c" "n \<notin> found"
  shows "engages (c # cs) found m m' ((n, e) # es)"
  using assms by (auto simp: engages_def)

lemma engage_all_run:
  "engage_all add cs found m = Inr m' \<Longrightarrow> \<exists>es. engages cs found m m' es"
proof (induction cs arbitrary: found m)
  case (Cons c cs)
  show ?case
  proof (cases "ce_GetName (ce_GetEffective c) \<in> found")
    case True
    then show ?thesis
      using Cons.IH [of found m] Cons.prems engages_skip by fastforce
  next
    case False
    let ?e = "ce_GetEffective c" and ?n = "ce_GetName (ce_GetEffective c)"
    have "engage_all add cs (insert ?n found)
        (m\<lparr>mc_engaged := mc_engaged m @ [(?n, ?e)], mc_waiters := mc_waiters m @ [waiter (?n, ?e)]\<rparr>) = Inr m'"
      using Cons.prems False by (auto simp: waiter_def Let_def split: option.splits)
    then obtain es where "engages cs (insert ?n found)
        (m\<lparr>mc_engaged := mc_engaged m @ [(?n, ?e)], mc_waiters := mc_waiters m @ [waiter (?n, ?e)]\<rparr>) m' es"
      using Cons.IH by blast
    then have "engages (c # cs) found m m' ((?n, ?e) # es)"
      by (rule engages_step [OF _ refl refl False])
    then show ?thesis ..
  qed
qed (intro exI [of _ "[]"], simp add: engages_def)

lemma GetManager_run:
  assumes "GetManager mc opts (Some cs) = Inr m"
  obtains main cfg where "SelectMain (me_base mc) (mo_main opts) cs = Some main"
    "manager_config (me_configs mc) opts = Inr cfg"
    "engage_all (me_add mc) (map snd (gr_elements (cs_group cs))) {} \<lparr>mc_config = cfg, mc_engaged = [], mc_waiters = []\<rparr> = Inr m"
  using assms unfolding GetManager_def by (auto split: if_splits sum.splits option.splits)

lemma engaged_config: "engages cs found m m' es \<Longrightarrow> mc_config m' = mc_config m"
  by (simp add: engages_def)

lemma GetManager_config: "GetManager mc opts (Some cs) = Inr m \<Longrightarrow> manager_config (me_configs mc) opts = Inr (mc_config m)"
proof -
  assume "GetManager mc opts (Some cs) = Inr m"
  then obtain main cfg where "manager_config (me_configs mc) opts = Inr cfg"
    "engage_all (me_add mc) (map snd (gr_elements (cs_group cs))) {} \<lparr>mc_config = cfg, mc_engaged = [], mc_waiters = []\<rparr> = Inr m"
    by (rule GetManager_run) (rule that; assumption)
  moreover from this(2) obtain es where
    "engages (map snd (gr_elements (cs_group cs))) {} \<lparr>mc_config = cfg, mc_engaged = [], mc_waiters = []\<rparr> m es"
    using engage_all_run by blast
  ultimately show ?thesis
    using engaged_config by fastforce
qed

text \<open>
  C35: Clusters are engaged once. If the creation of the multi-cluster manager succeeds, the
  clusters and fleets engaged are the effective ones of the configured clusters, each name once
  and with one waiter of the readiness check. The configuration is the one that all providers
  together yield, and there is a main cluster.
\<close>

theorem engaged_once:
  assumes "GetManager mc opts (Some cs) = Inr m"
  shows "distinct (map fst (mc_engaged m)) \<and>
    set (map fst (mc_engaged m)) = (\<lambda>(n, e). ce_GetName (ce_GetEffective e)) ` set (gr_elements (cs_group cs)) \<and>
    (\<forall>(n, e) \<in> set (mc_engaged m). n = ce_GetName e \<and>
       (\<exists>k c. (k, c) \<in> set (gr_elements (cs_group cs)) \<and> e = ce_GetEffective c)) \<and>
    mc_waiters m = map waiter (mc_engaged m) \<and>
    manager_config (me_configs mc) opts = Inr (mc_config m) \<and>
    SelectMain (me_base mc) (mo_main opts) cs \<noteq> None"
proof -
  obtain main cfg where main: "SelectMain (me_base mc) (mo_main opts) cs = Some main"
    "engage_all (me_add mc) (map snd (gr_elements (cs_group cs))) {} \<lparr>mc_config = cfg, mc_engaged = [], mc_waiters = []\<rparr> = Inr m"
    by (rule GetManager_run [OF assms]) (rule that; assumption)
  obtain es where "engages (map snd (gr_elements (cs_group cs))) {} \<lparr>mc_config = cfg, mc_engaged = [], mc_waiters = []\<rparr> m es"
    using engage_all_run [OF main(2)] by blast
  then have es: "mc_engaged m = es" "mc_waiters m = map waiter es" "distinct (map fst es)"
    and names: "fst ` set es = (\<lambda>c. ce_GetName (ce_GetEffective c)) ` snd ` set (gr_elements (cs_group cs))"
    and effective: "\<forall>(n, e) \<in> set es. n = ce_GetName e \<and> e \<in> ce_GetEffective ` snd ` set (gr_elements (cs_group cs))"
    by (simp_all add: engages_def)
  have "set (map fst es) = (\<lambda>(n, e). ce_GetName (ce_GetEffective e)) ` set (gr_elements (cs_group cs))"
    unfolding set_map names image_image by (simp only: case_prod_beta')
  moreover have "\<forall>(n, e) \<in> set es. n = ce_GetName e \<and>
      (\<exists>k c. (k, c) \<in> set (gr_elements (cs_group cs)) \<and> e = ce_GetEffective c)"
    using effective by force
  ultimately show ?thesis
    using es main(1) GetManager_config [OF assms] by (simp del: set_map)
qed

text \<open>
  The readiness check forgets failures: after the waiters are done, the state is ready, even if
  no cache was synchronised. While they are waited for, it never is.
\<close>

lemma ready_forgets:
  "ready_state ws = None \<and> None \<notin> set (butlast (fst (ready_run ws))) \<and>
    snd (ready_run ws) = length (filter (\<lambda>(n, synced). \<not> synced) ws)"
proof -
  have "\<exists>l. fst (ready_run ws) = l @ [None] \<and> None \<notin> set l \<and>
      snd (ready_run ws) = length (filter (\<lambda>(n, synced). \<not> synced) ws)"
  proof (induction ws rule: ready_run.induct)
    case (2 n synced ws)
    obtain l c where "ready_run ws = (l @ [None], c)" "None \<notin> set l" "c = length (filter (\<lambda>(n, synced). \<not> synced) ws)"
      using "2.IH" by (cases "ready_run ws") auto
    then show ?case
      by (cases synced) simp_all
  qed simp
  then show ?thesis
    by (auto simp: ready_state_def)
qed

text \<open>A creation returns if it has no components to create and a main cluster or no information is logged.\<close>

lemma manager_returns:
  assumes "\<forall>co. mo_components opts = Some co \<longrightarrow> gr_elements (co_defs co) = []"
    and "me_info mc \<longrightarrow> (\<forall>o' cs. mo_manager opts = Some o' \<longrightarrow> mo_clusters opts = Some cs \<longrightarrow> SelectMain (me_base mc) (mo_main o') cs \<noteq> None)"
  shows "NewControllerManagerByOpts api env be mc opts \<noteq> None"
proof -
  have "run_phases (manager_phases api env be check mp opts ctls) cm \<noteq> None" for check mp ctls cm
    by (rule run_phases_total)
      (use assms(1) ctls_CreateIndices_total [of api env _ ctls] in
        \<open>auto simp: manager_phases_def simp del: not_None_eq split_paired_Ex split: option.splits if_splits\<close>)
  then show ?thesis
    using assms(2) unfolding NewControllerManagerByOpts_def
    by (auto simp del: not_None_eq split: option.split sum.split)
qed


section \<open>The configuration of the servers\<close>

text \<open>The providers of the server options touch different fields, so their order does not matter.\<close>

lemmas provider_defs = case_prod_beta metrics_Configure_def webhook_provider_def webhook_Configure_def healthz_Configure_def

lemma configure_servers:
  assumes "set ps \<subseteq> {metrics_Configure m, webhook_provider w, healthz_Configure addr}"
  shows "\<exists>cfg'. configure ps cfg = Inr cfg' \<and> cc_LeaderElectionID cfg' = cc_LeaderElectionID cfg \<and>
    (metrics_Configure m \<in> set ps \<or> cc_Metrics cfg = GetMetricsServerOpts m \<longrightarrow> cc_Metrics cfg' = GetMetricsServerOpts m) \<and>
    (webhook_provider w \<in> set ps \<or> cc_WebhookServer cfg = fst (GetServer w) \<longrightarrow> cc_WebhookServer cfg' = fst (GetServer w)) \<and>
    (healthz_Configure addr \<in> set ps \<or> cc_HealthProbeBindAddress cfg = addr \<longrightarrow> cc_HealthProbeBindAddress cfg' = addr)"
  using assms
proof (induction ps arbitrary: cfg)
  case (Cons p ps)
  have "p \<in> {metrics_Configure m, webhook_provider w, healthz_Configure addr}"
    using Cons.prems by simp
  then obtain c where c: "p cfg = Inr c" and kept: "cc_LeaderElectionID c = cc_LeaderElectionID cfg"
    "cc_Metrics c \<in> {cc_Metrics cfg, GetMetricsServerOpts m}" "cc_WebhookServer c \<in> {cc_WebhookServer cfg, fst (GetServer w)}"
    "cc_HealthProbeBindAddress c \<in> {cc_HealthProbeBindAddress cfg, addr}"
    by (elim insertE) (auto simp: provider_defs)
  have put: "p = metrics_Configure m \<Longrightarrow> cc_Metrics c = GetMetricsServerOpts m"
    "p = webhook_provider w \<Longrightarrow> cc_WebhookServer c = fst (GetServer w)"
    "p = healthz_Configure addr \<Longrightarrow> cc_HealthProbeBindAddress c = addr"
    using c by (auto simp: provider_defs)
  obtain cfg' where cfg': "configure ps c = Inr cfg'" "cc_LeaderElectionID cfg' = cc_LeaderElectionID c"
    "metrics_Configure m \<in> set ps \<or> cc_Metrics c = GetMetricsServerOpts m \<longrightarrow> cc_Metrics cfg' = GetMetricsServerOpts m"
    "webhook_provider w \<in> set ps \<or> cc_WebhookServer c = fst (GetServer w) \<longrightarrow> cc_WebhookServer cfg' = fst (GetServer w)"
    "healthz_Configure addr \<in> set ps \<or> cc_HealthProbeBindAddress c = addr \<longrightarrow> cc_HealthProbeBindAddress cfg' = addr"
    using Cons.IH [of c] Cons.prems by auto
  show ?case
    by (rule exI [of _ cfg']) (use c kept put cfg' in auto)
qed simp

text \<open>
  C22: The servers of a manager. Whatever the order of the option sets, if both servers share
  the validated TLS options and there is no webhook server yet, the manager is created with the
  address of the health probes, with the configured identity of the leader election, and with
  the metrics and the webhook server of the options: the address, the secure serving with its
  authentication filter, and the certificates, which count only with a path. Both servers offer HTTP/1.1 only if
  \<open>enable-http2\<close> is set, and all protocols they start with if it is not: the flag does the
  opposite of what it says.
\<close>

theorem servers_configured:
  assumes "GetManager mc opts (Some cs) = Inr mgr"
    and "set (me_configs mc) = {metrics_Configure (Some m), webhook_provider (Some w), healthz_Configure addr}"
    and "mo_configs opts = []" "mx_tlsOpts m = Some tls" "wh_tlsOpts w = Some tls" "wh_server w = None"
  shows "cc_HealthProbeBindAddress (mc_config mgr) = addr \<and>
    cc_LeaderElectionID (mc_config mgr) = (if mo_ElectionId opts \<noteq> [] then mo_ElectionId opts else mo_default_id opts) \<and>
    mt_BindAddress (cc_Metrics (mc_config mgr)) = mx_MetricsAddr m \<and>
    mt_SecureServing (cc_Metrics (mc_config mgr)) = mx_SecureMetrics m \<and>
    mt_FilterProvider (cc_Metrics (mc_config mgr)) =
      (if mx_SecureMetrics m then Some ''WithAuthenticationAndAuthorization'' else None) \<and>
    certificate (cc_Metrics (mc_config mgr)) = given_certificate (mx_CertPath m) (mx_CertName m) (mx_CertKey m) \<and>
    offered (sv_TLSOpts (cc_Metrics (mc_config mgr))) protos = (if tl_EnableHTTP2 tls then [''http/1.1''] else protos) \<and>
    (\<exists>s. cc_WebhookServer (mc_config mgr) = Some (NewServer s) \<and>
       certificate s = given_certificate (wh_CertPath w) (wh_CertName w) (wh_CertKey w) \<and>
       offered (sv_TLSOpts s) protos = (if tl_EnableHTTP2 tls then [''http/1.1''] else protos))"
proof -
  have cfg: "manager_config (me_configs mc) opts = Inr (mc_config mgr)"
    by (rule GetManager_config [OF assms(1)])
  obtain cfg' where run: "configure (me_configs mc) (base_config opts) = Inr cfg'" "cc_LeaderElectionID cfg' = mo_default_id opts"
    "cc_Metrics cfg' = GetMetricsServerOpts (Some m)" "cc_WebhookServer cfg' = fst (GetServer (Some w))"
    "cc_HealthProbeBindAddress cfg' = addr"
    using configure_servers [of "me_configs mc" "Some m" "Some w" addr "base_config opts"] assms(2)
    by (auto simp: base_config_def)
  then have "mc_config mgr = (if mo_ElectionId opts \<noteq> [] then cfg'\<lparr>cc_LeaderElectionID := mo_ElectionId opts\<rparr> else cfg')"
    using cfg assms(3) by (simp add: manager_config_def split: if_splits)
  then show ?thesis
    using run(2-5) assms(4-6)
    by (simp add: GetServer_def webhook_TLS webhook_certificate metrics_fields Let_def)
qed

section \<open>Witnesses\<close>

definition cs_demo :: cluster_set where
  "cs_demo = snd (set_Add err_demo [CE_Cluster (BaseCluster ''main'' ''id'' 7)] newClusters)"

definition mc_demo :: mc_env where
  "mc_demo = \<lparr>me_info = True, me_base = (\<lambda>_. None), me_configs = [], me_new = None, me_check = (\<lambda>_. None), me_add = (\<lambda>_. None)\<rparr>"

definition mgropts_demo :: mgr_options where
  "mgropts_demo = \<lparr>mo_main = [], mo_EnableLeaderElection = True, mo_LeaderElectionNamespace = [], mo_ProbeAddr = [],
     mo_ElectionId = [], mo_default_id = ''demo'', mo_configs = []\<rparr>"

definition wctl_demo :: ctl_def where
  "wctl_demo = ctl_AddIndex err_demo ''ref'' (ctl_Define ''watch'' ''main'' ''Pod'' rec_demo)"

definition watcher_demo :: controller_defs where
  "watcher_demo = ctls_Add err_demo [CtlPlain wctl_demo] ctls_NewDefinitions"

definition opts_demo :: mgmt_opts where
  "opts_demo = \<lparr>mo_def = Some (mgmt_Define ''demo'' []), mo_manager = Some mgropts_demo, mo_clusters = Some cs_demo,
     mo_indices = Some (index_Add err_demo [index_Define ''owner'' ''main'' ''Deployment''] (NewDefinitions ''index'')),
     mo_components = None, mo_controllers = Some watcher_demo\<rparr>"

lemma demo_clusters: "gr_elements (cs_group cs_demo) = [(''main'', CE_Cluster (BaseCluster ''main'' ''id'' 7))]"
  "SelectMain (\<lambda>_. None) [] cs_demo = Some (BaseCluster ''main'' ''id'' 7)"
  by code_simp+

lemma demo_manager: "GetManager mc_demo mgropts_demo (Some cs_demo) =
    Inr \<lparr>mc_config = base_config mgropts_demo, mc_engaged = [(''main'', CE_Cluster (BaseCluster ''main'' ''id'' 7))], mc_waiters = [''cluster main'']\<rparr>"
proof -
  have "mo_main mgropts_demo = []" "manager_config [] mgropts_demo = Inr (base_config mgropts_demo)"
    by (simp_all add: mgropts_demo_def manager_config_def)
  then show ?thesis
    by (simp add: GetManager_def mc_demo_def demo_clusters Let_def)
qed

lemma demo_controller: "kd_name wctl_demo = ''watch''" "kd_groups wctl_demo = []" "kd_constraints wctl_demo = []"
  "filter (HOL.Not \<circ> Option.is_none) (ec_errlist (kd_errors wctl_demo)) = []"
  by code_simp+

lemma demo_controllers: "gr_elements (kc_defs watcher_demo) = [(''watch'', CtlPlain wctl_demo)]"
  "kc_filter watcher_demo = None" "kc_constraints watcher_demo = []" "GetError err_demo (gr_errors (kc_defs watcher_demo)) = None"
  by (simp_all add: watcher_demo_def ctls_Add_def ctls_NewDefinitions_def Definitions_Add_def ds_add_one_def
      NewDefinitions_def elem_group.truncate_def NewErrorContainer_def AddError_def err_demo_def gset_def Let_def
      demo_controller [unfolded err_demo_def] ctl_GetName_def GetError_def Option.is_none_def)

definition cm1_demo :: manager where
  "cm1_demo = snd (index_CreateIndices err_demo ienv_demo
     (index_Add err_demo [index_Define ''owner'' ''main'' ''Deployment''] (NewDefinitions ''index''))
     (Some (manager_mappings cs_demo)) (new_manager ''demo'' cs_demo))"

definition cm2_demo :: manager where
  "cm2_demo = snd (create_ctl_indices err_demo ienv_demo (Some (manager_mappings cs_demo)) None [CtlPlain wctl_demo] cm1_demo)"

lemma demo_phases:
  "fst (index_CreateIndices err_demo ienv_demo
     (index_Add err_demo [index_Define ''owner'' ''main'' ''Deployment''] (NewDefinitions ''index''))
     (Some (manager_mappings cs_demo)) (new_manager ''demo'' cs_demo)) = None"
  "fst (create_ctl_indices err_demo ienv_demo (Some (manager_mappings cs_demo)) None [CtlPlain wctl_demo] cm1_demo) = None"
  "fst (ctl_Apply err_demo ienv_demo be_demo (\<lambda>_. None) (Some (manager_mappings cs_demo)) wctl_demo cm2_demo) = None"
  by code_simp+


lemma demo_rules: "\<not> complains cx (And [])"
  by simp

lemma demo_run: "\<exists>cm. NewControllerManagerByOpts err_demo ienv_demo be_demo mc_demo opts_demo = Some (Inr cm)"
proof -
  let ?m = "Some (manager_mappings cs_demo)"
  have plain: "kd_constraints (ctl_of (CtlPlain wctl_demo)) = []" "ctl_elements watcher_demo = [CtlPlain wctl_demo]"
    by (simp_all add: demo_controller demo_controllers ctl_elements_def)
  have ci: "ctls_CreateIndices err_demo ienv_demo ?m watcher_demo mgr =
      Some (create_ctl_indices err_demo ienv_demo ?m None [CtlPlain wctl_demo] mgr)" for mgr
  proof -
    obtain e e' where run: "ctls_CreateIndices err_demo ienv_demo ?m watcher_demo mgr =
        Some (if e \<noteq> None then (e, mgr) else if e' \<noteq> None then (e', mgr)
              else create_ctl_indices err_demo ienv_demo ?m (kc_filter watcher_demo) (ctl_elements watcher_demo) mgr)"
      and e: "e \<noteq> None \<longleftrightarrow> complains (rule_ctx watcher_demo) (And (kc_constraints watcher_demo))"
      and e': "e' \<noteq> None \<longleftrightarrow> (\<exists>c \<in> set (ctl_elements watcher_demo). filter_Use (kc_filter watcher_demo) (ctl_GetName c) \<and>
         complains (rule_ctx watcher_demo) (And (kd_constraints (ctl_of c))))"
      by (rule ctls_CreateIndices_run [OF demo_controllers(4)]) (rule that; assumption)
    have "e = None" "e' = None"
      using e e' by (simp_all only: demo_controllers plain) (simp_all add: plain del: ctl_of.simps)
    then show ?thesis
      by (simp add: run demo_controllers plain)
  qed
  have "index_CreateIndices err_demo ienv_demo
      (index_Add err_demo [index_Define ''owner'' ''main'' ''Deployment''] (NewDefinitions ''index'')) ?m
      (new_manager ''demo'' cs_demo) = (None, cm1_demo)"
    using demo_phases(1) by (simp add: cm1_demo_def prod_eq_iff)
  moreover have "create_ctl_indices err_demo ienv_demo ?m None [CtlPlain wctl_demo] cm1_demo = (None, cm2_demo)"
    using demo_phases(2) by (simp add: cm2_demo_def prod_eq_iff)
  moreover obtain cm where "ctl_Apply err_demo ienv_demo be_demo (\<lambda>_. None) ?m wctl_demo cm2_demo = (None, cm)"
    using demo_phases(3) by (metis prod.collapse)
  moreover have "gr_elements (index_Add err_demo [index_Define ''owner'' ''main'' ''Deployment''] (NewDefinitions ''index'')) \<noteq> []"
    by code_simp
  moreover have def: "mgmt_GetError err_demo (mgmt_Define ''demo'' []) = None" "me_check mc_demo = (\<lambda>_. None)"
    "md_name (mgmt_Define ''demo'' []) = ''demo''"
    by code_simp (simp_all add: mc_demo_def mgmt_Define_def)
  moreover have main: "SelectMain (me_base mc_demo) (mo_main mgropts_demo) cs_demo \<noteq> None"
    by (rule GetManager_run [OF demo_manager]) simp
  ultimately have "run_phases (manager_phases err_demo ienv_demo be_demo (me_check mc_demo) (manager_mappings cs_demo) opts_demo watcher_demo)
      (new_manager ''demo'' cs_demo) = Some (Inr cm)"
    by (simp add: manager_phases_def opts_demo_def ci demo_controllers ctls_Apply_def filter_Use_def)
  then show ?thesis
    using main def by (auto simp: NewControllerManagerByOpts_def opts_demo_def demo_manager manager_mappings_def)
qed

theorem rules_enforced_witness:
  "\<exists>err. ctls_CreateIndices err_demo ienv_demo None watch_only mgr_demo = Some (Some err, mgr_demo)"
proof -
  have "(''A'', ''sync'') \<in> (member_edges (kc_groups watch_only))\<^sup>*"
    by (rule r_into_rtrancl) (simp add: member_edges_def watch_only_simps ctls_demo_simps grp_of_def)
  then have "''sync'' \<in> leaves_of (kc_groups watch_only) ''A''"
    by (simp add: leaves_of_def watch_only_simps ctls_demo_simps grp_of_def)
  moreover obtain c where c: "NewContext (GetControllerSet watch_only) = Some c"
    "Context_GetGroup ''A'' c = Some (leaves_of (kc_groups watch_only) ''A'')"
    using NewContext_total [of "GetControllerSet watch_only"]
    by (auto simp: GetControllerSet_def watch_only_simps ctls_demo_simps)
  ultimately have "\<not> full (rule_ctx watch_only) ''A''"
    by (auto simp: full_def rule_ctx_def WithSelectedSet_def Context_GetGroup_def active_names_def watch_only_simps(2))
  then have "complains (rule_ctx watch_only) (And (kc_constraints watch_only))"
    by (simp add: watch_only_simps ctls_demo_simps)
  then show ?thesis
    using rules_enforced [of err_demo ienv_demo None watch_only mgr_demo] by (auto simp: split: if_splits)
qed

theorem manager_composed_witness:
  "\<exists>cm. NewControllerManagerByOpts err_demo ienv_demo be_demo mc_demo opts_demo = Some (Inr cm) \<and>
    ctl_names cm = {''watch''} \<and> mgr_GetIndex cm ''owner:main'' \<noteq> None \<and> mgr_GetIndex cm ''ref:main'' \<noteq> None"
proof -
  obtain cm where run: "NewControllerManagerByOpts err_demo ienv_demo be_demo mc_demo opts_demo = Some (Inr cm)"
    using demo_run by blast
  have "globals_of (Some (manager_mappings cs_demo)) (enabled_indices cs_demo
      (index_Add err_demo [index_Define ''owner'' ''main'' ''Deployment''] (NewDefinitions ''index''))) = {''owner:main''}"
    "ctl_globals (Some (manager_mappings cs_demo)) (CtlPlain wctl_demo) = {''ref:main''}"
    by code_simp+
  moreover have "\<forall>(n, c) \<in> set (gr_elements (kc_defs watcher_demo)). ctl_GetName c = n"
    by (simp add: demo_controllers ctl_GetName_def demo_controller)
  then have "mg_clusters cm = cs_demo \<and>
    (\<forall>is. mo_indices opts_demo = Some is \<longrightarrow>
       has_indices cm (globals_of (Some (manager_mappings cs_demo)) (enabled_indices cs_demo is))) \<and>
    (ctl_elements watcher_demo \<noteq> [] \<longrightarrow> has_ctl_indices cm (Some (manager_mappings cs_demo)) watcher_demo) \<and>
    ctl_names cm = {n \<in> set (gkeys (gr_elements (kc_defs watcher_demo))). filter_Use (kc_filter watcher_demo) n}"
    using manager_composed [OF run, of _ cs_demo watcher_demo] by (simp add: opts_demo_def)
  ultimately show ?thesis
    using run by (auto simp: opts_demo_def demo_controllers filter_Use_def has_ctl_indices_def ctl_elements_def has_indices_def)
qed

theorem engaged_once_witness:
  "\<exists>m. GetManager mc_demo mgropts_demo (Some cs_demo) = Inr m \<and> distinct (map fst (mc_engaged m)) \<and>
    manager_config [] mgropts_demo = Inr (mc_config m)"
proof -
  have "me_configs mc_demo = []"
    by (simp add: mc_demo_def)
  then show ?thesis
    using engaged_once [OF demo_manager] demo_manager by auto
qed

definition tls_demo :: tls_options where
  "tls_demo = \<lparr>tl_EnableHTTP2 = False\<rparr>"

definition metrics_demo :: metrics_options where
  "metrics_demo = \<lparr>mx_MetricsAddr = '':8443'', mx_CertPath = [], mx_CertName = ''tls.crt'', mx_CertKey = ''tls.key'',
     mx_SecureMetrics = True, mx_tlsOpts = Some tls_demo\<rparr>"

definition webhook_demo :: webhook_options where
  "webhook_demo = \<lparr>wh_CertPath = [], wh_CertName = [], wh_CertKey = [], wh_tlsOpts = Some tls_demo, wh_server = None\<rparr>"

definition servers_demo :: mc_env where
  "servers_demo = mc_demo\<lparr>me_configs :=
     [metrics_Configure (Some metrics_demo), webhook_provider (Some webhook_demo), healthz_Configure '':8081'']\<rparr>"

theorem servers_configured_witness:
  "\<exists>m s. GetManager servers_demo mgropts_demo (Some cs_demo) = Inr m \<and>
    cc_WebhookServer (mc_config m) = Some (NewServer s) \<and> offered (sv_TLSOpts s) [''h2''] = [''h2''] \<and>
    offered (sv_TLSOpts (cc_Metrics (mc_config m))) [''h2''] = [''h2''] \<and> cc_HealthProbeBindAddress (mc_config m) = '':8081''"
proof -
  have opts: "mo_main mgropts_demo = []" "mo_configs mgropts_demo = []"
    by (simp_all add: mgropts_demo_def)
  have "\<exists>m. GetManager servers_demo mgropts_demo (Some cs_demo) = Inr m"
    by (simp add: GetManager_def servers_demo_def mc_demo_def demo_clusters opts manager_config_def provider_defs Let_def split: prod.split)
  then obtain m where m: "GetManager servers_demo mgropts_demo (Some cs_demo) = Inr m" ..
  have "set (me_configs servers_demo) =
      {metrics_Configure (Some metrics_demo), webhook_provider (Some webhook_demo), healthz_Configure '':8081''}"
    by (simp add: servers_demo_def)
  then show ?thesis
    using servers_configured [OF m _ opts(2), of metrics_demo webhook_demo "'':8081''" tls_demo "[''h2'']"] m
    by (auto simp: metrics_demo_def webhook_demo_def tls_demo_def)
qed

end
