(* ===== verification/Triggers.thy ===== *)
theory Triggers
  imports Manager Owners Enqueue
begin

text \<open>
  Triggers: how the objects a controller watches are mapped to requests (controller/trigger.go,
  mappingtrigger.go, ownertrigger.go, indextrigger.go, helper.go, handler/lift.go), and the
  wrappers that put the cluster into the context of handlers and reconcilers
  (controller/controller.go); and the lookup of owned objects in an owner index (owner/index.go).

  The scheme and the cache of a cluster are parameters. A mapping that panics is \<open>None\<close>.
\<close>

section \<open>Mappings that know the controller and the cluster\<close>

text \<open>
  A cache lists the keys of objects for a field, its value and a namespace. The context of a
  mapping is the cluster it carries, if any.
\<close>

type_synonym cache = "string \<Rightarrow> string \<Rightarrow> string \<Rightarrow> namespaced_name list result"

type_synonym ('o, 'r) object_mapper = "cluster option \<Rightarrow> 'o \<Rightarrow> 'r list option"

type_synonym 'f cluster_aware = "string \<Rightarrow> cache \<Rightarrow> 'f option"

text \<open>What the factories use of a controller: the view on its environment, and the clusters of its manager.\<close>

record trig_ctl =
  tc_view :: ctl_view
  tc_resource :: string
  tc_clusters :: cluster_set

definition MapTechnicalName :: "trig_ctl \<Rightarrow> string \<Rightarrow> cluster_eq option" where
  "MapTechnicalName c name = set_Get (tc_clusters c) name"

text \<open>A factory may keep the prototype of the owner, the second component.\<close>

type_synonym 'f controller_aware = "trig_ctl \<Rightarrow> string option \<Rightarrow> 'f result \<times> string option"

definition LiftToCluster :: "'f \<Rightarrow> 'f cluster_aware" where
  "LiftToCluster f = (\<lambda>clusterName cache. Some f)"

definition LiftToController :: "'f \<Rightarrow> 'f controller_aware" where
  "LiftToController f = (\<lambda>c s. (Inr f, s))"

definition Lift :: "'f \<Rightarrow> 'f cluster_aware controller_aware" where
  "Lift f = LiftToController (LiftToCluster f)"

text \<open>The transformation of the results of a mapping.\<close>

definition transform_results :: "('r \<Rightarrow> 's) \<Rightarrow> ('o, 'r) object_mapper \<Rightarrow> ('o, 's) object_mapper" where
  "transform_results conv m = (\<lambda>ctx obj. map_option (map conv) (m ctx obj))"

definition mapperFactoryForTypedFactory ::
  "('o, 'r) object_mapper cluster_aware controller_aware \<Rightarrow> (trig_ctl \<Rightarrow> string \<Rightarrow> 'r \<Rightarrow> mc_request) \<Rightarrow>
   ('o, mc_request) object_mapper cluster_aware controller_aware" where
  "mapperFactoryForTypedFactory fac convfactory = (\<lambda>c s.
     let converter = convfactory c in
     case fac c s of
       (Inl err, s) \<Rightarrow> (Inl err, s)
     | (Inr f, s) \<Rightarrow>
         (Inr (\<lambda>clusterName cache. map_option (transform_results (converter clusterName)) (f clusterName cache)), s))"

definition transformMapper ::
  "('o, 'r) object_mapper cluster_aware controller_aware \<Rightarrow> ('r \<Rightarrow> 's) \<Rightarrow>
   ('o, 's) object_mapper cluster_aware controller_aware" where
  "transformMapper inner conv = (\<lambda>c s.
     case inner c s of
       (Inl err, s) \<Rightarrow> (Inl err, s)
     | (Inr f, s) \<Rightarrow> (Inr (\<lambda>clusterName cache. map_option (transform_results conv) (f clusterName cache)), s))"

section \<open>Triggers\<close>

record 'o res_trigger =
  rt_desc :: string
  rt_proto :: string
  rt_mapper :: "('o, mc_request) object_mapper cluster_aware controller_aware"
  rt_cluster :: string

definition newTrigger ::
  "string \<Rightarrow> ('o, mc_request) object_mapper cluster_aware controller_aware \<Rightarrow> string list \<Rightarrow> 'o res_trigger" where
  "newTrigger proto mapper desc =
     \<lparr>rt_desc = (case desc of [] \<Rightarrow> ''resource mapping'' | d # _ \<Rightarrow> d), rt_proto = proto, rt_mapper = mapper, rt_cluster = []\<rparr>"

text \<open>What the controller keeps of a trigger: the outcome of its factory.\<close>

definition trigger_for :: "trig_ctl \<Rightarrow> 'o res_trigger \<Rightarrow> trigger_def" where
  "trigger_for c t =
     \<lparr>tr_desc = rt_desc t, tr_resource = rt_proto t, tr_cluster = rt_cluster t,
      tr_mapper = (case fst (rt_mapper t c None) of Inl err \<Rightarrow> Some err | Inr _ \<Rightarrow> None)\<rparr>"

text \<open>Requests of a mapping are completed with the cluster; local requests are lifted to it.\<close>

definition ResourceTriggerByFactory ::
  "string \<Rightarrow> ('o, mc_request) object_mapper cluster_aware controller_aware \<Rightarrow> string list \<Rightarrow> 'o res_trigger" where
  "ResourceTriggerByFactory proto mapFunc desc =
     newTrigger proto
       (mapperFactoryForTypedFactory mapFunc (\<lambda>c. RequestConverterFactoryForClusterCompletion (kv_mappings (tc_view c)))) desc"

definition ResourceTrigger :: "string \<Rightarrow> ('o, mc_request) object_mapper \<Rightarrow> string list \<Rightarrow> 'o res_trigger" where
  "ResourceTrigger proto mapFunc desc = ResourceTriggerByFactory proto (Lift mapFunc) desc"

definition LocalResourceTriggerByFactory ::
  "string \<Rightarrow> ('o, namespaced_name) object_mapper cluster_aware controller_aware \<Rightarrow> string list \<Rightarrow> 'o res_trigger" where
  "LocalResourceTriggerByFactory proto mapper desc =
     newTrigger proto (mapperFactoryForTypedFactory mapper (\<lambda>c. LiftRequest)) desc"

definition LocalResourceTrigger :: "string \<Rightarrow> ('o, namespaced_name) object_mapper \<Rightarrow> string list \<Rightarrow> 'o res_trigger" where
  "LocalResourceTrigger proto mapFunc desc = LocalResourceTriggerByFactory proto (Lift mapFunc) desc"

section \<open>Owners\<close>

text \<open>A cluster as the handler of owners sees it, and the matcher for a cluster or fleet.\<close>

definition cl_of :: "cluster \<Rightarrow> cl" where
  "cl_of c = \<lparr>cl_name = cluster_GetName c, cl_id = cluster_GetId c, cl_client = bc_client (cluster_GetEffective c)\<rparr>"

fun ce_GetClusterById :: "cluster_eq \<Rightarrow> string \<Rightarrow> cluster_eq option" where
  "ce_GetClusterById (CE_Cluster c) ident = map_option CE_Cluster (cluster_GetClusterById c ident)"
| "ce_GetClusterById (CE_Fleet f) ident = fleet_GetClusterById f ident"

definition ce_matcher :: "cluster_eq \<Rightarrow> cluster_matcher" where
  "ce_matcher c = MatcherFor (ce_GetId c) (\<lambda>ident. map_option ce_GetName (ce_GetClusterById c ident))"

text \<open>
  The owners of objects in a cluster; for a fleet, which is no cluster, in the one of the
  context. \<open>x\<close> is the scheme, \<open>t\<close> the name of the annotation. The prototype of the owner is
  taken from the first controller that asks.
\<close>

definition src_cluster :: "cluster_eq \<Rightarrow> cluster option \<Rightarrow> cluster option" where
  "src_cluster ce ctx = (case ce_AsCluster ce of Some c \<Rightarrow> Some c | None \<Rightarrow> ctx)"

definition ownerMapFuncFactory ::
  "index_env \<Rightarrow> k8s_objects \<Rightarrow> string \<Rightarrow> bool \<Rightarrow> (kobject, mc_request) object_mapper cluster_aware controller_aware" where
  "ownerMapFuncFactory env x t local = (\<lambda>c s.
     let proto = (case s of Some p \<Rightarrow> p | None \<Rightarrow> tc_resource c) in
     case GKForObject env proto of
       Inl err \<Rightarrow> (Inl err, Some proto)
     | Inr gk \<Rightarrow>
         (Inr (if local
               then (\<lambda>clusterName cache. map_option (\<lambda>ce ctx obj.
                 map_option (\<lambda>cl. MapOwnerToRequestForGK x t (ce_matcher (kv_cluster (tc_view c))) (cl_of cl) gk obj)
                   (src_cluster ce ctx)) (MapTechnicalName c clusterName))
               else (\<lambda>clusterName cache. map_option (\<lambda>ce ctx obj.
                 map_option (\<lambda>cl. MapOwnerToRequestForGK x t (ce_matcher (kv_cluster (tc_view c))) (cl_of cl) gk obj)
                   (src_cluster ce ctx)) (MapTechnicalName c clusterName))),
          Some proto))"

definition OwnerTrigger :: "index_env \<Rightarrow> k8s_objects \<Rightarrow> string \<Rightarrow> string \<Rightarrow> bool list \<Rightarrow> kobject res_trigger" where
  "OwnerTrigger env x t proto local =
     newTrigger proto (ownerMapFuncFactory env x t (case local of [] \<Rightarrow> True | b # _ \<Rightarrow> b)) [''owner trigger'']"

definition mapOwnersFactory ::
  "k8s_objects \<Rightarrow> string \<Rightarrow> bool \<Rightarrow> (kobject, typed_global_key) object_mapper cluster_aware controller_aware" where
  "mapOwnersFactory x t local = (\<lambda>c s.
     (Inr (\<lambda>clusterName cache. map_option (\<lambda>ce ctx obj.
        Option.bind (src_cluster ce ctx) (\<lambda>cl.
          MapOwners x t (ce_matcher (if local then ce else kv_cluster (tc_view c))) (cl_of cl) [()] obj))
        (MapTechnicalName c clusterName)), s))"

section \<open>Indices\<close>

definition GenericIndexKeyMapperForMapFunc ::
  "('o, 'r) object_mapper \<Rightarrow> ('r \<Rightarrow> string) \<Rightarrow> ('o, string) object_mapper cluster_aware controller_aware" where
  "GenericIndexKeyMapperForMapFunc mapFunc converter = Lift (transform_results converter mapFunc)"

definition GenericIndexKeyMapperByFactory ::
  "('o, 'r) object_mapper cluster_aware controller_aware \<Rightarrow> ('r \<Rightarrow> string) \<Rightarrow>
   ('o, string) object_mapper cluster_aware controller_aware" where
  "GenericIndexKeyMapperByFactory mapFunc converter = (\<lambda>c s.
     case mapFunc c s of
       (Inl err, s) \<Rightarrow> (Inl err, s)
     | (Inr f, s) \<Rightarrow> (Inr (\<lambda>clusterName cache. map_option (transform_results converter) (f clusterName cache)), s))"

definition IndexKeyMapper ::
  "k8s_naming \<Rightarrow> ('o, mc_request) object_mapper \<Rightarrow> (mc_request \<Rightarrow> string) list \<Rightarrow>
   ('o, string) object_mapper cluster_aware controller_aware" where
  "IndexKeyMapper e mapFunc conv =
     GenericIndexKeyMapperForMapFunc mapFunc (case conv of [] \<Rightarrow> DefaultRequestToIndexKey e | f # _ \<Rightarrow> f)"

definition DefaultLocalRequestToIndexKey :: "k8s_naming \<Rightarrow> namespaced_name \<Rightarrow> string" where
  "DefaultLocalRequestToIndexKey e req = nn_string e (nn_namespace req) (nn_name req)"

definition LocalIndexKeyMapper ::
  "k8s_naming \<Rightarrow> ('o, namespaced_name) object_mapper \<Rightarrow> (namespaced_name \<Rightarrow> string) list \<Rightarrow>
   ('o, string) object_mapper cluster_aware controller_aware" where
  "LocalIndexKeyMapper e mapFunc conv =
     GenericIndexKeyMapperForMapFunc mapFunc (case conv of [] \<Rightarrow> DefaultLocalRequestToIndexKey e | f # _ \<Rightarrow> f)"

definition IndexKeyMapperByFactory ::
  "k8s_naming \<Rightarrow> ('o, mc_request) object_mapper cluster_aware controller_aware \<Rightarrow>
   ('o, string) object_mapper cluster_aware controller_aware" where
  "IndexKeyMapperByFactory e mapFunc = GenericIndexKeyMapperByFactory mapFunc (DefaultRequestToIndexKey e)"

definition LocalIndexKeyMapperByFactory ::
  "k8s_naming \<Rightarrow> ('o, namespaced_name) object_mapper cluster_aware controller_aware \<Rightarrow>
   ('o, string) object_mapper cluster_aware controller_aware" where
  "LocalIndexKeyMapperByFactory e mapFunc = GenericIndexKeyMapperByFactory mapFunc (DefaultLocalRequestToIndexKey e)"

text \<open>
  The look-up of the keys of an object in the index: by the name the trigger was defined with,
  in the namespace of the object. The first look-up that fails ends the mapping without any
  result.
\<close>

fun index_requests :: "cache \<Rightarrow> string \<Rightarrow> string \<Rightarrow> string list \<Rightarrow> namespaced_name list \<Rightarrow> namespaced_name list option" where
  "index_requests cache indexName ns [] result = Some result"
| "index_requests cache indexName ns (k # ks) result =
     (case cache indexName k ns of
        Inl err \<Rightarrow> None
      | Inr items \<Rightarrow> index_requests cache indexName ns ks (result @ items))"

definition index_map_obj ::
  "k8s_naming \<Rightarrow> string \<Rightarrow> (kobject, string) object_mapper option \<Rightarrow> string \<Rightarrow> cache \<Rightarrow> (kobject, mc_request) object_mapper" where
  "index_map_obj e indexName mapper clusterName cache = (\<lambda>ctx obj.
     Option.bind (case mapper of
         Some m \<Rightarrow> m ctx obj
       | None \<Rightarrow> Some [nn_string e (ob_namespace obj) (ob_name obj)])
       (\<lambda>keys. Some (case index_requests cache indexName (ob_namespace obj) keys [] of
          None \<Rightarrow> []
        | Some result \<Rightarrow> map (LiftRequest clusterName) result)))"

definition indexMappingFactory ::
  "k8s_naming \<Rightarrow> string \<Rightarrow> (kobject, string) object_mapper cluster_aware controller_aware option \<Rightarrow>
   (kobject, mc_request) object_mapper cluster_aware controller_aware" where
  "indexMappingFactory e indexName mapFunc = (\<lambda>c s.
     case Group_Get (kv_indices (tc_view c)) indexName of
       None \<Rightarrow> (Inl (Errorf ''index %q not found'' [indexName]), s)
     | Some idx \<Rightarrow>
         (case mapFunc of
            None \<Rightarrow> (Inr (\<lambda>clusterName cache. Some (index_map_obj e indexName None clusterName cache)), s)
          | Some fac \<Rightarrow>
              (case fac c s of
                 (Inl err, s) \<Rightarrow> (Inl err, s)
               | (Inr f, s) \<Rightarrow>
                   (Inr (\<lambda>clusterName cache. map_option (\<lambda>m. index_map_obj e indexName (Some m) clusterName cache)
                      (f clusterName cache)), s))))"

definition IndexTrigger ::
  "k8s_naming \<Rightarrow> string \<Rightarrow> string \<Rightarrow> (kobject, string) object_mapper cluster_aware controller_aware option \<Rightarrow> kobject res_trigger" where
  "IndexTrigger e proto indexName mapFunc =
     newTrigger proto (indexMappingFactory e indexName mapFunc) [''index trigger '' @ indexName]"

definition OwnerIndexTrigger ::
  "k8s_naming \<Rightarrow> k8s_objects \<Rightarrow> string \<Rightarrow> string \<Rightarrow> string \<Rightarrow> (typed_global_key \<Rightarrow> string) list \<Rightarrow> kobject res_trigger" where
  "OwnerIndexTrigger e x t proto name converter =
     IndexTrigger e proto name (Some (GenericIndexKeyMapperByFactory (mapOwnersFactory x t False)
       (case converter of [] \<Rightarrow> TypedGlobalKey_AsKey e True | f # _ \<Rightarrow> f)))"

section \<open>Wrappers\<close>

text \<open>\<open>LiftTechnical\<close> of a cluster or fleet; \<open>None\<close> is the panic of a fleet alias.\<close>

fun ce_LiftTechnical :: "cluster_eq \<Rightarrow> string \<Rightarrow> (string \<times> cluster option) option" where
  "ce_LiftTechnical (CE_Cluster c) name = Some (cluster_LiftTechnical c name)"
| "ce_LiftTechnical (CE_Fleet f) name = (case fst (fleet_LiftTechnical f name) of Inl err \<Rightarrow> None | Inr r \<Rightarrow> Some r)"

fun ce_Match :: "cluster_eq \<Rightarrow> string \<Rightarrow> bool" where
  "ce_Match (CE_Cluster c) name = cluster_Match c name"
| "ce_Match (CE_Fleet f) name = fleet_Match f name"

text \<open>The context of a wrapped reconciler or handler: the name and the cluster it carries.\<close>

record ctx_info =
  ci_ctx_name :: string
  ci_ctx_cluster :: "cluster option"

definition WithClusterAndName :: "cluster option \<Rightarrow> string \<Rightarrow> ctx_info" where
  "WithClusterAndName c n = \<lparr>ci_ctx_name = n, ci_ctx_cluster = c\<rparr>"

definition wrapper_Reconcile :: "cluster_eq \<Rightarrow> (ctx_info \<Rightarrow> namespaced_name \<Rightarrow> 'r) \<Rightarrow> mc_request \<Rightarrow> 'r option" where
  "wrapper_Reconcile cl reconciler request =
     Option.bind (ce_LiftTechnical cl (mc_cluster request))
       (\<lambda>(n, c). Some (reconciler (WithClusterAndName c n) (mc_object request)))"

text \<open>The handlers of a watch get the context of the wrapper, the factory is asked for every cluster.\<close>

definition watchWrapper ::
  "cluster_eq \<Rightarrow> ('f cluster_aware) \<Rightarrow> (ctx_info \<times> 'f) cluster_aware" where
  "watchWrapper target factory = (\<lambda>clusterName cache.
     Option.bind (if \<not> ce_Match (ce_GetEffective target) clusterName then ce_LiftTechnical target clusterName
                  else Some ([], None))
       (\<lambda>(n, cl). map_option (\<lambda>f. (WithClusterAndName cl n, f)) (factory clusterName cache)))"

text \<open>The requests for an object of a cluster that the watch delivers: the filter of the target is asked first.\<close>

fun ce_Filter :: "cluster_eq \<Rightarrow> string \<Rightarrow> bool" where
  "ce_Filter (CE_Cluster c) name = cluster_Match c name"
| "ce_Filter (CE_Fleet f) name = fleet_Filter f name"

definition watch_requests ::
  "cluster_eq \<Rightarrow> (kobject, mc_request) object_mapper cluster_aware \<Rightarrow> string \<Rightarrow> cache \<Rightarrow> kobject \<Rightarrow> mc_request list option" where
  "watch_requests target factory clusterName cache obj =
     Option.bind (watchWrapper target factory clusterName cache) (\<lambda>(ctx, f).
       if ce_Filter target clusterName then f (ci_ctx_cluster ctx) obj else Some [])"


section \<open>Lemmas\<close>

lemma OwnerTrigger_factory:
  assumes "GKForObject env (case s of Some p \<Rightarrow> p | None \<Rightarrow> tc_resource c) = Inr gk"
    and "MapTechnicalName c name = Some ce" "ce_AsCluster ce = Some cl"
  shows "\<exists>f m. rt_mapper (OwnerTrigger env x t proto local) c s = (Inr f, Some (case s of Some p \<Rightarrow> p | None \<Rightarrow> tc_resource c)) \<and>
    f name cache = Some m \<and>
    (\<forall>ctx obj. m ctx obj = Some (MapOwnerToRequestForGK x t (ce_matcher (kv_cluster (tc_view c))) (cl_of cl) gk obj))"
  using assms
  by (auto simp: OwnerTrigger_def newTrigger_def ownerMapFuncFactory_def Let_def src_cluster_def split: option.splits)

text \<open>The name a matcher gives to the cluster of an owner.\<close>

lemma ce_matcher_name: "fst (ce_matcher m ident) = (case ce_GetClusterById m ident of Some e \<Rightarrow> ce_GetName e | None \<Rightarrow> [])"
  by (simp add: ce_matcher_def MatcherFor_def split: option.split)

lemma owner_requests:
  assumes "SetOwner x t c owner target s = Inr s'" "gvk_for x owner = Inr gk"
    and "\<not> is_local c owner target s" "owner_fields_ok owner gk"
    and "find (ref_matches x gk) (ob_owner_refs s) = None"
  shows "MapOwnerToRequestForGK x t (ce_matcher m) target gk s' =
    (case ce_GetClusterById m (if IsSameAs c target then cl_id target else cl_id c) of
       Some e \<Rightarrow> if ce_GetName e = [] then [] else [\<lparr>mc_cluster = ce_GetName e, mc_object = object_key owner\<rparr>]
     | None \<Rightarrow> [])"
proof -
  obtain n eq where m: "ce_matcher m (if IsSameAs c target then cl_id target else cl_id c) = (n, eq)"
    by fastforce
  have n: "n = (case ce_GetClusterById m (if IsSameAs c target then cl_id target else cl_id c) of Some e \<Rightarrow> ce_GetName e | None \<Rightarrow> [])"
    using ce_matcher_name [of m] m by (metis fst_conv)
  note GetOwner_read [where m = "ce_matcher m", OF assms(1-4) m assms(5)]
  then show ?thesis
    by (auto simp: MapOwnerToRequestForGK_def n split: option.splits)
qed

text \<open>Lifting the name of the effective cluster.\<close>

lemma lift_effective:
  assumes "Normalize (bc_name (cluster_GetEffective c)) = bc_name (cluster_GetEffective c)"
  shows "\<exists>n c'. cluster_LiftTechnical c (bc_name (cluster_GetEffective c)) = (n, Some c') \<and>
    cluster_GetEffective c' = cluster_GetEffective c"
  using assms by (induction c) auto

text \<open>A member keeps its base cluster apart, so that the cache of an alias is never used.\<close>

lemma alias_member:
  assumes "kcp_ok k"
  shows "fst (fleet_GetClusterByLocalName (FleetAlias a (KFleet k) cache) n) =
    map_option (cluster_NewAlias (Compose a n)) (registrations_GetCluster k n)"
proof -
  have "cluster_GetEffective x \<noteq> MemberCluster b c" for x b c
    by (induction x) auto
  note distinct = this
  show ?thesis
  proof (cases "registrations_GetCluster k n")
    case (Some c)
    then obtain client where "c = member_of k n client"
      using assms by (auto simp: kcp_ok_def registrations_GetCluster_def)
    then have "cluster_GetEffective x \<noteq> c" for x
      using distinct by (simp add: member_of_def)
    then show ?thesis
      by (simp add: Some Let_def split: option.split)
  qed simp
qed

lemma wrapper_alias:
  assumes "kcp_ok k"
  shows "wrapper_Reconcile (CE_Fleet (FleetAlias a (KFleet k) cch)) rec r =
    (if fst (Split (mc_cluster r)) = kf_name k
     then let n = Compose a (snd (Split (mc_cluster r))) in
       Some (rec (WithClusterAndName (map_option (cluster_NewAlias n) (registrations_GetCluster k (snd (Split (mc_cluster r))))) n)
         (mc_object r))
     else None)"
proof -
  obtain c f where look: "fleet_GetClusterByLocalName (FleetAlias a (KFleet k) cch) (snd (Split (mc_cluster r))) = (c, f)"
    by fastforce
  then have "c = map_option (cluster_NewAlias (Compose a (snd (Split (mc_cluster r)))))
      (registrations_GetCluster k (snd (Split (mc_cluster r))))"
    using alias_member [OF assms, of a cch "snd (Split (mc_cluster r))"] by simp
  then show ?thesis
    using look by (auto simp: wrapper_Reconcile_def case_prod_beta Let_def simp del: fleet_GetClusterByLocalName.simps)
qed

section \<open>Properties\<close>

text \<open>
  C17: Owners are reconciled. An owner in the main cluster of a controller is set on an object in
  another namespace or cluster, without an owner reference of the same kind. When the object
  changes, the owner trigger requests exactly the owner, and the reconciler is called with the
  key of the owner and with its cluster in the context, whatever logical names the clusters have.
  An object whose owner is in a cluster the controller does not have triggers nothing.
\<close>

theorem owner_reconciled:
  assumes set: "SetOwner x t (cl_of own) owner (cl_of tgt) s = Inr s'" "gvk_for x owner = Inr gk"
    and cross: "\<not> is_local (cl_of own) owner (cl_of tgt) s" "owner_fields_ok owner gk"
      "find (ref_matches x gk) (ob_owner_refs s) = None"
    and ctl: "GKForObject env (tc_resource c) = Inr gk" "kv_cluster (tc_view c) = CE_Cluster main"
      "MapTechnicalName c name = Some ce" "ce_AsCluster ce = Some tgt"
    and ids: "IsSameAs (cl_of own) (cl_of tgt) \<longleftrightarrow> cluster_GetId own = cluster_GetId tgt"
    and names: "bc_name (cluster_GetEffective main) \<noteq> []"
      "Normalize (bc_name (cluster_GetEffective main)) = bc_name (cluster_GetEffective main)"
  shows "\<exists>f m. fst (rt_mapper (OwnerTrigger env x t proto local) c None) = Inr f \<and> f name cache = Some m \<and>
    (if cluster_GetId own = cluster_GetId main
     then \<exists>r. (\<forall>ctx. m ctx s' = Some [r]) \<and>
       (\<exists>n cl. cluster_GetEffective cl = cluster_GetEffective main \<and>
          (\<forall>rec. wrapper_Reconcile (CE_Cluster main) rec r = Some (rec (WithClusterAndName (Some cl) n) (object_key owner))))
     else \<forall>ctx. m ctx s' = Some [])"
proof -
  obtain f m where fm: "rt_mapper (OwnerTrigger env x t proto local) c None = (Inr f, Some (tc_resource c))" "f name cache = Some m"
    "\<forall>ctx obj. m ctx obj = Some (MapOwnerToRequestForGK x t (ce_matcher (CE_Cluster main)) (cl_of tgt) gk obj)"
    using OwnerTrigger_factory [where s = None and x = x and t = t and proto = proto and local = local and cache = cache,
        OF _ ctl(3,4)] ctl(1,2) by (simp only: option.case) blast
  let ?r = "\<lparr>mc_cluster = bc_name (cluster_GetEffective main), mc_object = object_key owner\<rparr>"
  obtain n i k where base: "cluster_GetEffective main = BaseCluster n i k"
    using effective_base by blast
  have id: "(if IsSameAs (cl_of own) (cl_of tgt) then cl_id (cl_of tgt) else cl_id (cl_of own)) = cluster_GetId own"
    using ids by (simp add: cl_of_def)
  have "MapOwnerToRequestForGK x t (ce_matcher (CE_Cluster main)) (cl_of tgt) gk s' =
      (if cluster_GetId own = cluster_GetId main then [?r] else [])"
    unfolding owner_requests [OF set cross] id
    using names(1) by (simp add: cluster_GetClusterById_def base)
  moreover obtain n cl where "cluster_LiftTechnical main (bc_name (cluster_GetEffective main)) = (n, Some cl)"
    "cluster_GetEffective cl = cluster_GetEffective main"
    using lift_effective [OF names(2)] by blast
  ultimately show ?thesis
    using fm by (auto simp: wrapper_Reconcile_def)
qed

text \<open>
  C28: Finding an owned object by its owner. The owner in the cluster \<open>own\<close> was set, across namespaces
  or clusters, on an object in \<open>tgt\<close>. The index for the kind of the owner, made with the clusters
  \<open>cs\<close>, files the object under the key that \<open>WithCuster\<close> builds to look it up if both clusters are the
  same, or if the clusters have the one of the owner under its effective name. The key to look up
  has the effective name, whereas the index has the name in \<open>cs\<close>: if this is another one, an alias,
  the object is not found, and where \<open>cs\<close> does not have the cluster it is not filed at all. The
  names of effective clusters identify them and are not empty.
\<close>

theorem owner_index_lookup:
  assumes set: "SetOwner x t (cl_of own) owner (cl_of tgt) s = Inr s'" "gvk_for x owner = Inr gk"
    and cross: "\<not> is_local (cl_of own) owner (cl_of tgt) s" "owner_fields_ok owner gk"
    and same: "IsSameAs (cl_of own) (cl_of tgt) \<longleftrightarrow> bc_name (cluster_GetEffective own) = bc_name (cluster_GetEffective tgt)"
    and names: "cluster_GetId own \<noteq> []" "bc_name (cluster_GetEffective own) \<noteq> []"
  shows "let filed = Indexer e x t (MatcherForClusters (\<lambda>i. map_option ce_GetName (set_GetClusterById cs i)) []) []
        (Some (core_group gk)) s';
      asked = WithCuster e cluster_GetEffective cluster_GetName own tgt (object_key owner) []
    in if IsSameAs (cl_of own) (cl_of tgt) then asked \<in> set filed
       else case set_GetClusterById cs (cluster_GetId own) of
         None \<Rightarrow> ob_owner_refs s = [] \<longrightarrow> filed = []
       | Some found \<Rightarrow>
           if ce_GetName found = bc_name (cluster_GetEffective own) then asked \<in> set filed
           else ob_owner_refs s = [] \<longrightarrow> asked \<notin> set filed"
proof -
  have id: "cl_id (cl_of own) = cluster_GetId own"
    by (simp add: cl_of_def)
  have "cluster_GetName (cluster_GetEffective c) = bc_name (cluster_GetEffective c)" for c
    by (induction c) simp_all
  then have asked: "WithCuster e cluster_GetEffective cluster_GetName own tgt (object_key owner) [] =
      (if IsSameAs (cl_of own) (cl_of tgt) then [] else bc_name (cluster_GetEffective own)) @ MapToIndexKey e (object_key owner) []"
    using same by (simp add: WithCuster_def Let_def)
  have filed: "cl_id (cl_of own) \<noteq> []"
    using names(1) id by simp
  show ?thesis
    unfolding owner_filed [OF set cross filed] asked id
    using names(2) by (auto simp: Let_def split: option.splits)
qed

text \<open>
  A trigger that two controllers share keeps the resource of the first: the second one is asked
  for owners of the first one's kind.
\<close>

lemma owner_trigger_shared:
  "snd (rt_mapper (OwnerTrigger env x t proto local) c None) = Some (tc_resource c)"
  "rt_mapper (OwnerTrigger env x t proto local) d (Some (tc_resource c)) =
    rt_mapper (OwnerTrigger env x t proto local) (d\<lparr>tc_resource := tc_resource c\<rparr>) None"
  by (simp_all add: OwnerTrigger_def newTrigger_def ownerMapFuncFactory_def Let_def MapTechnicalName_def split: sum.split)


text \<open>
  What a cache serves: the objects of a namespace, or of all, that a registered index files
  under the value; an index that is not registered is an error.
\<close>

definition serves :: "cache \<Rightarrow> (string, kobject \<Rightarrow> string list) gomap \<Rightarrow> kobject list \<Rightarrow> bool" where
  "serves cache ix objs \<longleftrightarrow> (\<forall>f v ns.
     case gget ix f of
       None \<Rightarrow> (\<exists>err. cache f v ns = Inl err)
     | Some i \<Rightarrow> cache f v ns =
         Inr (map object_key (filter (\<lambda>ob. (ns = [] \<or> ob_namespace ob = ns) \<and> v \<in> set (i ob)) objs)))"

definition indexed :: "kobject list \<Rightarrow> (kobject \<Rightarrow> string list) \<Rightarrow> string \<Rightarrow> string list \<Rightarrow> kobject set" where
  "indexed objs i ns keys = {ob \<in> set objs. (ns = [] \<or> ob_namespace ob = ns) \<and> set keys \<inter> set (i ob) \<noteq> {}}"

lemma index_requests_serves:
  assumes "serves cache ix objs"
  shows "gget ix n = None \<Longrightarrow> keys \<noteq> [] \<Longrightarrow> index_requests cache n ns keys result = None"
    and "gget ix n = Some i \<Longrightarrow> \<exists>rs. index_requests cache n ns keys result = Some rs \<and>
      set rs = set result \<union> object_key ` indexed objs i ns keys"
proof -
  have spec: "case gget ix f of None \<Rightarrow> (\<exists>err. cache f v ns = Inl err)
    | Some i \<Rightarrow> cache f v ns = Inr (map object_key (filter (\<lambda>ob. (ns = [] \<or> ob_namespace ob = ns) \<and> v \<in> set (i ob)) objs))" for f v
    using assms unfolding serves_def by (elim allE)
  have err: "gget ix n = None \<Longrightarrow> \<exists>err. cache n v ns = Inl err" for v
    using spec [of n v] by simp
  show "gget ix n = None \<Longrightarrow> keys \<noteq> [] \<Longrightarrow> index_requests cache n ns keys result = None"
    using err [of "hd keys"] by (cases keys) auto
  assume i: "gget ix n = Some i"
  have hit: "cache n v ns = Inr (map object_key (filter (\<lambda>ob. (ns = [] \<or> ob_namespace ob = ns) \<and> v \<in> set (i ob)) objs))" for v
    using spec [of n v] by (simp add: i)
  show "\<exists>rs. index_requests cache n ns keys result = Some rs \<and> set rs = set result \<union> object_key ` indexed objs i ns keys"
  proof (induction keys arbitrary: result)
    case (Cons k ks)
    have "indexed objs i ns (k # ks) =
        {ob \<in> set objs. (ns = [] \<or> ob_namespace ob = ns) \<and> k \<in> set (i ob)} \<union> indexed objs i ns ks"
      by (auto simp: indexed_def)
    then have image: "object_key ` indexed objs i ns (k # ks) =
        set (map object_key (filter (\<lambda>ob. (ns = [] \<or> ob_namespace ob = ns) \<and> k \<in> set (i ob)) objs)) \<union>
        object_key ` indexed objs i ns ks"
      by (simp add: image_Un)
    let ?found = "map object_key (filter (\<lambda>ob. (ns = [] \<or> ob_namespace ob = ns) \<and> k \<in> set (i ob)) objs)"
    obtain rs where "index_requests cache n ns ks (result @ ?found) = Some rs"
      "set rs = set (result @ ?found) \<union> object_key ` indexed objs i ns ks"
      using Cons.IH by blast
    then show ?case
      unfolding image by (simp only: index_requests.simps hit sum.case set_append Un_assoc) blast
  qed (simp add: indexed_def)
qed

text \<open>The keys a trigger asks the index for: those of its mapping, or the key of the object.\<close>

definition asks_for :: "k8s_naming \<Rightarrow> (kobject, string) object_mapper option \<Rightarrow> cluster option \<Rightarrow> kobject \<Rightarrow> string list option" where
  "asks_for e mapper ctx obj = (case mapper of Some m \<Rightarrow> m ctx obj | None \<Rightarrow> Some [nn_string e (ob_namespace obj) (ob_name obj)])"

text \<open>
  C20: An index trigger that is defined with the name under which its index is registered at the
  cluster requests exactly the objects in the namespace of the changed object that the index
  files under one of the keys, on the cluster of the change. An index is registered under its
  global name: a trigger defined with any other name of the index is accepted, but never
  requests anything.
\<close>

theorem index_trigger:
  assumes "serves cache ix objs" "Group_Get (kv_indices (tc_view c)) n = Some idx"
    and "\<forall>f. mf = Some f \<longrightarrow> f c s = (Inr g, s') \<and> g name cache = Some mp"
  shows "\<exists>f m. fst (rt_mapper (IndexTrigger e proto n mf) c s) = Inr f \<and> f name cache = Some m \<and>
    (\<forall>ctx obj keys. asks_for e (case mf of None \<Rightarrow> None | Some f \<Rightarrow> Some mp) ctx obj = Some keys \<longrightarrow>
      (gget ix n = None \<longrightarrow> m ctx obj = Some []) \<and>
      (\<forall>i. gget ix n = Some i \<longrightarrow> (\<exists>rs. m ctx obj = Some rs \<and>
        set rs = (\<lambda>ob. \<lparr>mc_cluster = name, mc_object = object_key ob\<rparr>) ` indexed objs i (ob_namespace obj) keys)))"
proof -
  let ?mapper = "case mf of None \<Rightarrow> None | Some f \<Rightarrow> Some mp"
  have "\<exists>f. fst (rt_mapper (IndexTrigger e proto n mf) c s) = Inr f \<and> f name cache = Some (index_map_obj e n ?mapper name cache)"
    using assms(2,3) by (cases mf) (simp_all add: IndexTrigger_def newTrigger_def indexMappingFactory_def)
  moreover have run: "index_map_obj e n ?mapper name cache ctx obj =
      Some (case index_requests cache n (ob_namespace obj) keys [] of None \<Rightarrow> [] | Some rs \<Rightarrow> map (LiftRequest name) rs)"
    if "asks_for e ?mapper ctx obj = Some keys" for ctx obj keys
    using that by (simp add: index_map_obj_def asks_for_def)
  have "index_map_obj e n ?mapper name cache ctx obj = Some []"
    if "asks_for e ?mapper ctx obj = Some keys" "gget ix n = None" for ctx obj keys
    using index_requests_serves(1) [OF assms(1) that(2), of keys] by (cases "keys = []") (simp_all add: run [OF that(1)])
  moreover have "\<exists>rs. index_map_obj e n ?mapper name cache ctx obj = Some rs \<and>
      set rs = (\<lambda>ob. \<lparr>mc_cluster = name, mc_object = object_key ob\<rparr>) ` indexed objs i (ob_namespace obj) keys"
    if "asks_for e ?mapper ctx obj = Some keys" "gget ix n = Some i" for ctx obj keys i
    using index_requests_serves(2) [OF assms(1) that(2), of "ob_namespace obj" keys "[]"] run [OF that(1)]
    by (auto simp: LiftRequest_def image_image)
  ultimately show ?thesis
    by blast
qed

text \<open>The completion of requests with the mappings that a set of clusters provides.\<close>

lemma provided_name:
  assumes "gwf (gr_elements (cs_group cs))"
  shows "Mappings_Map (CreateMappingsProvidedBy cs) l =
    (case Group_Get (cs_group cs) l of
       Some ce \<Rightarrow> if ce_GetName (ce_GetEffective ce) = [] then l else ce_GetName (ce_GetEffective ce)
     | None \<Rightarrow> l)"
  using provided_mappings [OF assms, of "[]" l]
  by (auto simp: Mappings_Map_def CreateMappingsProvidedBy_def mget_def Group_Get_def split: option.splits)

lemma completion:
  "RequestConverterFactoryForClusterCompletion mp name r =
    r\<lparr>mc_cluster := if mc_cluster r \<noteq> [] then Mappings_Map mp (mc_cluster r) else name\<rparr>"
  by (simp add: RequestConverterFactoryForClusterCompletion_def CompleteRequest_def CompleteRequestWithMappings_def Map_none)

text \<open>
  Requests of a mapping carry effective cluster names. A resource trigger requests what its
  mapping returns, in this order, with the name of a declared cluster replaced by the name of
  its effective cluster and a missing name by the cluster of the watch. The name of a member of
  a fleet that is an alias is left as it is, a name the fleet does not match.
\<close>

theorem trigger_requests:
  assumes "gwf (gr_elements (cs_group cs))" "kv_mappings (tc_view c) = CreateMappingsProvidedBy cs" "mf ctx obj = Some rs"
  shows "\<exists>f m qs. fst (rt_mapper (ResourceTrigger proto mf desc) c s) = Inr f \<and> f name cache = Some m \<and> m ctx obj = Some qs \<and>
    list_all2 (\<lambda>r q. mc_object q = mc_object r \<and>
      (mc_cluster r = [] \<longrightarrow> mc_cluster q = name) \<and>
      (\<forall>ce. mc_cluster r \<noteq> [] \<and> Group_Get (cs_group cs) (mc_cluster r) = Some ce \<and> ce_GetName (ce_GetEffective ce) \<noteq> [] \<longrightarrow>
        mc_cluster q = ce_GetName (ce_GetEffective ce)) \<and>
      (\<forall>a k cch n. Group_Get (cs_group cs) a = Some (CE_Fleet (FleetAlias a (KFleet k) cch)) \<and> a \<noteq> kf_name k \<and>
        CHR ''#'' \<notin> set a \<and> n \<noteq> [] \<and> mc_cluster r = Compose a n \<and> Group_Get (cs_group cs) (Compose a n) = None \<longrightarrow>
        q = r \<and> \<not> fleet_Filter (FleetAlias a (KFleet k) cch) (mc_cluster q))) rs qs"
proof -
  let ?conv = "RequestConverterFactoryForClusterCompletion (CreateMappingsProvidedBy cs) name"
  have "\<exists>f m. fst (rt_mapper (ResourceTrigger proto mf desc) c s) = Inr f \<and> f name cache = Some m \<and> m ctx obj = Some (map ?conv rs)"
    using assms(2,3) by (simp add: ResourceTrigger_def ResourceTriggerByFactory_def newTrigger_def mapperFactoryForTypedFactory_def
        Lift_def LiftToController_def LiftToCluster_def transform_results_def)
  moreover have "\<not> Support_Match k (Compose a n)" if "a \<noteq> kf_name k" "CHR ''#'' \<notin> set a" "n \<noteq> []" for a k n
    using that by (simp add: Support_Match_def)
  moreover have "n \<noteq> [] \<Longrightarrow> Compose a n \<noteq> []" for a n
    by (simp add: Compose_def)
  ultimately show ?thesis
    by (auto simp: completion provided_name [OF assms(1)] list_all2_map2 fleet_Filter_def intro!: list.rel_refl_strong)
qed

text \<open>
  C36: The cluster in the context. A reconciler is called with the cluster of its request in the
  context: on a single cluster with this cluster; on a fleet with the member under the name of the
  request, and on an alias of a fleet with the alias of the member under its logical name. If
  the member is no longer engaged, the context has the name and no cluster; for other names
  a fleet gives none and its alias panics. A handler of a watch is called the other way
  round: for the clusters of the watch the context has none. For every other cluster that is
  engaged, the wrapper of a cluster alias puts the alias into the context, and the wrapper of a
  fleet alias panics.
\<close>

theorem watch_context:
  shows "(cluster_Match m name \<longrightarrow>
      (\<exists>n cl. cluster_GetEffective cl = cluster_GetEffective m \<and>
        (\<forall>rec key. wrapper_Reconcile (CE_Cluster m) rec \<lparr>mc_cluster = name, mc_object = key\<rparr> =
           Some (rec (WithClusterAndName (Some cl) n) key)))) \<and>
    (\<forall>rec key. wrapper_Reconcile (CE_Fleet (KFleet k)) rec \<lparr>mc_cluster = name, mc_object = key\<rparr> =
       (if fst (Split name) = kf_name k
        then Some (rec (WithClusterAndName (registrations_GetCluster k (snd (Split name))) name) key)
        else Some (rec (WithClusterAndName None []) key))) \<and>
    (kcp_ok k \<longrightarrow> (\<forall>rec key. wrapper_Reconcile (CE_Fleet (FleetAlias a (KFleet k) cch)) rec \<lparr>mc_cluster = name, mc_object = key\<rparr> =
       (if fst (Split name) = kf_name k
        then let n = Compose a (snd (Split name)) in
          Some (rec (WithClusterAndName (map_option (cluster_NewAlias n) (registrations_GetCluster k (snd (Split name)))) n) key)
        else None))) \<and>
    (ce_Match (ce_GetEffective tgt) name \<and> factory name cache = Some f \<longrightarrow>
      watchWrapper tgt factory name cache = Some (WithClusterAndName None [], f)) \<and>
    (\<not> cluster_Match c name \<and> factory name cache = Some f \<longrightarrow>
      watchWrapper (CE_Cluster (ClusterAlias n c)) factory name cache = Some (WithClusterAndName (Some (ClusterAlias n c)) n, f)) \<and>
    (\<not> Support_Match k name \<longrightarrow>
      watchWrapper (CE_Fleet (FleetAlias a (KFleet k) cch)) factory name cache = None)"
proof (intro conjI impI)
  assume "cluster_Match m name"
  moreover have "cluster_Match m name \<Longrightarrow> \<exists>n cl. cluster_LiftTechnical m name = (n, Some cl) \<and> cluster_GetEffective cl = cluster_GetEffective m"
    by (induction m) (auto simp: cluster_Match_def)
  ultimately obtain n cl where cl: "cluster_LiftTechnical m name = (n, Some cl)" "cluster_GetEffective cl = cluster_GetEffective m"
    by blast
  show "\<exists>n cl. cluster_GetEffective cl = cluster_GetEffective m \<and>
      (\<forall>rec key. wrapper_Reconcile (CE_Cluster m) rec \<lparr>mc_cluster = name, mc_object = key\<rparr> =
         Some (rec (WithClusterAndName (Some cl) n) key))"
    by (rule exI [of _ n], rule exI [of _ cl]) (simp add: wrapper_Reconcile_def cl)
next
  show "\<forall>rec key. wrapper_Reconcile (CE_Fleet (KFleet k)) rec \<lparr>mc_cluster = name, mc_object = key\<rparr> =
       (if fst (Split name) = kf_name k
        then Some (rec (WithClusterAndName (registrations_GetCluster k (snd (Split name))) name) key)
        else Some (rec (WithClusterAndName None []) key))"
    by (simp add: wrapper_Reconcile_def case_prod_beta)
next
  assume "kcp_ok k"
  then show "\<forall>rec key. wrapper_Reconcile (CE_Fleet (FleetAlias a (KFleet k) cch)) rec \<lparr>mc_cluster = name, mc_object = key\<rparr> =
       (if fst (Split name) = kf_name k
        then let n = Compose a (snd (Split name)) in
          Some (rec (WithClusterAndName (map_option (cluster_NewAlias n) (registrations_GetCluster k (snd (Split name)))) n) key)
        else None)"
    by (simp add: wrapper_alias)
next
  assume "\<not> cluster_Match c name \<and> factory name cache = Some f"
  then show "watchWrapper (CE_Cluster (ClusterAlias n c)) factory name cache = Some (WithClusterAndName (Some (ClusterAlias n c)) n, f)"
    using effective_base [of c] by (auto simp: watchWrapper_def cluster_Match_def)
next
  assume "\<not> Support_Match k name"
  then show "watchWrapper (CE_Fleet (FleetAlias a (KFleet k) cch)) factory name cache = None"
    by (simp add: watchWrapper_def Support_Match_def case_prod_beta eq_commute [of _ "kf_name k"])
qed (simp add: watchWrapper_def)


section \<open>Witnesses\<close>

definition cluster_A :: cluster where
  "cluster_A = BaseCluster ''A'' ''Id/A'' 1"

definition cluster_B :: cluster where
  "cluster_B = BaseCluster ''B'' ''IdB'' 2"

definition clusters_AB :: cluster_set where
  "clusters_AB = snd (set_Add err_demo [CE_Cluster cluster_A, CE_Cluster cluster_B] newClusters)"

definition index_demo :: "index_ref elem_group" where
  "index_demo = snd (Group_Add err_demo index_GetName (\<lambda>_. AnyOther)
     [index_NewAlias ''ref'' (IndexBase \<lparr>ci_name = ''ref:A'', ci_cluster = CE_Cluster cluster_A, ci_gvk = ([], ''v1'', ''Pod''),
        ci_resource = ''Pod'', ci_list = ([], ''v1'', ''PodList'')\<rparr>)] (NewGroup ''index''))"

definition view_demo :: ctl_view where
  "view_demo = \<lparr>kv_name = ''ctl'', kv_manager = ''mgr'', kv_mappings = CreateMappingsProvidedBy clusters_AB, kv_components = NewComponents,
     kv_clusters = clusters_AB, kv_cluster = CE_Cluster cluster_A, kv_gk = \<lparr>gk_group = [], gk_kind = ''Service''\<rparr>, kv_local = [],
     kv_indices = index_demo, kv_finalizer = ''mgr/ctl'', kv_enforce = False\<rparr>"

definition tc_demo :: trig_ctl where
  "tc_demo = \<lparr>tc_view = view_demo, tc_resource = ''Service'', tc_clusters = clusters_AB\<rparr>"

definition core_demo :: index_env where
  "core_demo = ienv_demo\<lparr>ie_gvk := (\<lambda>r. Inr ([], ''v1'', r))\<rparr>"

lemma AB_demo: "set_Get clusters_AB ''B'' = Some (CE_Cluster cluster_B)" "gwf (gr_elements (cs_group clusters_AB))"
  "Group_Get (cs_group clusters_AB) ''B'' = Some (CE_Cluster cluster_B)"
  "Group_Get index_demo ''ref'' \<noteq> None"
  by (code_simp, simp add: gwf_def, code_simp, code_simp, code_simp)

lemma cl_of_demo: "cl_of cluster_A = cl_A" "cl_of cluster_B = cl_B"
  by (simp_all add: cl_of_def cluster_A_def cluster_B_def cl_A_def cl_B_def cluster_GetId_def)

theorem owner_reconciled_witness:
  "\<exists>f m r. fst (rt_mapper (OwnerTrigger core_demo demo_k8s ''o'' ''Pod'' []) tc_demo None) = Inr f \<and>
    f ''B'' (\<lambda>_ _ _. Inr []) = Some m \<and> m None demo_slave = Some [r] \<and>
    wrapper_Reconcile (CE_Cluster cluster_A) (\<lambda>_ key. key) r = Some (object_key demo_service)"
proof -
  note set = demo_owner_set(1,2,4,3) [folded cl_of_demo]
  have refs: "find (ref_matches demo_k8s \<lparr>gk_group = [], gk_kind = ''Service''\<rparr>) (ob_owner_refs demo_object) = None"
    by simp
  have ctl: "GKForObject core_demo (tc_resource tc_demo) = Inr \<lparr>gk_group = [], gk_kind = ''Service''\<rparr>"
    "kv_cluster (tc_view tc_demo) = CE_Cluster cluster_A" "MapTechnicalName tc_demo ''B'' = Some (CE_Cluster cluster_B)"
    "ce_AsCluster (CE_Cluster cluster_B) = Some cluster_B"
    by (simp_all add: GKForObject_def core_demo_def tc_demo_def view_demo_def group_kind_of_def MapTechnicalName_def AB_demo)
      (simp add: cluster_B_def)
  have ids: "IsSameAs (cl_of cluster_A) (cl_of cluster_B) \<longleftrightarrow> cluster_GetId cluster_A = cluster_GetId cluster_B"
    by (simp add: cl_of_demo) (simp add: cluster_A_def cluster_B_def cluster_GetId_def)
  have names: "bc_name (cluster_GetEffective cluster_A) \<noteq> []"
    "Normalize (bc_name (cluster_GetEffective cluster_A)) = bc_name (cluster_GetEffective cluster_A)"
    by (simp_all add: cluster_A_def Normalize_def has_prefix_def)
  from owner_reconciled [OF set refs ctl ids names, of "''Pod''" "[]" "\<lambda>_ _ _. Inr []"] show ?thesis
    by auto
qed

text \<open>The controller knows the cluster of the owner by its own name, or by an alias.\<close>

definition lookup_demo :: "cluster \<Rightarrow> bool" where
  "lookup_demo known =
     (WithCuster k8s_demo cluster_GetEffective cluster_GetName cluster_A cluster_B (object_key demo_service) [] \<in>
      set (Indexer k8s_demo demo_k8s ''o''
        (MatcherForClusters (\<lambda>i. map_option ce_GetName (set_GetClusterById (snd (set_Add err_demo [CE_Cluster known] newClusters)) i)) [])
        [] (Some (core_group \<lparr>gk_group = [], gk_kind = ''Service''\<rparr>)) demo_slave))"

theorem owner_index_lookup_witness:
  "lookup_demo cluster_A \<and> \<not> lookup_demo (ClusterAlias ''source'' cluster_A)"
proof -
  note set = demo_owner_set(1,2,4,3) [folded cl_of_demo]
  have same: "IsSameAs (cl_of cluster_A) (cl_of cluster_B) \<longleftrightarrow> bc_name (cluster_GetEffective cluster_A) = bc_name (cluster_GetEffective cluster_B)"
    "\<not> IsSameAs (cl_of cluster_A) (cl_of cluster_B)"
    by (simp_all add: cl_of_demo) (simp add: cluster_A_def cluster_B_def)
  have names: "cluster_GetId cluster_A \<noteq> []" "bc_name (cluster_GetEffective cluster_A) \<noteq> []"
    by code_simp+
  have found: "set_GetClusterById (snd (set_Add err_demo [CE_Cluster cluster_A] newClusters)) (cluster_GetId cluster_A) = Some (CE_Cluster cluster_A)"
    "set_GetClusterById (snd (set_Add err_demo [CE_Cluster (ClusterAlias ''source'' cluster_A)] newClusters)) (cluster_GetId cluster_A) =
      Some (CE_Cluster (ClusterAlias ''source'' cluster_A))"
    by code_simp+
  have "cluster_GetName cluster_A = bc_name (cluster_GetEffective cluster_A)"
    "''source'' \<noteq> bc_name (cluster_GetEffective cluster_A)"
    by code_simp+
  then show ?thesis
    using owner_index_lookup [OF set same(1) names, of k8s_demo "snd (set_Add err_demo [CE_Cluster cluster_A] newClusters)"]
      owner_index_lookup [OF set same(1) names, of k8s_demo "snd (set_Add err_demo [CE_Cluster (ClusterAlias ''source'' cluster_A)] newClusters)"]
      same(2) found
    by (simp add: lookup_demo_def Let_def)
qed

definition cache_demo :: cache where
  "cache_demo f v ns = (if f = ''ref:A'' then
     Inr (map object_key (filter (\<lambda>ob. (ns = [] \<or> ob_namespace ob = ns) \<and> v \<in> set [''default/x'']) [demo_object]))
     else Inl (Errorf ''no index'' []))"

lemma cache_demo_serves: "serves cache_demo [(''ref:A'', \<lambda>_. [''default/x''])] [demo_object]"
  by (simp add: serves_def cache_demo_def)

theorem index_trigger_witness:
  "\<exists>f m. fst (rt_mapper (IndexTrigger k8s_demo ''Pod'' ''ref'' None) tc_demo None) = Inr f \<and>
    f ''A'' cache_demo = Some m \<and> m None demo_object = Some []"
proof -
  obtain idx where idx: "Group_Get (kv_indices (tc_view tc_demo)) ''ref'' = Some idx"
    using AB_demo(4) by (auto simp: tc_demo_def view_demo_def)
  have "\<forall>f. None = Some f \<longrightarrow> f tc_demo None = (Inr (\<lambda>_ _. None), None) \<and> (\<lambda>_ _. None) ''A'' cache_demo = Some (\<lambda>_ _. None)"
    by simp
  from index_trigger [where name = "''A''", OF cache_demo_serves idx this, of k8s_demo "''Pod''"]
  show ?thesis
    by (auto simp: asks_for_def)
qed

theorem trigger_requests_witness:
  "\<exists>f m q. fst (rt_mapper (ResourceTrigger ''Pod'' (\<lambda>_ _. Some [\<lparr>mc_cluster = [], mc_object = object_key demo_object\<rparr>]) []) tc_demo None) = Inr f \<and>
    f ''A'' cache_demo = Some m \<and> m None () = Some [q] \<and> mc_cluster q = ''A''"
proof -
  have map: "kv_mappings (tc_view tc_demo) = CreateMappingsProvidedBy clusters_AB"
    by (simp add: tc_demo_def view_demo_def)
  have rs: "(\<lambda>_ _. Some [\<lparr>mc_cluster = [], mc_object = object_key demo_object\<rparr>]) (None :: cluster option) () =
      Some [\<lparr>mc_cluster = [], mc_object = object_key demo_object\<rparr>]"
    by simp
  show ?thesis
    using trigger_requests [where mf = "\<lambda>_ _. Some [\<lparr>mc_cluster = [], mc_object = object_key demo_object\<rparr>]"
        and name = "''A''" and cache = cache_demo and proto = "''Pod''" and desc = "[]" and s = None
        and ctx = None and obj = "()", OF AB_demo(2) map rs]
    by (auto simp: list_all2_Cons1)
qed

theorem watch_context_witness:
  "watchWrapper (CE_Fleet (FleetAlias ''src'' (KFleet fleet_demo) [])) (\<lambda>_ _. Some ()) ''main'' cache_demo = None"
proof -
  have "\<not> Support_Match fleet_demo ''main''"
    by (simp add: Support_Match_def Split_def fleet_demo_def Engage_def)
  then show ?thesis
    by (rule watch_context [THEN conjunct2, THEN conjunct2, THEN conjunct2, THEN conjunct2, THEN conjunct2, THEN mp])
qed

end
