(* ===== verification/Overlay.thy ===== *)
theory Overlay
  imports Kube_Prelude Names "HOL-Library.List_Lexorder" "HOL-Library.Char_ord"
begin

text \<open>
  The client that keeps what it wrote (package cache): writes go to the API server, the objects
  they return are kept in an overlay until the cache of the client has caught up.

  The client is a parameter: the outcomes of its calls. Objects are values, so a copy is the
  object itself. Go compares strings by their bytes, as the order on lists of characters does.
\<close>

section \<open>Objects and the overlay\<close>

text \<open>\<open>cb_type\<close> is the Go type of an object, \<open>cb_gvk\<close> the kind in its type information, which may be empty.\<close>

type_synonym object_kind = "string \<times> string \<times> string"

record 'c cobject =
  cb_type :: string
  cb_gvk :: object_kind
  cb_namespace :: string
  cb_name :: string
  cb_uid :: string
  cb_rv :: string
  cb_generation :: int
  cb_annotations :: "(string, string) gomap option"
  cb_labels :: "(string, string) gomap option"
  cb_finalizers :: "string list"
  cb_content :: 'c

type_synonym overlay_key = "object_kind \<times> string \<times> string"

type_synonym 'c overlay = "(overlay_key, 'c cobject) gomap"

definition isNewer :: "'c cobject \<Rightarrow> 'c cobject \<Rightarrow> bool" where
  "isNewer a b \<longleftrightarrow> cb_rv b < cb_rv a"

definition copyInto :: "'c cobject \<Rightarrow> 'c cobject \<Rightarrow> 'c cobject" where
  "copyInto src dst =
     dst\<lparr>cb_uid := cb_uid src, cb_rv := cb_rv src, cb_generation := cb_generation src,
         cb_annotations := cb_annotations src, cb_labels := cb_labels src, cb_finalizers := cb_finalizers src\<rparr>"

definition overlayKeyFor :: "'c cobject \<Rightarrow> overlay_key" where
  "overlayKeyFor obj = (cb_gvk obj, cb_namespace obj, cb_name obj)"

definition overlay_set :: "'c cobject \<Rightarrow> 'c overlay \<Rightarrow> 'c overlay" where
  "overlay_set obj ov =
     (let key = overlayKeyFor obj in
      case gget ov key of
        None \<Rightarrow> gset key obj ov
      | Some existing \<Rightarrow> if isNewer obj existing then gset key obj ov else ov)"

definition overlay_get :: "namespaced_name \<Rightarrow> 'c cobject \<Rightarrow> 'c overlay \<Rightarrow> 'c cobject option" where
  "overlay_get key obj ov = gget ov (cb_gvk obj, nn_namespace key, nn_name key)"

definition overlay_evict :: "'c cobject \<Rightarrow> 'c overlay \<Rightarrow> 'c overlay" where
  "overlay_evict obj ov =
     (let key = overlayKeyFor obj in
      case gget ov key of
        None \<Rightarrow> ov
      | Some existing \<Rightarrow> if \<not> isNewer existing obj then gdel key ov else ov)"

section \<open>The client\<close>

text \<open>
  \<open>Get\<close> takes the error and the object after the call of the cached client; a write its error
  and the object as the API server returned it.
\<close>

definition WriteThroughCache_Get ::
  "namespaced_name \<Rightarrow> gerror option \<times> 'c cobject \<Rightarrow> 'c overlay \<Rightarrow> (gerror option \<times> 'c cobject) \<times> 'c overlay" where
  "WriteThroughCache_Get key cached ov =
     (case cached of (cacheErr, obj) \<Rightarrow>
      case overlay_get key obj ov of
        None \<Rightarrow> ((cacheErr, obj), ov)
      | Some overlayObj \<Rightarrow>
          if cacheErr \<noteq> None then ((None, copyInto overlayObj obj), ov)
          else if isNewer overlayObj obj then ((None, copyInto overlayObj obj), ov)
          else ((None, obj), overlay_evict obj ov))"

definition WriteThroughCache_Create :: "gerror option \<times> 'c cobject \<Rightarrow> 'c overlay \<Rightarrow> (gerror option \<times> 'c cobject) \<times> 'c overlay" where
  "WriteThroughCache_Create written ov =
     (case written of (err, obj) \<Rightarrow> if err \<noteq> None then ((err, obj), ov) else ((None, obj), overlay_set obj ov))"

definition WriteThroughCache_Update :: "gerror option \<times> 'c cobject \<Rightarrow> 'c overlay \<Rightarrow> (gerror option \<times> 'c cobject) \<times> 'c overlay" where
  "WriteThroughCache_Update written ov =
     (case written of (err, obj) \<Rightarrow> if err \<noteq> None then ((err, obj), ov) else ((None, obj), overlay_set obj ov))"

definition WriteThroughCache_Patch :: "gerror option \<times> 'c cobject \<Rightarrow> 'c overlay \<Rightarrow> (gerror option \<times> 'c cobject) \<times> 'c overlay" where
  "WriteThroughCache_Patch written ov =
     (case written of (err, obj) \<Rightarrow> if err \<noteq> None then ((err, obj), ov) else ((None, obj), overlay_set obj ov))"

text \<open>
  A history of calls. Deleting an object and all other calls are those of the wrapped client,
  they do not touch the overlay.
\<close>

datatype 'c client_call =
    CC_Get namespaced_name "gerror option \<times> 'c cobject"
  | CC_Create "gerror option \<times> 'c cobject"
  | CC_Update "gerror option \<times> 'c cobject"
  | CC_Patch "gerror option \<times> 'c cobject"
  | CC_Delete overlay_key "gerror option"

fun client_step :: "'c client_call \<Rightarrow> 'c overlay \<Rightarrow> 'c overlay" where
  "client_step (CC_Get key cached) ov = snd (WriteThroughCache_Get key cached ov)"
| "client_step (CC_Create w) ov = snd (WriteThroughCache_Create w ov)"
| "client_step (CC_Update w) ov = snd (WriteThroughCache_Update w ov)"
| "client_step (CC_Patch w) ov = snd (WriteThroughCache_Patch w ov)"
| "client_step (CC_Delete k err) ov = ov"

definition client_run :: "'c client_call list \<Rightarrow> 'c overlay" where
  "client_run calls = fold client_step calls []"

section \<open>Reading what was written\<close>

text \<open>The versions that were written for a key, and those the cache had when the key was read.\<close>

fun written :: "overlay_key \<Rightarrow> 'c client_call \<Rightarrow> string set" where
  "written k (CC_Create (None, obj)) = (if overlayKeyFor obj = k then {cb_rv obj} else {})"
| "written k (CC_Update (None, obj)) = (if overlayKeyFor obj = k then {cb_rv obj} else {})"
| "written k (CC_Patch (None, obj)) = (if overlayKeyFor obj = k then {cb_rv obj} else {})"
| "written k _ = {}"

fun cached_rv :: "overlay_key \<Rightarrow> 'c client_call \<Rightarrow> string set" where
  "cached_rv k (CC_Get key (None, obj)) = (if overlayKeyFor obj = k then {cb_rv obj} else {})"
| "cached_rv k _ = {}"

text \<open>
  A client as documented: an object that is found has the key that was asked for, and the cache
  does not go back: it finds an object again that it had, in no older version.
\<close>

definition finds_asked :: "'c client_call \<Rightarrow> bool" where
  "finds_asked c \<longleftrightarrow> (\<forall>key obj. c = CC_Get key (None, obj) \<longrightarrow> cb_namespace obj = nn_namespace key \<and> cb_name obj = nn_name key)"

definition cache_forward :: "'c client_call list \<Rightarrow> namespaced_name \<Rightarrow> gerror option \<times> 'c cobject \<Rightarrow> bool" where
  "cache_forward calls key cached \<longleftrightarrow>
     (\<forall>c \<in> set calls. \<forall>v \<in> cached_rv (cb_gvk (snd cached), nn_namespace key, nn_name key) c.
        fst cached = None \<and> v \<le> cb_rv (snd cached))"

text \<open>Every version written is in the overlay, or the cache had reached it.\<close>

definition covered :: "overlay_key \<Rightarrow> 'c client_call list \<Rightarrow> 'c overlay \<Rightarrow> bool" where
  "covered k calls ov \<longleftrightarrow>
     (\<forall>v \<in> (\<Union>c \<in> set calls. written k c).
        (\<exists>e. gget ov k = Some e \<and> v \<le> cb_rv e) \<or> (\<exists>c \<in> set calls. \<exists>r \<in> cached_rv k c. v \<le> r))"

lemma overlay_set_get:
  "gget (overlay_set obj ov) k =
    (if k = overlayKeyFor obj
     then case gget ov k of None \<Rightarrow> Some obj | Some e \<Rightarrow> if cb_rv e < cb_rv obj then Some obj else Some e
     else gget ov k)"
  by (auto simp: overlay_set_def Let_def isNewer_def split: option.split)

lemma covered_set:
  assumes "covered k calls ov" "written k c = (if overlayKeyFor obj = k then {cb_rv obj} else {})"
  shows "covered k (calls @ [c]) (overlay_set obj ov)"
  unfolding covered_def
proof (intro ballI)
  fix v
  assume "v \<in> (\<Union>c' \<in> set (calls @ [c]). written k c')"
  then consider "v \<in> (\<Union>c' \<in> set calls. written k c')" | "overlayKeyFor obj = k" "v = cb_rv obj"
    using assms(2) by (auto split: if_splits)
  then show "(\<exists>e. gget (overlay_set obj ov) k = Some e \<and> v \<le> cb_rv e) \<or> (\<exists>c' \<in> set (calls @ [c]). \<exists>r \<in> cached_rv k c'. v \<le> r)"
  proof cases
    case 1
    then consider (ov) e where "gget ov k = Some e" "v \<le> cb_rv e" | (seen) "\<exists>c' \<in> set calls. \<exists>r \<in> cached_rv k c'. v \<le> r"
      using assms(1) unfolding covered_def by blast
    then show ?thesis
    proof cases
      case ov
      then show ?thesis
        by (cases "cb_rv e < cb_rv obj") (auto simp: overlay_set_get intro: order.trans [OF _ less_imp_le])
    qed auto
  next
    case 2
    then show ?thesis
      by (auto simp: overlay_set_get split: option.split)
  qed
qed

lemma covered_skip: "covered k calls ov \<Longrightarrow> written k c = {} \<Longrightarrow> covered k (calls @ [c]) ov"
  by (auto simp: covered_def)

lemma covered_get:
  assumes "covered k calls ov" "finds_asked (CC_Get key cached)"
  shows "covered k (calls @ [CC_Get key cached]) (client_step (CC_Get key cached) ov)"
proof (cases "snd (WriteThroughCache_Get key cached ov) = ov")
  case False
  then obtain obj e where get: "cached = (None, obj)" "overlay_get key obj ov = Some e" "\<not> isNewer e obj"
    "snd (WriteThroughCache_Get key cached ov) = overlay_evict obj ov"
    by (cases cached) (auto simp: WriteThroughCache_Get_def split: option.splits if_splits)
  have key: "overlayKeyFor obj = (cb_gvk obj, nn_namespace key, nn_name key)"
    using assms(2) get(1) by (auto simp: finds_asked_def overlayKeyFor_def)
  then have e: "gget ov (overlayKeyFor obj) = Some e"
    using get(2) by (simp add: overlay_get_def)
  show ?thesis
    unfolding covered_def
  proof (intro ballI)
    fix v
    assume "v \<in> (\<Union>c \<in> set (calls @ [CC_Get key cached]). written k c)"
    then have "v \<in> (\<Union>c \<in> set calls. written k c)"
      by (simp add: get(1))
    then consider (ov) e' where "gget ov k = Some e'" "v \<le> cb_rv e'" | (seen) "\<exists>c \<in> set calls. \<exists>r \<in> cached_rv k c. v \<le> r"
      using assms(1) unfolding covered_def by blast
    then show "(\<exists>e. gget (client_step (CC_Get key cached) ov) k = Some e \<and> v \<le> cb_rv e) \<or>
        (\<exists>c \<in> set (calls @ [CC_Get key cached]). \<exists>r \<in> cached_rv k c. v \<le> r)"
    proof cases
      case ov
      show ?thesis
      proof (cases "k = overlayKeyFor obj")
        case True
        then have "v \<le> cb_rv obj"
          using ov e get(3) by (auto simp: isNewer_def)
        then show ?thesis
          using True by (auto simp: get(1))
      next
        case False
        then show ?thesis
          using ov e get(3) by (auto simp: get(4) overlay_evict_def Let_def)
      qed
    qed auto
  qed
next
  case True
  then show ?thesis
    using covered_skip [OF assms(1), of "CC_Get key cached"] by simp
qed

lemma covered_write:
  assumes "covered k calls ov" "client_step c ov = (if fst w = None then overlay_set (snd w) ov else ov)"
    and "written k c = (if fst w = None \<and> overlayKeyFor (snd w) = k then {cb_rv (snd w)} else {})"
  shows "covered k (calls @ [c]) (client_step c ov)"
proof (cases "fst w = None")
  case True
  then show ?thesis
    using covered_set [OF assms(1), of c "snd w"] assms(2,3) True by simp
next
  case False
  then show ?thesis
    using covered_skip [OF assms(1), of c] assms(2,3) False by simp
qed

lemma covered_run:
  "\<forall>c \<in> set calls. finds_asked c \<Longrightarrow> covered k calls (client_run calls)"
proof (induction calls rule: rev_induct)
  case (snoc c calls)
  then have IH: "covered k calls (client_run calls)" and ok: "finds_asked c"
    by simp_all
  have run: "client_run (calls @ [c]) = client_step c (client_run calls)"
    by (simp add: client_run_def)
  show ?case
    unfolding run
  proof (cases c)
    case (CC_Get key cached)
    then show "covered k (calls @ [c]) (client_step c (client_run calls))"
      using covered_get [OF IH] ok by simp
  next
    case (CC_Create w)
    then show "covered k (calls @ [c]) (client_step c (client_run calls))"
      by (intro covered_write [OF IH, where w = w]; cases w; cases "fst w") (simp_all add: WriteThroughCache_Create_def)
  next
    case (CC_Update w)
    then show "covered k (calls @ [c]) (client_step c (client_run calls))"
      by (intro covered_write [OF IH, where w = w]; cases w; cases "fst w") (simp_all add: WriteThroughCache_Update_def)
  next
    case (CC_Patch w)
    then show "covered k (calls @ [c]) (client_step c (client_run calls))"
      by (intro covered_write [OF IH, where w = w]; cases w; cases "fst w") (simp_all add: WriteThroughCache_Patch_def)
  next
    case (CC_Delete key err)
    then show "covered k (calls @ [c]) (client_step c (client_run calls))"
      using covered_skip [OF IH, of c] by simp
  qed
qed (simp add: covered_def client_run_def)


text \<open>
  C14: The overlay reads what was written. After any history of calls, getting an object that was
  written succeeds, and its resource version is, in the order of strings, at least every version
  written, however far the cache is behind, if the cache does not go back.
\<close>

theorem overlay_reads_writes:
  assumes "\<forall>c \<in> set calls. finds_asked c" "finds_asked (CC_Get key cached)" "cache_forward calls key cached"
    and "v \<in> (\<Union>c \<in> set calls. written (cb_gvk (snd cached), nn_namespace key, nn_name key) c)"
  shows "\<exists>obj ov. WriteThroughCache_Get key cached (client_run calls) = ((None, obj), ov) \<and> v \<le> cb_rv obj"
proof -
  let ?k = "(cb_gvk (snd cached), nn_namespace key, nn_name key)"
  have get: "overlay_get key (snd cached) ov = gget ov ?k" for ov :: "'a overlay"
    by (simp add: overlay_get_def)
  consider (ov) e where "gget (client_run calls) ?k = Some e" "v \<le> cb_rv e"
    | (seen) c r where "c \<in> set calls" "r \<in> cached_rv ?k c" "v \<le> r"
    using covered_run [OF assms(1), of ?k] assms(4) unfolding covered_def by blast
  then show ?thesis
  proof cases
    case ov
    then show ?thesis
      by (cases cached; cases "fst cached") (auto simp: WriteThroughCache_Get_def overlay_get_def copyInto_def isNewer_def)
  next
    case seen
    then have "fst cached = None" "v \<le> cb_rv (snd cached)"
      using assms(3) unfolding cache_forward_def by (blast intro: order.trans)+
    then show ?thesis
      by (cases cached; cases "overlay_get key (snd cached) (client_run calls)")
        (auto simp: WriteThroughCache_Get_def copyInto_def isNewer_def intro: order.trans [OF _ less_imp_le])
  qed
qed

text \<open>
  What the overlay gets wrong. It copies the metadata only: a newer entry yields the new
  version with the content of the cache, so that an update of the result overwrites what was
  written. It keeps objects that were deleted. It compares versions as strings: when the number
  of digits grows, an object written is taken for older than the cached one, and is evicted. And
  objects whose kind is not set share an entry.
\<close>

theorem overlay_faults:
  fixes old new missing :: "'c cobject"
  defines "key \<equiv> \<lparr>nn_namespace = cb_namespace new, nn_name = cb_name new\<rparr>"
  assumes "gget ov (overlayKeyFor new) = None"
  shows "(overlayKeyFor old = overlayKeyFor new \<and> cb_rv old < cb_rv new \<longrightarrow>
      (\<exists>r. fst (WriteThroughCache_Get key (None, old) (client_step (CC_Update (None, new)) ov)) = (None, r) \<and>
        cb_rv r = cb_rv new \<and> cb_content r = cb_content old)) \<and>
    (cb_gvk missing = cb_gvk new \<longrightarrow>
      (\<exists>r. fst (WriteThroughCache_Get key (Some err, missing)
          (fold client_step [CC_Update (None, new), CC_Delete (overlayKeyFor new) None] ov)) = (None, r) \<and>
        cb_type r = cb_type missing \<and> cb_rv r = cb_rv new)) \<and>
    (overlayKeyFor old = overlayKeyFor new \<and> 0 < n \<and> cb_rv old = replicate n (CHR ''9'') \<and>
      cb_rv new = CHR ''1'' # replicate n (CHR ''0'') \<longrightarrow>
      (\<exists>ov'. WriteThroughCache_Get key (None, old) (client_step (CC_Update (None, new)) ov) = ((None, old), ov') \<and>
        gget ov' (overlayKeyFor new) = None))"
proof (intro conjI impI)
  let ?ov = "client_step (CC_Update (None, new)) ov"
  have upd: "gget ?ov (overlayKeyFor new) = Some new"
    using assms(2) by (simp add: WriteThroughCache_Update_def overlay_set_get)
  have get: "overlay_get key obj ?ov = Some new" if "cb_gvk obj = cb_gvk new" for obj :: "'c cobject"
    using upd that by (simp add: overlay_get_def key_def overlayKeyFor_def)
  {
    assume "overlayKeyFor old = overlayKeyFor new \<and> cb_rv old < cb_rv new"
    then show "\<exists>r. fst (WriteThroughCache_Get key (None, old) ?ov) = (None, r) \<and> cb_rv r = cb_rv new \<and> cb_content r = cb_content old"
      using get [of old] by (simp add: WriteThroughCache_Get_def isNewer_def copyInto_def overlayKeyFor_def)
  next
    assume "cb_gvk missing = cb_gvk new"
    then show "\<exists>r. fst (WriteThroughCache_Get key (Some err, missing)
        (fold client_step [CC_Update (None, new), CC_Delete (overlayKeyFor new) None] ov)) = (None, r) \<and>
        cb_type r = cb_type missing \<and> cb_rv r = cb_rv new"
      using get [of missing] by (simp add: WriteThroughCache_Get_def copyInto_def)
  next
    assume *: "overlayKeyFor old = overlayKeyFor new \<and> 0 < n \<and> cb_rv old = replicate n (CHR ''9'') \<and>
      cb_rv new = CHR ''1'' # replicate n (CHR ''0'')"
    then have "\<not> isNewer new old"
      by (cases n) (simp_all add: isNewer_def less_char_def)
    then show "\<exists>ov'. WriteThroughCache_Get key (None, old) ?ov = ((None, old), ov') \<and> gget ov' (overlayKeyFor new) = None"
      using get [of old] upd * by (simp add: WriteThroughCache_Get_def overlay_evict_def Let_def overlayKeyFor_def)
  }
qed

section \<open>Witnesses\<close>

definition stored :: "string \<Rightarrow> nat \<Rightarrow> nat cobject" where
  "stored rv x = \<lparr>cb_type = ''Pod'', cb_gvk = ([], [], []), cb_namespace = ''ns'', cb_name = ''n'', cb_uid = ''u'', cb_rv = rv,
     cb_generation = 1, cb_annotations = None, cb_labels = None, cb_finalizers = [], cb_content = x\<rparr>"

theorem overlay_reads_writes_witness:
  "\<exists>obj ov. WriteThroughCache_Get \<lparr>nn_namespace = ''ns'', nn_name = ''n''\<rparr> (None, stored ''11'' 0)
      (client_run [CC_Create (None, stored ''12'' 1), CC_Update (None, stored ''13'' 2)]) = ((None, obj), ov) \<and> ''13'' \<le> cb_rv obj"
  by (rule overlay_reads_writes) (auto simp: finds_asked_def cache_forward_def stored_def overlayKeyFor_def)

theorem overlay_faults_witness:
  "\<exists>ov. WriteThroughCache_Get \<lparr>nn_namespace = ''ns'', nn_name = ''n''\<rparr> (None, stored ''9'' 0)
      (client_step (CC_Update (None, stored ''10'' 1)) []) = ((None, stored ''9'' 0), ov)"
proof -
  have "gget [] (overlayKeyFor (stored ''10'' 1)) = None"
    by simp
  from overlay_faults [OF this, of "stored ''9'' 0" _ _ 1] show ?thesis
    by (auto simp: stored_def overlayKeyFor_def)
qed

end
