(* ===== verification/Merge.thy ===== *)
theory Merge
  imports Kube_Prelude "HOL-Library.Sublist"
begin

text \<open>
  The merge of a desired object into a live one under the rules of server side apply (package
  merge). Typed values, field sets and converters belong to the libraries of Kubernetes: they
  are parameters, collected in two records, with their documented behaviour as hypotheses.

  Every function answers with an \<open>outcome\<close>: \<open>None\<close> is a panic, \<open>Some (Inl e)\<close> a returned error.
\<close>

section \<open>Outcomes\<close>

type_synonym 'a outcome = "'a result option"

definition and_then :: "'a outcome \<Rightarrow> ('a \<Rightarrow> 'b outcome) \<Rightarrow> 'b outcome" where
  "and_then m f =
     (case m of None \<Rightarrow> None | Some (Inl e) \<Rightarrow> Some (Inl e) | Some (Inr x) \<Rightarrow> f x)"

definition wrapped :: "string \<Rightarrow> 'a result \<Rightarrow> 'a outcome" where
  "wrapped ctx m = Some (case m of Inl e \<Rightarrow> Inl (Wrapf [ctx] e) | Inr x \<Rightarrow> Inr x)"

lemma and_then_Inr [simp]: "and_then m f = Some (Inr y) \<longleftrightarrow> (\<exists>x. m = Some (Inr x) \<and> f x = Some (Inr y))"
  by (auto simp: and_then_def split: option.splits sum.splits)

lemma and_then_Some [simp]: "and_then (Some (Inr x)) f = f x" "and_then (Some (Inl e)) f = Some (Inl e)"
    "and_then None f = None"
  by (simp_all add: and_then_def)

lemma wrapped_Inr [simp]: "wrapped ctx m = Some (Inr x) \<longleftrightarrow> m = Inr x" "wrapped ctx (Inr x) = Some (Inr x)"
  by (auto simp: wrapped_def split: sum.splits)

section \<open>Objects\<close>

text \<open>
  An unstructured object: its identity, the metadata the code reads, the managed fields, and
  the remaining top level fields with values of a type \<open>'x\<close>. A \<open>runtime.Object\<close> need not have
  metadata.
\<close>

type_synonym gvk = "string \<times> string \<times> string"

record managed_entry =
  me_manager :: string
  me_fields :: "string option"

record 'x uobject =
  uo_gvk :: gvk
  uo_namespace :: string
  uo_name :: string
  uo_annotations :: "(string, string) gomap option"
  uo_labels :: "(string, string) gomap option"
  uo_deletion :: "nat option"
  uo_managed :: "managed_entry list"
  uo_content :: "(string, 'x) gomap"

datatype 'x robject = RObject "'x uobject" | RPlain 'x

section \<open>The libraries\<close>

text \<open>
  Field sets (\<open>fieldpath.Set\<close>) over paths of elements, and typed values with the functions
  around them. A nil typed value may be passed to \<open>Merge\<close>.
\<close>

record ('e, 's) field_sets =
  fs_new :: 's
  fs_has :: "'s \<Rightarrow> 'e list \<Rightarrow> bool"
  fs_insert :: "'s \<Rightarrow> 'e list \<Rightarrow> 's"
  fs_union :: "'s \<Rightarrow> 's \<Rightarrow> 's"
  fs_difference :: "'s \<Rightarrow> 's \<Rightarrow> 's"
  fs_empty :: "'s \<Rightarrow> bool"
  fs_paths :: "'s \<Rightarrow> 'e list list"

record 's comparison =
  cp_removed :: 's
  cp_modified :: 's
  cp_added :: 's

record ('s, 'v, 'x, 'c) typed_lib =
  tl_FromJSON :: "string \<Rightarrow> 's result"
  tl_ObjectToTyped :: "'c \<Rightarrow> 'x robject \<Rightarrow> 'v result"
  tl_TypedToObject :: "'c \<Rightarrow> 'v \<Rightarrow> 'x robject result"
  tl_ToFieldSet :: "'v \<Rightarrow> 's result"
  tl_Merge :: "'v \<Rightarrow> 'v option \<Rightarrow> 'v outcome"
  tl_RemoveItems :: "'v \<Rightarrow> 's \<Rightarrow> 'v"
  tl_ExtractItems :: "'v \<Rightarrow> 's \<Rightarrow> 'v"
  tl_Compare :: "'v \<Rightarrow> 'v \<Rightarrow> 's comparison result"
  tl_IsSame :: "'s comparison \<Rightarrow> bool"
  tl_Marshal :: "'x robject \<Rightarrow> string result"
  tl_CreateMergePatch :: "string \<Rightarrow> string \<Rightarrow> string result"
  tl_GVKForObject :: "'x robject \<Rightarrow> nat option \<Rightarrow> gvk outcome"

section \<open>The merger\<close>

record ('s, 'c) object_merger =
  om_converters :: "gvk \<Rightarrow> 'c result"
  om_scheme :: "nat option"
  om_manager :: string
  om_defaulted :: "'s option"

definition NewObjectMerger :: "(gvk \<Rightarrow> 'c result) \<Rightarrow> nat option \<Rightarrow> string \<Rightarrow> ('s, 'c) object_merger result" where
  "NewObjectMerger c scheme managerName =
     Inr \<lparr>om_converters = c, om_scheme = None, om_manager = managerName, om_defaulted = None\<rparr>"

definition WithDefaulted :: "('s, 'c) object_merger \<Rightarrow> 's option \<Rightarrow> ('s, 'c) object_merger" where
  "WithDefaulted m defaulted = m\<lparr>om_defaulted := defaulted\<rparr>"

definition GetDefaulted :: "('s, 'c) object_merger \<Rightarrow> 's option" where
  "GetDefaulted m = om_defaulted m"

definition merger_GetConverter :: "('s, 'c) object_merger \<Rightarrow> gvk \<Rightarrow> 'c result" where
  "merger_GetConverter m k = om_converters m k"

section \<open>Completion of field sets\<close>

text \<open>
  \<open>seq_all\<close> is the iteration of a \<open>range\<close> loop over the paths of a set: the body tells whether
  it goes on; after a break the remaining callbacks do nothing. \<open>complete\<close> repeats a pass that
  inserts the parent of one path as long as a pass has inserted one.
\<close>

definition seq_all :: "('e, 's) field_sets \<Rightarrow> 's \<Rightarrow> ('e list \<Rightarrow> 'st \<Rightarrow> bool \<times> 'st) \<Rightarrow> 'st \<Rightarrow> 'st" where
  "seq_all F s yield st =
     snd (fold (\<lambda>p (stopped, st).
                  if \<not> stopped then (let (go, st) = yield p st in (\<not> go, st)) else (stopped, st))
            (fs_paths F s) (False, st))"

definition complete_body :: "('e, 's) field_sets \<Rightarrow> 'e list \<Rightarrow> bool \<times> 's \<Rightarrow> bool \<times> bool \<times> 's" where
  "complete_body F f = (\<lambda>(found, s).
     let p = int (length f) - 1 in
     if p > 0 \<and> \<not> fs_has F s (take (nat p) f) then (False, True, fs_insert F s (take (nat p) f))
     else (True, found, s))"

partial_function (option) complete :: "('e, 's) field_sets \<Rightarrow> 's \<Rightarrow> 's option" where
  "complete F s =
     (let (found, s) = seq_all F s (complete_body F) (False, s)
      in if found then complete F s else Some s)"

declare complete.simps [code]

section \<open>Fields and patches\<close>

definition GetRawInfo ::
  "('s, 'v, 'x, 'c) typed_lib \<Rightarrow> 'c \<Rightarrow> 'x robject \<Rightarrow> ('v \<times> 's) outcome" where
  "GetRawInfo T converter obj =
     and_then (wrapped ''converting desired to typed'' (tl_ObjectToTyped T converter obj)) (\<lambda>desiredTyped.
     and_then (wrapped ''extracting desired fieldset'' (tl_ToFieldSet T desiredTyped)) (\<lambda>desiredFields.
     Some (Inr (desiredTyped, desiredFields))))"

text \<open>\<open>GetInfo\<close> returns nil values without an error when \<open>GetRawInfo\<close> fails.\<close>

definition GetInfo ::
  "('e, 's) field_sets \<Rightarrow> ('s, 'v, 'x, 'c) typed_lib \<Rightarrow> 'c \<Rightarrow> 'x robject \<Rightarrow> ('v option \<times> 's option) outcome" where
  "GetInfo F T converter obj =
     (case GetRawInfo T converter obj of
        None \<Rightarrow> None
      | Some (Inl err) \<Rightarrow> Some (Inr (None, None))
      | Some (Inr (desiredTyped, desiredFields)) \<Rightarrow>
          (case complete F desiredFields of
             None \<Rightarrow> None
           | Some dfields \<Rightarrow> Some (Inr (Some desiredTyped, Some dfields))))"

fun owned_loop ::
  "('e, 's) field_sets \<Rightarrow> ('s, 'v, 'x, 'c) typed_lib \<Rightarrow> string \<Rightarrow> managed_entry list \<Rightarrow> 's \<Rightarrow> 's outcome" where
  "owned_loop F T manager [] ownedFields = Some (Inr ownedFields)"
| "owned_loop F T manager (entry # es) ownedFields =
     (if me_manager entry \<noteq> manager then owned_loop F T manager es ownedFields
      else case me_fields entry of
             None \<Rightarrow> None
           | Some raw \<Rightarrow>
               and_then (wrapped ''parsing managed fields'' (tl_FromJSON T raw)) (\<lambda>fs.
               owned_loop F T manager es (fs_union F ownedFields fs)))"

definition GetOwnedFields ::
  "('e, 's) field_sets \<Rightarrow> ('s, 'v, 'x, 'c) typed_lib \<Rightarrow> ('s, 'c) object_merger \<Rightarrow> 'x robject \<Rightarrow> 's outcome" where
  "GetOwnedFields F T m obj =
     (case obj of
        RPlain _ \<Rightarrow> Some (Inl (Errorf ''object does not implement metav1.Object'' []))
      | RObject u \<Rightarrow>
          and_then (owned_loop F T (om_manager m) (uo_managed u) (fs_new F)) (\<lambda>ownedFields.
          case om_defaulted m of
            Some d \<Rightarrow> Some (Inr (fs_difference F ownedFields d))
          | None \<Rightarrow> Some (Inr ownedFields)))"

definition ComputeSSAPatch ::
  "('e, 's) field_sets \<Rightarrow> ('s, 'v, 'x, 'c) typed_lib \<Rightarrow> ('s, 'c) object_merger \<Rightarrow> 'x robject \<Rightarrow> 'x robject \<Rightarrow>
   string outcome" where
  "ComputeSSAPatch F T m live desired =
     and_then (tl_GVKForObject T live (om_scheme m)) (\<lambda>k.
     and_then (Some (om_converters m k)) (\<lambda>typeConverter.
     and_then (wrapped ''converting live to typed'' (tl_ObjectToTyped T typeConverter live)) (\<lambda>liveTyped.
     and_then (GetOwnedFields F T m live) (\<lambda>ownedFields.
     and_then (GetInfo F T typeConverter desired) (\<lambda>(desiredTyped, desiredFields).
     and_then (case tl_Merge T liveTyped desiredTyped of
                 None \<Rightarrow> None | Some r \<Rightarrow> wrapped ''merging typed'' r) (\<lambda>result.
     case desiredFields of
       None \<Rightarrow> None
     | Some dfields \<Rightarrow>
     (let removedFields = fs_difference F ownedFields dfields;
          result = (if \<not> fs_empty F removedFields then tl_RemoveItems T result removedFields else result) in
     and_then (wrapped ''comparing typed objects'' (tl_Compare T liveTyped result)) (\<lambda>comparison.
     if tl_IsSame T comparison then Some (Inr [])
     else
       and_then (Some (tl_Marshal T live)) (\<lambda>liveJSON.
       and_then (wrapped ''converting result to object'' (tl_TypedToObject T typeConverter result)) (\<lambda>resultObj.
       and_then (Some (tl_Marshal T resultObj)) (\<lambda>resultJSON.
       Some (tl_CreateMergePatch T liveJSON resultJSON))))))))))))"

fun others_loop ::
  "('e, 's) field_sets \<Rightarrow> ('s, 'v, 'x, 'c) typed_lib \<Rightarrow> string \<Rightarrow> managed_entry list \<Rightarrow> 's \<Rightarrow> 's option" where
  "others_loop F T manager [] s = Some s"
| "others_loop F T manager (entry # es) s =
     (if me_manager entry = manager then others_loop F T manager es s
      else case me_fields entry of
             None \<Rightarrow> None
           | Some raw \<Rightarrow>
               (case tl_FromJSON T raw of
                  Inl _ \<Rightarrow> others_loop F T manager es s
                | Inr otherFs \<Rightarrow> others_loop F T manager es (fs_union F s otherFs)))"

text \<open>
  The errors of \<open>Compare\<close> and \<open>TypedToObject\<close> are dropped: a failing comparison is
  dereferenced as nil, a failing conversion asserted to be an unstructured object.
\<close>

definition MergeObservingManagedFields ::
  "('e, 's) field_sets \<Rightarrow> ('s, 'v, 'x, 'c) typed_lib \<Rightarrow> ('s, 'c) object_merger \<Rightarrow> 'x uobject \<Rightarrow> 'x uobject \<Rightarrow>
   'x uobject outcome" where
  "MergeObservingManagedFields F T m liveObj desiredObj =
     and_then (tl_GVKForObject T (RObject liveObj) (om_scheme m)) (\<lambda>k.
     and_then (Some (merger_GetConverter m k)) (\<lambda>converter.
     and_then (Some (tl_ObjectToTyped T converter (RObject liveObj))) (\<lambda>liveTyped.
     and_then (Some (tl_ObjectToTyped T converter (RObject desiredObj))) (\<lambda>desiredTyped.
     case tl_Compare T liveTyped desiredTyped of
       Inl _ \<Rightarrow> None
     | Inr comparison \<Rightarrow>
     (let deltaFields = fs_union F (cp_modified comparison) (cp_added comparison) in
     case others_loop F T (om_manager m) (uo_managed liveObj) (fs_new F) of
       None \<Rightarrow> None
     | Some othersManagedFields \<Rightarrow>
     (let safeToApply = fs_difference F deltaFields othersManagedFields;
          filteredDesired = tl_ExtractItems T desiredTyped safeToApply in
     and_then (tl_Merge T liveTyped (Some filteredDesired)) (\<lambda>resultTyped.
     case tl_TypedToObject T converter resultTyped of
       Inl _ \<Rightarrow> None
     | Inr (RPlain _) \<Rightarrow> None
     | Inr (RObject u) \<Rightarrow> Some (Inr u))))))))"

section \<open>Documented behaviour\<close>

text \<open>
  A field set is a finite set of paths without the empty one. A typed value has values at
  leaf paths, its field set contains every leaf; merging prefers the second value, removing
  drops what lies below a removed path, and a comparison is the same when no leaf differs.
\<close>

definition field_sets_documented :: "('e, 's) field_sets \<Rightarrow> bool" where
  "field_sets_documented F \<longleftrightarrow>
     (\<forall>p. \<not> fs_has F (fs_new F) p) \<and> (\<forall>s. \<not> fs_has F s []) \<and>
     (\<forall>s p q. p \<noteq> [] \<longrightarrow> fs_has F (fs_insert F s p) q \<longleftrightarrow> q = p \<or> fs_has F s q) \<and>
     (\<forall>s t p. fs_has F (fs_union F s t) p \<longleftrightarrow> fs_has F s p \<or> fs_has F t p) \<and>
     (\<forall>s t p. fs_has F (fs_difference F s t) p \<longleftrightarrow> fs_has F s p \<and> \<not> fs_has F t p) \<and>
     (\<forall>s. fs_empty F s \<longleftrightarrow> (\<forall>p. \<not> fs_has F s p)) \<and>
     (\<forall>s. set (fs_paths F s) = {p. fs_has F s p})"

definition typed_documented ::
  "('e, 's) field_sets \<Rightarrow> ('s, 'v, 'x, 'c) typed_lib \<Rightarrow> ('v \<Rightarrow> 'e list \<Rightarrow> 'l option) \<Rightarrow> bool" where
  "typed_documented F T leaf \<longleftrightarrow>
     (\<forall>v s p. tl_ToFieldSet T v = Inr s \<longrightarrow> leaf v p \<noteq> None \<longrightarrow> fs_has F s p) \<and>
     (\<forall>l r m p. tl_Merge T l (Some r) = Some (Inr m) \<longrightarrow>
        leaf m p = (case leaf r p of None \<Rightarrow> leaf l p | Some x \<Rightarrow> Some x)) \<and>
     (\<forall>v s p. leaf (tl_RemoveItems T v s) p = (if \<exists>q. fs_has F s q \<and> prefix q p then None else leaf v p)) \<and>
     (\<forall>l r c. tl_Compare T l r = Inr c \<longrightarrow> tl_IsSame T c = (leaf l = leaf r))"

lemma fieldsD:
  assumes "field_sets_documented F"
  shows "\<not> fs_has F (fs_new F) p" "\<not> fs_has F s []"
    "p \<noteq> [] \<Longrightarrow> fs_has F (fs_insert F s p) q \<longleftrightarrow> q = p \<or> fs_has F s q"
    "fs_has F (fs_union F s t) p \<longleftrightarrow> fs_has F s p \<or> fs_has F t p"
    "fs_has F (fs_difference F s t) p \<longleftrightarrow> fs_has F s p \<and> \<not> fs_has F t p"
    "fs_empty F s \<longleftrightarrow> (\<forall>p. \<not> fs_has F s p)"
    "set (fs_paths F s) = {p. fs_has F s p}"
  using assms by (simp_all add: field_sets_documented_def)

section \<open>Completion\<close>

text \<open>\<open>parents F s p\<close>: \<open>p\<close> is a path of \<open>s\<close> or a parent of one.\<close>

definition parents :: "('e, 's) field_sets \<Rightarrow> 's \<Rightarrow> 'e list \<Rightarrow> bool" where
  "parents F s p \<longleftrightarrow> p \<noteq> [] \<and> (\<exists>q. fs_has F s q \<and> prefix p q)"

definition orphan :: "('e, 's) field_sets \<Rightarrow> 's \<Rightarrow> 'e list \<Rightarrow> bool" where
  "orphan F s f \<longleftrightarrow> 1 < length f \<and> \<not> fs_has F s (butlast f)"

lemma body_orphan: "complete_body F f (found, s) =
    (if orphan F s f then (False, True, fs_insert F s (butlast f)) else (True, found, s))"
  by (cases "length f") (auto simp: complete_body_def orphan_def Let_def butlast_conv_take nat_diff_distrib)

lemma fold_stopped: "fold (\<lambda>p (stopped, st). if \<not> stopped then (let (go, st) = y p st in (\<not> go, st)) else (stopped, st))
    ps (True, st) = (True, st)"
  by (induction ps) auto

lemma seq_all_complete:
  "seq_all F s (complete_body F) (False, s) =
     (case find (orphan F s) (fs_paths F s) of
        None \<Rightarrow> (False, s) | Some f \<Rightarrow> (True, fs_insert F s (butlast f)))"
proof -
  have "snd (fold (\<lambda>p (stopped, st). if \<not> stopped then (let (go, st) = complete_body F p st in (\<not> go, st))
      else (stopped, st)) ps (False, False, s)) =
      (case find (orphan F s) ps of None \<Rightarrow> (False, s) | Some f \<Rightarrow> (True, fs_insert F s (butlast f)))" for ps
    by (induction ps) (auto simp: body_orphan fold_stopped)
  then show ?thesis
    by (simp add: seq_all_def)
qed

lemma find_SomeD: "find P xs = Some x \<Longrightarrow> x \<in> set xs \<and> P x"
  by (auto simp: find_Some_iff)

lemma complete_rec:
  "complete F s = (case find (orphan F s) (fs_paths F s) of
     None \<Rightarrow> Some s | Some f \<Rightarrow> complete F (fs_insert F s (butlast f)))"
  by (subst complete.simps) (simp add: seq_all_complete split: option.split)

lemma finite_parents: assumes "field_sets_documented F" shows "finite {p. parents F s p}"
proof (rule finite_subset)
  show "{p. parents F s p} \<subseteq> (\<Union>q\<in>set (fs_paths F s). set (prefixes q))"
    by (auto simp: parents_def fieldsD(7) [OF assms])
  show "finite (\<Union>q\<in>set (fs_paths F s). set (prefixes q))"
    by simp
qed

lemma parents_insert:
  assumes F: "field_sets_documented F" and f: "fs_has F s f" "1 < length f"
  shows "parents F (fs_insert F s (butlast f)) p \<longleftrightarrow> parents F s p"
proof -
  have "butlast f \<noteq> []" "prefix (butlast f) f"
    using f(2) by (cases f rule: rev_cases; auto)+
  then show ?thesis
    using f(1) fieldsD(3) [OF F] by (auto simp: parents_def dest: prefix_order.trans)
qed

lemma complete_fields:
  assumes F: "field_sets_documented F"
  shows "\<exists>t. complete F s = Some t \<and> (\<forall>p. fs_has F t p \<longleftrightarrow> parents F s p)"
proof (induction "card ({p. parents F s p} - {p. fs_has F s p})" arbitrary: s rule: less_induct)
  case less
  show ?case
  proof (cases "find (orphan F s) (fs_paths F s)")
    case None
    have closed: "fs_has F s (butlast f)" if "fs_has F s f" "1 < length f" for f
      using None that by (auto simp: find_None_iff orphan_def fieldsD(7) [OF F])
    have "fs_has F s p" if "fs_has F s (p @ q)" "p \<noteq> []" for p q
      using that
    proof (induction q rule: rev_induct)
      case (snoc x q)
      then show ?case
        using closed [of "p @ q @ [x]"] by (cases p) (auto simp: butlast_append)
    qed simp
    then have "fs_has F s p \<longleftrightarrow> parents F s p" for p
      using fieldsD(2) [OF F] by (auto simp: parents_def elim: prefixE)
    then show ?thesis
      using None by (subst complete_rec) simp
  next
    case (Some f)
    let ?s = "fs_insert F s (butlast f)"
    have f: "fs_has F s f" "1 < length f" "\<not> fs_has F s (butlast f)"
      using find_SomeD [OF Some] fieldsD(7) [OF F] by (auto simp: orphan_def)
    have nn: "butlast f \<noteq> []" "prefix (butlast f) f"
      using f(2) by (cases f rule: rev_cases; auto)+
    have par: "parents F ?s p \<longleftrightarrow> parents F s p" for p
      by (rule parents_insert [OF F f(1,2)])
    have "{p. parents F ?s p} - {p. fs_has F ?s p} \<subset> {p. parents F s p} - {p. fs_has F s p}"
      using f nn fieldsD(3) [OF F nn(1)] by (auto simp: par parents_def)
    then have "card ({p. parents F ?s p} - {p. fs_has F ?s p}) < card ({p. parents F s p} - {p. fs_has F s p})"
      using finite_parents [OF F] by (intro psubset_card_mono) auto
    from less [OF this] show ?thesis
      using Some by (subst complete_rec) (simp add: par)
  qed
qed

section \<open>The computed patch\<close>

lemma typedD:
  assumes "typed_documented F T leaf"
  shows "tl_ToFieldSet T v = Inr s \<Longrightarrow> leaf v p \<noteq> None \<Longrightarrow> fs_has F s p"
    "tl_Merge T l (Some r) = Some (Inr m) \<Longrightarrow> leaf m p = (case leaf r p of None \<Rightarrow> leaf l p | Some x \<Rightarrow> Some x)"
    "leaf (tl_RemoveItems T v s) p = (if \<exists>q. fs_has F s q \<and> prefix q p then None else leaf v p)"
    "tl_Compare T l r = Inr c \<Longrightarrow> tl_IsSame T c \<longleftrightarrow> leaf l = leaf r"
  using assms unfolding typed_documented_def by simp_all

text \<open>The result of a merge: \<open>mv\<close>, less the fields of \<open>owned\<close> that are not desired any more.\<close>

definition ssa_result ::
  "('e, 's) field_sets \<Rightarrow> ('s, 'v, 'x, 'c) typed_lib \<Rightarrow> 's \<Rightarrow> 's \<Rightarrow> 'v \<Rightarrow> 'v" where
  "ssa_result F T owned dfields mv =
     (let removedFields = fs_difference F owned dfields in
      if \<not> fs_empty F removedFields then tl_RemoveItems T mv removedFields else mv)"

definition ssa_answer :: "('s, 'v, 'x, 'c) typed_lib \<Rightarrow> 'c \<Rightarrow> 'x robject \<Rightarrow> 'v \<Rightarrow> string outcome" where
  "ssa_answer T c live res =
     and_then (Some (tl_Marshal T live)) (\<lambda>liveJSON.
     and_then (wrapped ''converting result to object'' (tl_TypedToObject T c res)) (\<lambda>resultObj.
     and_then (Some (tl_Marshal T resultObj)) (\<lambda>resultJSON.
     Some (tl_CreateMergePatch T liveJSON resultJSON))))"

lemma ComputeSSAPatch_run:
  assumes "tl_GVKForObject T live (om_scheme m) = Some (Inr k)" "om_converters m k = Inr c"
    and "tl_ObjectToTyped T c live = Inr lv" "tl_ObjectToTyped T c desired = Inr dv" "tl_ToFieldSet T dv = Inr ds"
    and "GetOwnedFields F T m live = Some (Inr owned)" "tl_Merge T lv (Some dv) = Some (Inr mv)"
    and "complete F ds = Some t"
  shows "ComputeSSAPatch F T m live desired =
    (let res = ssa_result F T owned t mv in
     case tl_Compare T lv res of
       Inl e \<Rightarrow> Some (Inl (Wrapf [''comparing typed objects''] e))
     | Inr cmp \<Rightarrow> if tl_IsSame T cmp then Some (Inr []) else ssa_answer T c live res)"
proof -
  have "GetInfo F T c desired = Some (Inr (Some dv, Some t))"
    using assms by (simp add: GetInfo_def GetRawInfo_def)
  then show ?thesis
    using assms
    by (simp add: ComputeSSAPatch_def ssa_result_def ssa_answer_def wrapped_def and_then_def Let_def
        split: sum.split)
qed

lemma ssa_result_leaf:
  assumes F: "field_sets_documented F" and T: "typed_documented F T leaf"
    and ds: "tl_ToFieldSet T dv = Inr ds" and mv: "tl_Merge T lv (Some dv) = Some (Inr mv)"
    and t: "\<And>p. fs_has F t p \<longleftrightarrow> parents F ds p"
  shows "leaf (ssa_result F T owned t mv) p =
    (case leaf dv p of
       Some x \<Rightarrow> Some x
     | None \<Rightarrow> if \<exists>q. fs_has F owned q \<and> \<not> parents F ds q \<and> prefix q p then None else leaf lv p)"
proof -
  have kept: "\<not> prefix q p" if "leaf dv p \<noteq> None" "fs_has F owned q" "\<not> parents F ds q" for q
    using that fieldsD(2) [OF F] typedD(1) [OF T ds] by (cases q) (auto simp: parents_def)
  have "leaf (ssa_result F T owned t mv) p =
      (if \<exists>q. fs_has F owned q \<and> \<not> parents F ds q \<and> prefix q p then None else leaf mv p)"
    by (auto simp: ssa_result_def Let_def typedD(3) [OF T] fieldsD [OF F] t)
  moreover have "leaf mv p = (case leaf dv p of None \<Rightarrow> leaf lv p | Some x \<Rightarrow> Some x)"
    by (rule typedD(2) [OF T mv])
  ultimately show ?thesis
    using kept by (auto split: option.split)
qed

section \<open>Properties\<close>

text \<open>
  The completion of a field set always ends, with the paths of the set and all their
  parents, and the computation of the wanted fields never returns an error: where the desired
  object cannot be converted it answers with nil values instead.
\<close>

theorem ssa_complete:
  assumes F: "field_sets_documented F"
  shows "(\<exists>t. complete F s = Some t \<and> (\<forall>p. fs_has F t p \<longleftrightarrow> p \<noteq> [] \<and> (\<exists>q. fs_has F s q \<and> prefix p q))) \<and>
    (\<exists>v ds. GetInfo F T c obj = Some (Inr (v, ds)) \<and>
       (case tl_ObjectToTyped T c obj of
          Inl _ \<Rightarrow> v = None \<and> ds = None
        | Inr x \<Rightarrow>
            (case tl_ToFieldSet T x of
               Inl _ \<Rightarrow> v = None \<and> ds = None
             | Inr fs \<Rightarrow> v = Some x \<and> ds = complete F fs)))"
proof
  show "\<exists>t. complete F s = Some t \<and> (\<forall>p. fs_has F t p \<longleftrightarrow> p \<noteq> [] \<and> (\<exists>q. fs_has F s q \<and> prefix p q))"
    using complete_fields [OF F, of s] by (simp add: parents_def)
  have "\<exists>t. complete F fs = Some t" for fs
    using complete_fields [OF F, of fs] by blast
  then show "\<exists>v ds. GetInfo F T c obj = Some (Inr (v, ds)) \<and>
       (case tl_ObjectToTyped T c obj of
          Inl _ \<Rightarrow> v = None \<and> ds = None
        | Inr x \<Rightarrow>
            (case tl_ToFieldSet T x of
               Inl _ \<Rightarrow> v = None \<and> ds = None
             | Inr fs \<Rightarrow> v = Some x \<and> ds = complete F fs))"
    by (auto simp: GetInfo_def GetRawInfo_def wrapped_def split: sum.split) (metis option.simps(5))
qed

text \<open>
  C7: A patch for a desired object leads to an object with every desired value; the fields the
  manager owned and does not want any more are gone with what is below them, unless something
  below is desired; every other field keeps its live value. There is no patch exactly if
  nothing changes, otherwise it is the merge patch between the live object and that result.
\<close>

theorem ssa_patch:
  assumes F: "field_sets_documented F" and T: "typed_documented F T leaf"
    and run: "tl_GVKForObject T live (om_scheme m) = Some (Inr k)" "om_converters m k = Inr c"
      "tl_ObjectToTyped T c live = Inr lv" "tl_ObjectToTyped T c desired = Inr dv" "tl_ToFieldSet T dv = Inr ds"
      "GetOwnedFields F T m live = Some (Inr owned)" "tl_Merge T lv (Some dv) = Some (Inr mv)"
    and cmp: "\<And>a b. \<exists>r. tl_Compare T a b = Inr r"
  shows "\<exists>res.
    (\<forall>p. leaf res p =
       (case leaf dv p of
          Some x \<Rightarrow> Some x
        | None \<Rightarrow> if \<exists>q. fs_has F owned q \<and> \<not> parents F ds q \<and> prefix q p then None else leaf lv p)) \<and>
    ComputeSSAPatch F T m live desired =
      (if leaf lv = leaf res then Some (Inr []) else ssa_answer T c live res)"
proof -
  obtain t where t: "complete F ds = Some t" "\<And>p. fs_has F t p \<longleftrightarrow> parents F ds p"
    using complete_fields [OF F] by blast
  let ?res = "ssa_result F T owned t mv"
  obtain r where r: "tl_Compare T lv ?res = Inr r"
    using cmp by blast
  have "ComputeSSAPatch F T m live desired = (if leaf lv = leaf ?res then Some (Inr []) else ssa_answer T c live ?res)"
    using ComputeSSAPatch_run [OF run t(1)] r typedD(4) [OF T r] by (simp add: Let_def)
  then show ?thesis
    using ssa_result_leaf [OF F T run(5,7) t(2)] by blast
qed

text \<open>
  Extracting keeps what lies below the given paths; a comparison lists the paths of the right
  value that are new or changed.
\<close>

definition extract_documented ::
  "('e, 's) field_sets \<Rightarrow> ('s, 'v, 'x, 'c) typed_lib \<Rightarrow> ('v \<Rightarrow> 'e list \<Rightarrow> 'l option) \<Rightarrow> bool" where
  "extract_documented F T leaf \<longleftrightarrow>
     (\<forall>v s p. leaf (tl_ExtractItems T v s) p = (if \<exists>q. fs_has F s q \<and> prefix q p then leaf v p else None)) \<and>
     (\<forall>l r cmp p. tl_Compare T l r = Inr cmp \<longrightarrow> leaf r p \<noteq> None \<longrightarrow> leaf l p \<noteq> leaf r p \<longrightarrow>
        fs_has F (cp_modified cmp) p \<or> fs_has F (cp_added cmp) p)"

definition foreign ::
  "('e, 's) field_sets \<Rightarrow> ('s, 'v, 'x, 'c) typed_lib \<Rightarrow> string \<Rightarrow> 'x uobject \<Rightarrow> 'e list \<Rightarrow> bool" where
  "foreign F T manager u p \<longleftrightarrow>
     (\<exists>entry\<in>set (uo_managed u). me_manager entry \<noteq> manager \<and>
        (\<exists>raw fs. me_fields entry = Some raw \<and> tl_FromJSON T raw = Inr fs \<and> fs_has F fs p))"

lemma others_loop_foreign:
  assumes F: "field_sets_documented F" and "\<forall>entry\<in>set es. me_fields entry \<noteq> None"
  shows "\<exists>t. others_loop F T manager es s = Some t \<and>
    (\<forall>p. fs_has F t p \<longleftrightarrow> fs_has F s p \<or>
       (\<exists>entry\<in>set es. me_manager entry \<noteq> manager \<and>
         (\<exists>raw fs. me_fields entry = Some raw \<and> tl_FromJSON T raw = Inr fs \<and> fs_has F fs p)))"
  using assms(2)
proof (induction es arbitrary: s)
  case (Cons entry es)
  then obtain raw where raw: "me_fields entry = Some raw"
    by auto
  show ?case
  proof (cases "me_manager entry = manager")
    case True
    then show ?thesis
      using Cons.IH [of s] Cons.prems by auto
  next
    case False
    then show ?thesis
      using Cons.IH [of s] Cons.IH [of "fs_union F s fs" for fs] Cons.prems raw
      by (cases "tl_FromJSON T raw") (auto simp: fieldsD(4) [OF F])
  qed
qed simp

lemma unstructured_iff:
  "(case r of Inl _ \<Rightarrow> None | Inr (RPlain _) \<Rightarrow> None | Inr (RObject u) \<Rightarrow> Some (Inr u)) =
     (Some (Inr v) :: 'x uobject outcome) \<longleftrightarrow> r = Inr (RObject v)"
  by (auto split: sum.splits robject.splits)

text \<open>
  C31: The merge that observes managed fields takes over desired values only: a field has its
  desired or its live value. A desired value that differs is taken over where no other manager
  owns the field, and a field another manager owns keeps its live value unless a parent of it
  was changed as a whole.
\<close>

theorem merge_observing:
  fixes res :: "'x uobject"
  assumes F: "field_sets_documented F" and T: "typed_documented F T leaf" and X: "extract_documented F T leaf"
    and run: "MergeObservingManagedFields F T m live desired = Some (Inr res)"
    and typed: "tl_GVKForObject T (RObject live) (om_scheme m) = Some (Inr k)" "om_converters m k = Inr c"
      "tl_ObjectToTyped T c (RObject live) = Inr lv" "tl_ObjectToTyped T c (RObject desired) = Inr dv"
      "tl_Compare T lv dv = Inr cmp"
    and full: "\<forall>entry\<in>set (uo_managed live). me_fields entry \<noteq> None"
  shows "\<exists>rv. tl_TypedToObject T c rv = Inr (RObject res) \<and>
    (\<forall>p. leaf rv p = leaf lv p \<or> leaf dv p \<noteq> None \<and> leaf rv p = leaf dv p) \<and>
    (\<forall>p. leaf dv p \<noteq> None \<longrightarrow> \<not> foreign F T (om_manager m) live p \<longrightarrow> leaf rv p = leaf dv p) \<and>
    (\<forall>p. foreign F T (om_manager m) live p \<longrightarrow>
       (\<forall>q. strict_prefix q p \<longrightarrow> \<not> fs_has F (cp_modified cmp) q \<and> \<not> fs_has F (cp_added cmp) q) \<longrightarrow>
       leaf rv p = leaf lv p)"
proof -
  obtain t where t: "others_loop F T (om_manager m) (uo_managed live) (fs_new F) = Some t"
    "\<And>p. fs_has F t p \<longleftrightarrow> foreign F T (om_manager m) live p"
    using others_loop_foreign [OF F full, of T "om_manager m" "fs_new F"] fieldsD(1) [OF F]
    by (auto simp: foreign_def)
  define safe where "safe = fs_difference F (fs_union F (cp_modified cmp) (cp_added cmp)) t"
  have safe: "fs_has F safe q \<longleftrightarrow> (fs_has F (cp_modified cmp) q \<or> fs_has F (cp_added cmp) q) \<and>
      \<not> foreign F T (om_manager m) live q" for q
    by (simp add: safe_def fieldsD(4,5) [OF F] t(2))
  have ext: "leaf (tl_ExtractItems T dv safe) p = (if \<exists>q. fs_has F safe q \<and> prefix q p then leaf dv p else None)" for p
    using X by (simp add: extract_documented_def)
  have new: "fs_has F (cp_modified cmp) p \<or> fs_has F (cp_added cmp) p" if "leaf dv p \<noteq> None" "leaf lv p \<noteq> leaf dv p" for p
    using X typed(5) that unfolding extract_documented_def by blast
  obtain rv where rv: "tl_Merge T lv (Some (tl_ExtractItems T dv safe)) = Some (Inr rv)"
    "tl_TypedToObject T c rv = Inr (RObject res)"
    using run typed t(1)
    by (auto simp: MergeObservingManagedFields_def merger_GetConverter_def Let_def safe_def unstructured_iff)
  have leaf: "leaf rv p = (if leaf dv p \<noteq> None \<and> (\<exists>q. fs_has F safe q \<and> prefix q p) then leaf dv p else leaf lv p)" for p
    using typedD(2) [OF T rv(1), of p] ext [of p] by (auto split: option.splits if_splits)
  have "leaf rv p = leaf dv p" if "leaf dv p \<noteq> None" "\<not> foreign F T (om_manager m) live p" for p
    using that new [of p] safe [of p] leaf [of p] by (cases "leaf lv p = leaf dv p") auto
  moreover have "leaf rv p = leaf lv p" if "foreign F T (om_manager m) live p"
      "\<forall>q. strict_prefix q p \<longrightarrow> \<not> fs_has F (cp_modified cmp) q \<and> \<not> fs_has F (cp_added cmp) q" for p
    using that leaf [of p] safe by (auto simp: strict_prefix_def)
  moreover have "leaf rv p = leaf lv p \<or> leaf dv p \<noteq> None \<and> leaf rv p = leaf dv p" for p
    using leaf [of p] by simp
  ultimately show ?thesis
    using rv(2) by blast
qed

section \<open>Witnesses\<close>

text \<open>
  A concrete library: a field set is a list of paths, a typed value an association list of
  paths and strings, kept in the field \<open>tree\<close> of an object. Managed fields are paths with
  slashes, separated by commas.
\<close>

definition demo_fields :: "(string, string list list) field_sets" where
  "demo_fields =
     \<lparr>fs_new = [], fs_has = (\<lambda>s p. p \<in> set s \<and> p \<noteq> []), fs_insert = (\<lambda>s p. p # s), fs_union = (@),
      fs_difference = (\<lambda>s t. filter (\<lambda>p. p \<notin> set t) s), fs_empty = (\<lambda>s. filter (\<lambda>p. p \<noteq> []) s = []),
      fs_paths = filter (\<lambda>p. p \<noteq> [])\<rparr>"

type_synonym demo_tree = "(string list \<times> string) list"

definition below :: "string list list \<Rightarrow> string list \<Rightarrow> bool" where
  "below s p \<longleftrightarrow> (\<exists>q\<in>set s. q \<noteq> [] \<and> prefix q p)"

definition demo_tree_of :: "demo_tree robject \<Rightarrow> demo_tree" where
  "demo_tree_of obj =
     (case obj of RPlain x \<Rightarrow> x
      | RObject u \<Rightarrow> (case gget (uo_content u) ''tree'' of None \<Rightarrow> [] | Some x \<Rightarrow> x))"

definition demo_uobject :: "demo_tree \<Rightarrow> managed_entry list \<Rightarrow> demo_tree uobject" where
  "demo_uobject v es =
     \<lparr>uo_gvk = ([], ''v1'', ''ConfigMap''), uo_namespace = ''ns'', uo_name = ''a'', uo_annotations = None,
      uo_labels = None, uo_deletion = None, uo_managed = es, uo_content = [(''tree'', v)]\<rparr>"

definition demo_leaf :: "demo_tree \<Rightarrow> string list \<Rightarrow> string option" where
  "demo_leaf v p = (if p = [] then None else map_of v p)"

definition demo_compare :: "demo_tree \<Rightarrow> demo_tree \<Rightarrow> string list list comparison" where
  "demo_compare l r =
     \<lparr>cp_removed = filter (\<lambda>p. demo_leaf l p \<noteq> None \<and> demo_leaf r p = None) (map fst l),
      cp_modified = filter (\<lambda>p. demo_leaf l p \<noteq> None \<and> demo_leaf r p \<noteq> demo_leaf l p) (map fst r),
      cp_added = filter (\<lambda>p. demo_leaf l p = None \<and> demo_leaf r p \<noteq> None) (map fst r)\<rparr>"

definition demo_lib :: "(string list list, demo_tree, demo_tree, unit) typed_lib" where
  "demo_lib =
     \<lparr>tl_FromJSON = (\<lambda>raw. Inr (map (split_on CHR ''/'') (split_on CHR '','' raw))),
      tl_ObjectToTyped = (\<lambda>_ obj. Inr (demo_tree_of obj)),
      tl_TypedToObject = (\<lambda>_ v. Inr (RObject (demo_uobject v []))),
      tl_ToFieldSet = (\<lambda>v. Inr (map fst v)),
      tl_Merge = (\<lambda>l r. case r of None \<Rightarrow> None | Some r \<Rightarrow> Some (Inr (r @ l))),
      tl_RemoveItems = (\<lambda>v s. filter (\<lambda>(p, _). \<not> below s p) v),
      tl_ExtractItems = (\<lambda>v s. filter (\<lambda>(p, _). below s p) v),
      tl_Compare = (\<lambda>l r. Inr (demo_compare l r)),
      tl_IsSame = (\<lambda>c. cp_removed c = [] \<and> cp_modified c = [] \<and> cp_added c = []),
      tl_Marshal = (\<lambda>obj. Inr (concat (map (\<lambda>(p, x). concat p @ x) (demo_tree_of obj)))),
      tl_CreateMergePatch = (\<lambda>a b. Inr b),
      tl_GVKForObject = (\<lambda>obj _. case obj of RObject u \<Rightarrow> Some (Inr (uo_gvk u))
                                      | RPlain _ \<Rightarrow> Some (Inl (External 0)))\<rparr>"

definition demo_merger :: "(string list list, unit) object_merger" where
  "demo_merger = \<lparr>om_converters = (\<lambda>_. Inr ()), om_scheme = None, om_manager = ''me'', om_defaulted = None\<rparr>"

definition demo_live :: "demo_tree uobject" where
  "demo_live =
     demo_uobject [([''spec'', ''a''], ''1''), ([''spec'', ''b''], ''2''), ([''spec'', ''c''], ''3'')]
       [\<lparr>me_manager = ''me'', me_fields = Some ''spec,spec/a,spec/c''\<rparr>,
        \<lparr>me_manager = ''other'', me_fields = Some ''spec/b''\<rparr>]"

definition demo_desired :: "demo_tree uobject" where
  "demo_desired = demo_uobject [([''spec'', ''a''], ''9''), ([''spec'', ''b''], ''8'')] []"

lemma demo_fields_documented: "field_sets_documented demo_fields"
  by (auto simp: field_sets_documented_def demo_fields_def filter_empty_conv)

lemma demo_filter: "map_of (filter (\<lambda>(p, _). P p) v) p = (if P p then map_of v p else None)"
  by (induction v) auto

lemma demo_leaf_key: "demo_leaf v p = Some x \<Longrightarrow> p \<in> fst ` set v \<and> p \<noteq> []"
  by (auto simp: demo_leaf_def split: if_splits dest: map_of_SomeD intro: rev_image_eqI)

lemma demo_compare_same:
  "cp_removed (demo_compare l r) = [] \<and> cp_modified (demo_compare l r) = [] \<and> cp_added (demo_compare l r) = []
   \<longleftrightarrow> demo_leaf l = demo_leaf r" (is "?L \<longleftrightarrow> _")
proof
  assume c: ?L
  show "demo_leaf l = demo_leaf r"
  proof
    fix p
    show "demo_leaf l p = demo_leaf r p"
      using c demo_leaf_key [of l p] demo_leaf_key [of r p]
      by (cases "demo_leaf l p"; cases "demo_leaf r p") (auto simp: demo_compare_def filter_empty_conv)
  qed
qed (auto simp: demo_compare_def filter_empty_conv)

lemma demo_lib_documented: "typed_documented demo_fields demo_lib demo_leaf"
  unfolding typed_documented_def
proof (intro conjI allI impI)
  fix v s p
  show "tl_ToFieldSet demo_lib v = Inr s \<Longrightarrow> demo_leaf v p \<noteq> None \<Longrightarrow> fs_has demo_fields s p"
    using demo_leaf_key [of v p] by (auto simp: demo_lib_def demo_fields_def)
  show "demo_leaf (tl_RemoveItems demo_lib v s) p =
      (if \<exists>q. fs_has demo_fields s q \<and> prefix q p then None else demo_leaf v p)"
    by (auto simp: demo_lib_def demo_fields_def demo_leaf_def demo_filter below_def)
next
  fix l r m p
  show "tl_Merge demo_lib l (Some r) = Some (Inr m) \<Longrightarrow>
      demo_leaf m p = (case demo_leaf r p of None \<Rightarrow> demo_leaf l p | Some x \<Rightarrow> Some x)"
    by (auto simp: demo_lib_def demo_leaf_def map_add_def split: option.split)
next
  fix l r c
  show "tl_Compare demo_lib l r = Inr c \<Longrightarrow> tl_IsSame demo_lib c = (demo_leaf l = demo_leaf r)"
    using demo_compare_same [of l r] by (auto simp: demo_lib_def)
qed

lemma demo_extract_documented: "extract_documented demo_fields demo_lib demo_leaf"
  unfolding extract_documented_def
proof (intro conjI allI impI)
  fix v s p
  show "demo_leaf (tl_ExtractItems demo_lib v s) p =
      (if \<exists>q. fs_has demo_fields s q \<and> prefix q p then demo_leaf v p else None)"
    by (auto simp: demo_lib_def demo_fields_def demo_leaf_def demo_filter below_def)
next
  fix l r cmp p
  show "tl_Compare demo_lib l r = Inr cmp \<Longrightarrow> demo_leaf r p \<noteq> None \<Longrightarrow> demo_leaf l p \<noteq> demo_leaf r p \<Longrightarrow>
      fs_has demo_fields (cp_modified cmp) p \<or> fs_has demo_fields (cp_added cmp) p"
    using demo_leaf_key [of r p] by (auto simp: demo_lib_def demo_fields_def demo_compare_def)
qed

theorem ssa_complete_witness:
  "\<exists>t. complete demo_fields [[''spec'', ''a'', ''b'']] = Some t \<and>
     fs_has demo_fields t [''spec''] \<and> fs_has demo_fields t [''spec'', ''a''] \<and> \<not> fs_has demo_fields t [''a'']"
proof -
  obtain t where t: "complete demo_fields [[''spec'', ''a'', ''b'']] = Some t"
    "\<And>p. fs_has demo_fields t p \<longleftrightarrow> p \<noteq> [] \<and> (\<exists>q. fs_has demo_fields [[''spec'', ''a'', ''b'']] q \<and> prefix p q)"
    using ssa_complete [OF demo_fields_documented, THEN conjunct1, of "[[''spec'', ''a'', ''b'']]"] by blast
  have "fs_has demo_fields [[''spec'', ''a'', ''b'']] q \<longleftrightarrow> q = [''spec'', ''a'', ''b'']" for q
    by (auto simp: demo_fields_def)
  then show ?thesis
    using t by simp
qed

theorem ssa_patch_witness:
  "\<exists>res. demo_leaf res [''spec'', ''a''] = Some ''9'' \<and> demo_leaf res [''spec'', ''b''] = Some ''8'' \<and>
     demo_leaf res [''spec'', ''c''] = None \<and>
     ComputeSSAPatch demo_fields demo_lib demo_merger (RObject demo_live) (RObject demo_desired) =
       ssa_answer demo_lib () (RObject demo_live) res"
proof -
  let ?dv = "[([''spec'', ''a''], ''9''), ([''spec'', ''b''], ''8'')]" and ?lv = "demo_tree_of (RObject demo_live)"
  let ?owned = "[[''spec''], [''spec'', ''a''], [''spec'', ''c'']]"
  have run: "tl_GVKForObject demo_lib (RObject demo_live) (om_scheme demo_merger) = Some (Inr ([], ''v1'', ''ConfigMap''))"
    "om_converters demo_merger ([], ''v1'', ''ConfigMap'') = Inr ()" "tl_ObjectToTyped demo_lib () (RObject demo_live) = Inr ?lv"
    "tl_ObjectToTyped demo_lib () (RObject demo_desired) = Inr ?dv" "tl_ToFieldSet demo_lib ?dv = Inr (map fst ?dv)"
    "GetOwnedFields demo_fields demo_lib demo_merger (RObject demo_live) = Some (Inr ?owned)"
    "tl_Merge demo_lib ?lv (Some ?dv) = Some (Inr (?dv @ ?lv))"
    by code_simp+
  obtain res where res: "\<And>p. demo_leaf res p =
      (case demo_leaf ?dv p of
         Some x \<Rightarrow> Some x
       | None \<Rightarrow> if \<exists>q. fs_has demo_fields ?owned q \<and> \<not> parents demo_fields (map fst ?dv) q \<and> prefix q p then None
                 else demo_leaf ?lv p)"
    "ComputeSSAPatch demo_fields demo_lib demo_merger (RObject demo_live) (RObject demo_desired) =
      (if demo_leaf ?lv = demo_leaf res then Some (Inr []) else ssa_answer demo_lib () (RObject demo_live) res)"
    using ssa_patch [OF demo_fields_documented demo_lib_documented run] by (auto simp: demo_lib_def)
  have "\<exists>q. fs_has demo_fields ?owned q \<and> \<not> parents demo_fields (map fst ?dv) q \<and> prefix q [''spec'', ''c'']"
    by (intro exI [of _ "[''spec'', ''c'']"]) (auto simp: demo_fields_def parents_def prefix_Cons)
  then have "demo_leaf res [''spec'', ''c''] = None"
    by (simp add: res(1)) (simp add: demo_leaf_def)
  moreover have "demo_leaf res [''spec'', ''a''] = Some ''9''" "demo_leaf res [''spec'', ''b''] = Some ''8''"
    by (simp_all add: res(1)) (simp_all add: demo_leaf_def)
  moreover have "demo_leaf ?lv [''spec'', ''a''] = Some ''1''"
    by code_simp
  ultimately show ?thesis
    using res(2) by (intro exI [of _ res]) (auto dest: fun_cong [of _ _ "[''spec'', ''a'']"])
qed

text \<open>Two managers: the field of the other one keeps its value.\<close>

theorem merge_observing_witness:
  "\<exists>rv. demo_leaf rv [''spec'', ''a''] = Some ''9'' \<and> demo_leaf rv [''spec'', ''b''] = Some ''2''"
proof -
  let ?dv = "demo_tree_of (RObject demo_desired)" and ?lv = "demo_tree_of (RObject demo_live)"
  have run: "tl_GVKForObject demo_lib (RObject demo_live) (om_scheme demo_merger) = Some (Inr ([], ''v1'', ''ConfigMap''))"
    "om_converters demo_merger ([], ''v1'', ''ConfigMap'') = Inr ()" "tl_ObjectToTyped demo_lib () (RObject demo_live) = Inr ?lv"
    "tl_ObjectToTyped demo_lib () (RObject demo_desired) = Inr ?dv" "tl_Compare demo_lib ?lv ?dv = Inr (demo_compare ?lv ?dv)"
    "\<forall>entry\<in>set (uo_managed demo_live). me_fields entry \<noteq> None"
    by (simp_all add: demo_lib_def demo_merger_def demo_live_def demo_desired_def demo_uobject_def)
  have merged: "MergeObservingManagedFields demo_fields demo_lib demo_merger demo_live demo_desired =
      Some (Inr (demo_uobject ([([''spec'', ''a''], ''9'')] @ ?lv) []))"
    by code_simp
  have other: "foreign demo_fields demo_lib ''me'' demo_live p \<longleftrightarrow> p = [''spec'', ''b'']" for p
    by (auto simp: foreign_def demo_fields_def demo_lib_def demo_live_def demo_uobject_def)
  have delta: "cp_modified (demo_compare ?lv ?dv) = [[''spec'', ''a''], [''spec'', ''b'']]" "cp_added (demo_compare ?lv ?dv) = []"
    by code_simp+
  have mgr: "om_manager demo_merger = ''me''"
    by (simp add: demo_merger_def)
  have leaves: "demo_leaf ?dv [''spec'', ''a''] = Some ''9''" "demo_leaf ?lv [''spec'', ''b''] = Some ''2''"
    by code_simp+
  have quiet: "\<forall>q. strict_prefix q [''spec'', ''b''] \<longrightarrow>
      \<not> fs_has demo_fields (cp_modified (demo_compare ?lv ?dv)) q \<and> \<not> fs_has demo_fields (cp_added (demo_compare ?lv ?dv)) q"
    by (auto simp: delta demo_fields_def)
  obtain rv where rv:
    "\<forall>p. demo_leaf ?dv p \<noteq> None \<longrightarrow> p \<noteq> [''spec'', ''b''] \<longrightarrow> demo_leaf rv p = demo_leaf ?dv p"
    "\<forall>p. p = [''spec'', ''b''] \<longrightarrow>
       (\<forall>q. strict_prefix q p \<longrightarrow> \<not> fs_has demo_fields (cp_modified (demo_compare ?lv ?dv)) q \<and>
          \<not> fs_has demo_fields (cp_added (demo_compare ?lv ?dv)) q) \<longrightarrow>
       demo_leaf rv p = demo_leaf ?lv p"
    using merge_observing [OF demo_fields_documented demo_lib_documented demo_extract_documented merged run]
    unfolding mgr other by (elim exE conjE) (rule that)
  show ?thesis
    using rv(1) [rule_format, of "[''spec'', ''a'']"] rv(2) [rule_format, OF refl] quiet leaves by auto
qed

end
