(* ===== verification/Apply.thy ===== *)
theory Apply
  imports Merge ObjUtils
begin

text \<open>
  Writing manifests to a cluster (cluster/utils.go, cluster/updater.go): deletion, server side
  apply, client side apply, and the updater that learns which fields the API server defaults.

  The cluster is a parameter, functions over a state \<open>'w\<close> of the world. An answer is the pair of
  the returned object, \<open>None\<close> for nil, and the returned error.
\<close>

section \<open>Clusters and operation contexts\<close>

datatype patch = Apply_patch bool | Merge_patch string

text \<open>
  \<open>ac_IsNotFound\<close> is \<open>errors.IsNotFound\<close>, \<open>ac_decode\<close> the decoder of manifests, \<open>ac_read\<close> the
  client that reads past the cache, \<open>ac_strategic\<close> the data of a strategic merge patch. A
  write yields the object as the server returned it.
\<close>

record ('x, 'c, 'w) acluster =
  ac_converters :: "gvk \<Rightarrow> 'c result"
  ac_scheme :: nat
  ac_decode :: "string \<Rightarrow> 'x uobject result"
  ac_IsNotFound :: "gerror \<Rightarrow> bool"
  ac_Get :: "gvk \<Rightarrow> namespaced_name \<Rightarrow> 'w \<Rightarrow> 'x uobject result"
  ac_read :: "gvk \<Rightarrow> namespaced_name \<Rightarrow> 'w \<Rightarrow> 'x uobject result"
  ac_Create :: "string \<Rightarrow> 'x uobject \<Rightarrow> 'w \<Rightarrow> (gerror option \<times> 'x uobject) \<times> 'w"
  ac_Patch :: "string \<Rightarrow> 'x uobject \<Rightarrow> patch \<Rightarrow> 'w \<Rightarrow> (gerror option \<times> 'x uobject) \<times> 'w"
  ac_Delete :: "'x uobject \<Rightarrow> 'w \<Rightarrow> gerror option \<times> 'w"
  ac_strategic :: "'x uobject \<Rightarrow> 'x uobject \<Rightarrow> string result"

type_synonym ('c, 'o) modifier = "'c \<Rightarrow> 'o \<Rightarrow> gerror option \<times> 'o"

fun modify_all :: "('c, 'o) modifier list \<Rightarrow> ('c, 'o) modifier" where
  "modify_all [] cl obj = (None, obj)"
| "modify_all (m # ms) cl obj =
     (case m cl obj of (Some err, obj) \<Rightarrow> (Some err, obj) | (None, obj) \<Rightarrow> modify_all ms cl obj)"

definition aggregatedModifier :: "('c, 'o) modifier list \<Rightarrow> ('c, 'o) modifier" where
  "aggregatedModifier ms = (case ms of [m] \<Rightarrow> m | _ \<Rightarrow> modify_all ms)"

record ('c, 'o) op_context =
  oc_manager :: string
  oc_Modify :: "('c, 'o) modifier"

definition DefaultOperationContext :: "string \<Rightarrow> ('c, 'o) modifier list \<Rightarrow> ('c, 'o) op_context" where
  "DefaultOperationContext fm ms = \<lparr>oc_manager = fm, oc_Modify = aggregatedModifier ms\<rparr>"

definition wrapper_Modify :: "('c, 'o) op_context \<Rightarrow> ('c, 'o) modifier \<Rightarrow> ('c, 'o) modifier" where
  "wrapper_Modify ctx m cl obj =
     (case oc_Modify ctx cl obj of (Some err, obj) \<Rightarrow> (Some err, obj) | (None, obj) \<Rightarrow> m cl obj)"

definition WithModification :: "('c, 'o) op_context \<Rightarrow> ('c, 'o) modifier list \<Rightarrow> ('c, 'o) op_context" where
  "WithModification ctx ms = ctx\<lparr>oc_Modify := wrapper_Modify ctx (aggregatedModifier ms)\<rparr>"

record modification_info =
  mi_created :: bool
  mi_updated :: bool

text \<open>The receiver of the setters may be nil.\<close>

definition mi_Clear :: "modification_info \<Rightarrow> modification_info" where
  "mi_Clear m = m\<lparr>mi_created := False, mi_updated := False\<rparr>"

definition SetCreated :: "modification_info option \<Rightarrow> modification_info option" where
  "SetCreated m = map_option (mi_created_update (\<lambda>_. True)) m"

definition SetUpdated :: "modification_info option \<Rightarrow> modification_info option" where
  "SetUpdated m = map_option (mi_updated_update (\<lambda>_. True)) m"

definition mi_Report :: "modification_info \<Rightarrow> string \<Rightarrow> (string \<times> string) option" where
  "mi_Report m typ =
     (if mi_updated m then Some (typ @ ''Updated'', typ @ '' has been updated'')
      else if mi_created m then Some (typ @ ''Created'', typ @ '' has been created'')
      else None)"

section \<open>Deletion and server side apply\<close>

definition uo_key :: "'x uobject \<Rightarrow> namespaced_name" where
  "uo_key u = \<lparr>nn_namespace = uo_namespace u, nn_name = uo_name u\<rparr>"

definition cluster_DeleteObject :: "('x, 'c, 'w) acluster \<Rightarrow> string \<Rightarrow> 'w \<Rightarrow> gerror option \<times> 'w" where
  "cluster_DeleteObject cl manifest w =
     (case ac_decode cl manifest of
        Inl err \<Rightarrow> (Some err, w)
      | Inr obj \<Rightarrow>
          (case ac_Get cl (uo_gvk obj) (uo_key obj) w of
             Inl err \<Rightarrow> if ac_IsNotFound cl err then (None, w) else (Some err, w)
           | Inr current \<Rightarrow>
               if uo_deletion current \<noteq> None
               then (Some (Errorf ''resource %q is being deleted'' [uo_namespace obj, uo_name obj]), w)
               else ac_Delete cl obj w))"

definition ServerSideApply ::
  "('x, 'c, 'w) acluster \<Rightarrow> (('x, 'c, 'w) acluster, 'x uobject) op_context \<Rightarrow> string \<Rightarrow> 'w \<Rightarrow> gerror option \<times> 'w" where
  "ServerSideApply cl ctx manifest w =
     (case ac_decode cl manifest of
        Inl err \<Rightarrow> (Some (Wrapf [''failed to decode manifest''] err), w)
      | Inr obj \<Rightarrow>
          (case oc_Modify ctx cl obj of
             (Some err, _) \<Rightarrow> (Some (Wrapf [''failed to modify manifest''] err), w)
           | (None, obj) \<Rightarrow>
               (case ac_Patch cl (oc_manager ctx) obj (Apply_patch True) w of
                  ((Some err, _), w) \<Rightarrow> (Some (Wrapf [''failed to apply manifest''] err), w)
                | ((None, _), w) \<Rightarrow> (None, w))))"

section \<open>Client side apply\<close>

type_synonym 'o answer = "'o option \<times> gerror option"

text \<open>What a function leaves: the answer, the modification info and the world; \<open>None\<close> is a panic.\<close>

type_synonym ('o, 'w) effect = "('o answer \<times> modification_info option \<times> 'w) option"

definition uo_SetAnnotation :: "string \<Rightarrow> string \<Rightarrow> 'x uobject \<Rightarrow> 'x uobject" where
  "uo_SetAnnotation key v u =
     u\<lparr>uo_annotations := Some (gset key v (case uo_annotations u of None \<Rightarrow> [] | Some m \<Rightarrow> m))\<rparr>"

definition entries :: "(string, string) gomap option \<Rightarrow> (string \<times> string) list" where
  "entries m = (case m of None \<Rightarrow> [] | Some m \<Rightarrow> m)"

text \<open>\<open>Setlabel\<close> writes annotations, as in package objutils.\<close>

definition mark_kcp :: "'x uobject \<Rightarrow> 'x uobject" where
  "mark_kcp current =
     (let current = fold (\<lambda>(n, v) u. if has_suffix v ''.kcp.io'' then uo_SetAnnotation n v u else u)
                      (entries (uo_annotations current)) current
      in fold (\<lambda>(n, v) u. if has_suffix v ''.kcp.io'' then uo_SetAnnotation n v u else u)
           (entries (uo_labels current)) current)"

definition patched ::
  "('x, 'c, 'w) acluster \<Rightarrow> (('x, 'c, 'w) acluster, 'x uobject) op_context \<Rightarrow> 'x uobject \<Rightarrow> string \<Rightarrow>
   modification_info option \<Rightarrow> 'w \<Rightarrow> (gerror option \<times> 'x uobject) \<times> modification_info option \<times> 'w" where
  "patched cl ctx current patchData md w =
     (let md = SetUpdated md;
          ((err, obj), w) = ac_Patch cl (oc_manager ctx) current (Merge_patch patchData) w
      in ((err, obj), md, w))"

definition ClientSideApply ::
  "('e, 's) field_sets \<Rightarrow> ('s, 'v, 'x, 'c) typed_lib \<Rightarrow> ('x, 'c, 'w) acluster \<Rightarrow>
   (('x, 'c, 'w) acluster, 'x uobject) op_context \<Rightarrow> string \<Rightarrow> modification_info option \<Rightarrow> 'w \<Rightarrow>
   ('x uobject, 'w) effect" where
  "ClientSideApply F T cl ctx manifest md w =
     (case ac_decode cl manifest of
        Inl err \<Rightarrow> Some ((None, Some err), md, w)
      | Inr desired \<Rightarrow>
     (case oc_Modify ctx cl desired of
        (Some err, _) \<Rightarrow> Some ((None, Some (Wrapf [''failed to modify manifest''] err)), md, w)
      | (None, desired) \<Rightarrow>
     (case ac_Get cl (uo_gvk desired) (uo_key desired) w of
        Inl err \<Rightarrow>
          (if ac_IsNotFound cl err
           then (let md = SetCreated md;
                     ((err, desired), w) = ac_Create cl (oc_manager ctx) desired w
                 in Some ((Some desired, err), md, w))
           else Some ((Some desired, Some err), md, w))
      | Inr current \<Rightarrow>
     (let current = mark_kcp current in
     (case NewObjectMerger (ac_converters cl) (Some (ac_scheme cl)) (oc_manager ctx) of
        Inl err \<Rightarrow> Some ((None, Some err), md, w)
      | Inr m \<Rightarrow>
     (case ComputeSSAPatch F T m (RObject current) (RObject desired) of
        None \<Rightarrow> None
      | Some (Inl err) \<Rightarrow> Some ((None, Some err), md, w)
      | Some (Inr patchData) \<Rightarrow>
          if patchData = ''{}'' \<or> length patchData = 0 then Some ((Some desired, None), md, w)
          else (let ((err, _), md, w) = patched cl ctx current patchData md w
                in Some ((Some desired, err), md, w))))))))"

text \<open>
  \<open>GetAnnotations\<close> of an unstructured object returns a copy, nil if there are none: writing to
  the copy changes nothing, writing to nil panics.
\<close>

fun keep_kcp :: "(string \<times> string) list \<Rightarrow> (string, string) gomap option \<Rightarrow> unit option" where
  "keep_kcp [] target = Some ()"
| "keep_kcp ((n, v) # xs) target =
     (if has_suffix v ''.kcp.io'' then (case target of None \<Rightarrow> None | Some _ \<Rightarrow> keep_kcp xs target)
      else keep_kcp xs target)"

definition take_over :: "'x uobject \<Rightarrow> 'x uobject \<Rightarrow> 'x uobject \<Rightarrow> 'x uobject" where
  "take_over tmp desired current =
     (let current = current\<lparr>uo_gvk := uo_gvk tmp,
            uo_content := fold (\<lambda>(k, v) m. if k \<noteq> ''metadata'' then gset k v m else m) (uo_content tmp) (uo_content current)\<rparr>;
          current = fold (\<lambda>(k, v). uo_SetAnnotation k v) (entries (uo_annotations desired)) current
      in current\<lparr>uo_labels := uo_labels desired\<rparr>)"

text \<open>The answer holds the patch and \<open>current\<close>, which was changed in place.\<close>

definition CreatePatchData ::
  "('e, 's) field_sets \<Rightarrow> ('s, 'v, 'x, 'c) typed_lib \<Rightarrow> ('x, 'c, 'w) acluster \<Rightarrow> 'x uobject \<Rightarrow> 'x uobject \<Rightarrow>
   string \<Rightarrow> (string \<times> 'x uobject) outcome" where
  "CreatePatchData F T cl desired current fm =
     (case keep_kcp (entries (uo_annotations current)) (uo_annotations desired) of
        None \<Rightarrow> None
      | Some _ \<Rightarrow>
     (case keep_kcp (entries (uo_labels current)) (uo_labels desired) of
        None \<Rightarrow> None
      | Some _ \<Rightarrow>
     and_then
       (if fm = [] then Some (Inr desired)
        else and_then (Some (NewObjectMerger (ac_converters cl) (Some (ac_scheme cl)) fm)) (\<lambda>m.
             MergeObservingManagedFields F T m current desired)) (\<lambda>tmp.
     (let new = take_over tmp desired current in
      and_then (Some (ac_strategic cl current new)) (\<lambda>patchData. Some (Inr (patchData, new)))))))"

text \<open>
  \<open>ClientSideApplyObject\<close> takes the unstructured forms of its objects. The error it asks
  about before creating is the one of the modification, which is nil there.
\<close>

definition ClientSideApplyObject ::
  "('e, 's) field_sets \<Rightarrow> ('s, 'v, 'x, 'c) typed_lib \<Rightarrow> ('x, 'c, 'w) acluster \<Rightarrow>
   (('x, 'c, 'w) acluster, 'x uobject) op_context \<Rightarrow> 'x uobject result \<Rightarrow> 'x uobject result \<Rightarrow>
   modification_info option \<Rightarrow> 'w \<Rightarrow> ('x uobject, 'w) effect" where
  "ClientSideApplyObject F T cl ctx src dst md w =
     (case src of
        Inl err \<Rightarrow> Some ((None, Some err), md, w)
      | Inr desired \<Rightarrow>
     (case dst of
        Inl err \<Rightarrow> Some ((None, Some err), md, w)
      | Inr current \<Rightarrow>
     (case oc_Modify ctx cl desired of
        (Some err, _) \<Rightarrow> Some ((None, Some (Wrapf [''failed to modify manifest''] err)), md, w)
      | (None, desired) \<Rightarrow>
     (case CreatePatchData F T cl desired current (oc_manager ctx) of
        None \<Rightarrow> None
      | Some (Inl err) \<Rightarrow> Some ((None, Some err), md, w)
      | Some (Inr (patchData, current)) \<Rightarrow>
          if patchData = ''{}'' then Some ((Some desired, None), md, w)
          else (let ((err, _), md, w) = patched cl ctx current patchData md w
                in Some ((Some desired, err), md, w))))))"

section \<open>The updater\<close>

text \<open>The field \<open>defaulted\<close> of an updater is never used: the defaults are kept in the merger.\<close>

record ('s, 'c) updater =
  up_gvk :: "gvk option"
  up_merger :: "('s, 'c) object_merger option"
  up_converter :: "'c option"
  up_defaulted :: "'s option"

definition NewUpdater :: "string \<Rightarrow> ('s, 'c) updater" where
  "NewUpdater manager = \<lparr>up_gvk = None, up_merger = None, up_converter = None, up_defaulted = None\<rparr>"

record ('s, 'c) updaters =
  us_manager :: string
  us_updaters :: "(string, ('s, 'c) updater) gomap option"

definition NewUpdaters :: "string \<Rightarrow> ('s, 'c) updaters" where
  "NewUpdaters manager = \<lparr>us_manager = manager, us_updaters = Some []\<rparr>"

text \<open>An updater is shared by its callers: \<open>Updaters_put\<close> is the effect of a call on it.\<close>

definition Updaters_Get :: "string \<Rightarrow> ('s, 'c) updaters \<Rightarrow> ('s, 'c) updater \<times> ('s, 'c) updaters" where
  "Updaters_Get name u =
     (let m = (case us_updaters u of None \<Rightarrow> [] | Some m \<Rightarrow> m) in
      case gget m name of
        Some e \<Rightarrow> (e, u\<lparr>us_updaters := Some m\<rparr>)
      | None \<Rightarrow> (let e = NewUpdater (us_manager u) in (e, u\<lparr>us_updaters := Some (gset name e m)\<rparr>)))"

definition Updaters_put :: "string \<Rightarrow> ('s, 'c) updater \<Rightarrow> ('s, 'c) updaters \<Rightarrow> ('s, 'c) updaters" where
  "Updaters_put name e u =
     u\<lparr>us_updaters := Some (gset name e (case us_updaters u of None \<Rightarrow> [] | Some m \<Rightarrow> m))\<rparr>"

definition blank :: "gvk \<Rightarrow> 'x uobject" where
  "blank k =
     \<lparr>uo_gvk = k, uo_namespace = [], uo_name = [], uo_annotations = None, uo_labels = None,
      uo_deletion = None, uo_managed = [], uo_content = []\<rparr>"

text \<open>The error of reading the live object is overwritten before it is looked at.\<close>

definition updater_complete ::
  "('e, 's) field_sets \<Rightarrow> ('s, 'v, 'x, 'c) typed_lib \<Rightarrow> ('x, 'c, 'w) acluster \<Rightarrow> ('s, 'c) updater \<Rightarrow>
   'x uobject \<Rightarrow> 'x uobject option \<Rightarrow> 's option \<Rightarrow> 'w \<Rightarrow> ('x uobject answer \<times> ('s, 'c) updater) option" where
  "updater_complete F T cl t desired liveObj desiredFields w =
     (case up_converter t of None \<Rightarrow> None | Some converter \<Rightarrow>
     (case up_merger t of None \<Rightarrow> None | Some m \<Rightarrow>
     (case (case desiredFields of
              Some ds \<Rightarrow> Some (Inr (Some ds))
            | None \<Rightarrow> map_option (map_sum id snd) (GetInfo F T converter (RObject desired))) of
        None \<Rightarrow> None
      | Some (Inl err) \<Rightarrow> Some ((None, Some err), t)
      | Some (Inr desiredFields) \<Rightarrow>
     (let liveObj = (case liveObj of
                       Some l \<Rightarrow> l
                     | None \<Rightarrow> (case ac_read cl (uo_gvk desired) (uo_key desired) w of
                                 Inl _ \<Rightarrow> blank (uo_gvk desired) | Inr l \<Rightarrow> l)) in
     (case GetOwnedFields F T m (RObject liveObj) of
        None \<Rightarrow> None
      | Some (Inl err) \<Rightarrow> Some ((None, Some err), t)
      | Some (Inr ownedFields) \<Rightarrow>
     (case desiredFields of
        None \<Rightarrow> None
      | Some ds \<Rightarrow>
     (let defaulted = fs_difference F ownedFields ds;
          defaulted = (case GetDefaulted m of Some d \<Rightarrow> fs_union F defaulted d | None \<Rightarrow> defaulted)
      in Some ((Some liveObj, None), t\<lparr>up_merger := Some (WithDefaulted m (Some defaulted))\<rparr>))))))))"

text \<open>
  \<open>Update\<close> in two parts: the preparation up to the converter, and the rest. An error leaves
  what was set in the updater before.
\<close>

definition update_prepare ::
  "('s, 'v, 'x, 'c) typed_lib \<Rightarrow> ('x, 'c, 'w) acluster \<Rightarrow> (('x, 'c, 'w) acluster, 'x uobject) op_context \<Rightarrow>
   string \<Rightarrow> ('s, 'c) updater \<Rightarrow>
   ((gerror + ('s, 'c) object_merger \<times> gvk \<times> 'c \<times> 'x uobject) \<times> ('s, 'c) updater) option" where
  "update_prepare T cl ctx manifest t =
     (case (case up_merger t of
              Some m \<Rightarrow> Inr m
            | None \<Rightarrow> NewObjectMerger (ac_converters cl) (Some (ac_scheme cl)) (oc_manager ctx)) of
        Inl err \<Rightarrow> Some (Inl err, t)
      | Inr m \<Rightarrow>
     (let t = t\<lparr>up_merger := Some m\<rparr> in
     (case ac_decode cl manifest of
        Inl err \<Rightarrow> Some (Inl err, t)
      | Inr desired \<Rightarrow>
     (case oc_Modify ctx cl desired of
        (Some err, _) \<Rightarrow> Some (Inl (Wrapf [''failed to modify manifest''] err), t)
      | (None, desired) \<Rightarrow>
     (case (case up_gvk t of
              Some k \<Rightarrow> Some (Inr k) | None \<Rightarrow> tl_GVKForObject T (RObject desired) (om_scheme m)) of
        None \<Rightarrow> None
      | Some (Inl err) \<Rightarrow> Some (Inl err, t)
      | Some (Inr k) \<Rightarrow>
     (let t = t\<lparr>up_gvk := Some k\<rparr> in
     (case (case up_converter t of Some c \<Rightarrow> Inr c | None \<Rightarrow> merger_GetConverter m k) of
        Inl err \<Rightarrow> Some (Inl err, t)
      | Inr c \<Rightarrow> Some (Inr (m, k, c, desired), t\<lparr>up_converter := Some c\<rparr>))))))))"

definition updater_Update ::
  "('e, 's) field_sets \<Rightarrow> ('s, 'v, 'x, 'c) typed_lib \<Rightarrow> ('x, 'c, 'w) acluster \<Rightarrow>
   (('x, 'c, 'w) acluster, 'x uobject) op_context \<Rightarrow> string \<Rightarrow> ('s, 'c) updater \<Rightarrow> modification_info option \<Rightarrow> 'w \<Rightarrow>
   ('x uobject answer \<times> ('s, 'c) updater \<times> modification_info option \<times> 'w) option" where
  "updater_Update F T cl ctx manifest t md w =
     (case update_prepare T cl ctx manifest t of
        None \<Rightarrow> None
      | Some (Inl err, t) \<Rightarrow> Some ((None, Some err), t, md, w)
      | Some (Inr (m, k, c, desired), t) \<Rightarrow>
     (case ac_Get cl k (uo_key desired) w of
        Inl err \<Rightarrow>
          (if ac_IsNotFound cl err
           then (let md = SetCreated md in
                 case ac_Create cl (oc_manager ctx) desired w of
                   ((Some err, _), w) \<Rightarrow> Some ((None, Some err), t, md, w)
                 | ((None, liveObj), w) \<Rightarrow>
                     map_option (\<lambda>(r, t). (r, t, md, w)) (updater_complete F T cl t desired (Some liveObj) None w))
           else Some ((None, Some err), t, md, w))
      | Inr liveObj \<Rightarrow>
     (case ComputeSSAPatch F T m (RObject liveObj) (RObject desired) of
        None \<Rightarrow> None
      | Some (Inl err) \<Rightarrow> Some ((None, Some err), t, md, w)
      | Some (Inr patchData) \<Rightarrow>
          if patchData = ''{}'' \<or> length patchData = 0 then Some ((Some liveObj, None), t, md, w)
          else (case patched cl ctx liveObj patchData md w of
                  ((Some err, _), md, w) \<Rightarrow> Some ((None, Some err), t, md, w)
                | ((None, liveObj), md, w) \<Rightarrow>
                    map_option (\<lambda>(r, t). (r, t, md, w)) (updater_complete F T cl t desired (Some liveObj) None w)))))"

section \<open>Preparation and completion\<close>

lemma update_prepare_fields:
  assumes "update_prepare T cl ctx manifest t = Some (Inr (m, k, c, desired), t')"
  shows "up_merger t' = Some m" "up_gvk t' = Some k" "up_converter t' = Some c"
    "oc_Modify ctx cl (projr (ac_decode cl manifest)) = (None, desired)" "\<exists>d. ac_decode cl manifest = Inr d"
  using assms by (auto simp: update_prepare_def Let_def split: sum.splits option.splits prod.splits)

lemma update_prepare_again:
  assumes "up_merger t = Some m" "up_gvk t = Some k" "up_converter t = Some c" "ac_decode cl manifest = Inr d"
    "oc_Modify ctx cl d = (None, desired)"
  shows "update_prepare T cl ctx manifest t = Some (Inr (m, k, c, desired), t)"
  using assms by (simp add: update_prepare_def)

lemma updater_complete_run:
  assumes "updater_complete F T cl t desired (Some live) None w = Some ((Some l, None), t')"
    "up_merger t = Some m" "up_converter t = Some c"
  shows "l = live" "\<exists>v ds owned. GetInfo F T c (RObject desired) = Some (Inr (v, Some ds)) \<and>
     GetOwnedFields F T m (RObject live) = Some (Inr owned) \<and>
     t' = t\<lparr>up_merger := Some (WithDefaulted m (Some (case om_defaulted m of
            Some d \<Rightarrow> fs_union F (fs_difference F owned ds) d | None \<Rightarrow> fs_difference F owned ds)))\<rparr>"
  using assms
  by (auto simp: updater_complete_def Let_def GetDefaulted_def map_sum_def cong: option.case_cong
      split: option.splits sum.splits if_splits)

lemma GetOwnedFields_other:
  assumes F: "field_sets_documented F" and owned: "GetOwnedFields F T m obj = Some (Inr owned)"
    and d: "d = (case om_defaulted m of Some d \<Rightarrow> fs_union F (fs_difference F owned ds) d | None \<Rightarrow> fs_difference F owned ds)"
  shows "\<exists>owned'. GetOwnedFields F T (WithDefaulted m (Some d)) obj = Some (Inr owned') \<and>
    (\<forall>p. fs_has F owned' p \<longleftrightarrow> fs_has F owned p \<and> fs_has F ds p)"
proof -
  obtain u raw where u: "obj = RObject u" "owned_loop F T (om_manager m) (uo_managed u) (fs_new F) = Some (Inr raw)"
    "owned = (case om_defaulted m of Some x \<Rightarrow> fs_difference F raw x | None \<Rightarrow> raw)"
    using owned by (auto simp: GetOwnedFields_def split: robject.splits option.splits)
  then show ?thesis
    by (auto simp: GetOwnedFields_def WithDefaulted_def d fieldsD(4,5) [OF F] split: option.splits)
qed

lemma update_cases:
  assumes run: "updater_Update F T cl ctx manifest t md w = Some ((Some live, None), t', md', w')"
    and prep: "update_prepare T cl ctx manifest t = Some (Inr (m, k, c, desired), t1)"
  obtains (quiet) q where "t' = t1" "md' = md" "w' = w" "ac_Get cl k (uo_key desired) w = Inr live"
      "ComputeSSAPatch F T m (RObject live) (RObject desired) = Some (Inr q)" "q = ''{}'' \<or> q = []"
  | (created) e l where "ac_Get cl k (uo_key desired) w = Inl e" "ac_IsNotFound cl e" "md' = SetCreated md"
      "ac_Create cl (oc_manager ctx) desired w = ((None, l), w')"
      "updater_complete F T cl t1 desired (Some l) None w' = Some ((Some live, None), t')"
  | (patched) q old l where "ac_Get cl k (uo_key desired) w = Inr old" "md' = SetUpdated md"
      "ac_Patch cl (oc_manager ctx) old (Merge_patch q) w = ((None, l), w')"
      "updater_complete F T cl t1 desired (Some l) None w' = Some ((Some live, None), t')"
proof (cases "ac_Get cl k (uo_key desired) w")
  case (Inl e)
  then show thesis
    using run created unfolding updater_Update_def prep Let_def
    by (cases "ac_IsNotFound cl e"; cases "ac_Create cl (oc_manager ctx) desired w")
      (auto split: option.splits)
next
  case (Inr old)
  note get = this
  obtain q where q: "ComputeSSAPatch F T m (RObject old) (RObject desired) = Some (Inr q)"
    using run Inr unfolding updater_Update_def prep by (auto split: option.splits sum.splits)
  show thesis
  proof (cases "q = ''{}'' \<or> q = []")
    case True
    then show thesis
      using run get q quiet [of q] unfolding updater_Update_def prep by auto
  next
    case False
    then show thesis
      using run get q patched [of old q] unfolding updater_Update_def prep patched_def Let_def
      by (cases "ac_Patch cl (oc_manager ctx) old (Merge_patch q) w") (auto split: option.splits)
  qed
qed

section \<open>Properties\<close>

text \<open>
  C9: An update settles: after a successful update, if the server kept the applied values and
  a read sees the object it returned, updating with the same manifest again finds nothing to
  do, whatever else the server added to the object and however the fields are owned.
\<close>

theorem update_settles:
  assumes F: "field_sets_documented F" and T: "typed_documented F T leaf"
    and cmp: "\<And>a b. \<exists>r. tl_Compare T a b = Inr r"
    and run: "updater_Update F T cl ctx manifest t md w = Some ((Some live, None), t', md', w')"
    and prep: "update_prepare T cl ctx manifest t = Some (Inr (m, k, c, desired), t1)"
    and typed: "tl_GVKForObject T (RObject live) (om_scheme m) = Some (Inr k)" "om_converters m k = Inr c"
      "tl_ObjectToTyped T c (RObject live) = Inr lv" "tl_ObjectToTyped T c (RObject desired) = Inr dv"
      "tl_ToFieldSet T dv = Inr ds" "tl_Merge T lv (Some dv) = Some (Inr mv)"
    and server: "ac_Get cl k (uo_key desired) w' = Inr live" "\<And>p x. leaf dv p = Some x \<Longrightarrow> leaf lv p = Some x"
  shows "updater_Update F T cl ctx manifest t' md2 w' = Some ((Some live, None), t', md2, w')"
proof -
  note t1 = update_prepare_fields [OF prep]
  obtain d where d: "ac_decode cl manifest = Inr d" "oc_Modify ctx cl d = (None, desired)"
    using t1(4,5) by auto
  have settled: ?thesis if "t' = t1\<lparr>up_merger := Some m'\<rparr>"
      "ComputeSSAPatch F T m' (RObject live) (RObject desired) = Some (Inr q)" "q = ''{}'' \<or> q = []" for m' q
  proof -
    have "update_prepare T cl ctx manifest t' = Some (Inr (m', k, c, desired), t')"
      using that(1) t1 d by (intro update_prepare_again) auto
    then show ?thesis
      using that(2,3) server(1) by (auto simp: updater_Update_def)
  qed
  have completed: ?thesis if again: "updater_complete F T cl t1 desired (Some l) None w' = Some ((Some live, None), t')" for l
  proof -
    obtain v es owned where o: "GetInfo F T c (RObject desired) = Some (Inr (v, Some es))"
      "GetOwnedFields F T m (RObject live) = Some (Inr owned)"
      "t' = t1\<lparr>up_merger := Some (WithDefaulted m (Some (case om_defaulted m of
            Some d \<Rightarrow> fs_union F (fs_difference F owned es) d | None \<Rightarrow> fs_difference F owned es)))\<rparr>"
      using updater_complete_run [OF again t1(1,3)] by blast
    let ?m = "WithDefaulted m (Some (case om_defaulted m of
            Some d \<Rightarrow> fs_union F (fs_difference F owned es) d | None \<Rightarrow> fs_difference F owned es))"
    obtain owned' where o': "GetOwnedFields F T ?m (RObject live) = Some (Inr owned')"
      "\<And>p. fs_has F owned' p \<longleftrightarrow> fs_has F owned p \<and> fs_has F es p"
      using GetOwnedFields_other [OF F o(2) refl] by blast
    obtain u where u: "complete F ds = Some u" "\<And>p. fs_has F u p \<longleftrightarrow> parents F ds p"
      using complete_fields [OF F] by blast
    have es: "es = u"
      using o(1) typed u(1) by (simp add: GetInfo_def GetRawInfo_def)
    let ?res = "ssa_result F T owned' u mv"
    obtain r where r: "tl_Compare T lv ?res = Inr r"
      using cmp by blast
    have leaves: "leaf lv = leaf ?res"
    proof
      fix p
      show "leaf lv p = leaf ?res p"
        using server(2) [of p] o'(2) es u(2)
        by (subst ssa_result_leaf [OF F T typed(5,6) u(2)]) (auto split: option.split)
    qed
    have "ComputeSSAPatch F T ?m (RObject live) (RObject desired) = Some (Inr [])"
      using ComputeSSAPatch_run [of T "RObject live" ?m k c lv "RObject desired" dv ds F owned' mv u] typed o'(1) u(1)
        r typedD(4) [OF T r] leaves by (simp add: Let_def WithDefaulted_def)
    then show ?thesis
      using settled [OF o(3)] by simp
  qed
  have same: "t1\<lparr>up_merger := Some m\<rparr> = t1"
    using t1(1) by simp
  from run prep show ?thesis
  proof (cases rule: update_cases)
    case (quiet q)
    then show ?thesis
      using settled [of m q] unfolding same by simp
  qed (rule completed; assumption)+
qed

text \<open>
  C37: What an updater remembers as defaulted are the owned fields that were not desired, it only
  grows, and a remembered field is never counted as owned again: it stays in the object even
  if a later manifest sets it and a still later one drops it.
\<close>

theorem defaults_remembered:
  assumes F: "field_sets_documented F"
    and run: "updater_complete F T cl t desired (Some live) None w = Some ((Some l, None), t')"
    and t: "up_merger t = Some m" "up_converter t = Some c"
    and typed: "tl_ObjectToTyped T c (RObject desired) = Inr dv" "tl_ToFieldSet T dv = Inr ds"
  shows "\<exists>owned m' d. GetOwnedFields F T m (RObject live) = Some (Inr owned) \<and>
    up_merger t' = Some m' \<and> om_defaulted m' = Some d \<and> om_manager m' = om_manager m \<and>
    (\<forall>p. fs_has F d p \<longleftrightarrow> fs_has F owned p \<and> \<not> parents F ds p \<or> (\<exists>x. om_defaulted m = Some x \<and> fs_has F x p)) \<and>
    (\<forall>obj o'. GetOwnedFields F T m' obj = Some (Inr o') \<longrightarrow> (\<forall>p. fs_has F d p \<longrightarrow> \<not> fs_has F o' p))"
proof -
  obtain v es owned where o: "GetInfo F T c (RObject desired) = Some (Inr (v, Some es))"
    "GetOwnedFields F T m (RObject live) = Some (Inr owned)"
    "t' = t\<lparr>up_merger := Some (WithDefaulted m (Some (case om_defaulted m of
          Some d \<Rightarrow> fs_union F (fs_difference F owned es) d | None \<Rightarrow> fs_difference F owned es)))\<rparr>"
    using updater_complete_run [OF run t] by blast
  obtain u where u: "complete F ds = Some u" "\<And>p. fs_has F u p \<longleftrightarrow> parents F ds p"
    using complete_fields [OF F] by blast
  have es: "es = u"
    using o(1) typed u(1) by (simp add: GetInfo_def GetRawInfo_def)
  have never: "\<not> fs_has F o' p" if "GetOwnedFields F T (WithDefaulted m (Some d)) obj = Some (Inr o')" "fs_has F d p"
    for obj o' d p
    using that by (auto simp: GetOwnedFields_def WithDefaulted_def fieldsD(5) [OF F] split: robject.splits)
  show ?thesis
    using o(2,3) u(2) es never
    by (auto simp: WithDefaulted_def fieldsD(4,5) [OF F] split: option.splits)
qed

text \<open>
  At most one write for a manifest: nothing; or the object is created because the cluster
  reported that there is none; or the object it found is patched, \<open>kcp\<close> data marked or not, with
  neither of the two patches that change nothing.
\<close>

definition one_write ::
  "('x, 'c, 'w) acluster \<Rightarrow> string \<Rightarrow> modification_info option \<Rightarrow> 'w \<Rightarrow> modification_info option \<Rightarrow> 'w \<Rightarrow> bool" where
  "one_write cl fm md w md' w' \<longleftrightarrow>
     w' = w \<and> md' = md \<or>
     (\<exists>k d. case ac_Get cl k (uo_key d) w of
        Inl e \<Rightarrow> ac_IsNotFound cl e \<and> md' = SetCreated md \<and> w' = snd (ac_Create cl fm d w)
      | Inr found \<Rightarrow> md' = SetUpdated md \<and>
          (\<exists>u q. u \<in> {found, mark_kcp found} \<and> q \<noteq> ''{}'' \<and> q \<noteq> [] \<and> w' = snd (ac_Patch cl fm u (Merge_patch q) w)))"

lemma patched_run:
  "patched cl ctx u q md w = (r, md', w') \<Longrightarrow>
     md' = SetUpdated md \<and> w' = snd (ac_Patch cl (oc_manager ctx) u (Merge_patch q) w)"
  by (auto simp: patched_def split: prod.splits)

lemma one_write_none: "one_write cl fm md w md w"
  by (simp add: one_write_def)

lemma one_write_created:
  assumes "ac_Get cl k (uo_key d) w = Inl e" "ac_IsNotFound cl e" "ac_Create cl fm d w = (r, w')"
  shows "one_write cl fm md w (SetCreated md) w'"
  unfolding one_write_def using assms by (intro disjI2 exI [of _ k] exI [of _ d]) simp

lemma one_write_patched:
  fixes cl :: "('x, 'c, 'w) acluster" and d :: "'x uobject"
  assumes "ac_Get cl k (uo_key d) w = Inr found" "patched cl ctx u q md w = (r, md', w')"
    and "u = found \<or> u = mark_kcp found" "q \<noteq> ''{}''" "q \<noteq> []"
  shows "one_write cl (oc_manager ctx) md w md' w'"
  unfolding one_write_def
  by (rule disjI2, rule exI [of _ k], rule exI [of _ d]) (use patched_run [OF assms(2)] assms(1,3-5) in auto)

lemmas writes = one_write_none one_write_created one_write_patched

lemma ClientSideApply_write:
  "ClientSideApply F T cl ctx manifest md w = Some (r, md', w') \<Longrightarrow> one_write cl (oc_manager ctx) md w md' w'"
  unfolding ClientSideApply_def Let_def
  by (auto split: sum.splits option.splits prod.splits if_splits intro: writes)

lemma updater_Update_write:
  "updater_Update F T cl ctx manifest t md w = Some (r, t', md', w') \<Longrightarrow> one_write cl (oc_manager ctx) md w md' w'"
  unfolding updater_Update_def Let_def
  by (auto split: sum.splits option.splits prod.splits if_splits intro: writes)

lemma take_over_key: "uo_key (take_over tmp desired current) = uo_key current"
proof -
  have "uo_namespace (fold (\<lambda>(k, v). uo_SetAnnotation k v) xs u) = uo_namespace u"
    "uo_name (fold (\<lambda>(k, v). uo_SetAnnotation k v) xs u) = uo_name u" for xs and u :: "'a uobject"
    by (induction xs arbitrary: u) (auto simp: uo_SetAnnotation_def)
  then show ?thesis
    by (simp add: take_over_def Let_def uo_key_def)
qed

lemma ClientSideApplyObject_write:
  assumes "ClientSideApplyObject F T cl ctx src dst md w = Some (r, md', w')" "w' \<noteq> w \<or> md' \<noteq> md"
  shows "md' = SetUpdated md \<and> (\<exists>current u q. dst = Inr current \<and> uo_key u = uo_key current \<and> q \<noteq> ''{}'' \<and>
    w' = snd (ac_Patch cl (oc_manager ctx) u (Merge_patch q) w))"
proof -
  obtain current desired q new r' where
    run: "dst = Inr current" "CreatePatchData F T cl desired current (oc_manager ctx) = Some (Inr (q, new))" "q \<noteq> ''{}''"
      "patched cl ctx new q md w = (r', md', w')"
    using assms unfolding ClientSideApplyObject_def Let_def by (auto split: sum.splits option.splits prod.splits if_splits)
  have "uo_key new = uo_key current"
    using run(2) by (auto simp: CreatePatchData_def and_then_def Let_def take_over_key split: option.splits sum.splits if_splits)
  then show ?thesis
    using run patched_run [OF run(4)] by blast
qed


definition lacks_kcp :: "(string, string) gomap option \<Rightarrow> (string, string) gomap option \<Rightarrow> bool" where
  "lacks_kcp current desired \<longleftrightarrow>
     (\<exists>(n, v)\<in>set (entries current). has_suffix v ''.kcp.io'') \<and> desired = None"

lemma keep_kcp_cases: "keep_kcp (entries current) desired = (if lacks_kcp current desired then None else Some ())"
proof -
  have "keep_kcp xs desired =
      (if (\<exists>(n, v)\<in>set xs. has_suffix v ''.kcp.io'') \<and> desired = None then None else Some ())" for xs
  proof (induction xs)
    case (Cons x xs)
    then show ?case
      by (cases x; cases desired) simp_all
  qed simp
  then show ?thesis
    by (simp add: lacks_kcp_def)
qed

lemma fold_set: "gwf xs \<Longrightarrow> gget (fold (\<lambda>(k, v) m. if P k then gset k v m else m) xs m) k =
    (case gget xs k of None \<Rightarrow> gget m k | Some v \<Rightarrow> if P k then Some v else gget m k)"
  by (induction xs arbitrary: m) (auto simp: gwf_Cons split: option.splits)

lemma entries_SetAnnotation:
  "uo_annotations (fold (\<lambda>(k, v). uo_SetAnnotation k v) xs u) =
     (if xs = [] then uo_annotations u else Some (fold (\<lambda>(k, v) m. gset k v m) xs (entries (uo_annotations u))))"
  "uo_content (fold (\<lambda>(k, v). uo_SetAnnotation k v) xs u) = uo_content u"
  "uo_managed (fold (\<lambda>(k, v). uo_SetAnnotation k v) xs u) = uo_managed u"
  "uo_namespace (fold (\<lambda>(k, v). uo_SetAnnotation k v) xs u) = uo_namespace u"
  "uo_name (fold (\<lambda>(k, v). uo_SetAnnotation k v) xs u) = uo_name u"
  by (induction xs arbitrary: u) (auto simp: uo_SetAnnotation_def entries_def split: option.split)

lemma object_apply_run:
  assumes "oc_Modify ctx cl src = (None, desired)" "oc_manager ctx = []"
    and "ac_strategic cl current (take_over desired desired current) = Inr q"
  shows "ClientSideApplyObject F T cl ctx (Inr src) (Inr current) md w =
      (if lacks_kcp (uo_annotations current) (uo_annotations desired) \<or> lacks_kcp (uo_labels current) (uo_labels desired)
       then None
       else if q = ''{}'' then Some ((Some desired, None), md, w)
       else let ((err, _), w') = ac_Patch cl [] (take_over desired desired current) (Merge_patch q) w
            in Some ((Some desired, err), SetUpdated md, w'))"
  using assms
  by (simp add: ClientSideApplyObject_def CreatePatchData_def keep_kcp_cases Let_def patched_def case_prod_beta)

lemma take_over_fields:
  "gwf (uo_content desired) \<Longrightarrow> gget (uo_content (take_over desired desired current)) k =
      (if k = ''metadata'' \<or> gget (uo_content desired) k = None then gget (uo_content current) k
       else gget (uo_content desired) k)"
  "gwf (entries (uo_annotations desired)) \<Longrightarrow> gget (entries (uo_annotations (take_over desired desired current))) n =
      (case gget (entries (uo_annotations desired)) n of
         None \<Rightarrow> gget (entries (uo_annotations current)) n | Some v \<Rightarrow> Some v)"
  "uo_labels (take_over desired desired current) = uo_labels desired"
  "uo_key (take_over desired desired current) = uo_key current"
proof -
  show "gget (uo_content (take_over desired desired current)) k =
      (if k = ''metadata'' \<or> gget (uo_content desired) k = None then gget (uo_content current) k
       else gget (uo_content desired) k)" if "gwf (uo_content desired)"
    using fold_set [OF that, of "\<lambda>k. k \<noteq> ''metadata''" "uo_content current" k]
    by (auto simp: take_over_def Let_def entries_SetAnnotation split: option.splits)
  show "gget (entries (uo_annotations (take_over desired desired current))) n =
      (case gget (entries (uo_annotations desired)) n of
         None \<Rightarrow> gget (entries (uo_annotations current)) n | Some v \<Rightarrow> Some v)"
    if "gwf (entries (uo_annotations desired))"
    using fold_set [OF that, of "\<lambda>_. True" "entries (uo_annotations current)" n]
    by (auto simp: take_over_def Let_def entries_SetAnnotation entries_def split: option.splits)
qed (simp_all add: take_over_def Let_def uo_key_def entries_SetAnnotation)

text \<open>
  Applying an object as the replication does, without a field manager: it panics if the
  live object carries information of kcp and the desired one has no such map; otherwise the
  live object gets every top level field of the desired one except the metadata, keeps its
  others, its annotations are overlaid, and its labels are replaced, those of kcp included.
\<close>

theorem object_apply:
  assumes ctx: "oc_Modify ctx cl src = (None, desired)" "oc_manager ctx = []"
    and wf: "gwf (uo_content desired)" "gwf (entries (uo_annotations desired))"
    and q: "ac_strategic cl current new = Inr q" and new: "new = take_over desired desired current"
  shows "ClientSideApplyObject F T cl ctx (Inr src) (Inr current) md w =
      (if lacks_kcp (uo_annotations current) (uo_annotations desired) \<or> lacks_kcp (uo_labels current) (uo_labels desired)
       then None
       else if q = ''{}'' then Some ((Some desired, None), md, w)
       else let ((err, _), w') = ac_Patch cl [] new (Merge_patch q) w in Some ((Some desired, err), SetUpdated md, w')) \<and>
    (\<forall>k. gget (uo_content new) k =
       (if k = ''metadata'' \<or> gget (uo_content desired) k = None then gget (uo_content current) k
        else gget (uo_content desired) k)) \<and>
    (\<forall>n. gget (entries (uo_annotations new)) n =
       (case gget (entries (uo_annotations desired)) n of
          None \<Rightarrow> gget (entries (uo_annotations current)) n | Some v \<Rightarrow> Some v)) \<and>
    uo_labels new = uo_labels desired \<and> uo_key new = uo_key current"
  using object_apply_run [OF ctx q [unfolded new], of F T md w] take_over_fields(1) [OF wf(1), of current]
    take_over_fields(2) [OF wf(2), of current] take_over_fields(3,4) [of desired current] by (simp add: new)

section \<open>Witnesses\<close>

text \<open>
  A cluster with one object: the server records what the manager applied and adds a default
  below the same parent, owned by the manager as well.
\<close>

definition demo_cluster :: "(demo_tree, unit, demo_tree uobject option) acluster" where
  "demo_cluster =
     \<lparr>ac_converters = (\<lambda>_. Inr ()), ac_scheme = 0, ac_decode = (\<lambda>_. Inr demo_desired),
      ac_IsNotFound = (\<lambda>e. e = External 404),
      ac_Get = (\<lambda>_ _ w. case w of None \<Rightarrow> Inl (External 404) | Some u \<Rightarrow> Inr u),
      ac_read = (\<lambda>_ _ w. case w of None \<Rightarrow> Inl (External 404) | Some u \<Rightarrow> Inr u),
      ac_Create = (\<lambda>fm u w.
        let u = demo_uobject (demo_tree_of (RObject u) @ [([''spec'', ''d''], ''0'')])
                  [\<lparr>me_manager = fm, me_fields = Some ''spec,spec/a,spec/b,spec/d''\<rparr>]
        in ((None, u), Some u)),
      ac_Patch = (\<lambda>fm u q w. ((None, u), Some u)), ac_Delete = (\<lambda>_ _. (None, None)),
      ac_strategic = (\<lambda>a b. Inr ''spec'')\<rparr>"

definition demo_created :: "demo_tree uobject" where
  "demo_created =
     demo_uobject [([''spec'', ''a''], ''9''), ([''spec'', ''b''], ''8''), ([''spec'', ''d''], ''0'')]
       [\<lparr>me_manager = ''me'', me_fields = Some ''spec,spec/a,spec/b,spec/d''\<rparr>]"

definition demo_ctx :: "((demo_tree, unit, demo_tree uobject option) acluster, demo_tree uobject) op_context" where
  "demo_ctx = DefaultOperationContext ''me'' []"

lemma demo_update:
  "\<exists>t'. updater_Update demo_fields demo_lib demo_cluster demo_ctx [] (NewUpdater []) None None =
     Some ((Some demo_created, None), t', None, Some demo_created)"
proof -
  have "map_option (\<lambda>(r, t', md, w). (r, md, w))
      (updater_Update demo_fields demo_lib demo_cluster demo_ctx [] (NewUpdater []) None None) =
      Some ((Some demo_created, None), None, Some demo_created)"
    by code_simp
  then show ?thesis
    by auto
qed

theorem update_settles_witness:
  "\<exists>t'. updater_Update demo_fields demo_lib demo_cluster demo_ctx [] (NewUpdater []) None None =
       Some ((Some demo_created, None), t', None, Some demo_created) \<and>
     updater_Update demo_fields demo_lib demo_cluster demo_ctx [] t' None (Some demo_created) =
       Some ((Some demo_created, None), t', None, Some demo_created)"
proof -
  obtain t' where run: "updater_Update demo_fields demo_lib demo_cluster demo_ctx [] (NewUpdater []) None None =
      Some ((Some demo_created, None), t', None, Some demo_created)"
    using demo_update by blast
  let ?k = "([], ''v1'', ''ConfigMap'')"
  let ?m = "\<lparr>om_converters = \<lambda>_. Inr (), om_scheme = None, om_manager = ''me'', om_defaulted = None\<rparr>"
  let ?t = "\<lparr>up_gvk = Some ?k, up_merger = Some ?m, up_converter = Some (), up_defaulted = None\<rparr>"
  let ?lv = "demo_tree_of (RObject demo_created)" and ?dv = "demo_tree_of (RObject demo_desired)"
  have prep: "update_prepare demo_lib demo_cluster demo_ctx [] (NewUpdater []) = Some (Inr (?m, ?k, (), demo_desired), ?t)"
    by (simp add: update_prepare_def NewUpdater_def NewObjectMerger_def demo_cluster_def demo_ctx_def demo_lib_def
        DefaultOperationContext_def aggregatedModifier_def merger_GetConverter_def demo_desired_def demo_uobject_def)
  have typed: "tl_GVKForObject demo_lib (RObject demo_created) (om_scheme ?m) = Some (Inr ?k)" "om_converters ?m ?k = Inr ()"
    "tl_ObjectToTyped demo_lib () (RObject demo_created) = Inr ?lv" "tl_ObjectToTyped demo_lib () (RObject demo_desired) = Inr ?dv"
    "tl_ToFieldSet demo_lib ?dv = Inr (map fst ?dv)" "tl_Merge demo_lib ?lv (Some ?dv) = Some (Inr (?dv @ ?lv))"
    "ac_Get demo_cluster ?k (uo_key demo_desired) (Some demo_created) = Inr demo_created"
    by (simp_all add: demo_lib_def demo_cluster_def demo_created_def demo_uobject_def)
  have kept: "demo_leaf ?dv p = Some x \<Longrightarrow> demo_leaf ?lv p = Some x" for p x
    by (auto simp: demo_leaf_def demo_tree_of_def demo_desired_def demo_created_def demo_uobject_def split: if_splits)
  have cmp: "\<And>a b. \<exists>r. tl_Compare demo_lib a b = Inr r"
    by (simp add: demo_lib_def)
  show ?thesis
    using run update_settles [OF demo_fields_documented demo_lib_documented cmp run prep typed kept] by blast
qed

theorem defaults_remembered_witness:
  "\<exists>t' m' d. updater_complete demo_fields demo_lib demo_cluster
       \<lparr>up_gvk = None, up_merger = Some demo_merger, up_converter = Some (), up_defaulted = None\<rparr>
       demo_desired (Some demo_created) None None = Some ((Some demo_created, None), t') \<and>
     up_merger t' = Some m' \<and> om_defaulted m' = Some d \<and> fs_has demo_fields d [''spec'', ''d''] \<and>
     \<not> fs_has demo_fields d [''spec'']"
proof -
  let ?t = "\<lparr>up_gvk = None, up_merger = Some demo_merger, up_converter = Some (), up_defaulted = None\<rparr>"
  let ?dv = "demo_tree_of (RObject demo_desired)"
  let ?owned = "[[''spec''], [''spec'', ''a''], [''spec'', ''b''], [''spec'', ''d'']]"
  have "map_option fst (updater_complete demo_fields demo_lib demo_cluster ?t demo_desired (Some demo_created) None None) =
      Some (Some demo_created, None)"
    by code_simp
  then obtain t' where run: "updater_complete demo_fields demo_lib demo_cluster ?t demo_desired (Some demo_created) None None =
      Some ((Some demo_created, None), t')"
    by auto
  have t: "up_merger ?t = Some demo_merger" "up_converter ?t = Some ()" "om_defaulted demo_merger = None"
    by (simp_all add: demo_merger_def)
  have typed: "tl_ObjectToTyped demo_lib () (RObject demo_desired) = Inr ?dv" "tl_ToFieldSet demo_lib ?dv = Inr (map fst ?dv)"
    by (simp_all add: demo_lib_def)
  have own: "GetOwnedFields demo_fields demo_lib demo_merger (RObject demo_created) = Some (Inr ?owned)"
    by code_simp
  obtain m' d where d: "up_merger t' = Some m'" "om_defaulted m' = Some d"
    "\<And>p. fs_has demo_fields d p \<longleftrightarrow> fs_has demo_fields ?owned p \<and> \<not> parents demo_fields (map fst ?dv) p"
    using defaults_remembered [OF demo_fields_documented run t(1,2) typed] own t(3) by auto
  have dv: "map fst ?dv = [[''spec'', ''a''], [''spec'', ''b'']]"
    by code_simp
  have par: "parents demo_fields [x, y] p \<longleftrightarrow> p \<noteq> [] \<and> (prefix p x \<or> prefix p y)" for x y p
    by (simp add: parents_def demo_fields_def) (metis prefix_Nil)
  have "\<not> parents demo_fields (map fst ?dv) [''spec'', ''d'']" "parents demo_fields (map fst ?dv) [''spec'']"
    unfolding dv par by simp_all
  then have "fs_has demo_fields d [''spec'', ''d'']" "\<not> fs_has demo_fields d [''spec'']"
    by (simp_all add: d(3)) (simp add: demo_fields_def)
  then show ?thesis
    using run d(1,2) by blast
qed


text \<open>A live object with the label of a kcp workspace loses it, one with such an annotation is not applied at all.\<close>

theorem object_apply_witness:
  "ClientSideApplyObject demo_fields demo_lib demo_cluster (DefaultOperationContext [] []) (Inr demo_desired)
     (Inr (demo_created\<lparr>uo_annotations := Some [(''ws'', ''root.kcp.io'')]\<rparr>)) None None = None \<and>
   map_option (map_option uo_labels \<circ> snd \<circ> snd)
     (ClientSideApplyObject demo_fields demo_lib demo_cluster (DefaultOperationContext [] [])
       (Inr (demo_desired\<lparr>uo_labels := Some []\<rparr>)) (Inr (demo_created\<lparr>uo_labels := Some [(''ws'', ''root.kcp.io'')]\<rparr>)) None None) =
     Some (Some (Some []))"
proof
  let ?ctx = "DefaultOperationContext [] []"
  have ctx: "oc_Modify ?ctx demo_cluster src = (None, src)" "oc_manager ?ctx = []" for src
    by (simp_all add: DefaultOperationContext_def aggregatedModifier_def)
  have q: "ac_strategic demo_cluster a b = Inr ''spec''" for a b
    by (simp add: demo_cluster_def)
  have wf: "gwf (uo_content demo_desired)" "gwf (entries (uo_annotations demo_desired))"
    by code_simp+
  let ?c = "demo_created\<lparr>uo_annotations := Some [(''ws'', ''root.kcp.io'')]\<rparr>"
  have "lacks_kcp (uo_annotations ?c) (uo_annotations demo_desired)"
    by code_simp
  then show "ClientSideApplyObject demo_fields demo_lib demo_cluster ?ctx (Inr demo_desired) (Inr ?c) None None = None"
    using object_apply [OF ctx wf q refl, where F = demo_fields and T = demo_lib and current = ?c and md = None and w = None] by simp
  let ?d = "demo_desired\<lparr>uo_labels := Some []\<rparr>" and ?c = "demo_created\<lparr>uo_labels := Some [(''ws'', ''root.kcp.io'')]\<rparr>"
  have wf': "gwf (uo_content ?d)" "gwf (entries (uo_annotations ?d))"
    by code_simp+
  have no: "\<not> lacks_kcp (uo_annotations ?c) (uo_annotations ?d)" "\<not> lacks_kcp (uo_labels ?c) (uo_labels ?d)"
    by code_simp+
  have patch: "ac_Patch demo_cluster fm u p w = ((None, u), Some u)" for fm u p w
    by (simp add: demo_cluster_def)
  show "map_option (map_option uo_labels \<circ> snd \<circ> snd)
     (ClientSideApplyObject demo_fields demo_lib demo_cluster ?ctx (Inr ?d) (Inr ?c) None None) = Some (Some (Some []))"
    using object_apply [OF ctx wf' q refl, where F = demo_fields and T = demo_lib and current = ?c and md = None and w = None] no by (simp add: patch)
qed

end
