(* ===== verification/Replicate.thy ===== *)
theory Replicate
  imports Owners Replication Apply
begin

text \<open>
  The reconciler of the example that replicates objects to a target cluster
  (examples/simple/controllers/replicate/logic.go), composed of the object helpers, the owner
  handler, the replication mapping, the problems and the application of objects.

  The API servers answer as documented: a deleted object with finalizers is only marked, and
  goes with its last finalizer. Every call may fail with an error instead, without effect.
\<close>

section \<open>API servers\<close>

text \<open>
  An object is its metadata and the other fields that are not empty: the fields of a config map
  are all marked \<open>omitempty\<close>, so that the conversion to an unstructured object leaves empty ones out.
\<close>

record 'd robj =
  ro_meta :: kobject
  ro_data :: "(string, 'd) gomap"

text \<open>The objects of all clusters, by the client of the cluster, and the mapping with the namespaces of the target.\<close>

record 'd rworld =
  rw_store :: "(nat \<times> namespaced_name, 'd robj) gomap"
  rw_map :: mapping_state

abbreviation at :: "nat \<Rightarrow> namespaced_name \<Rightarrow> 'd rworld \<Rightarrow> 'd robj option" where
  "at c key w \<equiv> gget (rw_store w) (c, key)"

definition put :: "nat \<Rightarrow> namespaced_name \<Rightarrow> 'd robj \<Rightarrow> 'd rworld \<Rightarrow> 'd rworld" where
  "put c key obj w = w\<lparr>rw_store := gset (c, key) obj (rw_store w)\<rparr>"

definition discard :: "nat \<Rightarrow> namespaced_name \<Rightarrow> 'd rworld \<Rightarrow> 'd rworld" where
  "discard c key w = w\<lparr>rw_store := gdel (c, key) (rw_store w)\<rparr>"

definition not_found :: gerror where
  "not_found = External 404"

definition IgnoreNotFound :: "gerror option \<Rightarrow> gerror option" where
  "IgnoreNotFound err = (if err = Some not_found then None else err)"

record rfaults =
  rf_source_patch :: "gerror option"
  rf_cross_patch :: "gerror option"
  rf_get :: "gerror option"
  rf_create :: "gerror option"
  rf_apply :: "gerror option"
  rf_delete :: "gerror option"
  rf_spaces :: faults

definition no_rfaults :: rfaults where
  "no_rfaults =
     \<lparr>rf_source_patch = None, rf_cross_patch = None, rf_get = None, rf_create = None, rf_apply = None,
      rf_delete = None, rf_spaces = \<lparr>get_fault = None, create_fault = None, delete_fault = None\<rparr>\<rparr>"

definition api_get :: "gerror option \<Rightarrow> nat \<Rightarrow> namespaced_name \<Rightarrow> 'd rworld \<Rightarrow> 'd robj result" where
  "api_get f c key w =
     (case f of Some err \<Rightarrow> Inl err
      | None \<Rightarrow> (case at c key w of None \<Rightarrow> Inl not_found | Some obj \<Rightarrow> Inr obj))"

text \<open>A patch of the finalizers; no finalizers can be added to an object that is being deleted.\<close>

definition api_finalizers ::
  "gerror option \<Rightarrow> nat \<Rightarrow> namespaced_name \<Rightarrow> string list \<Rightarrow> 'd rworld \<Rightarrow> 'd robj result \<times> 'd rworld" where
  "api_finalizers f c key fins w =
     (case f of Some err \<Rightarrow> (Inl err, w)
      | None \<Rightarrow>
          (case at c key w of
             None \<Rightarrow> (Inl not_found, w)
           | Some obj \<Rightarrow>
               (let new = obj\<lparr>ro_meta := (ro_meta obj)\<lparr>ob_finalizers := fins\<rparr>\<rparr> in
                if ob_deletion (ro_meta obj) = None then (Inr new, put c key new w)
                else if \<not> set fins \<subseteq> set (ob_finalizers (ro_meta obj)) then (Inl (External 422), w)
                else if fins = [] then (Inr new, discard c key w)
                else (Inr new, put c key new w))))"

definition api_create :: "gerror option \<Rightarrow> nat \<Rightarrow> 'd robj \<Rightarrow> 'd rworld \<Rightarrow> gerror option \<times> 'd rworld" where
  "api_create f c obj w =
     (let key = object_key (ro_meta obj) in
      case f of Some err \<Rightarrow> (Some err, w)
      | None \<Rightarrow>
          (case gget (spaces (rw_map w)) (nn_namespace key) of
             None \<Rightarrow> (Some not_found, w)
           | Some True \<Rightarrow> (Some (External 403), w)
           | Some False \<Rightarrow>
               (case at c key w of
                  Some _ \<Rightarrow> (Some (External 409), w) | None \<Rightarrow> (None, put c key obj w))))"

definition api_delete :: "gerror option \<Rightarrow> nat \<Rightarrow> namespaced_name \<Rightarrow> 'd rworld \<Rightarrow> gerror option \<times> 'd rworld" where
  "api_delete f c key w =
     (case f of Some err \<Rightarrow> (Some err, w)
      | None \<Rightarrow>
          (case at c key w of
             None \<Rightarrow> (Some not_found, w)
           | Some obj \<Rightarrow>
               if ob_finalizers (ro_meta obj) = [] then (None, discard c key w)
               else (None, put c key (obj\<lparr>ro_meta := (ro_meta obj)\<lparr>ob_deletion :=
                       Some (case ob_deletion (ro_meta obj) of None \<Rightarrow> 0 | Some d \<Rightarrow> d)\<rparr>\<rparr>) w)))"

text \<open>
  The unstructured form of an object, and the target as a cluster objects are applied to: a
  patch makes annotations, labels and fields those of the changed object. The remaining fields
  of the cluster are not used when an object is applied without a field manager.
\<close>

definition unstructured :: "'d robj \<Rightarrow> 'd uobject" where
  "unstructured obj =
     (let m = ro_meta obj in
      \<lparr>uo_gvk = (ob_group m, ''v1'', ob_kind m), uo_namespace = ob_namespace m, uo_name = ob_name m,
       uo_annotations = ob_annotations m, uo_labels = ob_labels m, uo_deletion = ob_deletion m,
       uo_managed = [], uo_content = ro_data obj\<rparr>)"

definition patch_from :: "'d uobject \<Rightarrow> 'd robj \<Rightarrow> 'd robj" where
  "patch_from u obj =
     obj\<lparr>ro_meta := (ro_meta obj)\<lparr>ob_annotations := uo_annotations u, ob_labels := uo_labels u\<rparr>,
         ro_data := uo_content u\<rparr>"

definition target_cluster :: "gerror option \<Rightarrow> nat \<Rightarrow> ('d, 'c, 'd rworld) acluster" where
  "target_cluster f c =
     \<lparr>ac_converters = (\<lambda>_. Inl not_found), ac_scheme = 0, ac_decode = (\<lambda>_. Inl not_found),
      ac_IsNotFound = (\<lambda>e. e = not_found), ac_Get = (\<lambda>_ _ _. Inl not_found), ac_read = (\<lambda>_ _ _. Inl not_found),
      ac_Create = (\<lambda>_ u w. ((None, u), w)),
      ac_Patch = (\<lambda>_ u q w.
        case f of Some err \<Rightarrow> ((Some err, u), w)
        | None \<Rightarrow> (case at c (uo_key u) w of
                    None \<Rightarrow> ((Some not_found, u), w)
                  | Some obj \<Rightarrow> ((None, u), put c (uo_key u) (patch_from u obj) w))),
      ac_Delete = (\<lambda>_ w. (None, w)),
      ac_strategic = (\<lambda>a b. Inr ''patch'')\<rparr>"

section \<open>The reconciler\<close>

definition REPLICATED_ANNOTATION :: string where
  "REPLICATED_ANNOTATION = ''replicate.mandelsoft.de/replicated''"

record rsetup =
  rs_sha256 :: "string \<Rightarrow> string"
  rs_objects :: k8s_objects
  rs_owner_type :: string
  rs_target :: cl
  rs_kind :: group_kind
  rs_finalizer :: string
  rs_annotation :: string
  rs_class :: string

definition AddFinalizer :: "string \<Rightarrow> kobject \<Rightarrow> bool \<times> kobject" where
  "AddFinalizer fin m =
     (if fin \<in> set (ob_finalizers m) then (False, m)
      else (True, m\<lparr>ob_finalizers := ob_finalizers m @ [fin]\<rparr>))"

definition RemoveFinalizer :: "string \<Rightarrow> kobject \<Rightarrow> bool \<times> kobject" where
  "RemoveFinalizer fin m =
     (fin \<in> set (ob_finalizers m), m\<lparr>ob_finalizers := removeAll fin (ob_finalizers m)\<rparr>)"

definition IsResponsible :: "rsetup \<Rightarrow> 'd robj \<Rightarrow> bool" where
  "IsResponsible P obj = CheckAnnotation (ro_meta obj) (rs_annotation P) (rs_class P)"

definition replica_key :: "rsetup \<Rightarrow> cl \<Rightarrow> namespaced_name \<Rightarrow> namespaced_name option" where
  "replica_key P cluster key =
     map_option (\<lambda>namespace. \<lparr>nn_namespace = namespace, nn_name = nn_name key\<rparr>)
       (GenerateUniqueName (rs_sha256 P) ''replica'' (cl_id cluster) [] (nn_namespace key) (Some MAX_NAMESPACELEN))"

definition replicate_ReconcileDeleting ::
  "rsetup \<Rightarrow> rfaults \<Rightarrow> cl \<Rightarrow> namespaced_name \<Rightarrow> 'd robj \<Rightarrow> 'd rworld \<Rightarrow> (problem option \<times> 'd rworld) option" where
  "replicate_ReconcileDeleting P f cluster name obj w =
     (case replica_key P cluster name of
        None \<Rightarrow> None
      | Some key \<Rightarrow>
     (let target = cl_client (rs_target P); source = cl_client cluster in
     (case api_get (rf_get f) target key w of
        Inl err \<Rightarrow>
          (if err \<noteq> not_found then Some (TemporaryProblem (Some err), w)
           else
             (let (released, m) = RemoveFinalizer (rs_finalizer P) (ro_meta obj);
                  (failed, w) =
                    (if released
                     then (case api_finalizers (rf_source_patch f) source name (ob_finalizers m) w of
                             (Inl err, w) \<Rightarrow> (Some (TemporaryProblem (IgnoreNotFound (Some err))), w)
                           | (Inr _, w) \<Rightarrow> (None, w))
                     else (None, w))
              in case failed of
                   Some prob \<Rightarrow> Some (prob, w)
                 | None \<Rightarrow>
                     (let (prob, mp) = RemoveOriginal (rf_spaces f) (rs_kind P) key (rw_map w)
                      in Some (prob, w\<lparr>rw_map := mp\<rparr>))))
      | Inr tgt \<Rightarrow>
          (let (cleared, m) = RemoveFinalizer (rs_finalizer P) (ro_meta tgt);
               (failed, m, w) =
                 (if cleared
                  then (case api_finalizers (rf_cross_patch f) source key (ob_finalizers m) w of
                          (Inl err, w) \<Rightarrow> (Some (TemporaryProblem (IgnoreNotFound (Some err))), m, w)
                        | (Inr tgt, w) \<Rightarrow> (None, ro_meta tgt, w))
                  else (None, m, w))
           in case failed of
                Some prob \<Rightarrow> Some (prob, w)
              | None \<Rightarrow>
                  if ob_deletion m \<noteq> None then Some (Succeeded, w)
                  else (let (err, w) = api_delete (rf_delete f) target key w
                        in Some (TemporaryProblem err, w))))))"

definition replicate_prepare :: "rsetup \<Rightarrow> cl \<Rightarrow> namespaced_name \<Rightarrow> 'd robj \<Rightarrow> 'd robj result" where
  "replicate_prepare P cluster key obj =
     (let m = (ro_meta obj)\<lparr>ob_namespace := nn_namespace key\<rparr>;
          m = CleanupMeta m;
          m = SetAnnotation m REPLICATED_ANNOTATION (cl_id cluster);
          m = snd (RemoveFinalizer (rs_finalizer P) m)
      in case SetOwner (rs_objects P) (rs_owner_type P) cluster (ro_meta obj) (rs_target P) m of
           Inl err \<Rightarrow> Inl err
         | Inr m \<Rightarrow> Inr (obj\<lparr>ro_meta := m\<rparr>))"

definition replicate_write ::
  "('e, 's) field_sets \<Rightarrow> ('s, 'v, 'd, 'c) typed_lib \<Rightarrow> rsetup \<Rightarrow> rfaults \<Rightarrow> namespaced_name \<Rightarrow> 'd robj \<Rightarrow> 'd rworld \<Rightarrow>
   (problem option \<times> 'd rworld) option" where
  "replicate_write F T P f key newp w =
     (let target = cl_client (rs_target P) in
      case api_get (rf_get f) target key w of
        Inl err \<Rightarrow>
          (if err \<noteq> not_found then Some (TemporaryProblem (Some err), w)
           else (let (err, w) = api_create (rf_create f) target newp w
                 in Some (TemporaryProblem (IgnoreNotFound err), w)))
      | Inr tgt \<Rightarrow>
          (if ob_deletion (ro_meta tgt) \<noteq> None then Some (None, w)
           else (let newp = newp\<lparr>ro_meta := (ro_meta newp)\<lparr>ob_finalizers := ob_finalizers (ro_meta tgt)\<rparr>\<rparr> in
                 case ClientSideApplyObject F T (target_cluster (rf_apply f) target) (DefaultOperationContext [] [])
                        (Inr (unstructured newp)) (Inr (unstructured tgt)) None w of
                   None \<Rightarrow> None
                 | Some ((_, err), _, w) \<Rightarrow> Some (TemporaryProblem (IgnoreNotFound err), w))))"

definition replicate_Reconcile ::
  "('e, 's) field_sets \<Rightarrow> ('s, 'v, 'd, 'c) typed_lib \<Rightarrow> rsetup \<Rightarrow> rfaults \<Rightarrow> cl \<Rightarrow> namespaced_name \<Rightarrow> 'd robj \<Rightarrow> 'd rworld \<Rightarrow>
   (problem option \<times> 'd rworld) option" where
  "replicate_Reconcile F T P f cluster name obj w =
     (if GetAnnotation (ro_meta obj) REPLICATED_ANNOTATION \<noteq> [] then Some (None, w)
      else if \<not> IsResponsible P obj then replicate_ReconcileDeleting P f cluster name obj w
      else
        (let (added, m) = AddFinalizer (rs_finalizer P) (ro_meta obj);
             (patch, w) =
               (if added then api_finalizers (rf_source_patch f) (cl_client cluster) name (ob_finalizers m) w
                else (Inr obj, w))
         in case patch of
              Inl err \<Rightarrow> Some (TemporaryProblem (IgnoreNotFound (Some err)), w)
            | Inr obj \<Rightarrow>
                (case replica_key P cluster name of
                   None \<Rightarrow> None
                 | Some key \<Rightarrow>
                     (let (prob, mp) = SetOriginal (rf_spaces f) (rs_kind P) key
                            \<lparr>mc_cluster = cl_name cluster, mc_object = name\<rparr> (rw_map w);
                          w = w\<lparr>rw_map := mp\<rparr>
                      in if prob \<noteq> None then Some (prob, w)
                         else case replicate_prepare P cluster key obj of
                                Inl err \<Rightarrow> Some (TemporaryProblem (Some err), w)
                              | Inr newp \<Rightarrow> replicate_write F T P f key newp w))))"

definition replicate_ReconcileDeleted :: "'d rworld \<Rightarrow> (problem option \<times> 'd rworld) option" where
  "replicate_ReconcileDeleted w = Some (Succeeded, w)"

section \<open>Histories\<close>

text \<open>
  \<open>Q\<close> holds the pairs of a cluster and a namespace that are replicated. They are apart if no
  two of them share a replica namespace, none lies in a replica namespace, and requests for a
  cluster carry the same identity.
\<close>

definition rspace :: "rsetup \<Rightarrow> cl \<Rightarrow> string \<Rightarrow> string option" where
  "rspace P c n = GenerateUniqueName (rs_sha256 P) ''replica'' (cl_id c) [] n (Some MAX_NAMESPACELEN)"

definition apart :: "rsetup \<Rightarrow> (cl \<times> string) set \<Rightarrow> bool" where
  "apart P Q \<longleftrightarrow>
     (\<forall>(c, n)\<in>Q. \<forall>(c', n')\<in>Q.
        (cl_client c = cl_client c' \<longrightarrow> c = c') \<and> rspace P c n \<noteq> Some n' \<and>
        (rspace P c n = rspace P c' n' \<longrightarrow> c = c' \<and> n = n'))"

definition holds_fin :: "rsetup \<Rightarrow> nat \<Rightarrow> namespaced_name \<Rightarrow> 'd rworld \<Rightarrow> bool" where
  "holds_fin P c key w \<longleftrightarrow> (\<exists>s. at c key w = Some s \<and> rs_finalizer P \<in> set (ob_finalizers (ro_meta s)))"

definition no_orphans :: "rsetup \<Rightarrow> (cl \<times> string) set \<Rightarrow> 'd rworld \<Rightarrow> bool" where
  "no_orphans P Q w \<longleftrightarrow>
     (\<forall>c key rkey. (c, nn_namespace key) \<in> Q \<longrightarrow> replica_key P c key = Some rkey \<longrightarrow>
        at (cl_client (rs_target P)) rkey w \<noteq> None \<longrightarrow> holds_fin P (cl_client c) key w)"

definition honest :: "rfaults \<Rightarrow> bool" where
  "honest f \<longleftrightarrow> rf_get f \<noteq> Some not_found"

text \<open>
  What happens: reconciliations under any faults, writes of users that keep the finalizer of
  the controller and make no replicas of their own, deletions, the release of other
  finalizers, and the end of a namespace without finalizers.
\<close>

inductive rstep ::
  "('e, 's) field_sets \<Rightarrow> ('s, 'v, 'd, 'c) typed_lib \<Rightarrow> rsetup \<Rightarrow> (cl \<times> string) set \<Rightarrow> 'd rworld \<Rightarrow> 'd rworld \<Rightarrow> bool"
  for F T P Q where
    reconcile: "(c, nn_namespace key) \<in> Q \<Longrightarrow> honest f \<Longrightarrow> at (cl_client c) key w = Some obj \<Longrightarrow>
      object_key (ro_meta obj) = key \<Longrightarrow> ob_deletion (ro_meta obj) = None \<Longrightarrow> replicate_Reconcile F T P f c key obj w = Some (p, w') \<Longrightarrow> rstep F T P Q w w'"
  | deleting: "(c, nn_namespace key) \<in> Q \<Longrightarrow> honest f \<Longrightarrow> at (cl_client c) key w = Some obj \<Longrightarrow>
      ob_deletion (ro_meta obj) \<noteq> None \<Longrightarrow> replicate_ReconcileDeleting P f c key obj w = Some (p, w') \<Longrightarrow> rstep F T P Q w w'"
  | user_new: "at c key w = None \<Longrightarrow> c = cl_client (rs_target P) \<Longrightarrow> (\<forall>(c', n)\<in>Q. rspace P c' n \<noteq> Some (nn_namespace key)) \<Longrightarrow>
      rstep F T P Q w (put c key obj w)"
  | user_edit: "(\<And>old. at c key w = Some old \<Longrightarrow> rs_finalizer P \<in> set (ob_finalizers (ro_meta old)) \<Longrightarrow>
        rs_finalizer P \<in> set (ob_finalizers (ro_meta obj))) \<Longrightarrow>
      at c key w \<noteq> None \<or> c \<noteq> cl_client (rs_target P) \<Longrightarrow> rstep F T P Q w (put c key obj w)"
  | delete: "api_delete None c key w = (e, w') \<Longrightarrow> rstep F T P Q w w'"
  | release: "(\<And>old. at c key w = Some old \<Longrightarrow> rs_finalizer P \<in> set (ob_finalizers (ro_meta old)) \<Longrightarrow>
        rs_finalizer P \<in> set fins) \<Longrightarrow>
      api_finalizers None c key fins w = (e, w') \<Longrightarrow> rstep F T P Q w w'"
  | namespace: "(\<And>key old. at (cl_client (rs_target P)) key w = Some old \<Longrightarrow> nn_namespace key = ns \<Longrightarrow>
        ob_finalizers (ro_meta old) = []) \<Longrightarrow>
      (\<And>c key. at c key w' = (if c = cl_client (rs_target P) \<and> nn_namespace key = ns then None else at c key w)) \<Longrightarrow>
      rstep F T P Q w w'"

section \<open>Effects on the store\<close>

lemma at_put [simp]: "at c k (put c' k' obj w) = (if c = c' \<and> k = k' then Some obj else at c k w)"
  by (auto simp: put_def)

lemma at_discard [simp]: "at c k (discard c' k' w) = (if c = c' \<and> k = k' then None else at c k w)"
  by (auto simp: discard_def)

lemma at_map [simp]: "at c k (w\<lparr>rw_map := m\<rparr>) = at c k w"
  by simp

lemma replica_key_rspace: "replica_key P c key = Some rkey \<longleftrightarrow>
    rspace P c (nn_namespace key) = Some (nn_namespace rkey) \<and> nn_name rkey = nn_name key"
  by (cases rkey) (auto simp: replica_key_def rspace_def)

lemma apartD:
  assumes "apart P Q" "(c, n) \<in> Q" "(c', n') \<in> Q"
  shows "cl_client c = cl_client c' \<Longrightarrow> c = c'" "rspace P c n \<noteq> Some n'"
    "rspace P c n = rspace P c' n' \<Longrightarrow> c = c' \<and> n = n'"
  using assms(1) [unfolded apart_def, THEN bspec, OF assms(2), unfolded prod.case, THEN bspec, OF assms(3)] by simp_all

lemma replica_key_inj:
  assumes "apart P Q" "(c, nn_namespace k) \<in> Q" "(c', nn_namespace k') \<in> Q"
    "replica_key P c k = Some r" "replica_key P c' k' = Some r"
  shows "c = c'" "k = k'"
  using assms apartD(3) [OF assms(1-3)] by (auto simp: replica_key_rspace intro: namespaced_name.equality)

text \<open>A change of one place keeps the invariant.\<close>

lemma one_place:
  fixes w w' :: "'d rworld"
  assumes inv: "no_orphans P Q w"
    and place: "\<And>x y. at x y w' = (if x = C \<and> y = K then v else at x y w)"
    and new: "\<And>c k. v \<noteq> None \<Longrightarrow> at C K w = None \<Longrightarrow> C = cl_client (rs_target P) \<Longrightarrow> (c, nn_namespace k) \<in> Q \<Longrightarrow>
      replica_key P c k = Some K \<Longrightarrow> holds_fin P (cl_client c) k w'"
    and old: "holds_fin P C K w \<Longrightarrow> holds_fin P C K w' \<or>
      (\<forall>c rk. (c, nn_namespace K) \<in> Q \<longrightarrow> cl_client c = C \<longrightarrow> replica_key P c K = Some rk \<longrightarrow>
         at (cl_client (rs_target P)) rk w' = None)"
  shows "no_orphans P Q w'"
  unfolding no_orphans_def
proof (intro allI impI)
  fix c k rk
  let ?t = "cl_client (rs_target P)"
  assume Q: "(c, nn_namespace k) \<in> Q" and rk: "replica_key P c k = Some rk" and ex: "at ?t rk w' \<noteq> None"
  show "holds_fin P (cl_client c) k w'"
  proof (cases "at ?t rk w = None")
    case True
    then have "C = ?t" "K = rk" "v \<noteq> None" "at C K w = None"
      using ex place [of ?t rk] by (auto split: if_splits)
    then show ?thesis
      using new Q rk by blast
  next
    case False
    then have was: "holds_fin P (cl_client c) k w"
      using inv Q rk unfolding no_orphans_def by blast
    show ?thesis
    proof (cases "cl_client c = C \<and> k = K")
      case True
      then show ?thesis
        using old was Q rk ex by auto
    next
      case False
      then show ?thesis
        using was place [of "cl_client c" k] by (auto simp: holds_fin_def)
    qed
  qed
qed

section \<open>Steps keep the invariant\<close>

lemma no_orphans_map [simp]: "no_orphans P Q (w\<lparr>rw_map := m\<rparr>) = no_orphans P Q w"
  by (simp add: no_orphans_def holds_fin_def)

lemma api_finalizers_cases:
  assumes "api_finalizers f c key fins w = (r, w')"
  obtains (refused) e where "w' = w" "r = Inl e"
  | (granted) old new v where "at c key w = Some old" "r = Inr new" "new = old\<lparr>ro_meta := (ro_meta old)\<lparr>ob_finalizers := fins\<rparr>\<rparr>"
      "\<And>x y. at x y w' = (if x = c \<and> y = key then v else at x y w)" "v = Some new \<or> v = None \<and> fins = []"
      "rw_map w' = rw_map w"
proof (cases r)
  case (Inl e)
  then have "w' = w"
    using assms by (auto simp: api_finalizers_def Let_def split: option.splits if_splits)
  then show thesis
    using Inl by (rule refused)
next
  case (Inr new)
  then obtain old where o: "at c key w = Some old" "new = old\<lparr>ro_meta := (ro_meta old)\<lparr>ob_finalizers := fins\<rparr>\<rparr>"
    "w' = put c key new w \<or> w' = discard c key w \<and> fins = []"
    using assms by (auto simp: api_finalizers_def Let_def split: option.splits if_splits)
  from o(3) show thesis
  proof
    assume w': "w' = put c key new w"
    show thesis
      by (rule granted [OF o(1) Inr o(2), of "Some new"]) (auto simp: w' put_def)
  next
    assume w': "w' = discard c key w \<and> fins = []"
    show thesis
      by (rule granted [OF o(1) Inr o(2), of None]) (auto simp: w' discard_def)
  qed
qed

lemma keeps_fin:
  assumes inv: "no_orphans P Q w" and run: "api_finalizers f c key fins w = (r, w')"
    and kept: "holds_fin P c key w \<Longrightarrow> rs_finalizer P \<in> set fins"
  shows "no_orphans P Q w'"
  using run
proof (cases rule: api_finalizers_cases)
  case (refused e)
  then show ?thesis
    using inv by simp
next
  case (granted old new v)
  show ?thesis
    by (rule one_place [OF inv granted(4)]) (use granted kept in \<open>auto simp: holds_fin_def\<close>)
qed

lemma api_delete_keeps:
  assumes inv: "no_orphans P Q w" and run: "api_delete f c key w = (e, w')"
  shows "no_orphans P Q w'"
proof (cases "w' = w")
  case False
  then obtain old v where o: "at c key w = Some old" "\<And>x y. at x y w' = (if x = c \<and> y = key then v else at x y w)"
    "v = None \<and> ob_finalizers (ro_meta old) = [] \<or> (\<exists>new. v = Some new \<and> ob_finalizers (ro_meta new) = ob_finalizers (ro_meta old))"
    using run by (auto simp: api_delete_def split: option.splits if_splits)
  show ?thesis
    by (rule one_place [OF inv o(2)]) (use o in \<open>auto simp: holds_fin_def\<close>)
qed (use inv in simp)

lemma put_keeps:
  assumes inv: "no_orphans P Q w"
    and "at c key w \<noteq> None \<or> c \<noteq> cl_client (rs_target P) \<or> (\<forall>(c', n)\<in>Q. rspace P c' n \<noteq> Some (nn_namespace key))"
    and "holds_fin P c key w \<Longrightarrow> rs_finalizer P \<in> set (ob_finalizers (ro_meta obj))"
  shows "no_orphans P Q (put c key obj w)"
  by (rule one_place [OF inv, of _ c key "Some obj"])
    (use assms(2,3) in \<open>auto simp: holds_fin_def replica_key_rspace\<close>)

lemma api_create_keeps:
  assumes inv: "no_orphans P Q w" and Q: "apart P Q" "(c, nn_namespace name) \<in> Q"
    and key: "replica_key P c name = Some (object_key (ro_meta obj))"
    and fin: "holds_fin P (cl_client c) name w"
    and run: "api_create f (cl_client (rs_target P)) obj w = (e, w')"
  shows "no_orphans P Q w'"
proof (cases "w' = w")
  case False
  let ?t = "cl_client (rs_target P)" and ?k = "object_key (ro_meta obj)"
  have w': "w' = put ?t ?k obj w" "at ?t ?k w = None"
    using run False by (auto simp: api_create_def Let_def split: option.splits bool.splits)
  have "nn_namespace name \<noteq> nn_namespace ?k"
    using apartD(2) [OF Q(1) Q(2) Q(2)] key by (auto simp: replica_key_rspace)
  then have fin': "holds_fin P (cl_client c) name w'"
    using fin by (auto simp: holds_fin_def w')
  show ?thesis
  proof (rule one_place [OF inv, of _ ?t ?k "Some obj"])
    show "at x y w' = (if x = ?t \<and> y = ?k then Some obj else at x y w)" for x y
      by (auto simp: w')
    show "holds_fin P (cl_client c') k w'" if "(c', nn_namespace k) \<in> Q" "replica_key P c' k = Some ?k" for c' k
      using fin' replica_key_inj [OF Q(1) Q(2) that(1) key that(2)] by simp
  qed (use w'(2) in \<open>auto simp: holds_fin_def\<close>)
qed (use inv in simp)

lemma target_Patch_keeps:
  fixes T :: "('s, 'v, 'd, 'c) typed_lib"
  assumes inv: "no_orphans P Q w"
    and run: "ClientSideApplyObject F T (target_cluster f c) ctx a b md w = Some (r, md', w')"
  shows "no_orphans P Q w'"
proof -
  let ?cl = "target_cluster f c :: ('d, 'c, 'd rworld) acluster"
  have "no_orphans P Q (snd (ac_Patch ?cl fm u q w))" for fm u q
    using inv by (auto simp: target_cluster_def patch_from_def holds_fin_def split: option.split intro!: put_keeps)
  then show ?thesis
    using ClientSideApplyObject_write [OF run] inv by metis
qed

text \<open>Setting the controller reference leaves the identity and the finalizers of an object alone.\<close>

definition refs_only :: "k8s_objects \<Rightarrow> bool" where
  "refs_only x \<longleftrightarrow> (\<forall>owner s s'. set_controller_ref x owner s = Inr s' \<longrightarrow>
     object_key s' = object_key s \<and> ob_finalizers s' = ob_finalizers s \<and> ob_annotations s' = ob_annotations s)"

lemma SetOwner_key:
  assumes "refs_only x" "SetOwner x t c owner target s = Inr s'"
  shows "object_key s' = object_key s"
proof (cases "is_local c owner target s")
  case True
  then show ?thesis
    using assms by (auto simp: SetOwner_def is_local_def refs_only_def)
next
  case False
  then obtain gk where "gvk_for x owner = Inr gk"
    using assms(2) by (auto simp: SetOwner_def is_local_def Let_def split: if_splits sum.splits)
  then show ?thesis
    using SetOwner_annotates [OF assms(2) False] by (simp add: object_key_def ModifyAnnotations_def)
qed

lemma prepare_key:
  assumes "refs_only (rs_objects P)" "replica_key P c name = Some key" "ob_name (ro_meta obj) = nn_name name"
    and "replicate_prepare P c key obj = Inr newp"
  shows "object_key (ro_meta newp) = key"
proof -
  define m where "m = snd (RemoveFinalizer (rs_finalizer P)
    (SetAnnotation (CleanupMeta ((ro_meta obj)\<lparr>ob_namespace := nn_namespace key\<rparr>)) REPLICATED_ANNOTATION (cl_id c)))"
  have "object_key m = key"
    using assms(2,3)
    by (simp add: m_def RemoveFinalizer_def SetAnnotation_def CleanupMeta_def CleanupKCPInfo_def RemoveAnnotation_def
        Let_def object_key_def replica_key_rspace split: option.split)
  moreover obtain m' where m': "SetOwner (rs_objects P) (rs_owner_type P) c (ro_meta obj) (rs_target P) m = Inr m'"
    "ro_meta newp = m'"
    using assms(4) by (auto simp: replicate_prepare_def Let_def m_def split: sum.splits)
  ultimately show ?thesis
    using SetOwner_key [OF assms(1) m'(1)] by simp
qed

lemma deleting_keeps:
  assumes inv: "no_orphans P Q w" and Q: "apart P Q" "(c, nn_namespace name) \<in> Q" and f: "honest f"
    and run: "replicate_ReconcileDeleting P f c name obj w = Some (p, w')"
  shows "no_orphans P Q w'"
proof -
  let ?t = "cl_client (rs_target P)" and ?s = "cl_client c"
  obtain key where key: "replica_key P c name = Some key"
    using run by (cases "replica_key P c name") (auto simp: replicate_ReconcileDeleting_def)
  have ns: "nn_namespace key \<noteq> n" if "(c', n) \<in> Q" for c' n
    using apartD(2) [OF Q(1) Q(2) that] key by (auto simp: replica_key_rspace)
  show ?thesis
  proof (cases "api_get (rf_get f) ?t key w")
    case (Inl err)
    have release: "no_orphans P Q w1"
      if absent: "at ?t key w = None" and run: "api_finalizers g ?s name fins w = (r, w1)" for g fins r w1
      using run
    proof (cases rule: api_finalizers_cases)
      case (granted old new v)
      have "(?t, key) \<noteq> (?s, name)"
        using ns [OF Q(2)] by auto
      then have gone: "at ?t key w1 = None"
        using absent granted(4) [of ?t key] by auto
      show ?thesis
      proof (rule one_place [OF inv granted(4)])
        show "holds_fin P ?s name w1 \<or> (\<forall>d rk. (d, nn_namespace name) \<in> Q \<longrightarrow> cl_client d = ?s \<longrightarrow>
            replica_key P d name = Some rk \<longrightarrow> at ?t rk w1 = None)"
        proof (intro disjI2 allI impI)
          fix d rk
          assume "(d, nn_namespace name) \<in> Q" "cl_client d = ?s" "replica_key P d name = Some rk"
          then have "d = c" "rk = key"
            using apartD(1) [OF Q(1) _ Q(2), of d] key by auto
          then show "at ?t rk w1 = None"
            using gone by simp
        qed
      qed (use granted(1) in auto)
    qed (use inv in simp)
    have "at ?t key w = None" if "err = not_found"
      using Inl f that by (auto simp: api_get_def honest_def split: option.splits)
    then show ?thesis
      using run Inl key inv
      by (auto simp: replicate_ReconcileDeleting_def Let_def RemoveFinalizer_def split: if_splits prod.splits sum.splits
          dest: release)
  next
    case (Inr tgt)
    have cross: "no_orphans P Q w1" if run: "api_finalizers g ?s key fins w = (r, w1)" for g fins r w1
      using run
    proof (cases rule: api_finalizers_cases)
      case (granted old new v)
      show ?thesis
        by (rule one_place [OF inv granted(4)]) (use granted(1) ns in auto)
    qed (use inv in simp)
    then show ?thesis
      using run Inr key inv
      by (auto simp: replicate_ReconcileDeleting_def Let_def RemoveFinalizer_def split: if_splits prod.splits sum.splits
          intro: api_delete_keeps dest: cross)
  qed
qed

lemma finalizer_added:
  assumes inv: "no_orphans P Q w" and obj: "at c name w = Some obj" "object_key (ro_meta obj) = name"
    and run: "(if fst (AddFinalizer (rs_finalizer P) (ro_meta obj))
               then api_finalizers f c name (ob_finalizers (snd (AddFinalizer (rs_finalizer P) (ro_meta obj)))) w
               else (Inr obj, w)) = (r, w1)"
  shows "no_orphans P Q w1" "r = Inr obj' \<Longrightarrow> ob_deletion (ro_meta obj) = None \<Longrightarrow>
    holds_fin P c name w1 \<and> object_key (ro_meta obj') = name"
proof -
  show "no_orphans P Q w1"
    using inv run obj by (auto simp: AddFinalizer_def holds_fin_def split: if_splits intro: keeps_fin)
  show "holds_fin P c name w1 \<and> object_key (ro_meta obj') = name" if "r = Inr obj'" "ob_deletion (ro_meta obj) = None"
    using that run obj
    by (auto simp: AddFinalizer_def holds_fin_def api_finalizers_def object_key_def Let_def split: if_splits option.splits)
qed

lemma write_keeps:
  assumes inv: "no_orphans P Q w" and Q: "apart P Q" "(c, nn_namespace name) \<in> Q"
    and key: "replica_key P c name = Some key" "object_key (ro_meta newp) = key"
    and fin: "holds_fin P (cl_client c) name w"
    and run: "replicate_write F T P f key newp w = Some (p, w')"
  shows "no_orphans P Q w'"
proof (cases "api_get (rf_get f) (cl_client (rs_target P)) key w")
  case (Inl err)
  obtain e w2 where cr: "api_create (rf_create f) (cl_client (rs_target P)) newp w = (e, w2)"
    by fastforce
  then have "w' = w \<or> w' = w2"
    using run Inl by (auto simp: replicate_write_def Let_def split: if_splits)
  then show ?thesis
    using inv api_create_keeps [OF inv Q _ fin cr] key by auto
next
  case (Inr tgt)
  show ?thesis
  proof (cases "w' = w")
    case False
    then obtain ctx a b md r md' where
      "ClientSideApplyObject F T (target_cluster (rf_apply f) (cl_client (rs_target P))) ctx a b md w = Some (r, md', w')"
      using run Inr by (auto simp: replicate_write_def Let_def split: if_splits option.splits)
    then show ?thesis
      by (rule target_Patch_keeps [OF inv])
  qed (use inv in simp)
qed

lemma reconcile_keeps:
  assumes inv: "no_orphans P Q w" and Q: "apart P Q" "(c, nn_namespace name) \<in> Q" and f: "honest f"
    and refs: "refs_only (rs_objects P)"
    and obj: "at (cl_client c) name w = Some obj" "object_key (ro_meta obj) = name" "ob_deletion (ro_meta obj) = None"
    and run: "replicate_Reconcile F T P f c name obj w = Some (p, w')"
  shows "no_orphans P Q w'"
proof (cases "GetAnnotation (ro_meta obj) REPLICATED_ANNOTATION \<noteq> [] \<or> \<not> IsResponsible P obj")
  case True
  then show ?thesis
    using run inv deleting_keeps [OF inv Q f] by (auto simp: replicate_Reconcile_def split: if_splits)
next
  case False
  define A where "A = AddFinalizer (rs_finalizer P) (ro_meta obj)"
  obtain r w1 where patch: "(if fst A then api_finalizers (rf_source_patch f) (cl_client c) name (ob_finalizers (snd A)) w
      else (Inr obj, w)) = (r, w1)"
    by fastforce
  note added = finalizer_added [OF inv obj(1,2), folded A_def, OF patch]
  show ?thesis
  proof (cases r)
    case (Inl err)
    then show ?thesis
      using run False patch added(1) by (simp add: replicate_Reconcile_def A_def [symmetric] case_prod_beta Let_def)
  next
    case (Inr obj')
    have held: "holds_fin P (cl_client c) name w1" "object_key (ro_meta obj') = name"
      using added(2) [OF Inr obj(3)] by simp_all
    obtain key where key: "replica_key P c name = Some key"
      using run False patch Inr
      by (cases "replica_key P c name") (simp_all add: replicate_Reconcile_def A_def [symmetric] case_prod_beta Let_def)
    obtain prob mp where mp: "SetOriginal (rf_spaces f) (rs_kind P) key
        \<lparr>mc_cluster = cl_name c, mc_object = name\<rparr> (rw_map w1) = (prob, mp)"
      by fastforce
    let ?w = "w1\<lparr>rw_map := mp\<rparr>"
    have inv1: "no_orphans P Q ?w" and held1: "holds_fin P (cl_client c) name ?w"
      using added(1) held(1) by (simp_all add: holds_fin_def)
    have rest: "(if prob \<noteq> None then Some (prob, ?w)
         else case replicate_prepare P c key obj' of
                Inl err \<Rightarrow> Some (TemporaryProblem (Some err), ?w)
              | Inr newp \<Rightarrow> replicate_write F T P f key newp ?w) = Some (p, w')"
      using run False patch Inr key mp
      by (cases prob) (auto simp: replicate_Reconcile_def A_def [symmetric] case_prod_beta Let_def)
    show ?thesis
    proof (cases "w' = ?w")
      case False
      then obtain newp where newp: "replicate_prepare P c key obj' = Inr newp"
        "replicate_write F T P f key newp ?w = Some (p, w')"
        using rest by (auto split: if_splits sum.splits)
      have k: "object_key (ro_meta newp) = key"
        using prepare_key [OF refs key _ newp(1)] held(2) by (auto simp: object_key_def)
      show ?thesis
        by (rule write_keeps [OF inv1 Q key k held1 newp(2)])
    qed (use inv1 in simp)
  qed
qed

text \<open>
  C2: No orphans: under every interleaving of reconciliations with faults, writes, deletions
  and namespace removals, a replica exists only while its source exists and holds the finalizer
  of the controller, provided that replica names do not collide and lookups report a missing
  object only if it is missing.
\<close>

theorem replicate_no_orphans:
  assumes "(rstep F T P Q)\<^sup>*\<^sup>* w w'" and "no_orphans P Q w" "apart P Q" "refs_only (rs_objects P)"
  shows "no_orphans P Q w'"
  using assms(1,2)
proof (induction rule: rtranclp_induct)
  case (step w1 w2)
  from step(2) step.IH [OF step.prems] show ?case
  proof (induction rule: rstep.induct)
    case (reconcile c key f w obj p w')
    then show ?case
      using reconcile_keeps [OF _ assms(3) _ _ assms(4)] by blast
  next
    case (deleting c key f w obj p w')
    then show ?case
      using deleting_keeps [OF _ assms(3)] by blast
  next
    case (user_new c key w obj)
    then show ?case
      by (intro put_keeps) (auto simp: holds_fin_def)
  next
    case (user_edit c key w obj)
    then show ?case
      by (intro put_keeps) (auto simp: holds_fin_def)
  next
    case (delete c key w e w')
    then show ?case
      using api_delete_keeps by blast
  next
    case (release c key w fins e w')
    then show ?case
      by (intro keeps_fin [OF _ release(2)]) (auto simp: holds_fin_def)
  next
    case (namespace w ns w')
    have "holds_fin P (cl_client c) k w'"
      if "(c, nn_namespace k) \<in> Q" "replica_key P c k = Some rk" "at (cl_client (rs_target P)) rk w' \<noteq> None" for c k rk
    proof -
      have "holds_fin P (cl_client c) k w"
        using that namespace(2,3) unfolding no_orphans_def by (auto split: if_splits)
      then show ?thesis
        using namespace(1,2) by (auto simp: holds_fin_def)
    qed
    then show ?case
      by (auto simp: no_orphans_def)
  qed
qed simp

section \<open>A reconciliation without faults\<close>

lemma prepare_fields:
  assumes prep: "replicate_prepare P c key obj = Inr newp"
    and "refs_only (rs_objects P)" "rs_owner_type P \<noteq> REPLICATED_ANNOTATION"
  shows "ro_data newp = ro_data obj" "GetAnnotation (ro_meta newp) REPLICATED_ANNOTATION = cl_id c"
    "rs_finalizer P \<notin> set (ob_finalizers (ro_meta newp))"
proof -
  define m where "m = snd (RemoveFinalizer (rs_finalizer P)
    (SetAnnotation (CleanupMeta ((ro_meta obj)\<lparr>ob_namespace := nn_namespace key\<rparr>)) REPLICATED_ANNOTATION (cl_id c)))"
  obtain m' where m': "SetOwner (rs_objects P) (rs_owner_type P) c (ro_meta obj) (rs_target P) m = Inr m'"
    "newp = obj\<lparr>ro_meta := m'\<rparr>"
    using prep by (auto simp: replicate_prepare_def Let_def m_def split: sum.splits)
  have m: "GetAnnotation m REPLICATED_ANNOTATION = cl_id c" "rs_finalizer P \<notin> set (ob_finalizers m)"
    by (simp_all add: m_def RemoveFinalizer_def SetAnnotation_def GetAnnotation_def Let_def)
  show "ro_data newp = ro_data obj"
    by (simp add: m')
  show "GetAnnotation (ro_meta newp) REPLICATED_ANNOTATION = cl_id c"
    "rs_finalizer P \<notin> set (ob_finalizers (ro_meta newp))"
  proof (atomize(full), cases "is_local c (ro_meta obj) (rs_target P) m")
    case True
    then show "GetAnnotation (ro_meta newp) REPLICATED_ANNOTATION = cl_id c \<and>
        rs_finalizer P \<notin> set (ob_finalizers (ro_meta newp))"
      using m' m assms(2) by (auto simp: SetOwner_def is_local_def refs_only_def GetAnnotation_def)
  next
    case False
    obtain gk where "gvk_for (rs_objects P) (ro_meta obj) = Inr gk"
      using m'(1) False by (auto simp: SetOwner_def is_local_def Let_def split: if_splits sum.splits)
    then show "GetAnnotation (ro_meta newp) REPLICATED_ANNOTATION = cl_id c \<and>
        rs_finalizer P \<notin> set (ob_finalizers (ro_meta newp))"
      using SetOwner_annotates [OF m'(1) False] m' m assms(3)
      by (auto simp: ModifyAnnotations_def Annotation_Put_def owner_annotation_def Let_def GetAnnotation_def
          CrossNamespaceAnnotation_def Annotation_ForCluster_def split: option.splits)
  qed
qed

lemma SetOriginal_granted:
  assumes "gget (spaces m) (nn_namespace key) \<noteq> Some True"
  shows "\<exists>m'. SetOriginal (rf_spaces no_rfaults) kind key req m = (None, m') \<and>
    GetOriginal kind key m' = Some req \<and> gget (spaces m') (nn_namespace key) = Some False"
proof -
  obtain sp where sp: "assureNamespace (rf_spaces no_rfaults) (nn_namespace key) (spaces m) = (None, sp)"
    using assms
    by (cases "gget (spaces m) (nn_namespace key)") (auto simp: assureNamespace_def no_rfaults_def TemporaryProblem_def)
  then have "SetOriginal (rf_spaces no_rfaults) kind key req m =
      (None, m\<lparr>spaces := sp, types := gset kind (index_add key req (resource_at kind m)) (types m)\<rparr>)"
    by (simp add: SetOriginal_def resource_at_def)
  then show ?thesis
    using GetOriginal_Set [of "rf_spaces no_rfaults" kind key req m None _ kind key] assure_ok [OF sp] by simp
qed

text \<open>A replica that may be written: there is none, or one that is not going and takes over information of kcp.\<close>

definition writable :: "rsetup \<Rightarrow> namespaced_name \<Rightarrow> 'd robj \<Rightarrow> 'd rworld \<Rightarrow> bool" where
  "writable P key newp w \<longleftrightarrow>
     (case at (cl_client (rs_target P)) key w of
        None \<Rightarrow> True
      | Some tgt \<Rightarrow> object_key (ro_meta tgt) = key \<and> ob_deletion (ro_meta tgt) = None \<and>
          \<not> lacks_kcp (ob_annotations (ro_meta tgt)) (ob_annotations (ro_meta newp)) \<and>
          \<not> lacks_kcp (ob_labels (ro_meta tgt)) (ob_labels (ro_meta newp)))"

lemma GetAnnotation_entries:
  "GetAnnotation m a = (case gget (entries (ob_annotations m)) a of None \<Rightarrow> [] | Some v \<Rightarrow> v)"
  by (simp add: GetAnnotation_def entries_def split: option.split)

text \<open>Fields as an object has them: each once, the metadata apart.\<close>

definition fields_ok :: "(string, 'd) gomap \<Rightarrow> bool" where
  "fields_ok d \<longleftrightarrow> gwf d \<and> gget d ''metadata'' = None"

text \<open>
  The fields of a replica: those of the source; where the source has none, a new replica has
  none either, but an existing one keeps its own.
\<close>

definition replica_fields :: "'d robj option \<Rightarrow> 'd robj \<Rightarrow> string \<Rightarrow> 'd option" where
  "replica_fields old src k =
     (case gget (ro_data src) k of
        Some v \<Rightarrow> Some v
      | None \<Rightarrow> (case old of None \<Rightarrow> None | Some tgt \<Rightarrow> gget (ro_data tgt) k))"

lemma write_follows:
  assumes key: "object_key (ro_meta newp) = key" and ok: "writable P key newp w"
    and ns: "gget (spaces (rw_map w)) (nn_namespace key) = Some False"
    and wf: "gwf (entries (ob_annotations (ro_meta newp)))" "fields_ok (ro_data newp)"
    and rep: "GetAnnotation (ro_meta newp) REPLICATED_ANNOTATION = i" "i \<noteq> []"
  shows "\<exists>o'. replicate_write F T P no_rfaults key newp w = Some (None, put (cl_client (rs_target P)) key o' w) \<and>
    gget (ro_data o') = replica_fields (at (cl_client (rs_target P)) key w) newp \<and> ob_labels (ro_meta o') = ob_labels (ro_meta newp) \<and>
    GetAnnotation (ro_meta o') REPLICATED_ANNOTATION = i"
proof (cases "at (cl_client (rs_target P)) key w")
  case None
  then show ?thesis
    using key ns rep
    by (intro exI [of _ newp])
      (simp add: replicate_write_def api_get_def api_create_def no_rfaults_def Let_def not_found_def IgnoreNotFound_def
        TemporaryProblem_def replica_fields_def fun_eq_iff split: option.split)
next
  case (Some tgt)
  let ?t = "cl_client (rs_target P)"
  define n where "n = newp\<lparr>ro_meta := (ro_meta newp)\<lparr>ob_finalizers := ob_finalizers (ro_meta tgt)\<rparr>\<rparr>"
  let ?d = "unstructured n" and ?c = "unstructured tgt"
  define o' where "o' = patch_from (take_over ?d ?d ?c) tgt"
  have k: "uo_key (take_over ?d ?d ?c) = key" "object_key (ro_meta tgt) = key"
    using ok Some by (simp_all add: writable_def take_over_fields(4)) (simp_all add: unstructured_def uo_key_def object_key_def Let_def)
  have kcp: "\<not> lacks_kcp (uo_annotations ?c) (uo_annotations ?d)" "\<not> lacks_kcp (uo_labels ?c) (uo_labels ?d)"
    using ok Some by (simp_all add: writable_def unstructured_def n_def Let_def)
  have run: "ClientSideApplyObject F T (target_cluster None ?t) (DefaultOperationContext [] []) (Inr ?d) (Inr ?c) None w =
      Some ((Some ?d, None), None, put ?t key o' w)"
    using Some kcp k
    by (subst object_apply_run [where desired = ?d and q = "''patch''"])
      (simp_all add: DefaultOperationContext_def aggregatedModifier_def target_cluster_def SetUpdated_def o'_def Let_def)
  have "uo_content ?d = ro_data newp" "uo_content ?c = ro_data tgt"
    by (simp_all add: unstructured_def n_def Let_def)
  then have "gget (ro_data o') = replica_fields (Some tgt) newp"
    using take_over_fields(1) [of ?d ?c] wf(2)
    by (auto simp: o'_def patch_from_def fields_ok_def replica_fields_def fun_eq_iff split: option.split)
  moreover have "ob_labels (ro_meta o') = ob_labels (ro_meta newp)"
    by (simp add: o'_def patch_from_def take_over_fields(3)) (simp add: unstructured_def n_def Let_def)
  moreover have "GetAnnotation (ro_meta o') REPLICATED_ANNOTATION = i"
    using take_over_fields(2) [of ?d ?c REPLICATED_ANNOTATION] wf(1) rep
    by (auto simp: o'_def patch_from_def GetAnnotation_entries unstructured_def n_def Let_def split: option.splits)
  ultimately show ?thesis
    using run Some ok
    by (intro exI [of _ o'])
      (simp add: replicate_write_def api_get_def no_rfaults_def writable_def Let_def n_def IgnoreNotFound_def TemporaryProblem_def)
qed

lemma finalizer_taken:
  assumes "at c name w = Some obj" "ob_deletion (ro_meta obj) = None"
    and m: "m = snd (AddFinalizer (rs_finalizer P) (ro_meta obj))"
  shows "\<exists>w1. (if fst (AddFinalizer (rs_finalizer P) (ro_meta obj))
       then api_finalizers None c name (ob_finalizers m) w else (Inr obj, w)) = (Inr (obj\<lparr>ro_meta := m\<rparr>), w1) \<and>
     holds_fin P c name w1 \<and> rw_map w1 = rw_map w \<and> (\<forall>x y. (x, y) \<noteq> (c, name) \<longrightarrow> at x y w1 = at x y w)"
proof (cases "rs_finalizer P \<in> set (ob_finalizers (ro_meta obj))")
  case True
  then show ?thesis
    using assms by (intro exI [of _ w]) (auto simp: AddFinalizer_def holds_fin_def)
next
  case False
  then show ?thesis
    using assms
    by (intro exI [of _ "put c name (obj\<lparr>ro_meta := m\<rparr>) w"])
      (auto simp: AddFinalizer_def holds_fin_def api_finalizers_def put_def Let_def)
qed


lemma RemoveOriginal_granted:
  "\<exists>m'. RemoveOriginal (rf_spaces no_rfaults) kind key m = (None, m') \<and> GetOriginal kind key m' = None"
proof -
  obtain p m' where r: "RemoveOriginal (rf_spaces no_rfaults) kind key m = (p, m')"
    by fastforce
  then have "p = None"
    by (auto simp: RemoveOriginal_def removeNamespace_def no_rfaults_def Let_def split: if_splits prod.splits)
  then show ?thesis
    using r GetOriginal_Remove [OF r, of kind key] by simp
qed

lemma deleting_absent:
  assumes key: "replica_key P c name = Some key" and absent: "at (cl_client (rs_target P)) key w = None"
    and obj: "at (cl_client c) name w = Some obj" "ob_deletion (ro_meta obj) \<noteq> None"
  shows "\<exists>w'. replicate_ReconcileDeleting P no_rfaults c name obj w = Some (None, w') \<and>
    \<not> holds_fin P (cl_client c) name w' \<and> GetOriginal (rs_kind P) key (rw_map w') = None \<and>
    (set (ob_finalizers (ro_meta obj)) = {rs_finalizer P} \<longrightarrow> at (cl_client c) name w' = None)"
proof -
  define fins where "fins = removeAll (rs_finalizer P) (ob_finalizers (ro_meta obj))"
  obtain m' where m': "RemoveOriginal (rf_spaces no_rfaults) (rs_kind P) key (rw_map w) = (None, m')"
    "GetOriginal (rs_kind P) key m' = None"
    using RemoveOriginal_granted by blast
  have sub: "set fins \<subseteq> set (ob_finalizers (ro_meta obj))" "rs_finalizer P \<notin> set fins"
    "fins = [] \<longleftrightarrow> set (ob_finalizers (ro_meta obj)) \<subseteq> {rs_finalizer P}"
    by (auto simp: fins_def removeAll_filter_not_eq filter_empty_conv)
  have none: "rf_source_patch no_rfaults = None" "rf_get no_rfaults = None"
    by (simp_all add: no_rfaults_def)
  show ?thesis
  proof (cases "rs_finalizer P \<in> set (ob_finalizers (ro_meta obj))")
    case True
    let ?new = "obj\<lparr>ro_meta := (ro_meta obj)\<lparr>ob_finalizers := fins\<rparr>\<rparr>"
    let ?w = "if fins = [] then discard (cl_client c) name w else put (cl_client c) name ?new w"
    have "api_finalizers None (cl_client c) name fins w = (Inr ?new, ?w)"
      using obj sub(1) by (auto simp: api_finalizers_def Let_def)
    moreover have "rw_map ?w = rw_map w"
      by (simp add: put_def discard_def)
    ultimately have "replicate_ReconcileDeleting P no_rfaults c name obj w = Some (None, ?w\<lparr>rw_map := m'\<rparr>)"
      using key absent True m'(1) none
      by (simp add: replicate_ReconcileDeleting_def api_get_def RemoveFinalizer_def Let_def fins_def [symmetric])
    then show ?thesis
      using m'(2) sub by (auto simp: holds_fin_def)
  next
    case False
    then have "replicate_ReconcileDeleting P no_rfaults c name obj w = Some (None, w\<lparr>rw_map := m'\<rparr>)"
      using key absent m'(1) none
      by (simp add: replicate_ReconcileDeleting_def api_get_def RemoveFinalizer_def Let_def)
    then show ?thesis
      using m'(2) False obj by (auto simp: holds_fin_def)
  qed
qed

text \<open>
  C21: When deletion completes, without faults, for a replica that is not being deleted yet and
  does not hold the finalizer of the controller. If it holds no other finalizers either, one
  reconciliation of the source, which is being deleted, removes the replica and the next one the
  finalizer of the source and the recorded original; a source without other finalizers is then
  gone. Otherwise the first reconciliation only marks the replica, and every further one succeeds
  without any change, the source keeping its finalizer, until somebody else releases those of
  the replica.
\<close>

theorem deletion_completes:
  assumes key: "replica_key P c name = Some key" "(cl_client (rs_target P), key) \<noteq> (cl_client c, name)"
    and obj: "at (cl_client c) name w = Some obj" "ob_deletion (ro_meta obj) \<noteq> None"
    and rep: "at (cl_client (rs_target P)) key w = Some tgt" "rs_finalizer P \<notin> set (ob_finalizers (ro_meta tgt))"
      "ob_deletion (ro_meta tgt) = None"
  shows "\<exists>w1. replicate_ReconcileDeleting P no_rfaults c name obj w = Some (None, w1) \<and> at (cl_client c) name w1 = Some obj \<and>
    (if ob_finalizers (ro_meta tgt) = []
     then at (cl_client (rs_target P)) key w1 = None \<and>
       (\<exists>w2. replicate_ReconcileDeleting P no_rfaults c name obj w1 = Some (None, w2) \<and>
          \<not> holds_fin P (cl_client c) name w2 \<and> GetOriginal (rs_kind P) key (rw_map w2) = None \<and>
          (set (ob_finalizers (ro_meta obj)) = {rs_finalizer P} \<longrightarrow> at (cl_client c) name w2 = None))
     else (\<exists>marked. at (cl_client (rs_target P)) key w1 = Some marked \<and> ob_deletion (ro_meta marked) \<noteq> None) \<and>
       replicate_ReconcileDeleting P no_rfaults c name obj w1 = Some (None, w1))"
proof -
  let ?t = "cl_client (rs_target P)"
  note run = replicate_ReconcileDeleting_def api_get_def api_delete_def RemoveFinalizer_def no_rfaults_def Let_def
    TemporaryProblem_def Succeeded_def
  show ?thesis
  proof (cases "ob_finalizers (ro_meta tgt) = []")
    case True
    have "at (cl_client c) name (discard ?t key w) = Some obj" "at ?t key (discard ?t key w) = None"
      using obj(1) key(2) by auto
    moreover have "replicate_ReconcileDeleting P no_rfaults c name obj w = Some (None, discard ?t key w)"
      using key rep True by (simp add: run)
    ultimately show ?thesis
      using True deleting_absent [OF key(1) _ _ obj(2), of "discard ?t key w"] by (intro exI [of _ "discard ?t key w"]) simp
  next
    case False
    let ?m = "tgt\<lparr>ro_meta := (ro_meta tgt)\<lparr>ob_deletion := Some 0\<rparr>\<rparr>"
    have "replicate_ReconcileDeleting P no_rfaults c name obj w = Some (None, put ?t key ?m w)"
      "replicate_ReconcileDeleting P no_rfaults c name obj (put ?t key ?m w) = Some (None, put ?t key ?m w)"
      using key rep False by (simp_all add: run)
    then show ?thesis
      using False key(2) obj(1) by (intro exI [of _ "put ?t key ?m w"]) auto
  qed
qed

text \<open>
  C34: Two defects of the cleanup. The finalizer of a replica is removed through the client of
  the source cluster: where no object with its key is found there, the reconciliation of the dying
  source reports success and changes nothing, so that the replica is not deleted however often it is
  repeated. And the finalizer of the source is released before the mapping is cleaned up: if
  that fails and the replica is gone, the source is removed and the recorded original kept, and
  the repeated reconciliation, which finds no object any more, changes nothing.
\<close>

theorem cleanup_lost:
  assumes key: "replica_key P c name = Some key"
    and obj: "at (cl_client c) name w = Some obj" "ob_deletion (ro_meta obj) \<noteq> None"
  shows "(at (cl_client (rs_target P)) key w = Some tgt \<and> rs_finalizer P \<in> set (ob_finalizers (ro_meta tgt)) \<and>
      at (cl_client c) key w = None \<longrightarrow>
      replicate_ReconcileDeleting P no_rfaults c name obj w = Some (None, w)) \<and>
    (at (cl_client (rs_target P)) key w = None \<and> ob_finalizers (ro_meta obj) = [rs_finalizer P] \<and>
      rf_get f = None \<and> rf_source_patch f = None \<and>
      RemoveOriginal (rf_spaces f) (rs_kind P) key (rw_map w) = (Some prob, rw_map w) \<longrightarrow>
      (\<exists>w'. replicate_ReconcileDeleting P f c name obj w = Some (Some prob, w') \<and>
         at (cl_client c) name w' = None \<and> rw_map w' = rw_map w \<and>
         replicate_ReconcileDeleted w' = Some (None, w')))"
proof (intro conjI impI)
  assume a: "at (cl_client (rs_target P)) key w = Some tgt \<and> rs_finalizer P \<in> set (ob_finalizers (ro_meta tgt)) \<and>
      at (cl_client c) key w = None"
  then show "replicate_ReconcileDeleting P no_rfaults c name obj w = Some (None, w)"
    using key
    by (simp add: replicate_ReconcileDeleting_def api_get_def api_finalizers_def RemoveFinalizer_def no_rfaults_def Let_def
        IgnoreNotFound_def TemporaryProblem_def)
next
  assume a: "at (cl_client (rs_target P)) key w = None \<and> ob_finalizers (ro_meta obj) = [rs_finalizer P] \<and>
      rf_get f = None \<and> rf_source_patch f = None \<and>
      RemoveOriginal (rf_spaces f) (rs_kind P) key (rw_map w) = (Some prob, rw_map w)"
  let ?w = "discard (cl_client c) name w"
  have "api_finalizers None (cl_client c) name [] w = (Inr (obj\<lparr>ro_meta := (ro_meta obj)\<lparr>ob_finalizers := []\<rparr>\<rparr>), ?w)"
    using obj by (auto simp: api_finalizers_def)
  moreover have "rw_map ?w = rw_map w" "?w\<lparr>rw_map := rw_map w\<rparr> = ?w"
    by (simp_all add: discard_def)
  ultimately have "replicate_ReconcileDeleting P f c name obj w = Some (Some prob, ?w)"
    using a key by (simp add: replicate_ReconcileDeleting_def api_get_def RemoveFinalizer_def Let_def)
  then show "\<exists>w'. replicate_ReconcileDeleting P f c name obj w = Some (Some prob, w') \<and>
         at (cl_client c) name w' = None \<and> rw_map w' = rw_map w \<and>
         replicate_ReconcileDeleted w' = Some (None, w')"
    by (intro exI [of _ ?w]) (simp add: replicate_ReconcileDeleted_def Succeeded_def, simp add: discard_def)
qed

section \<open>Witnesses\<close>

definition demo_setup :: rsetup where
  "demo_setup =
     \<lparr>rs_sha256 = (\<lambda>_. List.replicate 64 (CHR ''a'')), rs_objects = demo_k8s, rs_owner_type = ''o'', rs_target = cl_B,
      rs_kind = \<lparr>gk_group = ''core'', gk_kind = ''ConfigMap''\<rparr>, rs_finalizer = ''fin'', rs_annotation = ''class'', rs_class = ''x''\<rparr>"

definition demo_name :: namespaced_name where
  "demo_name = \<lparr>nn_namespace = ''default'', nn_name = ''s''\<rparr>"

definition demo_place :: namespaced_name where
  "demo_place = \<lparr>nn_namespace = ''replica-default-id--a-aaaaaaaa'', nn_name = ''s''\<rparr>"

definition demo_source :: "string list \<Rightarrow> nat option \<Rightarrow> demo_tree robj" where
  "demo_source fins d =
     \<lparr>ro_meta = demo_object\<lparr>ob_kind := ''ConfigMap'', ob_namespace := ''default'', ob_annotations := Some [(''class'', ''x'')],
        ob_finalizers := fins, ob_deletion := d\<rparr>, ro_data = [(''data'', [([''k''], ''v'')])]\<rparr>"

definition demo_rworld :: "demo_tree robj \<Rightarrow> demo_tree robj option \<Rightarrow> demo_tree rworld" where
  "demo_rworld src rep =
     \<lparr>rw_store = ((cl_client cl_A, demo_name), src) # (case rep of None \<Rightarrow> [] | Some r \<Rightarrow> [((cl_client cl_B, demo_place), r)]),
      rw_map = \<lparr>types = [], spaces = [(nn_namespace demo_place, False)]\<rparr>\<rparr>"

definition demo_replica :: "string list \<Rightarrow> demo_tree robj" where
  "demo_replica fins =
     \<lparr>ro_meta = demo_object\<lparr>ob_kind := ''ConfigMap'', ob_namespace := nn_namespace demo_place, ob_finalizers := fins\<rparr>, ro_data = [(''binaryData'', [([''b''], ''w'')])]\<rparr>"

lemma demo_key: "replica_key demo_setup cl_A demo_name = Some demo_place"
  by code_simp

lemma demo_apart: "apart demo_setup {(cl_A, ''default'')}"
proof -
  have "rspace demo_setup cl_A ''default'' = Some ''replica-default-id--a-aaaaaaaa''"
    by code_simp
  then show ?thesis
    by (simp add: apart_def)
qed

lemma demo_refs: "refs_only demo_k8s"
  by (auto simp: refs_only_def demo_k8s_def object_key_def)

theorem replicate_no_orphans_witness:
  "\<exists>w1. (rstep demo_fields demo_lib demo_setup {(cl_A, ''default'')})\<^sup>*\<^sup>* (demo_rworld (demo_source [] None) None) w1 \<and>
     at (cl_client cl_B) demo_place w1 \<noteq> None \<and> holds_fin demo_setup (cl_client cl_A) demo_name w1"
proof -
  let ?w = "demo_rworld (demo_source [] None) None"
  have "map_option (\<lambda>(p, w). (p, at (cl_client cl_B) demo_place w \<noteq> None))
      (replicate_Reconcile demo_fields demo_lib demo_setup no_rfaults cl_A demo_name (demo_source [] None) ?w) = Some (None, True)"
    by code_simp
  then obtain w1 where run: "replicate_Reconcile demo_fields demo_lib demo_setup no_rfaults cl_A demo_name (demo_source [] None) ?w =
      Some (None, w1)" "at (cl_client cl_B) demo_place w1 \<noteq> None"
    by auto
  have "rstep demo_fields demo_lib demo_setup {(cl_A, ''default'')} ?w w1"
    by (rule rstep.reconcile [OF _ _ _ _ _ run(1)])
      (simp_all add: demo_name_def honest_def no_rfaults_def demo_rworld_def demo_source_def demo_object_def object_key_def)
  then have steps: "(rstep demo_fields demo_lib demo_setup {(cl_A, ''default'')})\<^sup>*\<^sup>* ?w w1"
    by (rule r_into_rtranclp)
  have "no_orphans demo_setup {(cl_A, ''default'')} ?w"
    by (auto simp: no_orphans_def demo_setup_def demo_rworld_def cl_A_def cl_B_def)
  then have "no_orphans demo_setup {(cl_A, ''default'')} w1"
    using replicate_no_orphans [OF steps _ demo_apart] demo_refs by (simp add: demo_setup_def)
  then have "holds_fin demo_setup (cl_client cl_A) demo_name w1"
    using run(2) demo_key unfolding no_orphans_def by (auto simp: demo_setup_def demo_name_def)
  then show ?thesis
    using steps run(2) by blast
qed

theorem deletion_completes_witness:
  "(\<exists>w1 w2. replicate_ReconcileDeleting demo_setup no_rfaults cl_A demo_name (demo_source [''fin''] (Some 3))
       (demo_rworld (demo_source [''fin''] (Some 3)) (Some (demo_replica []))) = Some (None, w1) \<and>
     replicate_ReconcileDeleting demo_setup no_rfaults cl_A demo_name (demo_source [''fin''] (Some 3)) w1 = Some (None, w2) \<and>
     at (cl_client cl_A) demo_name w2 = None) \<and>
   (\<exists>w1. replicate_ReconcileDeleting demo_setup no_rfaults cl_A demo_name (demo_source [''fin''] (Some 3))
       (demo_rworld (demo_source [''fin''] (Some 3)) (Some (demo_replica [''other'']))) = Some (None, w1) \<and>
     replicate_ReconcileDeleting demo_setup no_rfaults cl_A demo_name (demo_source [''fin''] (Some 3)) w1 = Some (None, w1) \<and>
     at (cl_client cl_B) demo_place w1 \<noteq> None)"
proof -
  let ?o = "demo_source [''fin''] (Some 3)" and ?w = "\<lambda>fins. demo_rworld (demo_source [''fin''] (Some 3)) (Some (demo_replica fins))"
  have facts: "(cl_client (rs_target demo_setup), demo_place) \<noteq> (cl_client cl_A, demo_name)"
    "at (cl_client cl_A) demo_name (?w fins) = Some ?o" "ob_deletion (ro_meta ?o) \<noteq> None"
    "at (cl_client (rs_target demo_setup)) demo_place (?w fins) = Some (demo_replica fins)"
    "rs_finalizer demo_setup \<notin> set (ob_finalizers (ro_meta (demo_replica fins)))"
    "ob_deletion (ro_meta (demo_replica fins)) = None" "ob_finalizers (ro_meta (demo_replica fins)) = fins"
    if "''fin'' \<notin> set fins" for fins
    using that by (simp_all add: demo_setup_def cl_A_def cl_B_def demo_rworld_def demo_source_def demo_replica_def demo_object_def)
  have fin: "set (ob_finalizers (ro_meta ?o)) = {rs_finalizer demo_setup}" "rs_target demo_setup = cl_B"
    "''fin'' \<notin> set []" "''fin'' \<notin> set [''other'']"
    by (simp_all add: demo_source_def demo_setup_def)
  show ?thesis
    using deletion_completes [OF demo_key facts(1-6) [OF fin(3)]] facts(7) [OF fin(3)]
      deletion_completes [OF demo_key facts(1-6) [OF fin(4)]] facts(7) [OF fin(4)]
    unfolding fin(2) by (auto simp: fin(1))
qed


text \<open>A replica that holds the finalizer stays for ever; an original stays when its namespace could not be removed.\<close>

theorem cleanup_lost_witness:
  "replicate_ReconcileDeleting demo_setup no_rfaults cl_A demo_name (demo_source [''fin''] (Some 3))
     (demo_rworld (demo_source [''fin''] (Some 3)) (Some (demo_replica [''fin'']))) =
     Some (None, demo_rworld (demo_source [''fin''] (Some 3)) (Some (demo_replica [''fin'']))) \<and>
   (\<exists>w'. replicate_ReconcileDeleting demo_setup
       (no_rfaults\<lparr>rf_spaces := \<lparr>get_fault = None, create_fault = None, delete_fault = Some (External 1)\<rparr>\<rparr>) cl_A demo_name
       (demo_source [''fin''] (Some 3)) (demo_rworld (demo_source [''fin''] (Some 3)) None) =
       Some (TemporaryProblem (Some (External 1)), w') \<and> at (cl_client cl_A) demo_name w' = None)"
proof -
  let ?o = "demo_source [''fin''] (Some 3)" and ?w1 = "demo_rworld (demo_source [''fin''] (Some 3)) (Some (demo_replica [''fin'']))"
    and ?w2 = "demo_rworld (demo_source [''fin''] (Some 3)) None"
    and ?f = "no_rfaults\<lparr>rf_spaces := \<lparr>get_fault = None, create_fault = None, delete_fault = Some (External 1)\<rparr>\<rparr>"
  have obj: "at (cl_client cl_A) demo_name ?w1 = Some ?o" "at (cl_client cl_A) demo_name ?w2 = Some ?o" "ob_deletion (ro_meta ?o) \<noteq> None"
    by (simp_all add: demo_rworld_def demo_source_def)
  have one: "at (cl_client (rs_target demo_setup)) demo_place ?w1 = Some (demo_replica [''fin'']) \<and>
      rs_finalizer demo_setup \<in> set (ob_finalizers (ro_meta (demo_replica [''fin'']))) \<and> at (cl_client cl_A) demo_place ?w1 = None"
    by code_simp
  have prob: "TemporaryProblem (Some (External 1)) = Some \<lparr>p_requeue = True, p_problem = None, p_err = Some (External 1)\<rparr>"
    by (simp add: TemporaryProblem_def)
  have two: "at (cl_client (rs_target demo_setup)) demo_place ?w2 = None \<and> ob_finalizers (ro_meta ?o) = [rs_finalizer demo_setup] \<and>
      rf_get ?f = None \<and> rf_source_patch ?f = None \<and>
      RemoveOriginal (rf_spaces ?f) (rs_kind demo_setup) demo_place (rw_map ?w2) =
        (Some \<lparr>p_requeue = True, p_problem = None, p_err = Some (External 1)\<rparr>, rw_map ?w2)"
    by code_simp
  show ?thesis
    unfolding prob
    using cleanup_lost [OF demo_key obj(1,3), THEN conjunct1, rule_format, OF one]
      cleanup_lost [OF demo_key obj(2,3), THEN conjunct2, rule_format, OF two] by blast
qed

end
