(* ===== verification/Reconcilers.thy ===== *)
theory Reconcilers
  imports Replicate Triggers
begin

text \<open>
  The generic reconciler with its state (controllerutils/reconciler/request.go): the choice of
  the cluster, the request handed to the logic, and the factories that create reconcilers
  (factories, logic). It threads the world the logic works on, and is composed with the wrapper
  of the controllers (\<open>Triggers\<close>) and with the replicating logic (\<open>Replicate\<close>).
\<close>

section \<open>Requests\<close>

text \<open>A request; the owner handler is the type of its annotations, \<open>None\<close> the \<open>nil\<close> object.\<close>

record 'o base_request =
  br_controller :: ctl_view
  br_context :: ctx_info
  br_cluster :: cluster
  br_recorder :: string
  br_owners :: string
  br_logger :: string
  br_request :: mc_request
  br_object :: "'o option"
  br_orig :: "'o option"
  br_after :: int

text \<open>
  What the request uses of the cluster and of the objects: the cache, reading, writing the
  status, and the fields read by reflection. \<open>ra_diff\<close> is the comparison of go-test/deep.
\<close>

datatype 'o get_result = Found 'o | NotFound | GetFailed gerror

datatype update_result = Updated | UpdateNotFound | UpdateFailed gerror

record ('o, 's, 'w) req_api =
  ra_sync :: "cluster \<Rightarrow> 'w \<Rightarrow> bool \<times> 'w"
  ra_get :: "cluster \<Rightarrow> namespaced_name \<Rightarrow> 'w \<Rightarrow> 'o get_result"
  ra_update :: "cluster \<Rightarrow> 'o \<Rightarrow> 'w \<Rightarrow> (update_result \<times> 'o) \<times> 'w"
  ra_deleting :: "'o \<Rightarrow> bool"
  ra_status :: "'o \<Rightarrow> 's option"
  ra_diff :: "'s \<Rightarrow> 's \<Rightarrow> string list"

text \<open>The interface \<open>ReconcileRequest\<close>: the request it embeds and its methods, which may change it.\<close>

record ('o, 'w) rec_request =
  q_base :: "'o base_request"
  q_Reconcile :: "'o base_request \<Rightarrow> 'w \<Rightarrow> (problem option \<times> 'o base_request \<times> 'w) option"
  q_ReconcileDeleting :: "'o base_request \<Rightarrow> 'w \<Rightarrow> (problem option \<times> 'o base_request \<times> 'w) option"
  q_ReconcileDeleted :: "'o base_request \<Rightarrow> 'w \<Rightarrow> (problem option \<times> 'o base_request \<times> 'w) option"
  q_StatusChanged :: "'o base_request \<Rightarrow> bool option"
  q_UpdateStatus :: "'o base_request \<Rightarrow> 'w \<Rightarrow> (problem option \<times> 'o base_request \<times> 'w) option"
  q_TriggerStatusChanged :: "'o base_request \<Rightarrow> 'w \<Rightarrow> 'w"

definition GetKey :: "'o base_request \<Rightarrow> namespaced_name" where
  "GetKey r = mc_object (br_request r)"

definition GetLogicalCluster :: "string \<Rightarrow> 'o base_request \<Rightarrow> cluster_eq option" where
  "GetLogicalCluster name r = set_Get (kv_clusters (br_controller r)) name"

text \<open>Names for generated objects; a missing target cluster is dereferenced, a fleet only if the context has a cluster.\<close>

definition request_GenerateNameFor ::
  "(string \<Rightarrow> string) \<Rightarrow> manager \<Rightarrow> ('o \<Rightarrow> namespaced_name) \<Rightarrow> string \<Rightarrow> string \<Rightarrow> int option \<Rightarrow> 'o base_request \<Rightarrow> string option" where
  "request_GenerateNameFor sha256 mgr key_of tgt pfx len r =
     (case (GetLogicalCluster tgt r, br_object r) of
        (Some ce, Some obj) \<Rightarrow>
          (let ns = nn_namespace (key_of obj); n = nn_name (key_of obj); src = ci_ctx_cluster (br_context r) in
           case ce_AsCluster ce of
             Some cl \<Rightarrow> GenerateNameFor sha256 mgr (br_controller r) src cl pfx ns n len
           | None \<Rightarrow> if src = None then GenerateUniqueName sha256 pfx [] ns n len else None)
      | _ \<Rightarrow> None)"

definition request_StatusChanged :: "('o, 's, 'w) req_api \<Rightarrow> 'o base_request \<Rightarrow> bool option" where
  "request_StatusChanged A r =
     (case br_object r of
        None \<Rightarrow> None
      | Some obj \<Rightarrow>
          (case ra_status A obj of
             None \<Rightarrow> Some False
           | Some n \<Rightarrow>
               (case Option.bind (br_orig r) (ra_status A) of
                  None \<Rightarrow> None
                | Some old \<Rightarrow> Some (ra_diff A n old \<noteq> []))))"

definition request_UpdateStatus ::
  "('o, 's, 'w) req_api \<Rightarrow> 'o base_request \<Rightarrow> 'w \<Rightarrow> (problem option \<times> 'o base_request \<times> 'w) option" where
  "request_UpdateStatus A r w =
     (case br_object r of
        None \<Rightarrow> None
      | Some obj \<Rightarrow>
          (let ((err, obj), w) = ra_update A (br_cluster r) obj w;
               r = r\<lparr>br_object := Some obj\<rparr>
           in case err of
                Updated \<Rightarrow> Some (None, r, w)
              | UpdateNotFound \<Rightarrow> Some (None, r, w)
              | UpdateFailed e \<Rightarrow> Some (TemporaryProblem (Some e), r, w)))"

definition request_TriggerStatusChanged :: "'o base_request \<Rightarrow> 'w \<Rightarrow> 'w" where
  "request_TriggerStatusChanged r w = w"

text \<open>A request whose methods for the status are those of \<open>BaseRequest\<close>.\<close>

definition with_base ::
  "('o, 's, 'w) req_api \<Rightarrow>
   ('o base_request \<Rightarrow> 'w \<Rightarrow> (problem option \<times> 'o base_request \<times> 'w) option) \<Rightarrow>
   ('o base_request \<Rightarrow> 'w \<Rightarrow> (problem option \<times> 'o base_request \<times> 'w) option) \<Rightarrow>
   ('o base_request \<Rightarrow> 'w \<Rightarrow> (problem option \<times> 'o base_request \<times> 'w) option) \<Rightarrow> 'o base_request \<Rightarrow> ('o, 'w) rec_request" where
  "with_base A reconcile deleting deleted def =
     \<lparr>q_base = def, q_Reconcile = reconcile, q_ReconcileDeleting = deleting, q_ReconcileDeleted = deleted,
      q_StatusChanged = request_StatusChanged A, q_UpdateStatus = request_UpdateStatus A,
      q_TriggerStatusChanged = request_TriggerStatusChanged\<rparr>"

text \<open>The conditions of a status, found by reflection: the status may be a pointer.\<close>

datatype 'c status_field =
    No_status
  | Status_value "'c option"
  | Status_pointer "'c option option"

record 'c cond_object =
  co_generation :: int
  co_status :: "'c status_field"

record condition =
  cn_type :: string
  cn_status :: string
  cn_observed :: int

definition SetStatusCondition ::
  "('c \<Rightarrow> condition \<Rightarrow> bool \<times> 'c) \<Rightarrow> 'c cond_object \<Rightarrow> condition \<Rightarrow> (bool \<times> 'c cond_object) option" where
  "SetStatusCondition set_condition obj c =
     (let c = (if cn_observed c = 0 then c\<lparr>cn_observed := co_generation obj\<rparr> else c);
          put_in = (\<lambda>mk conds. let (changed, conds) = set_condition conds c in Some (changed, obj\<lparr>co_status := mk conds\<rparr>))
      in case co_status obj of
           No_status \<Rightarrow> Some (False, obj)
         | Status_value None \<Rightarrow> Some (False, obj)
         | Status_value (Some conds) \<Rightarrow> put_in (\<lambda>x. Status_value (Some x)) conds
         | Status_pointer None \<Rightarrow> None
         | Status_pointer (Some None) \<Rightarrow> Some (False, obj)
         | Status_pointer (Some (Some conds)) \<Rightarrow> put_in (\<lambda>x. Status_pointer (Some (Some x))) conds)"

section \<open>The reconciler\<close>

record ('o, 'w) crt_reconciler =
  ct_name :: string
  ct_controller :: ctl_view
  ct_owners :: string
  ct_cluster :: cluster_eq
  ct_logger :: string
  ct_factory :: "'o base_request \<Rightarrow> ('o, 'w) rec_request"
  ct_after :: int

definition CRTReconcilerFor ::
  "ctl_view \<Rightarrow> string \<Rightarrow> string \<Rightarrow> ('o base_request \<Rightarrow> ('o, 'w) rec_request) \<Rightarrow> int list \<Rightarrow> ('o, 'w) crt_reconciler" where
  "CRTReconcilerFor c owners logger r after =
     \<lparr>ct_name = kv_name c, ct_controller = c, ct_owners = owners, ct_cluster = kv_cluster c, ct_logger = logger,
      ct_factory = r, ct_after = (case after of [] \<Rightarrow> 0 | a # _ \<Rightarrow> a)\<rparr>"

text \<open>
  The cluster of a request, its name and a prefix for the logger: the cluster of the context
  counts only where the main cluster is a fleet, a missing one ends in a nil dereference.
\<close>

definition request_target :: "cluster_eq \<Rightarrow> ctx_info \<Rightarrow> (cluster \<times> string \<times> string) option" where
  "request_target main ctx =
     (case ce_AsCluster main of
        Some cl \<Rightarrow> Some (cl, cluster_GetName cl, [])
      | None \<Rightarrow>
          (case ci_ctx_cluster ctx of
             None \<Rightarrow> None
           | Some cl \<Rightarrow> Some (cl, ci_ctx_name ctx, cluster_GetLocalName cl @ ''/'')))"

definition new_request ::
  "('o, 'w) crt_reconciler \<Rightarrow> ctx_info \<Rightarrow> namespaced_name \<Rightarrow> cluster \<times> string \<times> string \<Rightarrow> 'o base_request" where
  "new_request d ctx key t =
     (let (cl, clusterName, fleetprefix) = t in
      \<lparr>br_controller = ct_controller d, br_context = ctx, br_cluster = cl, br_recorder = ct_name d,
       br_owners = ct_owners d,
       br_logger = ct_logger d @ ''/'' @ fleetprefix @ nn_namespace key @ ''/'' @ nn_name key,
       br_request = \<lparr>mc_cluster = clusterName, mc_object = key\<rparr>,
       br_object = None, br_orig = None, br_after = ct_after d\<rparr>)"

definition settle_status ::
  "('o, 'w) rec_request \<Rightarrow> problem option \<Rightarrow> 'o base_request \<Rightarrow> 'w \<Rightarrow> (problem option \<times> 'o base_request \<times> 'w) option" where
  "settle_status q prob r w =
     (case q_StatusChanged q r of
        None \<Rightarrow> None
      | Some False \<Rightarrow> Some (prob, r, w)
      | Some True \<Rightarrow>
          (case q_UpdateStatus q r w of
             None \<Rightarrow> None
           | Some (p, r, w) \<Rightarrow>
               (let prob = AggregateProblem [prob, p]
                in Some (prob, r, if prob = None then q_TriggerStatusChanged q r w else w))))"

definition crtReconciler_Reconcile ::
  "('o, 's, 'w) req_api \<Rightarrow> ('o, 'w) crt_reconciler \<Rightarrow> ctx_info \<Rightarrow> namespaced_name \<Rightarrow> 'w \<Rightarrow>
   ((ctrl_result \<times> gerror option) \<times> 'w) option" where
  "crtReconciler_Reconcile A d ctx key w =
     (case request_target (ct_cluster d) ctx of
        None \<Rightarrow> None
      | Some t \<Rightarrow>
          (let (synced, w) = ra_sync A (fst t) w;
               req = new_request d ctx key t
           in case ra_get A (br_cluster req) key w of
                NotFound \<Rightarrow>
                  (let q = ct_factory d req in
                   map_option (\<lambda>(prob, r, w). (Result prob 0, w)) (q_ReconcileDeleted q (q_base q) w))
              | GetFailed err \<Rightarrow> Some ((no_result, Some err), w)
              | Found obj \<Rightarrow>
                  (let q = ct_factory d (req\<lparr>br_orig := Some obj, br_object := Some obj\<rparr>) in
                   case br_object (q_base q) of
                     None \<Rightarrow> None
                   | Some obj \<Rightarrow>
                       Option.bind
                         (if ra_deleting A obj then q_ReconcileDeleting q (q_base q) w else q_Reconcile q (q_base q) w)
                         (\<lambda>(prob, r, w). map_option (\<lambda>(prob, r, w). (Result prob (br_after r), w))
                            (settle_status q prob r w)))))"

text \<open>The default request does nothing; a reconciler made of a function keeps the function but never calls it.\<close>

definition DefaultReconcileRequest ::
  "('o, 's, 'w) req_api \<Rightarrow> 'o base_request \<Rightarrow> ('o, 'w) rec_request" where
  "DefaultReconcileRequest A = with_base A (\<lambda>r w. Some (None, r, w)) (\<lambda>r w. Some (None, r, w)) (\<lambda>r w. Some (None, r, w))"

definition ReconciliationByReconcileFunc ::
  "('o, 's, 'w) req_api \<Rightarrow> ctl_view \<Rightarrow> string \<Rightarrow> string \<Rightarrow>
   (('o, 'w) rec_request \<Rightarrow> 'w \<Rightarrow> problem option \<times> 'w) \<Rightarrow> ('o, 'w) crt_reconciler" where
  "ReconciliationByReconcileFunc A c owners logger f = CRTReconcilerFor c owners logger (DefaultReconcileRequest A) [0]"

definition DefaultFactory_CreateReconciler ::
  "('p \<Rightarrow> 'o base_request \<Rightarrow> ('o, 'w) rec_request) \<Rightarrow> 'p \<Rightarrow> ctl_view \<Rightarrow> string \<Rightarrow> string \<Rightarrow> ('o, 'w) crt_reconciler" where
  "DefaultFactory_CreateReconciler factory opts c owners logger = CRTReconcilerFor c owners logger (factory opts) []"

section \<open>Factories with options and settings\<close>

record ('p, 's) support_reconciler =
  sr_controller :: ctl_view
  sr_gk :: group_kind
  sr_fieldmanager :: string
  sr_finalizer :: string
  sr_owners :: string
  sr_options :: 'p
  sr_settings :: 's

text \<open>
  The options may provide an owner handler and a method that changes the finalizer; a missing
  settings factory gives the zero settings \<open>fc_zero\<close>.
\<close>

record ('p, 's, 'o, 'w) rec_factory_def =
  fc_options :: "'p"
  fc_handler :: "'p \<Rightarrow> (cluster_eq \<Rightarrow> string option) option"
  fc_modifier :: "'p \<Rightarrow> (string \<Rightarrow> string) option"
  fc_settings :: "('p \<Rightarrow> ctl_view \<Rightarrow> 's result option) option"
  fc_zero :: 's
  fc_request :: "'o base_request \<Rightarrow> ('p, 's) support_reconciler \<Rightarrow> ('o, 'w) rec_request"

definition ModifyFinalizer :: "('p, 's, 'o, 'w) rec_factory_def \<Rightarrow> string \<Rightarrow> string" where
  "ModifyFinalizer fc f = (case fc_modifier fc (fc_options fc) of Some m \<Rightarrow> m f | None \<Rightarrow> f)"

definition CreateReconciler ::
  "(cluster_eq \<Rightarrow> group_kind list result) \<Rightarrow> string \<Rightarrow> ('p, 's, 'o, 'w) rec_factory_def \<Rightarrow> ctl_view \<Rightarrow> string \<Rightarrow> string \<Rightarrow>
   (('p, 's) support_reconciler \<times> ('o, 'w) crt_reconciler) result option" where
  "CreateReconciler object_kinds standard fc c owners logger =
     (case (case fc_settings fc of None \<Rightarrow> Some (Inr (fc_zero fc)) | Some f \<Rightarrow> f (fc_options fc) c) of
        None \<Rightarrow> None
      | Some (Inl err) \<Rightarrow> Some (Inl err)
      | Some (Inr st) \<Rightarrow>
          (case object_kinds (kv_cluster c) of
             Inl err \<Rightarrow> Some (Inl err)
           | Inr [] \<Rightarrow> None
           | Inr (gk # _) \<Rightarrow>
               (let oh = (case fc_handler fc (fc_options fc) of None \<Rightarrow> None | Some p \<Rightarrow> p (kv_cluster c));
                    r = \<lparr>sr_controller = c, sr_gk = gk, sr_fieldmanager = kv_manager c @ ''/'' @ kv_name c,
                         sr_finalizer = kv_finalizer c, sr_owners = (case oh of None \<Rightarrow> standard | Some h \<Rightarrow> h),
                         sr_options = fc_options fc, sr_settings = st\<rparr>
                in Some (Inr (r, CRTReconcilerFor c owners logger (\<lambda>def. fc_request fc def r) [0])))))"

text \<open>The factory as the controllers of \<open>Controllers\<close> use it.\<close>

definition as_rec_factory ::
  "(cluster_eq \<Rightarrow> group_kind list result) \<Rightarrow> string \<Rightarrow> ('p, 's, 'o, 'w) rec_factory_def \<Rightarrow> gerror option option \<Rightarrow> rec_factory" where
  "as_rec_factory object_kinds standard fc validate =
     \<lparr>rf_create = (\<lambda>c. case CreateReconciler object_kinds standard fc c [] [] of Some (Inl err) \<Rightarrow> Some err | _ \<Rightarrow> None),
      rf_finalizer = Some (ModifyFinalizer fc), rf_validate = validate\<rparr>"

text \<open>The logic of package logic: its three functions get the request with the support reconciler.\<close>

record ('p, 's, 'o, 'w) rec_logic =
  lg_settings :: "'p \<Rightarrow> ctl_view \<Rightarrow> 's result option"
  lg_Reconcile :: "('p, 's) support_reconciler \<Rightarrow> 'o base_request \<Rightarrow> 'w \<Rightarrow> (problem option \<times> 'o base_request \<times> 'w) option"
  lg_ReconcileDeleting :: "('p, 's) support_reconciler \<Rightarrow> 'o base_request \<Rightarrow> 'w \<Rightarrow> (problem option \<times> 'o base_request \<times> 'w) option"
  lg_ReconcileDeleted :: "('p, 's) support_reconciler \<Rightarrow> 'o base_request \<Rightarrow> 'w \<Rightarrow> (problem option \<times> 'o base_request \<times> 'w) option"

definition logic_New ::
  "('o, 'x, 'w) req_api \<Rightarrow> ('p, 's, 'o, 'w) rec_logic \<Rightarrow> 'p \<Rightarrow> ('p \<Rightarrow> (cluster_eq \<Rightarrow> string option) option) \<Rightarrow>
   ('p \<Rightarrow> (string \<Rightarrow> string) option) \<Rightarrow> 's \<Rightarrow> ('p, 's, 'o, 'w) rec_factory_def" where
  "logic_New A fac opts handler modifier zero =
     \<lparr>fc_options = opts, fc_handler = handler, fc_modifier = modifier, fc_settings = Some (lg_settings fac), fc_zero = zero,
      fc_request = (\<lambda>def r. with_base A (lg_Reconcile fac r) (lg_ReconcileDeleting fac r) (lg_ReconcileDeleted fac r) def)\<rparr>"

section \<open>The replicating controller\<close>

text \<open>
  The options, the settings and the logic of examples/simple. The world is that of
  \<open>Replicate\<close> with the state of the caches; config maps have no status.
\<close>

record replicate_options =
  op_annotation :: string
  op_class :: string

definition Options_Validate :: "replicate_options \<Rightarrow> gerror option" where
  "Options_Validate o' = (if op_annotation o' = [] then Some (Errorf ''annotation name is required'' []) else None)"

definition indexerFactory :: "replicate_options \<Rightarrow> kobject \<Rightarrow> string list" where
  "indexerFactory o' obj =
     (case ob_annotations obj of
        None \<Rightarrow> []
      | Some annos \<Rightarrow> (case gget annos (op_annotation o') of None \<Rightarrow> [] | Some c \<Rightarrow> [c]))"

definition replicate_CreateSettings ::
  "(string \<Rightarrow> string) \<Rightarrow> k8s_objects \<Rightarrow> replicate_options \<Rightarrow> ctl_view \<Rightarrow> rsetup result option" where
  "replicate_CreateSettings sha256 x o' c =
     (case (set_Get (kv_clusters c) ''source'', set_Get (kv_clusters c) ''target'') of
        (Some src, Some tgt) \<Rightarrow>
          map_option (\<lambda>target. Inr
            \<lparr>rs_sha256 = sha256, rs_objects = x, rs_owner_type = [], rs_target = cl_of target, rs_kind = kv_gk c,
             rs_finalizer = kv_finalizer c, rs_annotation = op_annotation o', rs_class = op_class o'\<rparr>) (ce_AsCluster tgt)
      | _ \<Rightarrow> None)"

type_synonym 'd caches_world = "'d rworld \<times> (nat \<Rightarrow> unit cluster_runtime)"

definition request_setup :: "(replicate_options, rsetup) support_reconciler \<Rightarrow> 'o base_request \<Rightarrow> rsetup" where
  "request_setup r b = (sr_settings r)\<lparr>rs_owner_type := br_owners b, rs_finalizer := sr_finalizer r\<rparr>"

definition on_object ::
  "('d robj \<Rightarrow> 'd rworld \<Rightarrow> (problem option \<times> 'd rworld) option) \<Rightarrow> 'd robj base_request \<Rightarrow> 'd caches_world \<Rightarrow>
   (problem option \<times> 'd robj base_request \<times> 'd caches_world) option" where
  "on_object f b w =
     Option.bind (br_object b) (\<lambda>obj. map_option (\<lambda>(p, w'). (p, b, w', snd w)) (f obj (fst w)))"

definition replicate_logic ::
  "('e, 's) field_sets \<Rightarrow> ('s, 'v, 'd, 'c) typed_lib \<Rightarrow> (string \<Rightarrow> string) \<Rightarrow> k8s_objects \<Rightarrow> rfaults \<Rightarrow>
   (replicate_options, rsetup, 'd robj, 'd caches_world) rec_logic" where
  "replicate_logic F T sha256 x f =
     \<lparr>lg_settings = replicate_CreateSettings sha256 x,
      lg_Reconcile = (\<lambda>r b. on_object (replicate_Reconcile F T (request_setup r b) f (cl_of (br_cluster b)) (GetKey b)) b),
      lg_ReconcileDeleting = (\<lambda>r b. on_object (replicate_ReconcileDeleting (request_setup r b) f (cl_of (br_cluster b)) (GetKey b)) b),
      lg_ReconcileDeleted = (\<lambda>r b w. map_option (\<lambda>(p, w'). (p, b, w', snd w)) (replicate_ReconcileDeleted (fst w)))\<rparr>"

definition caches_api ::
  "gerror option \<Rightarrow> (cluster \<Rightarrow> bool) \<Rightarrow> (cluster \<Rightarrow> bool) \<Rightarrow> ('d robj, unit, 'd caches_world) req_api" where
  "caches_api fault synced syncer =
     \<lparr>ra_sync = (\<lambda>c w.
        let k = bc_client (cluster_GetEffective c);
            (b, r) = WaitForCacheSync (synced c) (syncer c) (snd w k)
        in (b, fst w, (snd w)(k := r))),
      ra_get = (\<lambda>c key w.
        case api_get fault (cl_client (cl_of c)) key (fst w) of
          Inr obj \<Rightarrow> Found obj
        | Inl err \<Rightarrow> (if err = not_found then NotFound else GetFailed err)),
      ra_update = (\<lambda>c obj w. ((Updated, obj), w)),
      ra_deleting = (\<lambda>obj. ob_deletion (ro_meta obj) \<noteq> None),
      ra_status = (\<lambda>obj. None),
      ra_diff = (\<lambda>_ _. [])\<rparr>"

section \<open>Lemmas\<close>

lemma crt_reconciler_simps [simp]:
  "ct_cluster (CRTReconcilerFor c owners logger r after) = kv_cluster c"
  "ct_factory (CRTReconcilerFor c owners logger r after) = r"
  "ct_owners (CRTReconcilerFor c owners logger r after) = owners"
  "ct_controller (CRTReconcilerFor c owners logger r after) = c"
  by (simp_all add: CRTReconcilerFor_def)

lemma new_request_simps [simp]:
  "br_cluster (new_request d ctx key (cl, n, p)) = cl"
  "br_request (new_request d ctx key (cl, n, p)) = \<lparr>mc_cluster = n, mc_object = key\<rparr>"
  "br_owners (new_request d ctx key t) = ct_owners d"
  "br_after (new_request d ctx key t) = ct_after d"
  "br_cluster (new_request d ctx key t) = fst t"
  by (simp_all add: new_request_def case_prod_beta)

text \<open>A logic that writes the status with the method of the base request it embeds.\<close>

definition embedded :: "('o, 's, 'w) req_api \<Rightarrow> ('o, 'w) rec_request \<Rightarrow> bool" where
  "embedded A q \<longleftrightarrow> q_UpdateStatus q = request_UpdateStatus A"

lemma embedded_with_base [simp]: "embedded A (with_base A f g h b)"
  by (simp add: embedded_def with_base_def)

text \<open>
  What happens after the logic has returned \<open>p\<close> and the request \<open>r\<close>: an unchanged status leaves
  the world alone; a changed one is written once, whereupon the trigger runs if nothing is wrong.
\<close>

definition status_settled ::
  "('o, 's, 'w) req_api \<Rightarrow> ('o, 'w) rec_request \<Rightarrow> problem option \<Rightarrow> 'o base_request \<Rightarrow> 'w \<Rightarrow>
   ctrl_result \<times> gerror option \<Rightarrow> 'w \<Rightarrow> bool" where
  "status_settled A q p r w res w' \<longleftrightarrow>
     (case q_StatusChanged q r of
        None \<Rightarrow> False
      | Some False \<Rightarrow> w' = w \<and> res = Result p (br_after r)
      | Some True \<Rightarrow>
          (case br_object r of
             None \<Rightarrow> False
           | Some obj \<Rightarrow>
               (let ((u, obj'), w1) = ra_update A (br_cluster r) obj w;
                    failed = (case u of UpdateFailed e \<Rightarrow> True | _ \<Rightarrow> False)
                in w' = (if p = None \<and> \<not> failed then q_TriggerStatusChanged q (r\<lparr>br_object := Some obj'\<rparr>) w1 else w1) \<and>
                   (retried res \<longleftrightarrow> requeues p \<or> failed) \<and>
                   (\<not> failed \<longrightarrow> res = Result (AggregateProblem [p, None]) (br_after r)))))"

lemma settle_status_settles:
  assumes "settle_status q p r w = Some (p', r', w')" "embedded A q"
  shows "status_settled A q p r w (Result p' (br_after r')) w'"
proof -
  have agg: "AggregateProblem [p, q] = None \<longleftrightarrow> p = None \<and> q = None"
    "requeues (AggregateProblem [p, q]) \<longleftrightarrow> requeues p \<or> requeues q" for p q
    by (simp_all add: AggregateProblem_sum)
  have tmp: "(TemporaryProblem (Some e) = None) = False" "requeues (TemporaryProblem (Some e))" "\<not> requeues None" for e
    by (simp_all add: TemporaryProblem_def requeues_def)
  show ?thesis
    using assms
    by (auto simp: settle_status_def status_settled_def embedded_def request_UpdateStatus_def Let_def case_prod_beta
        retried_requeues agg tmp split: option.splits bool.splits update_result.splits)
qed

text \<open>
  C33: The dispatch of a reconciliation that returns, if its requests write the status with the
  method of the base request.
  After the wait for the caches the object is looked up once in the cluster of the request.
  If the lookup fails the error is returned and nothing else happens; if there is no object the
  function for deleted objects runs, and otherwise the one for living or for dying objects, each
  once, on the request made for it. A status that changed is written once, after the logic, and
  a failed write repeats the request; the trigger for a changed status runs only when nothing is
  wrong. The request is repeated exactly when the logic asks for it or the write fails.
\<close>

theorem reconcile_dispatch:
  assumes "crtReconciler_Reconcile A d ctx key w = Some (res, w')"
    and "request_target (ct_cluster d) ctx = Some t" "\<And>b. embedded A (ct_factory d b)"
  shows "case ra_get A (fst t) key (snd (ra_sync A (fst t) w)) of
      GetFailed e \<Rightarrow> res = (no_result, Some e) \<and> w' = snd (ra_sync A (fst t) w)
    | NotFound \<Rightarrow>
        (let q = ct_factory d (new_request d ctx key t) in
         \<exists>p r. q_ReconcileDeleted q (q_base q) (snd (ra_sync A (fst t) w)) = Some (p, r, w') \<and> res = Result p 0)
    | Found obj \<Rightarrow>
        (let q = ct_factory d ((new_request d ctx key t)\<lparr>br_orig := Some obj, br_object := Some obj\<rparr>) in
         \<exists>obj' p r w1. br_object (q_base q) = Some obj' \<and>
           (if ra_deleting A obj' then q_ReconcileDeleting q else q_Reconcile q) (q_base q) (snd (ra_sync A (fst t) w)) =
             Some (p, r, w1) \<and> status_settled A q p r w1 res w')"
proof (cases "ra_get A (fst t) key (snd (ra_sync A (fst t) w))")
  case (Found obj)
  let ?q = "ct_factory d ((new_request d ctx key t)\<lparr>br_orig := Some obj, br_object := Some obj\<rparr>)"
  obtain obj' where obj': "br_object (q_base ?q) = Some obj'"
    using assms(1,2) Found by (auto simp: crtReconciler_Reconcile_def case_prod_beta Let_def split: option.splits)
  obtain p r w1 p2 r2 where run: "(if ra_deleting A obj' then q_ReconcileDeleting ?q else q_Reconcile ?q) (q_base ?q)
      (snd (ra_sync A (fst t) w)) = Some (p, r, w1)"
    and st: "settle_status ?q p r w1 = Some (p2, r2, w')" "res = Result p2 (br_after r2)"
    using assms(1,2) Found obj'
    by (auto simp: crtReconciler_Reconcile_def case_prod_beta Let_def bind_eq_Some_conv split: if_splits)
  show ?thesis
    using obj' run settle_status_settles [OF st(1) assms(3)] st(2) by (simp add: Found Let_def)
qed (use assms(1,2) in \<open>auto simp: crtReconciler_Reconcile_def Let_def case_prod_beta split: option.splits\<close>)

text \<open>What a successful creation of the replicating reconciler has set up.\<close>

lemma replicating_created:
  assumes "CreateReconciler gvks std (logic_New A (replicate_logic F T sha256 x f) opts handler modifier zero)
      c owners logger = Some (Inr (r, d))"
  shows "d = CRTReconcilerFor c owners logger (with_base A
      (lg_Reconcile (replicate_logic F T sha256 x f) r) (lg_ReconcileDeleting (replicate_logic F T sha256 x f) r)
      (lg_ReconcileDeleted (replicate_logic F T sha256 x f) r)) [0]"
    and "br_owners b = owners \<Longrightarrow> request_setup r b = (sr_settings r)\<lparr>rs_owner_type := owners\<rparr>"
  using assms
  by (auto simp: CreateReconciler_def logic_New_def replicate_logic_def replicate_CreateSettings_def request_setup_def Let_def
      split: option.splits sum.splits list.splits)

lemma on_object_run:
  "on_object g b w = Some (p, b', w') \<Longrightarrow> \<exists>obj. br_object b = Some obj \<and> g obj (fst w) = Some (p, fst w') \<and> b' = b"
  by (auto simp: on_object_def bind_eq_Some_conv)

lemma caches_simps [simp]:
  "fst (snd (ra_sync (caches_api fault synced syncer) c w)) = fst w"
  "request_StatusChanged (caches_api fault synced syncer) b = map_option (\<lambda>_. False) (br_object b)"
  by (auto simp: caches_api_def Let_def case_prod_beta request_StatusChanged_def split: option.splits)

lemma with_base_simps [simp]:
  "q_base (with_base A f g h b) = b" "q_Reconcile (with_base A f g h b) = f" "q_ReconcileDeleting (with_base A f g h b) = g"
  "q_ReconcileDeleted (with_base A f g h b) = h" "q_StatusChanged (with_base A f g h b) = request_StatusChanged A"
  by (simp_all add: with_base_def)

lemma crt_run_cases:
  assumes "crtReconciler_Reconcile A d ctx key w = Some (res, w')" "request_target (ct_cluster d) ctx = Some t"
    and "\<And>b. ct_factory d b = with_base A f g h b"
  obtains (deleted) p r where "h (new_request d ctx key t) (snd (ra_sync A (fst t) w)) = Some (p, r, w')"
  | (failed) "w' = snd (ra_sync A (fst t) w)"
  | (found) obj b p r w2 where "ra_get A (fst t) key (snd (ra_sync A (fst t) w)) = Found obj"
      "b = (new_request d ctx key t)\<lparr>br_orig := Some obj, br_object := Some obj\<rparr>"
      "(if ra_deleting A obj then g else f) b (snd (ra_sync A (fst t) w)) = Some (p, r, w2)"
      "request_StatusChanged A r = Some False \<longrightarrow> w' = w2"
proof (cases "ra_get A (fst t) key (snd (ra_sync A (fst t) w))")
  case (Found obj)
  let ?b = "(new_request d ctx key t)\<lparr>br_orig := Some obj, br_object := Some obj\<rparr>"
  obtain p r w2 p2 r2 where "(if ra_deleting A obj then g else f) ?b (snd (ra_sync A (fst t) w)) = Some (p, r, w2)"
    "settle_status (with_base A f g h ?b) p r w2 = Some (p2, r2, w')"
    using assms Found
    by (auto simp: crtReconciler_Reconcile_def case_prod_beta Let_def bind_eq_Some_conv with_base_def split: if_splits)
  then show thesis
    by (intro found [OF Found refl]) (auto simp: settle_status_def with_base_def)
qed (use assms deleted failed in \<open>auto simp: crtReconciler_Reconcile_def case_prod_beta Let_def\<close>)


section \<open>Routing\<close>

text \<open>The request a reconciler makes of a request of the controller; \<open>None\<close> is a nil dereference.\<close>

definition incoming :: "('o, 'w) crt_reconciler \<Rightarrow> mc_request \<Rightarrow> 'o base_request option" where
  "incoming d r =
     Option.bind (wrapper_Reconcile (ct_cluster d)
       (\<lambda>ctx key. map_option (new_request d ctx key) (request_target (ct_cluster d) ctx)) r) id"

lemma incoming_fleet:
  assumes "ct_cluster d = CE_Fleet (KFleet k)"
  shows "incoming d r =
    (if fst (Split (mc_cluster r)) = kf_name k
     then map_option (\<lambda>cl. new_request d (WithClusterAndName (Some cl) (mc_cluster r)) (mc_object r)
            (cl, mc_cluster r, cluster_GetLocalName cl @ ''/'')) (registrations_GetCluster k (snd (Split (mc_cluster r))))
     else None)"
  using assms
  by (auto simp: incoming_def wrapper_Reconcile_def request_target_def WithClusterAndName_def case_prod_beta Let_def
      split: option.splits)

lemma incoming_alias:
  assumes "ct_cluster d = CE_Fleet (FleetAlias a f cache)"
  shows "fst (Split (mc_cluster r)) \<noteq> fleet_GetName f \<Longrightarrow> incoming d r = None"
    "f = KFleet k \<Longrightarrow> kcp_ok k \<Longrightarrow> fst (Split (mc_cluster r)) = kf_name k \<Longrightarrow>
      incoming d r = (let n = Compose a (snd (Split (mc_cluster r))) in
        map_option (\<lambda>cl. new_request d (WithClusterAndName (Some cl) n) (mc_object r)
          (cl, n, cluster_GetLocalName cl @ ''/''))
        (map_option (cluster_NewAlias n) (registrations_GetCluster k (snd (Split (mc_cluster r))))))"
proof -
  show "incoming d r = None" if "fst (Split (mc_cluster r)) \<noteq> fleet_GetName f"
    using assms that by (auto simp: incoming_def wrapper_Reconcile_def case_prod_beta)
  show "incoming d r = (let n = Compose a (snd (Split (mc_cluster r))) in
        map_option (\<lambda>cl. new_request d (WithClusterAndName (Some cl) n) (mc_object r)
          (cl, n, cluster_GetLocalName cl @ ''/''))
        (map_option (cluster_NewAlias n) (registrations_GetCluster k (snd (Split (mc_cluster r))))))"
    if f: "f = KFleet k" "kcp_ok k" "fst (Split (mc_cluster r)) = kf_name k"
  proof -
    let ?n = "snd (Split (mc_cluster r))"
    obtain c f' where look: "fleet_GetClusterByLocalName (FleetAlias a (KFleet k) cache) ?n = (c, f')"
      by fastforce
    then have "c = map_option (cluster_NewAlias (Compose a ?n)) (registrations_GetCluster k ?n)"
      using alias_member [OF f(2), of a cache ?n] by simp
    moreover have "ce_LiftTechnical (ct_cluster d) (mc_cluster r) = Some (Compose a ?n, c)"
      using f look by (simp add: assms case_prod_beta del: fleet_GetClusterByLocalName.simps)
    ultimately show ?thesis
      using f(1) assms
      by (auto simp: incoming_def wrapper_Reconcile_def request_target_def WithClusterAndName_def Let_def split: option.splits)
  qed
qed

text \<open>
  C25: Every request of a controller on a single cluster is reconciled on that cluster under
  its technical name, whatever alias the controller uses and whatever cluster the request
  names. A controller on a fleet reconciles the request of an engaged member on that member
  under the requested name; where it has an alias for the fleet, on the alias for the member and
  under its logical name, whatever the alias has cached. Any other request panics, such as one
  still queued when the member is disengaged.
\<close>

theorem request_routing:
  shows "case ct_cluster d of
      CE_Cluster m \<Rightarrow>
        (\<exists>b. incoming d r = Some b \<and> br_cluster b = cluster_AsCluster m \<and>
           br_request b = \<lparr>mc_cluster = cluster_GetName (cluster_AsCluster m), mc_object = mc_object r\<rparr>)
    | CE_Fleet (FleetAlias a f cache) \<Rightarrow>
        (fst (Split (mc_cluster r)) \<noteq> fleet_GetName f \<longrightarrow> incoming d r = None) \<and>
        (\<forall>k. f = KFleet k \<and> kcp_ok k \<and> fst (Split (mc_cluster r)) = kf_name k \<longrightarrow>
          (let n = Compose a (snd (Split (mc_cluster r)));
               member = registrations_GetCluster k (snd (Split (mc_cluster r)))
           in map_option br_cluster (incoming d r) = map_option (cluster_NewAlias n) member \<and>
              map_option br_request (incoming d r) = map_option (\<lambda>_. \<lparr>mc_cluster = n, mc_object = mc_object r\<rparr>) member))
    | CE_Fleet (KFleet k) \<Rightarrow>
        (let member = (if fst (Split (mc_cluster r)) = kf_name k
                       then registrations_GetCluster k (snd (Split (mc_cluster r))) else None)
         in map_option br_cluster (incoming d r) = member \<and>
            map_option br_request (incoming d r) = map_option (\<lambda>_. r) member) \<and>
        (\<forall>gone. ct_cluster gone = CE_Fleet (KFleet (Disengage (snd (Split (mc_cluster r))) k)) \<longrightarrow>
           incoming gone r = None)"
proof (cases "ct_cluster d")
  case (CE_Cluster m)
  then show ?thesis
    by (auto simp: incoming_def wrapper_Reconcile_def request_target_def case_prod_beta)
next
  case (CE_Fleet f)
  show ?thesis
  proof (cases f)
    case (KFleet k)
    have "incoming gone r = None" if "ct_cluster gone = CE_Fleet (KFleet (Disengage (snd (Split (mc_cluster r))) k))"
      for gone :: "('o, 'w) crt_reconciler"
      by (subst incoming_fleet [OF that]) (simp add: Disengage_def registrations_GetCluster_def)
    then show ?thesis
      using CE_Fleet KFleet incoming_fleet [of d k r]
      by (cases r; cases "registrations_GetCluster k (snd (Split (mc_cluster r)))") (auto simp: Let_def)
  next
    case (FleetAlias a g cache)
    note lifted = incoming_alias(1) [OF CE_Fleet [unfolded FleetAlias], of r]
      incoming_alias(2) [OF CE_Fleet [unfolded FleetAlias]]
    show ?thesis
      unfolding CE_Fleet FleetAlias cluster_eq.case fleet.case
      using lifted by (auto simp: Let_def option.map_comp comp_def)
  qed
qed

section \<open>Default reconcilers\<close>

lemma default_run:
  assumes "request_target (kv_cluster c) ctx = Some t" "\<And>s. ra_diff A s s = []"
  shows "crtReconciler_Reconcile A (CRTReconcilerFor c owners logger (DefaultReconcileRequest A) after) ctx key w =
    (let (synced, w) = ra_sync A (fst t) w
     in Some (case ra_get A (fst t) key w of
          NotFound \<Rightarrow> (Result None 0, w)
        | GetFailed err \<Rightarrow> ((no_result, Some err), w)
        | Found obj \<Rightarrow> (Result None (case after of [] \<Rightarrow> 0 | a # _ \<Rightarrow> a), w)))"
proof -
  have "request_StatusChanged A (b\<lparr>br_orig := Some obj, br_object := Some obj\<rparr>) = Some False" for b obj
    using assms(2) by (auto simp: request_StatusChanged_def split: option.splits)
  then show ?thesis
    using assms(1)
    by (auto simp: crtReconciler_Reconcile_def DefaultReconcileRequest_def Let_def case_prod_beta settle_status_def
        CRTReconcilerFor_def [THEN arg_cong [of _ _ ct_after]] split: get_result.splits)
qed

text \<open>
  A reconciler made of a function never calls it: its results and effects are those for
  any other function, and only a failed read is reported.
\<close>

theorem func_reconciler_idle:
  assumes "request_target (kv_cluster c) ctx = Some t" "\<And>s. ra_diff A s s = []"
  shows "crtReconciler_Reconcile A (ReconciliationByReconcileFunc A c owners logger f) ctx key w =
      crtReconciler_Reconcile A (ReconciliationByReconcileFunc A c owners logger g) ctx key w \<and>
    (\<exists>res w'. crtReconciler_Reconcile A (ReconciliationByReconcileFunc A c owners logger f) ctx key w = Some (res, w') \<and>
       w' = snd (ra_sync A (fst t) w) \<and>
       (ra_get A (fst t) key w' = NotFound \<or> (\<exists>obj. ra_get A (fst t) key w' = Found obj) \<longrightarrow> res = Result None 0))"
  unfolding ReconciliationByReconcileFunc_def default_run [OF assms]
  by (cases "Result None 0") (auto simp: Let_def case_prod_beta split: get_result.splits)

text \<open>
  The creation of a reconciler fails exactly with the settings or the scheme, and never calls
  the modifier of the finalizer, which the definition of the controller does.
\<close>

lemma CreateReconciler_cases:
  "CreateReconciler gvks std fc c owners logger = Some (Inl e) \<longleftrightarrow>
     (\<exists>f. fc_settings fc = Some f \<and> f (fc_options fc) c = Some (Inl e)) \<or>
     (fc_settings fc = None \<or> (\<exists>f st. fc_settings fc = Some f \<and> f (fc_options fc) c = Some (Inr st))) \<and> gvks (kv_cluster c) = Inl e"
  by (auto simp: CreateReconciler_def Let_def split: option.splits sum.splits list.splits)

lemma created_handler:
  assumes "CreateReconciler gvks std fc c owners logger = Some (Inr (r, d))"
  shows "sr_owners r = (case Option.bind (fc_handler fc (fc_options fc)) (\<lambda>p. p (kv_cluster c)) of None \<Rightarrow> std | Some h \<Rightarrow> h)"
    "ct_owners d = owners" "sr_finalizer r = kv_finalizer c" "sr_fieldmanager r = GetFieldManager c"
  using assms
  by (auto simp: CreateReconciler_def Let_def GetFieldManager_def CRTReconcilerFor_def split: option.splits sum.splits list.splits)

text \<open>A name for an object in the cluster of the context is that of a local object.\<close>

lemma request_names_local:
  assumes "GetLogicalCluster tgt r = Some (CE_Cluster m)" "br_object r = Some obj" "ci_ctx_cluster (br_context r) = Some s"
    and "ce_IsSameAs (CE_Cluster m) (CE_Cluster s)"
  shows "request_GenerateNameFor sha256 mgr key_of tgt pfx len r =
    GenerateUniqueName sha256 pfx [] (nn_namespace (key_of obj)) (nn_name (key_of obj)) len"
proof -
  have "cluster_GetEffective (cluster_AsCluster m) = cluster_GetEffective m"
    by (induction m) simp_all
  then show ?thesis
    using assms by (simp add: request_GenerateNameFor_def GenerateNameFor_def)
qed

text \<open>Conditions: the generation of the object is recorded unless one is given.\<close>

lemma SetStatusCondition_generation:
  assumes "co_status obj = Status_value (Some conds)" "cn_observed c = 0"
  shows "SetStatusCondition sc obj c =
    Some (fst (sc conds (c\<lparr>cn_observed := co_generation obj\<rparr>)),
          obj\<lparr>co_status := Status_value (Some (snd (sc conds (c\<lparr>cn_observed := co_generation obj\<rparr>))))\<rparr>)"
  using assms by (simp add: SetStatusCondition_def Let_def case_prod_beta)

section \<open>Witnesses\<close>

definition view_replicate :: ctl_view where
  "view_replicate = view_demo
     \<lparr>kv_clusters := snd (set_Add err_demo [CE_Cluster (ClusterAlias ''source'' cluster_A), CE_Cluster (ClusterAlias ''target'' cluster_B)] newClusters),
      kv_cluster := CE_Cluster (ClusterAlias ''source'' cluster_A), kv_gk := \<lparr>gk_group = ''core'', gk_kind = ''ConfigMap''\<rparr>,
      kv_finalizer := ''fin''\<rparr>"

definition api_demo :: "(demo_tree robj, unit, demo_tree caches_world) req_api" where
  "api_demo = caches_api None (\<lambda>_. True) (\<lambda>_. False)"

definition factory_demo :: "(replicate_options, rsetup, demo_tree robj, demo_tree caches_world) rec_factory_def" where
  "factory_demo = logic_New api_demo (replicate_logic demo_fields demo_lib (\<lambda>_. List.replicate 64 (CHR ''a'')) demo_k8s no_rfaults)
     \<lparr>op_annotation = ''class'', op_class = ''x''\<rparr> (\<lambda>_. None) (\<lambda>_. None) demo_setup"

definition create_demo ::
  "((replicate_options, rsetup) support_reconciler \<times> (demo_tree robj, demo_tree caches_world) crt_reconciler) result option" where
  "create_demo = CreateReconciler (\<lambda>_. Inr [\<lparr>gk_group = ''core'', gk_kind = ''ConfigMap''\<rparr>]) ''std'' factory_demo view_replicate ''o'' ''log''"

definition world_demo :: "string list \<Rightarrow> demo_tree caches_world" where
  "world_demo fins = (demo_rworld (demo_source fins None) None, \<lambda>_. \<lparr>cr_indices = [], cr_started = False, cr_synced = False, cr_syncer_calls = 0\<rparr>)"

definition run_demo :: "((ctrl_result \<times> gerror option) \<times> demo_tree caches_world) option" where
  "run_demo = (case create_demo of
     Some (Inr (r, d)) \<Rightarrow> crtReconciler_Reconcile api_demo d (WithClusterAndName None []) demo_name (world_demo []) | _ \<Rightarrow> None)"

lemma created_demo: "\<exists>r d. create_demo = Some (Inr (r, d)) \<and> (sr_settings r)\<lparr>rs_owner_type := ''o''\<rparr> = demo_setup"
proof -
  have "set_Get (kv_clusters view_replicate) ''source'' = Some (CE_Cluster (ClusterAlias ''source'' cluster_A))"
    "set_Get (kv_clusters view_replicate) ''target'' = Some (CE_Cluster (ClusterAlias ''target'' cluster_B))"
    by code_simp+
  moreover have "cl_of cluster_B = cl_B" "cluster_AsCluster cluster_B = cluster_B"
    by (simp_all add: cl_of_demo) (simp add: cluster_B_def)
  moreover have "kv_gk view_replicate = rs_kind demo_setup" "kv_finalizer view_replicate = rs_finalizer demo_setup"
    by (simp_all add: view_replicate_def demo_setup_def)
  ultimately show ?thesis
    by (simp add: create_demo_def CreateReconciler_def factory_demo_def logic_New_def replicate_logic_def
        replicate_CreateSettings_def demo_setup_def Let_def)
qed

lemma run_demo_result: "\<exists>w' rt'. run_demo = Some ((\<lparr>cr_requeue = False, cr_after = 0\<rparr>, None), w', rt') \<and>
    at (cl_client cl_B) demo_place w' \<noteq> None"
proof -
  have "map_option (\<lambda>(res, w, rt). (res, at (cl_client cl_B) demo_place w \<noteq> None)) run_demo =
      Some ((\<lparr>cr_requeue = False, cr_after = 0\<rparr>, None), True)"
    by code_simp
  then show ?thesis
    by auto
qed


text \<open>A logic that fails and changes the status, which is written and fails as well.\<close>

definition status_api :: "(nat \<times> nat, nat, nat) req_api" where
  "status_api = \<lparr>ra_sync = (\<lambda>_ w. (True, w)), ra_get = (\<lambda>_ _ w. Found (w, 0)), ra_update = (\<lambda>_ obj w. ((UpdateFailed (External 1), obj), Suc w)),
     ra_deleting = (\<lambda>_. False), ra_status = (\<lambda>obj. Some (snd obj)), ra_diff = (\<lambda>a b. if a = b then [] else [''diff''])\<rparr>"

definition status_crt :: "(nat \<times> nat, nat) crt_reconciler" where
  "status_crt = CRTReconcilerFor view_demo ''o'' ''log''
     (with_base status_api (\<lambda>b w. Some (Failed (Some (External 2)), b\<lparr>br_object := Some (7, 7), br_after := 3\<rparr>, w))
        (\<lambda>b w. None) (\<lambda>b w. None)) []"

theorem reconcile_dispatch_witness:
  "\<exists>res. crtReconciler_Reconcile status_api status_crt (WithClusterAndName None []) demo_name 5 = Some (res, 6) \<and> retried res"
proof -
  obtain res where run: "crtReconciler_Reconcile status_api status_crt (WithClusterAndName None []) demo_name 5 = Some (res, 6)"
  proof -
    have "case crtReconciler_Reconcile status_api status_crt (WithClusterAndName None []) demo_name 5 of
        None \<Rightarrow> False | Some (res, w) \<Rightarrow> w = 6"
      by code_simp
    then show thesis
      using that by (auto split: option.splits prod.splits)
  qed
  have target: "request_target (ct_cluster status_crt) (WithClusterAndName None []) = Some (cluster_A, ''A'', [])"
    by code_simp
  have embedded: "embedded status_api (ct_factory status_crt b)" for b
    by (simp add: status_crt_def)
  show ?thesis
    using reconcile_dispatch [OF run target embedded] run
    by (auto simp: status_api_def status_crt_def status_settled_def request_StatusChanged_def with_base_def Let_def)
qed

definition fleet_demo :: kcp_fleet where
  "fleet_demo = snd (Engage None None ''m'' 4 \<lparr>kf_name = ''F'', kf_ref = 0, kf_id = ''IdF'', kf_clusters = []\<rparr>)"

definition on_fleet :: "kcp_fleet \<Rightarrow> (nat \<times> nat, nat) crt_reconciler" where
  "on_fleet k = CRTReconcilerFor (view_demo\<lparr>kv_cluster := CE_Fleet (KFleet k)\<rparr>) ''o'' ''log'' (DefaultReconcileRequest status_api) []"

definition on_alias :: "kcp_fleet \<Rightarrow> (nat \<times> nat, nat) crt_reconciler" where
  "on_alias k = CRTReconcilerFor (view_demo\<lparr>kv_cluster := CE_Fleet (FleetAlias ''src'' (KFleet k) [])\<rparr>) ''o'' ''log''
     (DefaultReconcileRequest status_api) []"

theorem request_routing_witness:
  "map_option br_cluster (incoming (on_fleet fleet_demo) \<lparr>mc_cluster = Compose ''F'' ''m'', mc_object = demo_name\<rparr>) = gget (kf_clusters fleet_demo) ''m'' \<and>
   gget (kf_clusters fleet_demo) ''m'' \<noteq> None \<and>
   incoming (on_fleet (Disengage ''m'' fleet_demo)) \<lparr>mc_cluster = Compose ''F'' ''m'', mc_object = demo_name\<rparr> = None \<and>
   map_option br_request (incoming (on_alias fleet_demo) \<lparr>mc_cluster = Compose ''F'' ''m'', mc_object = demo_name\<rparr>) =
     Some \<lparr>mc_cluster = ''src#m'', mc_object = demo_name\<rparr>"
proof -
  have split: "Split (Compose ''F'' ''m'') = (''F'', ''m'')" "kf_name fleet_demo = ''F''" "gget (kf_clusters fleet_demo) ''m'' \<noteq> None"
    by code_simp+
  have on: "ct_cluster (on_fleet k) = CE_Fleet (KFleet k)" for k
    by (simp add: on_fleet_def)
  let ?r = "\<lparr>mc_cluster = Compose ''F'' ''m'', mc_object = demo_name\<rparr>"
  note routed = request_routing [of "on_fleet fleet_demo" ?r, unfolded on cluster_eq.case fleet.case]
  have "incoming (on_fleet (Disengage ''m'' fleet_demo)) ?r = None"
    using routed [THEN conjunct2, THEN spec [of _ "on_fleet (Disengage ''m'' fleet_demo)"]] split by (simp add: on)
  moreover have "map_option br_cluster (incoming (on_fleet fleet_demo) ?r) = gget (kf_clusters fleet_demo) ''m''"
    using routed [THEN conjunct1] split by (simp add: Let_def registrations_GetCluster_def)
  moreover have "ct_cluster (on_alias fleet_demo) = CE_Fleet (FleetAlias ''src'' (KFleet fleet_demo) [])"
    by (simp add: on_alias_def)
  note aliased = request_routing [of "on_alias fleet_demo" ?r, unfolded this cluster_eq.case fleet.case]
  have "kcp_ok fleet_demo"
    unfolding fleet_demo_def by (intro kcp_ok_ops) (simp add: kcp_ok_def)
  then have "map_option br_request (incoming (on_alias fleet_demo) ?r) = Some \<lparr>mc_cluster = ''src#m'', mc_object = demo_name\<rparr>"
    using aliased [THEN conjunct2, THEN spec [of _ fleet_demo]] split
    by (auto simp: Let_def registrations_GetCluster_def Compose_def)
  ultimately show ?thesis
    using split by simp
qed

end
