(* ===== verification/Fleets.thy ===== *)
theory Fleets
  imports Enqueue Reconcilers
begin

text \<open>
  Fleets at run time (cluster/fleet/fpi, cluster/fleet/kcp, cluster/cluster/cluster.go): the
  creation of the cluster object of a member, the URL of its API server, the dispatch of a
  fleet on the cluster of the context, requests enqueued through a member, and the life of
  engagements with the barrier (barrier.go) that holds back reconciliations.
\<close>

section \<open>Paths\<close>

text \<open>\<open>path.Split\<close>, \<open>path.Clean\<close> and \<open>path.Join\<close> of the Go library.\<close>

definition path_Split :: "string \<Rightarrow> string \<times> string" where
  "path_Split p = (rev (dropWhile (\<lambda>c. c \<noteq> CHR ''/'') (rev p)), rev (takeWhile (\<lambda>c. c \<noteq> CHR ''/'') (rev p)))"

fun clean_elements :: "bool \<Rightarrow> string list \<Rightarrow> string list \<Rightarrow> string list" where
  "clean_elements rooted stack [] = rev stack"
| "clean_elements rooted stack (e # es) =
     (if e = [] \<or> e = ''.'' then clean_elements rooted stack es
      else if e = ''..''
      then (case stack of
              [] \<Rightarrow> clean_elements rooted (if rooted then [] else [''..'']) es
            | t # ts \<Rightarrow> clean_elements rooted (if t = ''..'' then ''..'' # stack else ts) es)
      else clean_elements rooted (e # stack) es)"

definition path_Clean :: "string \<Rightarrow> string" where
  "path_Clean p =
     (let rooted = has_prefix p ''/'';
          r = (if rooted then ''/'' else []) @ join_with (CHR ''/'') (clean_elements rooted [] (split_on (CHR ''/'') p))
      in if r = [] then ''.'' else r)"

definition path_Join :: "string list \<Rightarrow> string" where
  "path_Join elems =
     (let es = filter (\<lambda>e. e \<noteq> []) elems in if es = [] then [] else path_Clean (join_with (CHR ''/'') es))"

definition kcp_split :: "string \<Rightarrow> string \<times> string" where
  "kcp_split p =
     (let (d, f) = path_Split p in (rev (dropWhile (\<lambda>c. c = CHR ''/'') (rev d)), f))"

lemma split_shorter: "p \<noteq> [] \<Longrightarrow> length (fst (kcp_split p)) < length p"
proof -
  assume p: "p \<noteq> []"
  have "length (fst (kcp_split p)) \<le> length (dropWhile (\<lambda>c. c = CHR ''/'') (dropWhile (\<lambda>c. c \<noteq> CHR ''/'') (rev p)))"
    by (simp add: kcp_split_def path_Split_def)
  also have "\<dots> < length p"
  proof (cases "dropWhile (\<lambda>c. c \<noteq> CHR ''/'') (rev p)")
    case (Cons c cs)
    then have "c = CHR ''/''"
      using hd_dropWhile [of "\<lambda>c. c \<noteq> CHR ''/''" "rev p"] by simp
    then have "length (dropWhile (\<lambda>c. c = CHR ''/'') (dropWhile (\<lambda>c. c \<noteq> CHR ''/'') (rev p))) \<le> length cs"
      using Cons by (simp add: length_dropWhile_le)
    also have "\<dots> < length (dropWhile (\<lambda>c. c \<noteq> CHR ''/'') (rev p))"
      using Cons by simp
    also have "\<dots> \<le> length p"
      using length_dropWhile_le [of _ "rev p"] by simp
    finally show ?thesis .
  next
    case Nil
    then show ?thesis
      using p unfolding Nil by simp
  qed
  finally show ?thesis .
qed

function urlPath_loop :: "string \<Rightarrow> string \<Rightarrow> string \<Rightarrow> string" where
  "urlPath_loop provider name p =
     (if p = [] then provider
      else let (r, d) = kcp_split p
           in if d = ''clusters'' then path_Join [p, name] else urlPath_loop provider name r)"
  by pat_completeness auto
termination
  by (relation "measure (\<lambda>(_, _, p). length p)") (auto simp: prod_eq_iff dest: split_shorter)

declare urlPath_loop.simps [simp del]

definition urlPath :: "string \<Rightarrow> string \<Rightarrow> string" where
  "urlPath provider name = urlPath_loop provider name provider"

section \<open>Cluster objects\<close>

text \<open>The options of a cluster object; a nil option is skipped.\<close>

datatype cluster_opt =
    Opt_nil
  | Opt_id string
  | Opt_converter nat
  | Opt_client nat
  | Opt_url string
  | Opt_syncer
  | Opt_other string

record crt_cluster =
  rc_name :: string
  rc_id :: string
  rc_client :: nat
  rc_converter :: nat
  rc_url :: "string option"
  rc_syncer :: bool

record crt_options =
  op_id :: string
  op_conv :: "nat option"
  op_client :: "nat option"
  op_url :: "string option"
  op_syncer :: bool

fun cluster_options :: "cluster_opt list \<Rightarrow> crt_options \<Rightarrow> crt_options result" where
  "cluster_options [] s = Inr s"
| "cluster_options (Opt_nil # os) s = cluster_options os s"
| "cluster_options (Opt_id v # os) s = cluster_options os (s\<lparr>op_id := v\<rparr>)"
| "cluster_options (Opt_converter v # os) s = cluster_options os (s\<lparr>op_conv := Some v\<rparr>)"
| "cluster_options (Opt_client v # os) s = cluster_options os (s\<lparr>op_client := Some v\<rparr>)"
| "cluster_options (Opt_url v # os) s = cluster_options os (s\<lparr>op_url := Some v\<rparr>)"
| "cluster_options (Opt_syncer # os) s = cluster_options os (s\<lparr>op_syncer := True\<rparr>)"
| "cluster_options (Opt_other t # os) s = Inl (Errorf ''unknown option type %T'' [t])"

text \<open>
  A cluster of the controller runtime is its client, its host and the outcome of creating
  converters for it. The creation dereferences a missing one for its scheme.
\<close>

record runtime_cluster =
  rt_client :: nat
  rt_host :: string
  rt_converters :: "nat result"
  rt_url :: "string result"

definition NewClusterForCRTCluster ::
  "string \<Rightarrow> runtime_cluster option \<Rightarrow> cluster_opt list \<Rightarrow> crt_cluster result option" where
  "NewClusterForCRTCluster name c opts =
     (case cluster_options opts \<lparr>op_id = name, op_conv = None, op_client = None, op_url = None, op_syncer = False\<rparr> of
        Inl err \<Rightarrow> Some (Inl err)
      | Inr s \<Rightarrow>
          (case c of
             None \<Rightarrow> None
           | Some r \<Rightarrow>
               (case (case op_conv s of None \<Rightarrow> rt_converters r | Some v \<Rightarrow> Inr v) of
                  Inl err \<Rightarrow> Some (Inl (Wrapf [''cluster'', rt_host r, ''cannot create converter''] err))
                | Inr conv \<Rightarrow>
                    Some (Inr \<lparr>rc_name = name, rc_id = op_id s, rc_client = rt_client r, rc_converter = conv,
                               rc_url = op_url s, rc_syncer = op_syncer s\<rparr>))))"

definition GetAPIServerURL :: "runtime_cluster \<Rightarrow> crt_cluster \<Rightarrow> string result" where
  "GetAPIServerURL r c = (case rc_url c of Some u \<Rightarrow> Inr u | None \<Rightarrow> rt_url r)"

text \<open>The cluster object of a new member: its name, identity and URL come from the fleet.\<close>

definition member_cluster ::
  "kcp_fleet \<Rightarrow> nat \<Rightarrow> string result \<Rightarrow> string \<Rightarrow> runtime_cluster option \<Rightarrow> crt_cluster result option" where
  "member_cluster k converter base_url name c =
     (case base_url of
        Inl err \<Rightarrow> Some (Inl err)
      | Inr u \<Rightarrow>
          NewClusterForCRTCluster (Compose (kf_name k) name) c
            [Opt_converter converter, Opt_id (Compose (kf_id k) name), Opt_url (urlPath u name), Opt_syncer])"

section \<open>The cluster of the context\<close>

definition Support_getCluster :: "kcp_fleet \<Rightarrow> ctx_info \<Rightarrow> cluster result" where
  "Support_getCluster k ctx =
     (case ci_ctx_cluster ctx of
        None \<Rightarrow> Inl (Errorf ''cluster not found in context'' [])
      | Some c \<Rightarrow>
          if fst (Split (cluster_GetName (cluster_GetEffective c))) \<noteq> kf_name k
          then Inl (Errorf ''cluster not owned by fleet'' []) else Inr c)"

definition Support_createRequest :: "kcp_fleet \<Rightarrow> ctx_info \<Rightarrow> namespaced_name \<Rightarrow> mc_request result" where
  "Support_createRequest k ctx key =
     (case Support_getCluster k ctx of
        Inl err \<Rightarrow> Inl err
      | Inr c \<Rightarrow> Inr \<lparr>mc_cluster = cluster_GetName (cluster_GetEffective c), mc_object = key\<rparr>)"

definition Support_Get :: "(cluster \<Rightarrow> 'k \<Rightarrow> 'r result) \<Rightarrow> kcp_fleet \<Rightarrow> ctx_info \<Rightarrow> 'k \<Rightarrow> 'r result" where
  "Support_Get read k ctx key =
     (case Support_getCluster k ctx of Inl err \<Rightarrow> Inl err | Inr c \<Rightarrow> read c key)"

definition Support_List :: "(cluster \<Rightarrow> 'q \<Rightarrow> 'r list result) \<Rightarrow> kcp_fleet \<Rightarrow> ctx_info \<Rightarrow> 'q \<Rightarrow> 'r list result" where
  "Support_List list k ctx opts =
     (case Support_getCluster k ctx of Inl err \<Rightarrow> Inl err | Inr c \<Rightarrow> list c opts)"

text \<open>
  The index of a fleet is created once in the provider, which serves all members.
\<close>

definition Support_CreateIndex ::
  "gerror option \<Rightarrow> 'i result option \<Rightarrow> 'i result \<Rightarrow> string \<Rightarrow> (string, 'i) gomap \<Rightarrow> 'i result \<times> (string, 'i) gomap" where
  "Support_CreateIndex fi w d name ixs =
     (if gget ixs name \<noteq> None then (Inl (Errorf ''index %q already defined'' [name]), ixs)
      else
        (case fi of
           Some err \<Rightarrow> (Inl err, ixs)
         | None \<Rightarrow>
             (case (case w of Some x \<Rightarrow> x | None \<Rightarrow> d) of
                Inl err \<Rightarrow> (Inl err, ixs)
              | Inr idx \<Rightarrow> (Inr idx, gset name idx ixs))))"

text \<open>
  The requests that the multiplexer behind a cluster creates: a member enqueues by its fleet
  with itself in the context, an alias by the cluster it stands for.
\<close>

fun cluster_creator :: "kcp_fleet \<Rightarrow> ctx_info \<Rightarrow> cluster \<Rightarrow> namespaced_name \<Rightarrow> mc_request result" where
  "cluster_creator k ctx (BaseCluster n i cl) key = Inr \<lparr>mc_cluster = n, mc_object = key\<rparr>"
| "cluster_creator k ctx (MemberCluster f c) key =
     Support_createRequest k (ctx\<lparr>ci_ctx_cluster := Some (MemberCluster f c)\<rparr>) key"
| "cluster_creator k ctx (ClusterAlias n c) key = cluster_creator k ctx c key"

definition cluster_EnqueueByGVK ::
  "kcp_fleet \<Rightarrow> ctx_info \<Rightarrow> cluster \<Rightarrow> gvk \<Rightarrow> namespaced_name \<Rightarrow> mc_request mux \<Rightarrow> gerror option \<times> mc_request mux" where
  "cluster_EnqueueByGVK k ctx c = EnqueueByGVK (cluster_creator k ctx c)"

definition cluster_EnqueueByObject ::
  "('o \<Rightarrow> gvk result) \<Rightarrow> ('o \<Rightarrow> gvk option) \<Rightarrow> ('o \<Rightarrow> namespaced_name option) \<Rightarrow> kcp_fleet \<Rightarrow> ctx_info \<Rightarrow> cluster \<Rightarrow> 'o \<Rightarrow>
   mc_request mux \<Rightarrow> gerror option \<times> mc_request mux" where
  "cluster_EnqueueByObject scheme typed_kind key_of k ctx c = EnqueueByObject scheme typed_kind key_of (cluster_creator k ctx c)"

section \<open>The life of engagements\<close>

text \<open>
  An engagement is a call of \<open>Engage\<close> for a member, numbered by the client of its cluster. It
  registers the member and hands it to the multi-cluster manager; when this returns (\<open>lf_done\<close>) the barrier of
  the fleet is opened. Its context ends at any time (\<open>lf_cancelled\<close>), and only later does a goroutine
  remove the name (\<open>lf_removed\<close>). These are the steps of a fleet.
\<close>

record life =
  lf_fleet :: kcp_fleet
  lf_called :: "(nat \<times> string) list"
  lf_done :: "nat set"
  lf_cancelled :: "nat set"
  lf_removed :: "nat set"
  lf_open :: bool
  lf_synced :: "nat set"
  lf_waiting :: "nat list"
  lf_reconciled :: "nat list"

definition life_init :: "kcp_fleet \<Rightarrow> life" where
  "life_init k = \<lparr>lf_fleet = k\<lparr>kf_clusters := []\<rparr>, lf_called = [], lf_done = {}, lf_cancelled = {}, lf_removed = {},
     lf_open = False, lf_synced = {}, lf_waiting = [], lf_reconciled = []\<rparr>"

inductive engage_step :: "life \<Rightarrow> life \<Rightarrow> bool" where
  register: "i \<notin> fst ` set (lf_called s) \<Longrightarrow> Engage None aware n i (lf_fleet s) = (err, k) \<Longrightarrow>
    engage_step s (s\<lparr>lf_fleet := k, lf_called := (i, n) # lf_called s\<rparr>)"
| returned: "(i, n) \<in> set (lf_called s) \<Longrightarrow> i \<notin> lf_done s \<Longrightarrow>
    engage_step s (s\<lparr>lf_done := insert i (lf_done s), lf_open := True\<rparr>)"
| cancelled: "(i, n) \<in> set (lf_called s) \<Longrightarrow> engage_step s (s\<lparr>lf_cancelled := insert i (lf_cancelled s)\<rparr>)"
| removed: "(i, n) \<in> set (lf_called s) \<Longrightarrow> i \<in> lf_cancelled s \<Longrightarrow> i \<notin> lf_removed s \<Longrightarrow>
    engage_step s (s\<lparr>lf_fleet := Disengage n (lf_fleet s), lf_removed := insert i (lf_removed s)\<rparr>)"

text \<open>
  The generic reconciler works on the cluster object the request was lifted to, which is the
  registered one at that time, and waits for it: the first wait of each object is for the barrier.
\<close>

inductive wait_step :: "life \<Rightarrow> life \<Rightarrow> bool" where
  request: "registrations_GetCluster (lf_fleet s) n = Some c \<Longrightarrow>
    wait_step s (s\<lparr>lf_waiting := lf_waiting s @ [bc_client (cluster_GetEffective c)]\<rparr>)"
| passed: "i \<in> set (lf_waiting s) \<Longrightarrow> i \<in> lf_synced s \<or> lf_open s \<Longrightarrow>
    wait_step s (s\<lparr>lf_synced := insert i (lf_synced s), lf_waiting := remove1 i (lf_waiting s),
      lf_reconciled := lf_reconciled s @ [i]\<rparr>)"

definition life_step :: "life \<Rightarrow> life \<Rightarrow> bool" where
  "life_step s t \<longleftrightarrow> engage_step s t \<or> wait_step s t"

section \<open>Lemmas\<close>

lemma kcp_split_append:
  assumes "CHR ''/'' \<notin> set d" "a = [] \<or> last a \<noteq> CHR ''/''"
  shows "kcp_split (a @ CHR ''/'' # d) = (a, d)"
proof -
  have "takeWhile (\<lambda>c. c \<noteq> CHR ''/'') (rev d @ CHR ''/'' # rev a) = rev d"
    using assms(1) by (induction d rule: rev_induct) auto
  moreover have "dropWhile (\<lambda>c. c \<noteq> CHR ''/'') (rev d @ CHR ''/'' # rev a) = CHR ''/'' # rev a"
    using assms(1) by (induction d rule: rev_induct) auto
  moreover have "dropWhile (\<lambda>c. c = CHR ''/'') (rev a) = rev a"
    using assms(2) by (cases a rule: rev_cases) auto
  ultimately show ?thesis
    by (simp add: kcp_split_def path_Split_def)
qed

lemma kcp_split_plain: "CHR ''/'' \<notin> set d \<Longrightarrow> kcp_split d = ([], d)"
proof -
  assume "CHR ''/'' \<notin> set d"
  then have all: "takeWhile (\<lambda>c. c \<noteq> CHR ''/'') (rev d) = rev d" "dropWhile (\<lambda>c. c \<noteq> CHR ''/'') (rev d) = []"
    by (auto simp: takeWhile_eq_all_conv)
  show ?thesis
    unfolding kcp_split_def path_Split_def all by simp
qed

text \<open>A path that ends in elements other than \<open>clusters\<close>.\<close>

abbreviation tail :: "string list \<Rightarrow> string" where
  "tail es \<equiv> concat (map (\<lambda>e. CHR ''/'' # e) es)"

definition element :: "string \<Rightarrow> bool" where
  "element e \<longleftrightarrow> e \<noteq> [] \<and> CHR ''/'' \<notin> set e"

lemma tail_last: "\<forall>e\<in>set es. element e \<Longrightarrow> q = [] \<or> last q \<noteq> CHR ''/'' \<Longrightarrow> q @ tail es = [] \<or> last (q @ tail es) \<noteq> CHR ''/''"
  by (induction es rule: rev_induct) (auto simp: element_def last_append dest: last_in_set)

lemma urlPath_loop_skip:
  assumes "\<forall>e\<in>set es. element e \<and> e \<noteq> ''clusters''" "q = [] \<or> last q \<noteq> CHR ''/''"
  shows "urlPath_loop provider name (q @ tail es) = urlPath_loop provider name q"
  using assms(1)
proof (induction es rule: rev_induct)
  case (snoc e es)
  have "q @ tail es = [] \<or> last (q @ tail es) \<noteq> CHR ''/''"
    using snoc.prems assms(2) by (intro tail_last) auto
  then have "kcp_split ((q @ tail es) @ CHR ''/'' # e) = (q @ tail es, e)"
    using snoc.prems by (intro kcp_split_append) (auto simp: element_def)
  then show ?case
    using snoc by (subst urlPath_loop.simps) simp
qed simp

lemma tail_join: "es \<noteq> [] \<Longrightarrow> tail es = CHR ''/'' # join_with (CHR ''/'') es"
  by (induction es rule: join_with.induct) auto

definition plain :: "string \<Rightarrow> bool" where
  "plain e \<longleftrightarrow> element e \<and> e \<noteq> ''.'' \<and> e \<noteq> ''..''"

lemma clean_plain: "\<forall>e\<in>set es. plain e \<Longrightarrow> clean_elements r stack es = rev stack @ es"
  by (induction es arbitrary: stack) (auto simp: plain_def element_def)

lemma Clean_tail:
  assumes "es \<noteq> []" "\<forall>e\<in>set es. plain e"
  shows "path_Clean (tail es) = tail es"
proof -
  have "split_on (CHR ''/'') (tail es) = [] # es"
    using assms by (simp add: tail_join split_join plain_def element_def)
  then have "clean_elements True [] (split_on (CHR ''/'') (tail es)) = es"
    using clean_plain [OF assms(2)] by simp
  moreover have "has_prefix (tail es) ''/''"
    using assms(1) by (simp add: tail_join has_prefix_def)
  ultimately show ?thesis
    using assms(1) by (simp add: path_Clean_def tail_join Let_def)
qed

text \<open>
  The path of a member is the path of the provider up to its last element
  \<open>clusters\<close>, followed by the name of the member; a provider without that element serves all
  members under its own path.
\<close>

theorem member_path:
  assumes "\<forall>e\<in>set ds. plain e" "\<forall>e\<in>set es. element e \<and> e \<noteq> ''clusters''" "plain name"
  shows "urlPath (tail (ds @ ''clusters'' # es)) name = tail (ds @ [''clusters'', name]) \<and> urlPath (tail es) name = tail es"
proof
  have clusters: "plain ''clusters''" "CHR ''/'' \<notin> set ''clusters''"
    by (simp_all add: plain_def element_def)
  let ?p = "tail (ds @ [''clusters''])"
  have last: "last ?p \<noteq> CHR ''/''" "?p \<noteq> []"
    by simp_all
  have "urlPath (tail (ds @ ''clusters'' # es)) name = urlPath_loop (tail (ds @ ''clusters'' # es)) name ?p"
    using urlPath_loop_skip [OF assms(2), of ?p] last by (simp add: urlPath_def)
  also have "kcp_split (tail ds @ CHR ''/'' # ''clusters'') = (tail ds, ''clusters'')"
    using tail_last [of ds "[]"] assms(1) clusters by (intro kcp_split_append) (auto simp: plain_def)
  then have "urlPath_loop (tail (ds @ ''clusters'' # es)) name ?p = path_Join [?p, name]"
    by (subst urlPath_loop.simps) simp
  also have "\<dots> = path_Clean (tail (ds @ [''clusters'', name]))"
    using assms(3) by (simp add: path_Join_def plain_def element_def)
  also have "\<dots> = tail (ds @ [''clusters'', name])"
    using assms(1,3) clusters by (intro Clean_tail) auto
  finally show "urlPath (tail (ds @ ''clusters'' # es)) name = tail (ds @ [''clusters'', name])" .
  show "urlPath (tail es) name = tail es"
    using urlPath_loop_skip [OF assms(2), of "[]"] by (simp add: urlPath_def urlPath_loop.simps)
qed

theorem member_path_witness:
  "urlPath ''/services/clusters/root/x'' ''1ab'' = ''/services/clusters/1ab''"
  using member_path [of "[''services'']" "[''root'', ''x'']" "''1ab''"] by (simp add: plain_def element_def)

section \<open>Cluster objects of members\<close>

text \<open>
  A member gets the composed name and identity, the converter of the fleet and a URL of its own;
  a nil cluster panics though the code tests for it, and a converter is only created if none is given.
\<close>

lemma member_cluster_cases:
  "member_cluster k conv (Inr u) name (Some r) =
     Some (Inr \<lparr>rc_name = Compose (kf_name k) name, rc_id = Compose (kf_id k) name, rc_client = rt_client r, rc_converter = conv,
                rc_url = Some (urlPath u name), rc_syncer = True\<rparr>)"
  "member_cluster k conv (Inr u) name None = None"
  "member_cluster k conv (Inl e) name c = Some (Inl e)"
  by (simp_all add: member_cluster_def NewClusterForCRTCluster_def)

lemma cluster_options_fail: "(\<exists>e. cluster_options os s = Inl e) \<longleftrightarrow> (\<exists>t. Opt_other t \<in> set os)"
  by (induction os s rule: cluster_options.induct) auto

section \<open>Requests through members\<close>


text \<open>Errors of a fleet that is used without a member of its own in the context.\<close>

lemma Support_context:
  "ci_ctx_cluster ctx = None \<Longrightarrow> Support_Get f k ctx x = Inl (Errorf ''cluster not found in context'' [])"
  "ci_ctx_cluster ctx = Some c \<Longrightarrow> fst (Split (cluster_GetName (cluster_GetEffective c))) \<noteq> kf_name k \<Longrightarrow>
     Support_Get f k ctx x = Inl (Errorf ''cluster not owned by fleet'' [])"
  "ci_ctx_cluster ctx = Some c \<Longrightarrow> fst (Split (cluster_GetName (cluster_GetEffective c))) = kf_name k \<Longrightarrow> Support_Get f k ctx x = f c x"
  "Support_List g k ctx y = Support_Get g k ctx y"
  by (simp_all add: Support_Get_def Support_List_def Support_getCluster_def)

section \<open>Engagements\<close>

definition life_sets :: "life \<Rightarrow> bool" where
  "life_sets s \<longleftrightarrow> (let started = fst ` set (lf_called s) in
     lf_done s \<subseteq> started \<and> lf_cancelled s \<subseteq> started \<and> lf_removed s \<subseteq> started \<and>
     (lf_open s \<longleftrightarrow> lf_done s \<noteq> {}) \<and> (lf_reconciled s \<noteq> [] \<longrightarrow> lf_open s) \<and> (lf_synced s \<noteq> {} \<longrightarrow> lf_open s))"

definition life_members :: "kcp_fleet \<Rightarrow> life \<Rightarrow> bool" where
  "life_members k s \<longleftrightarrow> kf_name (lf_fleet s) = kf_name k \<and> kf_id (lf_fleet s) = kf_id k \<and> inj_on fst (set (lf_called s)) \<and>
     (\<forall>n c. registrations_GetCluster (lf_fleet s) n = Some c \<longrightarrow>
        (\<exists>i. (i, n) \<in> set (lf_called s) \<and> i \<notin> lf_removed s \<and> c = member_of k n i)) \<and>
     (distinct (map snd (lf_called s)) \<longrightarrow> (\<forall>i n. (i, n) \<in> set (lf_called s) \<longrightarrow> i \<notin> lf_removed s \<longrightarrow>
        registrations_GetCluster (lf_fleet s) n = Some (member_of k n i)))"

lemma registered_after:
  "Engage None aware n i k = (err, k') \<Longrightarrow> kf_name k' = kf_name k \<and> kf_id k' = kf_id k \<and>
     registrations_GetCluster k' m = (if m = n then Some (member_of k n i) else registrations_GetCluster k m)"
  "registrations_GetCluster (Disengage n k) m = (if m = n then None else registrations_GetCluster k m)"
  "kf_name (Disengage n k) = kf_name k" "kf_id (Disengage n k) = kf_id k"
  by (auto simp: Engage_def Disengage_def registrations_GetCluster_def member_of_def)

lemma member_of_same: "kf_name k = kf_name k' \<Longrightarrow> kf_id k = kf_id k' \<Longrightarrow> member_of k n i = member_of k' n i"
  by (simp add: member_of_def)

lemma named_once: "distinct (map snd xs) \<Longrightarrow> (i, n) \<in> set xs \<Longrightarrow> (j, n) \<in> set xs \<Longrightarrow> i = j"
  using inj_onD [of snd "set xs" "(i, n)" "(j, n)"] by (simp add: distinct_map)

lemma life_sets_steps:
  "engage_step s t \<Longrightarrow> life_sets s \<Longrightarrow> life_sets t"
  "wait_step s t \<Longrightarrow> life_sets s \<Longrightarrow> life_sets t"
proof -
  show "engage_step s t \<Longrightarrow> life_sets s \<Longrightarrow> life_sets t"
    by (induction rule: engage_step.induct) (auto simp: life_sets_def Let_def image_iff Bex_def)
  show "wait_step s t \<Longrightarrow> life_sets s \<Longrightarrow> life_sets t"
    by (induction rule: wait_step.induct) (auto simp: life_sets_def Let_def)
qed

lemma life_members_engage: "engage_step s t \<Longrightarrow> life_sets s \<Longrightarrow> life_members k s \<Longrightarrow> life_members k t"
proof (induction rule: engage_step.induct)
  case (register i s aware n err f)
  note ok = register.prems(2) [unfolded life_members_def]
  note after = registered_after(1) [OF register(2)]
  have new: "member_of (lf_fleet s) n i = member_of k n i" "i \<notin> lf_removed s"
    using ok register.hyps(1) register.prems(1) by (auto intro!: member_of_same simp: life_sets_def Let_def)
  have "\<exists>j. (j, m) \<in> set ((i, n) # lf_called s) \<and> j \<notin> lf_removed s \<and> c = member_of k m j"
    if "registrations_GetCluster f m = Some c" for m c
    using that ok after new by (cases "m = n") auto
  moreover have "registrations_GetCluster f m = Some (member_of k m j)"
    if "distinct (map snd ((i, n) # lf_called s))" "(j, m) \<in> set ((i, n) # lf_called s)" "j \<notin> lf_removed s" for j m
  proof (cases "(j, m) = (i, n)")
    case False
    then have old: "(j, m) \<in> set (lf_called s)"
      using that(2) by auto
    then have "m \<noteq> n"
      using that(1) by (force simp: image_iff)
    then show ?thesis
      using ok after that(1,3) old by simp
  qed (use after new in simp)
  moreover have "inj_on fst (set ((i, n) # lf_called s))"
    using ok register.hyps(1) by (simp add: inj_on_insert) (metis Diff_subset image_mono subsetD)
  ultimately show ?case
    using ok after by (simp add: life_members_def)
next
  case (removed i n s)
  note ok = removed.prems(2) [unfolded life_members_def]
  have "\<exists>j. (j, m) \<in> set (lf_called s) \<and> j \<notin> insert i (lf_removed s) \<and> c = member_of k m j"
    if reg: "registrations_GetCluster (Disengage n (lf_fleet s)) m = Some c" for m c
  proof -
    have "m \<noteq> n" "registrations_GetCluster (lf_fleet s) m = Some c"
      using reg by (simp_all add: registered_after split: if_splits)
    moreover from this obtain j where j: "(j, m) \<in> set (lf_called s)" "j \<notin> lf_removed s" "c = member_of k m j"
      using ok by blast
    ultimately have "j \<noteq> i"
      using ok removed.hyps(1) inj_onD [of fst "set (lf_called s)" "(j, m)" "(i, n)"] by auto
    then show ?thesis
      using j by blast
  qed
  moreover have "registrations_GetCluster (Disengage n (lf_fleet s)) m = Some (member_of k m j)"
    if "distinct (map snd (lf_called s))" "(j, m) \<in> set (lf_called s)" "j \<notin> insert i (lf_removed s)" for j m
  proof -
    have "m \<noteq> n"
      using that removed.hyps(1) named_once [OF that(1)] by blast
    then show ?thesis
      using ok that by (simp add: registered_after)
  qed
  ultimately show ?case
    using ok by (simp add: life_members_def registered_after)
qed (simp_all add: life_members_def)

lemma life_members_wait: "wait_step s t \<Longrightarrow> life_members k s \<Longrightarrow> life_members k t"
  by (induction rule: wait_step.induct) (simp_all add: life_members_def)


section \<open>Witnesses\<close>


text \<open>
  The first engagement opens the barrier of the fleet: a second member is reconciled while
  its own engagement is still going on.
\<close>

definition life_second :: life where
  "life_second = \<lparr>lf_fleet = snd (Engage None None ''b'' 1 (snd (Engage None None ''a'' 0
       \<lparr>kf_name = ''F'', kf_ref = 0, kf_id = ''IdF'', kf_clusters = []\<rparr>))),
     lf_called = [(1, ''b''), (0, ''a'')], lf_done = {0}, lf_cancelled = {}, lf_removed = {},
     lf_open = True, lf_synced = {1}, lf_waiting = [], lf_reconciled = [1]\<rparr>"

lemma second_reached: "life_step\<^sup>*\<^sup>* (life_init \<lparr>kf_name = ''F'', kf_ref = 0, kf_id = ''IdF'', kf_clusters = []\<rparr>) life_second"
proof -
  let ?k = "\<lparr>kf_name = ''F'', kf_ref = 0, kf_id = ''IdF'', kf_clusters = []\<rparr>"
  let ?k1 = "snd (Engage None None ''a'' 0 ?k)"
  let ?s1 = "(life_init ?k)\<lparr>lf_fleet := ?k1, lf_called := [(0, ''a'')]\<rparr>"
  let ?s2 = "?s1\<lparr>lf_done := {0}, lf_open := True\<rparr>"
  let ?s3 = "?s2\<lparr>lf_fleet := lf_fleet life_second, lf_called := [(1, ''b''), (0, ''a'')]\<rparr>"
  let ?s4 = "?s3\<lparr>lf_waiting := [1]\<rparr>"
  have 1: "life_step (life_init ?k) ?s1"
    using engage_step.register [of 0 "life_init ?k" None "''a''" None ?k1]
    by (simp add: life_init_def life_step_def Engage_def)
  have 2: "life_step ?s1 ?s2"
    using engage_step.returned [of 0 "''a''" ?s1] by (simp add: life_init_def life_step_def)
  have 3: "life_step ?s2 ?s3"
    using engage_step.register [of 1 ?s2 None "''b''" None "lf_fleet life_second"]
    by (simp add: life_init_def life_step_def Engage_def life_second_def)
  have "registrations_GetCluster (lf_fleet ?s3) ''b'' = Some (member_of ?k ''b'' 1)"
    by (simp add: life_second_def registrations_GetCluster_def Engage_def member_of_def)
  from wait_step.request [OF this] have 4: "life_step ?s3 ?s4"
    by (simp add: life_step_def life_init_def)
  have 5: "life_step ?s4 life_second"
    using wait_step.passed [of 1 ?s4] by (simp add: life_step_def life_init_def life_second_def)
  show ?thesis
    using 1 2 3 4 5 by (meson rtranclp.rtrancl_refl rtranclp.rtrancl_into_rtrancl)
qed


text \<open>The end of an older engagement removes a member that was engaged again under its name.\<close>

lemma stale_end:
  assumes "(i, n) \<in> set (lf_called s)" "i \<in> lf_cancelled s" "i \<notin> lf_removed s"
  shows "\<exists>t. life_step s t \<and> registrations_GetCluster (lf_fleet t) n = None \<and> lf_called t = lf_called s"
  using engage_step.removed [OF assms]
  by (intro exI [of _ "s\<lparr>lf_fleet := Disengage n (lf_fleet s), lf_removed := insert i (lf_removed s)\<rparr>"])
    (simp add: life_step_def registered_after)

end
