(* ===== verification/Options.thy ===== *)
theory Options
  imports Controllers
begin

text \<open>
  Options and helpers of controllers: the numbers of workers (options/workeropts), registries
  of factories (controller/controllerutils/registries.go), and the list types of a scheme
  with the index built on them (controller/controllerutils/index.go, objutils/list.go).
\<close>

section \<open>Workers\<close>

record worker_opts =
  wo_concurrency :: "(string, int) gomap"
  wo_set :: references

definition workers_New :: worker_opts where
  "workers_New = \<lparr>wo_concurrency = [], wo_set = []\<rparr>"

text \<open>
  The source of the controllers may be missing in the options: then any count is an error, and
  without counts the missing source is dereferenced. The completion of the groups may not end.
\<close>

definition workers_Validate :: "controller_set option \<Rightarrow> worker_opts \<Rightarrow> (gerror option \<times> worker_opts) option" where
  "workers_Validate cdefs o' =
     (if (case cdefs of None \<Rightarrow> True | Some cs \<Rightarrow> cs_names cs = []) \<and> wo_concurrency o' \<noteq> []
      then Some (Some (Errorf ''no controllers found to set workers for'' []), o')
      else
        (case cdefs of
           None \<Rightarrow> None
         | Some cs \<Rightarrow>
             Option.bind (CompleteSet cs) (\<lambda>r.
               let o' = o'\<lparr>wo_set := r\<rparr>;
                   invalid = filter (\<lambda>n. n \<notin> set (cs_names cs) \<and> gget (cs_groups cs) n = None) (gkeys (wo_concurrency o'))
               in Some (if invalid \<noteq> [] then Some (Errorf ''option workers: invalid controller names or groups: %v'' invalid) else None, o'))))"

text \<open>The number of concurrent reconciliations of a controller; 0 is the default of the controller runtime.\<close>

definition ConfigureController :: "worker_opts \<Rightarrow> string \<Rightarrow> int \<Rightarrow> int" where
  "ConfigureController o' name workers =
     fold (\<lambda>(n, i) m. case gget (wo_set o') n of
             Some s \<Rightarrow> if name \<in> s \<and> 0 < i then i else m
           | None \<Rightarrow> m) (wo_concurrency o') workers"

section \<open>Registries\<close>

text \<open>A factory may be an element with a default mark and may be an option itself.\<close>

record ('c, 'o) reg_factory =
  fa_create :: "'c \<Rightarrow> 'o result"
  fa_description :: string
  fa_option :: bool
  fa_default :: "bool option"

record ('c, 'o) registry =
  rg_typ :: string
  rg_desc :: string
  rg_def :: string
  rg_selected :: string
  rg_factories :: "(string, ('c, 'o) reg_factory) gomap"
  rg_options :: "string list"

definition NewRegistry :: "string \<Rightarrow> string \<Rightarrow> ('c, 'o) registry" where
  "NewRegistry typ desc =
     \<lparr>rg_typ = typ, rg_desc = desc, rg_def = [], rg_selected = [], rg_factories = [], rg_options = []\<rparr>"

definition Register :: "string \<Rightarrow> ('c, 'o) reg_factory \<Rightarrow> ('c, 'o) registry \<Rightarrow> ('c, 'o) registry" where
  "Register name f r =
     (let r = r\<lparr>rg_factories := gset name f (rg_factories r)\<rparr>;
          r = (if fa_option f then r\<lparr>rg_options := rg_options r @ [name]\<rparr> else r)
      in if fa_default f = Some True then r\<lparr>rg_def := name, rg_selected := name\<rparr> else r)"

definition Names :: "('c, 'o) registry \<Rightarrow> string list" where
  "Names r = sort (gkeys (rg_factories r))"

definition SelectedMode :: "('c, 'o) registry \<Rightarrow> string" where
  "SelectedMode r = rg_selected r"

text \<open>Adding the flag sets the selection to the default; parsing it may set another.\<close>

definition registry_AddFlags :: "string option \<Rightarrow> ('c, 'o) registry \<Rightarrow> ('c, 'o) registry" where
  "registry_AddFlags flag r = r\<lparr>rg_selected := (case flag of None \<Rightarrow> rg_def r | Some v \<Rightarrow> v)\<rparr>"

definition Clone :: "('c, 'o) registry \<Rightarrow> ('c, 'o) registry" where
  "Clone r = fold (\<lambda>(k, v) n. Register k v n) (rg_factories r) (NewRegistry (rg_typ r) (rg_desc r))"

definition registry_Get :: "string \<Rightarrow> ('c, 'o) registry \<Rightarrow> ('c, 'o) reg_factory option" where
  "registry_Get name r = gget (rg_factories r) name"

definition registry_Create :: "string \<Rightarrow> 'c \<Rightarrow> ('c, 'o) registry \<Rightarrow> 'o result" where
  "registry_Create name cfg r =
     (case gget (rg_factories r) name of
        None \<Rightarrow> Inl (Errorf ''unknown %s type %q'' [rg_typ r, name])
      | Some f \<Rightarrow> fa_create f cfg)"

definition CreateConfigured :: "'c \<Rightarrow> ('c, 'o) registry \<Rightarrow> 'o result" where
  "CreateConfigured cfg r =
     (if rg_selected r = [] then Inl (Errorf ''no %s configured'' [rg_typ r])
      else registry_Create (rg_selected r) cfg r)"

definition FactoryFunc :: "('c \<Rightarrow> 'o result) \<Rightarrow> ('c, 'o) reg_factory" where
  "FactoryFunc f = \<lparr>fa_create = f, fa_description = [], fa_option = False, fa_default = None\<rparr>"

section \<open>Lists of a scheme\<close>

text \<open>
  What the code uses of a scheme: the kinds of an object, the kind chosen for it by
  \<open>apiutil.GVKForObject\<close>, the kinds it recognises, and new objects, which need not be lists.
\<close>

type_synonym gvk3 = "string \<times> string \<times> string"

record ('o, 'l) list_scheme =
  ls_kinds :: "'o \<Rightarrow> gvk3 list result"
  ls_gvk :: "'o \<Rightarrow> gvk3 result"
  ls_recognizes :: "gvk3 \<Rightarrow> bool"
  ls_new :: "gvk3 \<Rightarrow> 'l result"
  ls_is_list :: "'l \<Rightarrow> bool"

definition list_kind :: "gvk3 \<Rightarrow> gvk3" where
  "list_kind k = (case k of (g, v, n) \<Rightarrow> (g, v, n @ ''List''))"

definition as_list :: "('o, 'l) list_scheme \<Rightarrow> 'l \<Rightarrow> 'l result option" where
  "as_list S l = (if ls_is_list S l then Some (Inr l) else None)"

definition first_kind :: "('o, 'l) list_scheme \<Rightarrow> 'o \<Rightarrow> gvk3 result" where
  "first_kind S obj =
     (case ls_kinds S obj of
        Inl err \<Rightarrow> Inl (Wrapf [''could not determine GVK for object''] err)
      | Inr [] \<Rightarrow> Inl (Errorf ''could not determine GVK for object: %w'' [])
      | Inr (k # _) \<Rightarrow> Inr k)"

definition CreateListFromObject :: "('o, 'l) list_scheme \<Rightarrow> 'o \<Rightarrow> 'l result option" where
  "CreateListFromObject S obj =
     (case first_kind S obj of
        Inl err \<Rightarrow> Some (Inl err)
      | Inr k \<Rightarrow>
          (case ls_new S (list_kind k) of
             Inl err \<Rightarrow> Some (Inl (Wrapf [''could not create list type'', snd (snd (list_kind k))] err))
           | Inr l \<Rightarrow> as_list S l))"

definition CreateListFactoryFromObject :: "('o, 'l) list_scheme \<Rightarrow> 'o \<Rightarrow> (unit \<Rightarrow> 'l result option) result" where
  "CreateListFactoryFromObject S obj =
     (case first_kind S obj of
        Inl err \<Rightarrow> Inl err
      | Inr k \<Rightarrow>
          (case ls_new S (list_kind k) of
             Inl err \<Rightarrow> Inl (Wrapf [''could not create list type'', snd (snd (list_kind k))] err)
           | Inr _ \<Rightarrow> Inr (\<lambda>_. case ls_new S (list_kind k) of Inl err \<Rightarrow> Some (Inl err) | Inr l \<Rightarrow> as_list S l)))"

definition GetListGVK :: "('o, 'l) list_scheme \<Rightarrow> 'o \<Rightarrow> gvk3 result" where
  "GetListGVK S obj =
     (case ls_gvk S obj of
        Inl err \<Rightarrow> Inl err
      | Inr k \<Rightarrow>
          (if \<not> ls_recognizes S (list_kind k) then Inl (Errorf ''list kind %s not recognized'' [snd (snd (list_kind k))])
           else Inr (list_kind k)))"

definition CreateObjectList :: "('o, 'l) list_scheme \<Rightarrow> 'o \<Rightarrow> 'l result option" where
  "CreateObjectList S obj =
     (case GetListGVK S obj of
        Inl err \<Rightarrow> Some (Inl err)
      | Inr k \<Rightarrow> (case ls_new S k of Inl err \<Rightarrow> Some (Inl err) | Inr l \<Rightarrow> as_list S l))"

text \<open>
  An index registers its field before it looks for the list type. A list is filled by the
  cluster, its items are extracted and converted by goutils.
\<close>

definition NewIndex ::
  "('o, 'l) list_scheme \<Rightarrow> (string \<Rightarrow> 'w \<Rightarrow> gerror option \<times> 'w) \<Rightarrow> string \<Rightarrow> 'o \<Rightarrow> 'w \<Rightarrow>
   (string \<times> (unit \<Rightarrow> 'l result option)) result \<times> 'w" where
  "NewIndex S field_indexer name proto w =
     (case field_indexer name w of
        (Some err, w) \<Rightarrow> (Inl err, w)
      | (None, w) \<Rightarrow>
          ((case CreateListFactoryFromObject S proto of Inl err \<Rightarrow> Inl err | Inr fac \<Rightarrow> Inr (name, fac)), w))"

definition index_Get ::
  "('l \<Rightarrow> string \<Rightarrow> string \<times> string \<Rightarrow> 'l result) \<Rightarrow> ('l \<Rightarrow> 'o list result) \<Rightarrow> ('o list \<Rightarrow> 't list option) \<Rightarrow>
   string \<times> (unit \<Rightarrow> 'l result option) \<Rightarrow> string \<Rightarrow> string \<Rightarrow> 't list result option" where
  "index_Get list extract convert i namespace key =
     Option.bind (snd i ()) (\<lambda>l.
       case l of
         Inl err \<Rightarrow> Some (Inl err)
       | Inr l \<Rightarrow>
           (case list l namespace (fst i, key) of
              Inl err \<Rightarrow> Some (Inl err)
            | Inr l \<Rightarrow> (case extract l of Inl err \<Rightarrow> Some (Inl err) | Inr items \<Rightarrow> map_option Inr (convert items))))"

text \<open>\<open>ObjectListLen\<close> and \<open>Items\<close>: a list that cannot be read is empty.\<close>

definition ObjectListLen :: "('l \<Rightarrow> 'o list option result) \<Rightarrow> 'l \<Rightarrow> nat" where
  "ObjectListLen items l = (case items l of Inl err \<Rightarrow> 0 | Inr None \<Rightarrow> 0 | Inr (Some xs) \<Rightarrow> length xs)"

fun iterate :: "(nat \<Rightarrow> 'o \<Rightarrow> 's \<Rightarrow> bool \<times> 's) \<Rightarrow> nat \<Rightarrow> 'o list \<Rightarrow> 's \<Rightarrow> 's" where
  "iterate yield i [] s = s"
| "iterate yield i (x # xs) s =
     (case yield i x s of (continue, s) \<Rightarrow> if continue then iterate yield (Suc i) xs s else s)"

definition Items :: "('l \<Rightarrow> 'o list result) \<Rightarrow> 'l \<Rightarrow> (nat \<Rightarrow> 'o \<Rightarrow> 's \<Rightarrow> bool \<times> 's) \<Rightarrow> 's \<Rightarrow> 's" where
  "Items extract l yield s = (case extract l of Inl err \<Rightarrow> s | Inr xs \<Rightarrow> iterate yield 0 xs s)"

section \<open>Lemmas\<close>

lemma fold_last:
  "fold (\<lambda>x m. if P x then f x else m) xs m = (case rev (filter P xs) of [] \<Rightarrow> m | x # _ \<Rightarrow> f x)"
  by (induction xs arbitrary: m rule: rev_induct) auto

definition names_controller :: "groups \<Rightarrow> string \<Rightarrow> string \<Rightarrow> bool" where
  "names_controller gs name n \<longleftrightarrow> n = name \<or> name \<in> set (members_of gs n)"

text \<open>
  With groups of controllers, the workers validate if every flag names a controller or
  a group, and a controller then gets the last positive number, in the order of the flags,
  that is given for it or for a group it is in; without any it keeps its number.
\<close>

theorem worker_counts:
  assumes "gwf gs" "\<forall>(g, l) \<in> set gs. \<forall>n \<in> set (case l of None \<Rightarrow> [] | Some l \<Rightarrow> l). gget gs n = None \<or> n \<in> set ns" "ns \<noteq> []"
  shows "\<exists>err o2. workers_Validate (Some \<lparr>cs_names = ns, cs_groups = gs\<rparr>) o1 = Some (err, o2) \<and>
    (err = None \<longleftrightarrow> (\<forall>n \<in> set (gkeys (wo_concurrency o1)). n \<in> set ns \<or> gget gs n \<noteq> None)) \<and>
    (\<forall>name \<in> set ns. ConfigureController o2 name w =
       (case rev (filter (\<lambda>(n, i). 0 < i \<and> names_controller gs name n) (wo_concurrency o1)) of
          [] \<Rightarrow> w | (n, i) # _ \<Rightarrow> i))"
proof -
  obtain r where r: "CompleteSet \<lparr>cs_names = ns, cs_groups = gs\<rparr> = Some r"
    "\<forall>x. gget r x = (let s = set (members_of gs x) \<inter> set ns \<union> (if x \<in> set ns then {x} else {}) in if s = {} then None else Some s)"
    using complete_set [of gs ns, THEN conjunct1] assms(1,2) by blast
  let ?o2 = "o1\<lparr>wo_set := r\<rparr>"
  let ?invalid = "filter (\<lambda>n. n \<notin> set ns \<and> gget gs n = None) (gkeys (wo_concurrency o1))"
  have "ConfigureController ?o2 name w =
      (case rev (filter (\<lambda>(n, i). 0 < i \<and> names_controller gs name n) (wo_concurrency o1)) of [] \<Rightarrow> w | (n, i) # _ \<Rightarrow> i)"
    if "name \<in> set ns" for name
  proof -
    have "(\<lambda>(n, i) m. case gget (wo_set ?o2) n of Some s \<Rightarrow> if name \<in> s \<and> 0 < i then i else m | None \<Rightarrow> m) =
        (\<lambda>x m. if (case x of (n, i) \<Rightarrow> (0 :: int) < i \<and> names_controller gs name n) then snd x else m)"
      using that r(2) by (intro ext) (auto simp: names_controller_def Let_def split: option.splits if_splits)
    then have "ConfigureController ?o2 name w =
        fold (\<lambda>x m. if (case x of (n, i) \<Rightarrow> 0 < i \<and> names_controller gs name n) then snd x else m) (wo_concurrency o1) w"
      by (simp add: ConfigureController_def)
    then show ?thesis
      unfolding fold_last by (auto split: list.split)
  qed
  moreover have "workers_Validate (Some \<lparr>cs_names = ns, cs_groups = gs\<rparr>) o1 =
      Some (if ?invalid \<noteq> [] then Some (Errorf ''option workers: invalid controller names or groups: %v'' ?invalid) else None, ?o2)"
    using assms(3) r(1) by (simp add: workers_Validate_def Let_def)
  moreover have "?invalid = [] \<longleftrightarrow> (\<forall>n \<in> set (gkeys (wo_concurrency o1)). n \<in> set ns \<or> gget gs n \<noteq> None)"
    unfolding filter_empty_conv by auto
  ultimately show ?thesis
    by (intro exI [of _ "if ?invalid \<noteq> [] then Some (Errorf ''option workers: invalid controller names or groups: %v'' ?invalid) else None"]
        exI [of _ ?o2]) auto
qed

text \<open>Without a source of controllers the validation panics, unless there are counts to reject.\<close>

lemma workers_without_controllers:
  "workers_Validate None \<lparr>wo_concurrency = [], wo_set = r\<rparr> = None"
  "c \<noteq> [] \<Longrightarrow> workers_Validate None \<lparr>wo_concurrency = c, wo_set = r\<rparr> =
     Some (Some (Errorf ''no controllers found to set workers for'' []), \<lparr>wo_concurrency = c, wo_set = r\<rparr>)"
  by (simp_all add: workers_Validate_def)

lemma NewRegistry_fields [simp]:
  "rg_factories (NewRegistry t d) = []" "rg_selected (NewRegistry t d) = []" "rg_typ (NewRegistry t d) = t" "rg_desc (NewRegistry t d) = d"
  by (simp_all add: NewRegistry_def)

lemma Register_fields:
  "rg_factories (Register n f r) = gset n f (rg_factories r)" "rg_typ (Register n f r) = rg_typ r" "rg_desc (Register n f r) = rg_desc r"
  "rg_selected (Register n f r) = (if fa_default f = Some True then n else rg_selected r)"
  "rg_def (Register n f r) = (if fa_default f = Some True then n else rg_def r)"
  by (auto simp: Register_def Let_def)

text \<open>Registering a list of factories: the last of a name counts, and the last default is selected.\<close>

definition register_all :: "(string \<times> ('c, 'o) reg_factory) list \<Rightarrow> ('c, 'o) registry \<Rightarrow> ('c, 'o) registry" where
  "register_all fs r = fold (\<lambda>(k, v) n. Register k v n) fs r"

lemma register_all_fields:
  "rg_typ (register_all fs r) = rg_typ r" "rg_desc (register_all fs r) = rg_desc r"
  "gget (rg_factories (register_all fs r)) n = (case rev (filter (\<lambda>(k, v). k = n) fs) of [] \<Rightarrow> gget (rg_factories r) n | (k, v) # _ \<Rightarrow> Some v)"
  "rg_selected (register_all fs r) = (case rev (filter (\<lambda>(k, v). fa_default v = Some True) fs) of [] \<Rightarrow> rg_selected r | (k, v) # _ \<Rightarrow> k)"
  by (induction fs rule: rev_induct) (auto simp: register_all_def Register_fields split: list.splits)

lemma gwf_rev_filter: "gwf m \<Longrightarrow> (case rev (filter (\<lambda>(k, v). k = n) m) of [] \<Rightarrow> None | (k, v) # _ \<Rightarrow> Some v) = gget m n"
proof -
  assume wf: "gwf m"
  show ?thesis
  proof (cases "gget m n")
    case None
    then have "filter (\<lambda>(k, v). k = n) m = []"
      by (force simp: filter_empty_conv map_of_eq_None_iff)
    then show ?thesis
      using None by simp
  next
    case (Some v)
    have "(k, u) \<in> set (filter (\<lambda>(k, v). k = n) m) \<longleftrightarrow> k = n \<and> u = v" for k u
      using wf Some by (auto simp: gget_Some_iff gwf_def dest: eq_key_imp_eq_value)
    then have "set (rev (filter (\<lambda>(k, v). k = n) m)) = {(n, v)}"
      by auto
    then show ?thesis
      using Some by (cases "rev (filter (\<lambda>(k, v). k = n) m)") auto
  qed
qed

text \<open>
  A clone creates by name what the registry creates. What it creates by configuration
  differs: its selection is the default that comes last in the order of the map, however
  the registry was selected, and with no default a configured registry has a clone without
  configuration.
\<close>

theorem registry_clone:
  assumes "gwf (rg_factories r)"
  shows "registry_Create n cfg (Clone r) = registry_Create n cfg r \<and> registry_Get n (Clone r) = registry_Get n r \<and>
    SelectedMode (Clone r) = (case rev (filter (\<lambda>(k, f). fa_default f = Some True) (rg_factories r)) of [] \<Rightarrow> [] | (k, f) # _ \<Rightarrow> k) \<and>
    ((\<forall>(k, f) \<in> set (rg_factories r). fa_default f \<noteq> Some True) \<longrightarrow>
       CreateConfigured cfg (Clone r) = Inl (Errorf ''no %s configured'' [rg_typ r]))"
proof -
  have clone: "Clone r = register_all (rg_factories r) (NewRegistry (rg_typ r) (rg_desc r))"
    by (simp add: Clone_def register_all_def)
  have get: "gget (rg_factories (Clone r)) n = gget (rg_factories r) n"
    using gwf_rev_filter [OF assms, of n] by (auto simp: clone register_all_fields split: list.splits)
  have sel: "rg_selected (Clone r) = (case rev (filter (\<lambda>(k, f). fa_default f = Some True) (rg_factories r)) of [] \<Rightarrow> [] | (k, f) # _ \<Rightarrow> k)"
    by (simp add: clone register_all_fields split: list.split)
  have kept: "rg_typ (Clone r) = rg_typ r"
    by (simp add: clone register_all_fields)
  have "filter (\<lambda>(k, f). fa_default f = Some True) (rg_factories r) = []"
    if "\<forall>(k, f) \<in> set (rg_factories r). fa_default f \<noteq> Some True"
    using that by (auto simp: filter_empty_conv)
  then show ?thesis
    using get sel by (auto simp: registry_Create_def registry_Get_def SelectedMode_def CreateConfigured_def kept split: option.split)
qed

text \<open>
  The three ways to create the list of a kind agree: where the kind of an object is
  unique and its list kind is recognised exactly if it can be created, a list created
  directly, by the factory, and by the object helpers is the same, and all fail together.
\<close>

theorem list_creation:
  assumes "ls_kinds S obj = Inr (k # ks)" "ls_gvk S obj = Inr k" "\<And>g. ls_recognizes S g \<longleftrightarrow> (\<exists>l. ls_new S g = Inr l)"
  shows "case CreateListFactoryFromObject S obj of
      Inr fac \<Rightarrow> fac () = CreateListFromObject S obj \<and> fac () = CreateObjectList S obj \<and> (\<forall>e. fac () \<noteq> Some (Inl e))
    | Inl err \<Rightarrow> CreateListFromObject S obj = Some (Inl err) \<and> (\<exists>e. CreateObjectList S obj = Some (Inl e))"
proof (cases "ls_new S (list_kind k)")
  case (Inl e)
  then show ?thesis
    using assms by (simp add: CreateListFactoryFromObject_def CreateListFromObject_def CreateObjectList_def GetListGVK_def first_kind_def)
next
  case (Inr l)
  then show ?thesis
    using assms
    by (auto simp: CreateListFactoryFromObject_def CreateListFromObject_def CreateObjectList_def GetListGVK_def first_kind_def as_list_def)
qed

text \<open>An index whose list type is unknown leaves its field registered.\<close>

lemma NewIndex_leaves_field:
  "CreateListFactoryFromObject S proto = Inl err \<Longrightarrow> field_indexer name w = (None, w') \<Longrightarrow> NewIndex S field_indexer name proto w = (Inl err, w')"
  by (simp add: NewIndex_def)

lemma iterate_all:
  "(\<And>i x s. fst (yield i x s)) \<Longrightarrow> iterate yield i xs s = fold (\<lambda>(i, x) s. snd (yield i x s)) (List.enumerate i xs) s"
  by (induction xs arbitrary: i s) (simp_all add: case_prod_beta)

section \<open>Witnesses\<close>

theorem worker_counts_witness:
  "\<exists>o2. workers_Validate (Some \<lparr>cs_names = [''a'', ''b''], cs_groups = [(''g'', Some [''a''])]\<rparr>)
       \<lparr>wo_concurrency = [(''a'', 2), (''g'', 5), (''b'', 0)], wo_set = []\<rparr> = Some (None, o2) \<and>
     ConfigureController o2 ''a'' 1 = 5 \<and> ConfigureController o2 ''b'' 1 = 1"
  using worker_counts [of "[(''g'', Some [''a''])]" "[''a'', ''b'']" "\<lparr>wo_concurrency = [(''a'', 2), (''g'', 5), (''b'', 0)], wo_set = []\<rparr>" 1]
  by (auto simp: names_controller_def members_of_def gwf_def)

definition default_factory :: "nat \<Rightarrow> bool \<Rightarrow> (nat, nat) reg_factory" where
  "default_factory n d = \<lparr>fa_create = (\<lambda>c. Inr (c + n)), fa_description = [], fa_option = False, fa_default = Some d\<rparr>"

theorem registry_clone_witness:
  "registry_Create ''x'' 3 (Clone (registry_AddFlags (Some ''x'') (Register ''x'' (default_factory 1 False) (NewRegistry ''mode'' [])))) = Inr 4 \<and>
   CreateConfigured 3 (registry_AddFlags (Some ''x'') (Register ''x'' (default_factory 1 False) (NewRegistry ''mode'' []))) = Inr 4 \<and>
   CreateConfigured 3 (Clone (registry_AddFlags (Some ''x'') (Register ''x'' (default_factory 1 False) (NewRegistry ''mode'' [])))) =
     Inl (Errorf ''no %s configured'' [''mode''])"
proof -
  let ?r = "registry_AddFlags (Some ''x'') (Register ''x'' (default_factory 1 False) (NewRegistry ''mode'' []))"
  have r: "rg_factories ?r = [(''x'', default_factory 1 False)]" "rg_selected ?r = ''x''" "rg_typ ?r = ''mode''"
    by (simp_all add: registry_AddFlags_def Register_def NewRegistry_def default_factory_def gset_def)
  then show ?thesis
    using registry_clone [of ?r "''x''" 3]
    by (simp add: gwf_def registry_Create_def CreateConfigured_def default_factory_def)
qed

definition scheme_demo :: "(string, gvk3) list_scheme" where
  "scheme_demo = \<lparr>ls_kinds = (\<lambda>o'. Inr [([], ''v1'', o')]), ls_gvk = (\<lambda>o'. Inr ([], ''v1'', o')), ls_recognizes = (\<lambda>g. g = ([], ''v1'', ''PodList'')),
     ls_new = (\<lambda>g. if g = ([], ''v1'', ''PodList'') then Inr g else Inl (External 1)), ls_is_list = (\<lambda>_. True)\<rparr>"

theorem list_creation_witness:
  "CreateObjectList scheme_demo ''Pod'' = Some (Inr ([], ''v1'', ''PodList'')) \<and> CreateListFromObject scheme_demo ''Pod'' = CreateObjectList scheme_demo ''Pod''"
proof -
  have fac: "\<exists>fac. CreateListFactoryFromObject scheme_demo ''Pod'' = Inr fac \<and> fac () = Some (Inr ([], ''v1'', ''PodList''))"
    by (simp add: scheme_demo_def CreateListFactoryFromObject_def first_kind_def list_kind_def as_list_def)
  have "ls_recognizes scheme_demo g \<longleftrightarrow> (\<exists>l. ls_new scheme_demo g = Inr l)" for g
    by (simp add: scheme_demo_def)
  then show ?thesis
    using list_creation [of scheme_demo "''Pod''" "([], ''v1'', ''Pod'')" "[]"] fac by (auto simp: scheme_demo_def)
qed

end
