(* ===== verification/Messages.thy ===== *)
theory Messages
  imports Clusters
begin

text \<open>
  Log messages with placeholders (log/message/message.go, logger.go) and the messages for
  clusters (log/providers.go). A placeholder is a name in double braces, its value follows
  the name in the list of values given to the logger.
\<close>

section \<open>Composition\<close>

text \<open>
  The arguments of a log call: a nil, a string, a message provider with its values, a
  provider of values only, a list of values, or anything else by its default format.
\<close>

datatype log_arg =
    Arg_nil
  | Arg_string string
  | Arg_message string "(string \<times> string) list"
  | Arg_values "(string \<times> string) list"
  | Arg_list "string list"
  | Arg_other string

definition hole :: "string \<Rightarrow> string" where
  "hole k = ''{{'' @ k @ ''}}''"

definition flatten :: "(string \<times> string) list \<Rightarrow> string list" where
  "flatten kvs = concat (map (\<lambda>(k, v). [k, v]) kvs)"

fun value_holes :: "(string \<times> string) list \<Rightarrow> string \<times> string \<Rightarrow> string \<times> string" where
  "value_holes [] (msg, sp) = (msg, sp)"
| "value_holes ((k, v) # kvs) (msg, sp) = value_holes kvs (msg @ sp @ hole k, '' '')"

fun log_args :: "log_arg list \<Rightarrow> string \<Rightarrow> string list \<Rightarrow> string \<Rightarrow> string \<times> string list" where
  "log_args [] msg vals sp = (msg, vals)"
| "log_args (Arg_nil # as) msg vals sp = log_args as msg vals sp"
| "log_args (Arg_string s # as) msg vals sp = log_args as (msg @ s) vals []"
| "log_args (Arg_message m kvs # as) msg vals sp = log_args as (msg @ sp @ m) (vals @ flatten kvs) ''  ''"
| "log_args (Arg_values kvs # as) msg vals sp =
     (let (msg, sp) = value_holes kvs (msg, sp) in log_args as msg (vals @ flatten kvs) sp)"
| "log_args (Arg_list xs # as) msg vals sp = log_args as msg (vals @ xs) sp"
| "log_args (Arg_other s # as) msg vals sp = log_args as (msg @ sp @ s) vals sp"

text \<open>What a logger is called with, if its level is enabled.\<close>

definition log_message :: "bool \<Rightarrow> log_arg list \<Rightarrow> (string \<times> string list) option" where
  "log_message enabled as = (if enabled then Some (log_args as [] [] []) else None)"

section \<open>Messages for clusters\<close>

record cluster_info =
  cl_type :: string
  cl_info :: string
  cl_eq :: cluster_eq

definition base_of :: "string list \<Rightarrow> string" where
  "base_of base = (case base of [] \<Rightarrow> [] | b # _ \<Rightarrow> b)"

definition ClusterInfoMsg :: "string list \<Rightarrow> string" where
  "ClusterInfoMsg base =
     (let b = base_of base in
      hole (''clusterkind'' @ b) @ '' '' @ hole (''cluster'' @ b) @ ''['' @ hole (''clusterid'' @ b) @ ''] accessing '' @ hole (''clusterinfo'' @ b))"

definition clusterinfo_values :: "cluster_info \<Rightarrow> string \<Rightarrow> (string \<times> string) list" where
  "clusterinfo_values c b =
     [(''clusterkind'' @ b, cl_type c), (''cluster'' @ b, ce_GetName (cl_eq c)), (''clusterid'' @ b, ce_GetId (cl_eq c)),
      (''clusterinfo'' @ b, cl_info c), (''effcluster'' @ b, ce_GetName (ce_GetEffective (cl_eq c)))]"

definition ClusterInfo :: "cluster_info \<Rightarrow> string list \<Rightarrow> log_arg" where
  "ClusterInfo c base = Arg_message (ClusterInfoMsg [base_of base]) (clusterinfo_values c (base_of base))"

definition LogicalClusterInfoMsg :: "string list \<Rightarrow> string" where
  "LogicalClusterInfoMsg base =
     (let b = base_of base in
      hole (''clusterkind'' @ b) @ '' '' @ hole (''cluster'' @ b) @ ''->'' @ hole (''effcluster'' @ b) @ ''['' @ hole (''clusterid'' @ b) @ '']'')"

definition LogicalClusterInfo :: "cluster_info \<Rightarrow> string list \<Rightarrow> log_arg" where
  "LogicalClusterInfo c base = Arg_message (LogicalClusterInfoMsg [base_of base]) (clusterinfo_values c (base_of base))"

definition ClusterMsg :: "string list \<Rightarrow> string" where
  "ClusterMsg base =
     (let b = base_of base in hole (''kind'' @ b) @ '' '' @ hole (''cluster'' @ b) @ ''->'' @ hole (''effcluster'' @ b))"

definition cluster_values :: "cluster_info \<Rightarrow> string \<Rightarrow> (string \<times> string) list" where
  "cluster_values c b =
     [(''clusterkind'' @ b, cl_type c), (''cluster'' @ b, ce_GetName (cl_eq c)), (''effcluster'' @ b, ce_GetName (ce_GetEffective (cl_eq c)))]"

definition Cluster_message :: "cluster_info \<Rightarrow> string list \<Rightarrow> log_arg" where
  "Cluster_message c base = Arg_message (ClusterMsg [base_of base]) (cluster_values c (base_of base))"

definition GroupKind_values :: "string \<Rightarrow> log_arg" where
  "GroupKind_values gk = Arg_values [(''groupkind'', gk)]"

section \<open>Placeholders\<close>

text \<open>The placeholders of a message, read from left to right.\<close>

fun until_close :: "string \<Rightarrow> string \<times> string" where
  "until_close [] = ([], [])"
| "until_close (c # s) =
     (if c = CHR ''}'' \<and> s \<noteq> [] \<and> hd s = CHR ''}'' then ([], tl s)
      else (case until_close s of (k, r) \<Rightarrow> (c # k, r)))"

lemma until_close_length: "length (snd (until_close s)) \<le> length s"
  by (induction s) (auto split: prod.splits)

function placeholders :: "string \<Rightarrow> string list" where
  "placeholders s =
     (case s of
        [] \<Rightarrow> []
      | [c] \<Rightarrow> []
      | c # d # r \<Rightarrow>
          if c = CHR ''{'' \<and> d = CHR ''{''
          then (let (k, r) = until_close r in k # placeholders r) else placeholders (d # r))"
  by pat_completeness auto
termination
proof (relation "measure length", simp_all)
  fix r k r' :: string
  assume "(k, r') = until_close r"
  then show "length r' < Suc (Suc (length r))"
    using until_close_length [of r] by (metis le_imp_less_Suc less_SucI snd_conv)
qed

declare placeholders.simps [simp del]

definition unbraced :: "string \<Rightarrow> bool" where
  "unbraced s \<longleftrightarrow> CHR ''{'' \<notin> set s \<and> CHR ''}'' \<notin> set s"

lemma unbraced_simps [simp]:
  "unbraced []" "unbraced (c # s) \<longleftrightarrow> c \<noteq> CHR ''{'' \<and> c \<noteq> CHR ''}'' \<and> unbraced s" "unbraced (s @ t) \<longleftrightarrow> unbraced s \<and> unbraced t"
  by (auto simp: unbraced_def)

lemma until_close_hole: "unbraced k \<Longrightarrow> until_close (k @ ''}}'' @ r) = (k, r)"
  by (induction k) auto

lemma placeholders_simps [simp]: "placeholders [] = []"
  "c \<noteq> CHR ''{'' \<Longrightarrow> placeholders (c # s) = placeholders s"
  by (subst placeholders.simps, simp, subst placeholders.simps, cases s) (auto simp: placeholders.simps)

lemma placeholders_text: "unbraced t \<Longrightarrow> placeholders (t @ r) = placeholders r"
  by (induction t) auto

lemma placeholders_hole: "unbraced k \<Longrightarrow> placeholders (hole k @ r) = k # placeholders r"
  using until_close_hole [of k r] by (simp add: hole_def placeholders.simps [of "CHR ''{'' # _"])

text \<open>A message made of texts and placeholders, after which any other can follow.\<close>

definition composed :: "string \<Rightarrow> string list \<Rightarrow> bool" where
  "composed m ks \<longleftrightarrow> (\<forall>r. placeholders (m @ r) = ks @ placeholders r)"

lemma composed_intros:
  "composed [] []" "unbraced t \<Longrightarrow> composed t []" "unbraced k \<Longrightarrow> composed (hole k) [k]"
  "composed m ks \<Longrightarrow> composed m' ks' \<Longrightarrow> composed (m @ m') (ks @ ks')"
  by (simp_all add: composed_def placeholders_text placeholders_hole)

lemma composed_placeholders: "composed m ks \<Longrightarrow> placeholders m = ks"
  unfolding composed_def by (metis append_Nil2 placeholders_simps(1))

fun names_of :: "string list \<Rightarrow> string list" where
  "names_of (k # v # vs) = k # names_of vs"
| "names_of _ = []"

lemma names_of_append: "even (length xs) \<Longrightarrow> names_of (xs @ ys) = names_of xs @ names_of ys"
  by (induction xs rule: names_of.induct) auto

lemma names_of_flatten [simp]: "names_of (flatten kvs) = map fst kvs" "even (length (flatten kvs))"
  by (induction kvs) (auto simp: flatten_def)

definition well_formed :: "log_arg \<Rightarrow> bool" where
  "well_formed a \<longleftrightarrow>
     (case a of
        Arg_nil \<Rightarrow> True
      | Arg_string s \<Rightarrow> unbraced s
      | Arg_message m kvs \<Rightarrow> \<exists>ks. composed m ks \<and> set ks \<subseteq> set (map fst kvs)
      | Arg_values kvs \<Rightarrow> \<forall>(k, v) \<in> set kvs. unbraced k
      | Arg_list xs \<Rightarrow> even (length xs)
      | Arg_other s \<Rightarrow> unbraced s)"

lemma value_holes_composed:
  assumes "composed msg ks" "unbraced sp" "\<forall>(k, v) \<in> set kvs. unbraced k" "value_holes kvs (msg, sp) = (msg', sp')"
  shows "composed msg' (ks @ map fst kvs) \<and> unbraced sp'"
  using assms
proof (induction kvs "(msg, sp)" arbitrary: msg sp ks rule: value_holes.induct)
  case (2 k v kvs msg sp)
  have "composed (msg @ sp @ hole k) (ks @ [] @ [k])"
    using 2 by (intro composed_intros) auto
  then show ?case
    using 2(1) [of "ks @ [k]"] 2 by simp
qed auto

text \<open>
  Every placeholder of a composed message has a value: if the texts have no braces and every
  provider gives the values of its own placeholders, so does the log call. The cluster
  providers do, except the short one, whose placeholder for the kind has no value.
\<close>

theorem messages_filled:
  assumes "\<forall>a \<in> set as. well_formed a" "log_message True as = Some (msg, vals)"
  shows "set (placeholders msg) \<subseteq> set (names_of vals)"
proof -
  have "\<exists>ks'. composed (fst (log_args as m vs sp)) ks' \<and> set ks' \<subseteq> set (names_of (snd (log_args as m vs sp)))"
    if "\<forall>a \<in> set as. well_formed a" "composed m ks" "set ks \<subseteq> set (names_of vs)" "even (length vs)" "unbraced sp"
    for as m ks vs sp
    using that
  proof (induction as m vs sp arbitrary: ks rule: log_args.induct)
    case (3 s as msg vs sp)
    then show ?case
      using 3(1) [of "ks @ []"] composed_intros(2) [of s] composed_intros(4) [of msg ks s "[]"] by (simp add: well_formed_def)
  next
    case (4 m kvs as msg vs sp)
    then obtain ks' where ks': "composed m ks'" "set ks' \<subseteq> set (map fst kvs)"
      by (auto simp: well_formed_def)
    have "composed (msg @ sp @ m) (ks @ [] @ ks')"
      using 4 ks' by (intro composed_intros) auto
    then show ?case
      using 4(1) [of "ks @ ks'"] 4(2-) ks' by (simp add: names_of_append le_supI1 le_supI2)
  next
    case (5 kvs as msg vs sp)
    obtain msg' sp' where h: "value_holes kvs (msg, sp) = (msg', sp')"
      by fastforce
    have "composed msg' (ks @ map fst kvs) \<and> unbraced sp'"
      using value_holes_composed [OF _ _ _ h] 5 by (simp add: well_formed_def)
    then show ?case
      using 5(1) [OF h [symmetric] refl, of "ks @ map fst kvs"] 5(2-) h by (simp add: names_of_append le_supI1)
  next
    case (6 xs as msg vs sp)
    then show ?case
      using 6(1) [of ks] by (auto simp: names_of_append well_formed_def)
  next
    case (7 s as msg vs sp)
    have "composed (msg @ sp @ s) (ks @ [] @ [])"
      using 7 by (intro composed_intros) (auto simp: well_formed_def)
    then show ?case
      using 7(1) [of ks] 7 by simp
  qed auto
  from this [of as "[]" "[]" "[]" "[]"] assms show ?thesis
    by (auto simp: log_message_def composed_intros(1) dest: composed_placeholders)
qed

lemma provider_messages:
  assumes "unbraced (base_of base)"
  shows "well_formed (ClusterInfo c base)" "well_formed (LogicalClusterInfo c base)"
    "placeholders (ClusterMsg base) = [''kind'' @ base_of base, ''cluster'' @ base_of base, ''effcluster'' @ base_of base]"
    "''kind'' @ base_of base \<notin> set (map fst (cluster_values c (base_of base)))"
proof -
  let ?b = "base_of base"
  have b: "base_of [?b] = ?b"
    by (simp add: base_of_def)
  have "composed (ClusterInfoMsg [?b]) ([''clusterkind'' @ ?b] @ [] @ [''cluster'' @ ?b] @ [] @ [''clusterid'' @ ?b] @ [] @ [''clusterinfo'' @ ?b])"
    unfolding ClusterInfoMsg_def Let_def b using assms by (intro composed_intros) simp_all
  then show "well_formed (ClusterInfo c base)"
    by (auto simp: ClusterInfo_def well_formed_def clusterinfo_values_def)
  have "composed (LogicalClusterInfoMsg [?b]) ([''clusterkind'' @ ?b] @ [] @ [''cluster'' @ ?b] @ [] @ [''effcluster'' @ ?b] @ [] @ [''clusterid'' @ ?b] @ [])"
    unfolding LogicalClusterInfoMsg_def Let_def b using assms by (intro composed_intros) simp_all
  then show "well_formed (LogicalClusterInfo c base)"
    by (auto simp: LogicalClusterInfo_def well_formed_def clusterinfo_values_def)
  have "composed (ClusterMsg base) ([''kind'' @ ?b] @ [] @ [''cluster'' @ ?b] @ [] @ [''effcluster'' @ ?b])"
    unfolding ClusterMsg_def Let_def using assms by (intro composed_intros) simp_all
  then show "placeholders (ClusterMsg base) = [''kind'' @ ?b, ''cluster'' @ ?b, ''effcluster'' @ ?b]"
    by (drule_tac composed_placeholders) simp
  show "''kind'' @ ?b \<notin> set (map fst (cluster_values c ?b))"
    by (simp add: cluster_values_def)
qed

theorem messages_filled_witness:
  "set (placeholders (fst (log_args [Arg_string ''cluster '', Arg_values [(''cluster'', ''mine'')], Arg_string '' is healthy''] [] [] []))) \<subseteq> {''cluster''} \<and>
   log_args [Arg_string ''cluster '', Arg_values [(''cluster'', ''mine'')], Arg_string '' is healthy''] [] [] [] =
     (''cluster {{cluster}} is healthy'', [''cluster'', ''mine''])"
proof -
  let ?a = "[Arg_string ''cluster '', Arg_values [(''cluster'', ''mine'')], Arg_string '' is healthy'']"
  have run: "log_args ?a [] [] [] = (''cluster {{cluster}} is healthy'', [''cluster'', ''mine''])"
    by (simp add: hole_def flatten_def)
  then have "log_message True ?a = Some (''cluster {{cluster}} is healthy'', [''cluster'', ''mine''])"
    by (simp add: log_message_def)
  from messages_filled [OF _ this] run show ?thesis
    by (simp add: well_formed_def)
qed

end
