(* ===== verification/StateMonad.thy ===== *)
theory StateMonad
  imports Kube_Prelude
begin

text \<open>
  The example of a state monad (examples/statemonad/main.go): the numbering of the branches of
  a tree. A tree is a pointer, \<open>None\<close> for \<open>nil\<close>; a computation that dereferences it has
  no result.
\<close>

section \<open>Trees\<close>

datatype 'v bintree = BinTree (bt_left: "'v bintree option") (bt_value: 'v) (bt_right: "'v bintree option")

definition IsLeaf :: "'v bintree \<Rightarrow> bool" where
  "IsLeaf b \<longleftrightarrow> bt_left b = None \<and> bt_right b = None"

record 'v numbered =
  nb_index :: int
  nb_value :: 'v

text \<open>The value of a leaf is the zero value, here a parameter.\<close>

definition Leaf :: "'v \<Rightarrow> 'v bintree option" where
  "Leaf zero = Some (BinTree None zero None)"

definition Branch :: "'v bintree option \<Rightarrow> 'v \<Rightarrow> 'v bintree option \<Rightarrow> 'v bintree option" where
  "Branch l v r = Some (BinTree l v r)"

fun tree_String :: "('v \<Rightarrow> string) \<Rightarrow> 'v bintree \<Rightarrow> string option" where
  "tree_String f (BinTree None v None) = Some ''-''"
| "tree_String f (BinTree (Some l) v (Some r)) =
     (case (tree_String f l, tree_String f r) of
        (Some a, Some b) \<Rightarrow> Some (''('' @ a @ ''/'' @ f v @ ''/'' @ b @ '')'') | _ \<Rightarrow> None)"
| "tree_String f (BinTree _ v _) = None"

section \<open>The monad\<close>

type_synonym ('s, 'v) state = "'s \<Rightarrow> ('s \<times> 'v) option"

definition ok :: "'v \<Rightarrow> ('s, 'v) state" where
  "ok v = (\<lambda>s. Some (s, v))"

definition andThen :: "('s, 'a) state \<Rightarrow> ('a \<Rightarrow> ('s, 'b) state) \<Rightarrow> ('s, 'b) state" where
  "andThen first cont = (\<lambda>s. Option.bind (first s) (\<lambda>(st, a). cont a st))"

definition get :: "('s, 's) state" where
  "get = (\<lambda>s. Some (s, s))"

definition set_state :: "'s \<Rightarrow> ('s, unit) state" where
  "set_state s = (\<lambda>_. Some (s, ()))"

lemma bind_cong [fundef_cong]:
  "f = f' \<Longrightarrow> (\<And>a. g a = g' a) \<Longrightarrow> andThen f g = andThen f' g'"
  by (simp add: andThen_def)

fun helper :: "'v \<Rightarrow> 'v bintree option \<Rightarrow> (int, 'v numbered bintree option) state" where
  "helper zero None = (\<lambda>_. None)"
| "helper zero (Some (BinTree l v r)) =
     (if l = None \<and> r = None then ok (Leaf \<lparr>nb_index = 0, nb_value = zero\<rparr>)
      else andThen (helper zero l) (\<lambda>nleft.
             andThen get (\<lambda>n.
             andThen (set_state (n + 1)) (\<lambda>_.
             andThen (helper zero r) (\<lambda>nright.
             ok (Branch nleft \<lparr>nb_index = n, nb_value = v\<rparr> nright))))))"

definition NumberedTree :: "'v \<Rightarrow> 'v bintree option \<Rightarrow> 'v numbered bintree option option" where
  "NumberedTree zero t = map_option snd (helper zero t 0)"

section \<open>Numbering\<close>

text \<open>The branches from left to right, and the trees in which every branch has two subtrees.\<close>

fun inorder :: "'v bintree option \<Rightarrow> 'v list" where
  "inorder None = []"
| "inorder (Some (BinTree l v r)) = (if l = None \<and> r = None then [] else inorder l @ v # inorder r)"

fun full :: "'v bintree option \<Rightarrow> bool" where
  "full None = False"
| "full (Some (BinTree l v r)) = (if l = None \<and> r = None then True else full l \<and> full r)"

fun shape :: "'v bintree option \<Rightarrow> unit bintree option" where
  "shape None = None"
| "shape (Some (BinTree l v r)) = Some (BinTree (shape l) () (shape r))"

lemma shape_None [simp]: "shape t = None \<longleftrightarrow> t = None" "None = shape t \<longleftrightarrow> t = None"
  by (cases t rule: shape.cases; simp)+

definition numbers :: "'v \<Rightarrow> int \<Rightarrow> 'v bintree option \<Rightarrow> bool" where
  "numbers zero n t \<longleftrightarrow>
     (if full t
      then \<exists>t'. helper zero t n = Some (n + int (length (inorder t)), t') \<and> shape t' = shape t \<and>
        map nb_index (inorder t') = map (\<lambda>i. n + int i) [0..<length (inorder t)] \<and> map nb_value (inorder t') = inorder t
      else helper zero t n = None)"

lemma numbers_branch:
  assumes "\<And>n. numbers zero n l" "\<And>n. numbers zero n r"
  shows "numbers zero n (Some (BinTree l v r))"
proof -
  show ?thesis
  proof (cases "l = None \<and> r = None")
    case True
    then show ?thesis
      by (auto simp: numbers_def ok_def Leaf_def)
  next
    case False
    note IH = assms [unfolded numbers_def]
    show ?thesis
    proof (cases "full l \<and> full r")
      case True
      obtain l' where l': "helper zero l n = Some (n + int (length (inorder l)), l')" "shape l' = shape l"
        "map nb_index (inorder l') = map (\<lambda>i. n + int i) [0..<length (inorder l)]" "map nb_value (inorder l') = (inorder l)"
        using IH(1) [of n] True by auto
      let ?m = "n + int (length (inorder l))"
      obtain r' where r': "helper zero r (?m + 1) = Some (?m + 1 + int (length (inorder r)), r')" "shape r' = shape r"
        "map nb_index (inorder r') = map (\<lambda>i. ?m + 1 + int i) [0..<length (inorder r)]" "map nb_value (inorder r') = (inorder r)"
        using IH(2) [of "?m + 1"] True by auto
      have "l' \<noteq> None \<or> r' \<noteq> None"
        using l'(2) True by (cases l') (auto simp: shape_None(2))
      moreover have "map (\<lambda>i. n + int i) [0..<length (inorder l) + Suc (length (inorder r))] =
          map (\<lambda>i. n + int i) [0..<length (inorder l)] @ ?m # map (\<lambda>i. ?m + 1 + int i) [0..<length (inorder r)]"
        by (rule nth_equalityI) (auto simp: nth_append nth_Cons simp del: upt_Suc split: nat.splits)
      ultimately show ?thesis
        using l' r' True False
        by (auto simp: numbers_def andThen_def get_def set_state_def ok_def Branch_def)
    next
      case not: False
      then show ?thesis
        using IH(1) [of n] IH(2) [of "n + int (length (inorder l)) + 1"] False
        by (auto simp: numbers_def andThen_def get_def set_state_def split: if_splits)
    qed
  qed
qed

lemma helper_full: "numbers zero n t"
proof (cases t)
  case (Some b)
  have "numbers zero n (Some b)" for n
  proof (induction b arbitrary: n)
    case (BinTree l v r)
    have "numbers zero n l" for n
      using BinTree(1) by (cases l) (auto simp: numbers_def)
    moreover have "numbers zero n r" for n
      using BinTree(2) by (cases r) (auto simp: numbers_def)
    ultimately show ?case
      by (rule numbers_branch)
  qed
  then show ?thesis
    using Some by simp
qed (simp add: numbers_def)

text \<open>
  Numbering keeps the shape of a tree and the values of its branches and numbers these
  from left to right, starting with 0; a tree with a branch that misses one subtree panics.
\<close>

theorem numbered_tree:
  "(full t \<longrightarrow> (\<exists>t'. NumberedTree zero t = Some t' \<and> shape t' = shape t \<and>
      inorder t' = map (\<lambda>(i, v). \<lparr>nb_index = int i, nb_value = v\<rparr>) (List.enumerate 0 (inorder t)))) \<and>
   (\<not> full t \<longrightarrow> NumberedTree zero t = None)"
proof (intro conjI impI)
  assume "full t"
  then obtain t' where t': "helper zero t 0 = Some (int (length (inorder t)), t')" "shape t' = shape t"
    "map nb_index (inorder t') = map int [0..<length (inorder t)]" "map nb_value (inorder t') = inorder t"
    using helper_full [of zero 0 t] by (auto simp: numbers_def)
  have "inorder t' = map (\<lambda>(i, v). \<lparr>nb_index = int i, nb_value = v\<rparr>) (List.enumerate 0 (inorder t))"
  proof (rule nth_equalityI)
    show len: "length (inorder t') = length (map (\<lambda>(i, v). \<lparr>nb_index = int i, nb_value = v\<rparr>) (List.enumerate 0 (inorder t)))"
      using arg_cong [OF t'(4), of length] by simp
    fix i
    assume i: "i < length (inorder t')"
    then have "nb_index (inorder t' ! i) = int i" "nb_value (inorder t' ! i) = inorder t ! i"
      using len arg_cong [OF t'(3), of "\<lambda>l. l ! i"] arg_cong [OF t'(4), of "\<lambda>l. l ! i"] by simp_all
    then show "inorder t' ! i = map (\<lambda>(i, v). \<lparr>nb_index = int i, nb_value = v\<rparr>) (List.enumerate 0 (inorder t)) ! i"
      using i len by (simp add: nth_enumerate_eq numbered.equality)
  qed
  then show "\<exists>t'. NumberedTree zero t = Some t' \<and> shape t' = shape t \<and>
      inorder t' = map (\<lambda>(i, v). \<lparr>nb_index = int i, nb_value = v\<rparr>) (List.enumerate 0 (inorder t))"
    using t' by (simp add: NumberedTree_def)
next
  assume "\<not> full t"
  then show "NumberedTree zero t = None"
    using helper_full [of zero 0 t] by (simp add: NumberedTree_def numbers_def)
qed

end
