(* ===== verification/IndexAccess.thy ===== *)
theory IndexAccess
  imports CacheIndexes Fleets
begin

text \<open>
  Reading an index and triggering what it finds (cacheindex/untyped.go, typed.go), composed
  with the dispatch of fleets and the multiplexer of the cluster the index belongs to.
\<close>

section \<open>Access\<close>

text \<open>
  \<open>List\<close> of the cluster of an index: a fleet asks the cluster of the context. \<open>lister\<close> is the
  client of a cluster, called with the field, the namespace and the key.
\<close>

type_synonym 'o cluster_lister = "cluster \<Rightarrow> string \<Rightarrow> string \<Rightarrow> string \<Rightarrow> 'o list result"

fun ce_List :: "'o cluster_lister \<Rightarrow> ctx_info \<Rightarrow> cluster_eq \<Rightarrow> string \<Rightarrow> string \<Rightarrow> string \<Rightarrow> 'o list result" where
  "ce_List lister ctx (CE_Cluster c) f ns key = lister (cluster_GetEffective c) f ns key"
| "ce_List lister ctx (CE_Fleet f0) f ns key =
     Support_List (\<lambda>c (f, ns, key). lister (cluster_GetEffective c) f ns key) (fleet_GetEffective f0) ctx (f, ns, key)"

definition GetList :: "index_env \<Rightarrow> 'o cluster_lister \<Rightarrow> ctx_info \<Rightarrow> cindex \<Rightarrow> string \<Rightarrow> string \<Rightarrow> 'o list result" where
  "GetList env lister ctx i = index_GetList env (\<lambda>_ f ns key. ce_List lister ctx (ci_cluster i) f ns key) i"

text \<open>
  \<open>EnqueueByObject\<close> of a cluster equivalent; \<open>k\<close> is the fleet that the members of an
  effective cluster belong to. The multiplexer of the fleet or cluster is the state.
\<close>

fun ce_creator :: "kcp_fleet \<Rightarrow> ctx_info \<Rightarrow> cluster_eq \<Rightarrow> namespaced_name \<Rightarrow> mc_request result" where
  "ce_creator k ctx (CE_Cluster c) key = cluster_creator k ctx c key"
| "ce_creator k ctx (CE_Fleet f) key = Support_createRequest (fleet_GetEffective f) ctx key"

definition ce_EnqueueByObject ::
  "('o \<Rightarrow> gvk result) \<Rightarrow> ('o \<Rightarrow> gvk option) \<Rightarrow> ('o \<Rightarrow> namespaced_name option) \<Rightarrow> kcp_fleet \<Rightarrow> ctx_info \<Rightarrow> cluster_eq \<Rightarrow>
   'o \<Rightarrow> mc_request mux \<Rightarrow> gerror option \<times> mc_request mux" where
  "ce_EnqueueByObject scheme typed_kind key_of k ctx c = EnqueueByObject scheme typed_kind key_of (ce_creator k ctx c)"

definition index_Trigger ::
  "('o \<Rightarrow> gvk result) \<Rightarrow> ('o \<Rightarrow> gvk option) \<Rightarrow> ('o \<Rightarrow> namespaced_name option) \<Rightarrow> index_env \<Rightarrow> 'o cluster_lister \<Rightarrow> kcp_fleet \<Rightarrow>
   ctx_info \<Rightarrow> cindex \<Rightarrow> string \<Rightarrow> string \<Rightarrow> mc_request mux \<Rightarrow> gerror option \<times> mc_request mux" where
  "index_Trigger scheme typed_kind key_of env lister k ctx i ns key =
     ForEachItem env (\<lambda>_ f ns key. ce_List lister ctx (ci_cluster i) f ns key) i ns key
       (ce_EnqueueByObject scheme typed_kind key_of k ctx (ci_cluster i))"

section \<open>Typed access\<close>

text \<open>
  The items of a list by reflection: \<open>items\<close> is \<open>meta.GetItemsPtr\<close>, \<open>typed\<close> the assertion of
  the type of the slice, which panics for another type. The actions get a pointer to a
  copy of the item, what they write to it is lost.
\<close>

definition GetItemList :: "('l \<Rightarrow> 'p result) \<Rightarrow> ('p \<Rightarrow> 't list option) \<Rightarrow> 'l \<Rightarrow> 't list result option" where
  "GetItemList items typed l = (case items l of Inl err \<Rightarrow> Some (Inl err) | Inr p \<Rightarrow> map_option Inr (typed p))"

definition GetTyped :: "('l \<Rightarrow> 'p result) \<Rightarrow> ('p \<Rightarrow> 't list option) \<Rightarrow> 'l result \<Rightarrow> 't list result option" where
  "GetTyped items typed list = (case list of Inl err \<Rightarrow> Some (Inl err) | Inr l \<Rightarrow> GetItemList items typed l)"

definition ForEachTypedItem ::
  "('l \<Rightarrow> 'p result) \<Rightarrow> ('p \<Rightarrow> 't list option) \<Rightarrow> 'l result \<Rightarrow> ('t \<Rightarrow> 's \<Rightarrow> gerror option \<times> 's) \<Rightarrow> 's \<Rightarrow> (gerror option \<times> 's) option" where
  "ForEachTypedItem items typed list action s =
     (case GetTyped items typed list of
        None \<Rightarrow> None
      | Some (Inl err) \<Rightarrow> Some (Some err, s)
      | Some (Inr xs) \<Rightarrow> Some (each_item action xs s))"

text \<open>\<open>GetTypedIndex\<close> asserts the type of the effective index, a missing one is nil.\<close>

definition GetTypedIndex :: "index_ref elem_group \<Rightarrow> string \<Rightarrow> string \<Rightarrow> cindex option option" where
  "GetTypedIndex g name res =
     (case Group_Get g name of
        None \<Rightarrow> Some None
      | Some i \<Rightarrow> (if ci_resource (index_GetEffective i) = res then Some (Some (index_GetEffective i)) else None))"

section \<open>Properties\<close>

text \<open>
  The kind of an object is the one it carries, otherwise that of the scheme. An object can be enqueued
  if it has a kind and a key; then it brings a request to every queue of its kind.
\<close>

definition object_kind :: "('o \<Rightarrow> gvk result) \<Rightarrow> ('o \<Rightarrow> gvk option) \<Rightarrow> 'o \<Rightarrow> gvk option" where
  "object_kind scheme typed x = (case typed x of Some k \<Rightarrow> Some k | None \<Rightarrow> (case scheme x of Inr k \<Rightarrow> Some k | Inl _ \<Rightarrow> None))"

definition can_enqueue ::
  "('o \<Rightarrow> gvk result) \<Rightarrow> ('o \<Rightarrow> gvk option) \<Rightarrow> ('o \<Rightarrow> namespaced_name option) \<Rightarrow> 'o \<Rightarrow> bool" where
  "can_enqueue scheme typed key_of x \<longleftrightarrow> object_kind scheme typed x \<noteq> None \<and> key_of x \<noteq> None"

definition object_requests ::
  "('o \<Rightarrow> gvk result) \<Rightarrow> ('o \<Rightarrow> gvk option) \<Rightarrow> ('o \<Rightarrow> namespaced_name option) \<Rightarrow> string \<Rightarrow> (gvk, nat list) gomap \<Rightarrow> 'o \<Rightarrow>
   (nat \<times> mc_request) list" where
  "object_requests scheme typed key_of name enqueues x =
     (case (object_kind scheme typed x, key_of x) of
        (Some gvk, Some key) \<Rightarrow>
          map (\<lambda>q. (q, \<lparr>mc_cluster = name, mc_object = key\<rparr>)) (case gget enqueues gvk of None \<Rightarrow> [] | Some e \<Rightarrow> e)
      | _ \<Rightarrow> [])"

lemma EnqueueByObject_delivers:
  assumes "\<And>key. creator key = Inr \<lparr>mc_cluster = name, mc_object = key\<rparr>"
  shows "can_enqueue scheme typed key_of x \<Longrightarrow> EnqueueByObject scheme typed key_of creator x m =
      (None, m\<lparr>mx_delivered := mx_delivered m @ object_requests scheme typed key_of name (mx_enqueues m) x\<rparr>)"
    and "\<not> can_enqueue scheme typed key_of x \<Longrightarrow> \<exists>err. EnqueueByObject scheme typed key_of creator x m = (Some err, m)"
proof -
  show "EnqueueByObject scheme typed key_of creator x m =
      (None, m\<lparr>mx_delivered := mx_delivered m @ object_requests scheme typed key_of name (mx_enqueues m) x\<rparr>)"
    if "can_enqueue scheme typed key_of x"
    using that assms
    by (auto simp: can_enqueue_def object_kind_def object_requests_def EnqueueByObject_def EnqueueByGVK_def AddToQueue_append
        split: option.splits sum.splits)
  show "\<exists>err. EnqueueByObject scheme typed key_of creator x m = (Some err, m)" if "\<not> can_enqueue scheme typed key_of x"
    using that by (auto simp: can_enqueue_def object_kind_def EnqueueByObject_def split: option.splits sum.splits)
qed

lemma each_item_enqueues:
  assumes "\<And>key. creator key = Inr \<lparr>mc_cluster = name, mc_object = key\<rparr>"
  shows "\<exists>err. each_item (EnqueueByObject scheme typed key_of creator) xs m =
      (err, m\<lparr>mx_delivered := mx_delivered m @
         concat (map (object_requests scheme typed key_of name (mx_enqueues m)) (takeWhile (can_enqueue scheme typed key_of) xs))\<rparr>) \<and>
    (err = None \<longleftrightarrow> (\<forall>x \<in> set xs. can_enqueue scheme typed key_of x))"
proof (induction xs arbitrary: m)
  case (Cons x xs)
  note one = EnqueueByObject_delivers [where creator = creator and scheme = scheme and typed = typed and key_of = key_of
      and x = x and m = m, OF assms]
  show ?case
  proof (cases "can_enqueue scheme typed key_of x")
    case True
    then show ?thesis
      using one(1) Cons [of "m\<lparr>mx_delivered := mx_delivered m @ object_requests scheme typed key_of name (mx_enqueues m) x\<rparr>"]
      by simp
  next
    case False
    then show ?thesis
      using one(2) by auto
  qed
qed simp

text \<open>The cluster whose objects an access in a context sees: the cluster itself, or the member in the context.\<close>

definition accessed :: "ctx_info \<Rightarrow> cluster_eq \<Rightarrow> cluster result" where
  "accessed ctx ce =
     (case ce of CE_Cluster c \<Rightarrow> Inr c | CE_Fleet f \<Rightarrow> Support_getCluster (fleet_GetEffective f) ctx)"

text \<open>
  C38: Triggering by an index enqueues, for every object it finds in the cluster, or for a
  fleet in the member of the context, one request per queue of the kind of the object, which is the
  kind the object carries if it does and that of the scheme otherwise, under the technical name of
  that cluster. The first object without a kind or a key ends the run with an error; those before it
  have been enqueued. If the objects cannot be listed, and on a fleet without one of its members
  in the context, an error is reported and nothing is enqueued.
\<close>

theorem index_triggers:
  assumes "ie_new env (ci_list i) = None" "ci_cluster i = ce_GetEffective ce"
  shows "case accessed ctx (ci_cluster i) of
      Inl err \<Rightarrow> index_Trigger scheme typed key_of env lister k ctx i ns key m = (Some err, m)
    | Inr c \<Rightarrow>
        (case lister (cluster_GetEffective c) (ci_name i) ns key of
           Inl err \<Rightarrow> index_Trigger scheme typed key_of env lister k ctx i ns key m = (Some err, m)
         | Inr xs \<Rightarrow>
             (\<exists>err. index_Trigger scheme typed key_of env lister k ctx i ns key m =
                (err, m\<lparr>mx_delivered := mx_delivered m @
                   concat (map (object_requests scheme typed key_of (cluster_GetName (cluster_GetEffective c)) (mx_enqueues m))
                     (takeWhile (can_enqueue scheme typed key_of) xs))\<rparr>) \<and>
              (err = None \<longleftrightarrow> (\<forall>x \<in> set xs. can_enqueue scheme typed key_of x))))"
proof -
  have run: "index_Trigger scheme typed key_of env lister k ctx i ns key m =
      (case ce_List lister ctx (ci_cluster i) (ci_name i) ns key of
         Inl err \<Rightarrow> (Some err, m)
       | Inr xs \<Rightarrow> each_item (EnqueueByObject scheme typed key_of (ce_creator k ctx (ci_cluster i))) xs m)"
    using assms(1) by (simp add: index_Trigger_def ForEachItem_def index_GetList_def ce_EnqueueByObject_def)
  note found = each_item_enqueues [of "ce_creator k ctx (ci_cluster i)" _ scheme typed key_of _ m]
  show ?thesis
  proof (cases ce)
    case (CE_Cluster c)
    obtain n i' cl where base: "cluster_GetEffective c = BaseCluster n i' cl"
      by (induction c) auto
    then have "ce_creator k ctx (ci_cluster i) key = Inr \<lparr>mc_cluster = n, mc_object = key\<rparr>" for key
      using assms(2) CE_Cluster by simp
    then show ?thesis
      using run found CE_Cluster base assms(2) by (auto simp: accessed_def split: sum.splits)
  next
    case (CE_Fleet f)
    let ?k = "fleet_GetEffective f"
    have i: "ci_cluster i = CE_Fleet (KFleet ?k)"
      using assms(2) CE_Fleet by simp
    show ?thesis
    proof (cases "Support_getCluster ?k ctx")
      case (Inl err)
      then show ?thesis
        using run i by (simp add: accessed_def Support_List_def)
    next
      case (Inr c)
      then have "ce_creator k ctx (ci_cluster i) key = Inr \<lparr>mc_cluster = cluster_GetName (cluster_GetEffective c), mc_object = key\<rparr>" for key
        by (simp add: i Support_createRequest_def)
      then show ?thesis
        using run found Inr i by (auto simp: accessed_def Support_List_def split: sum.splits)
    qed
  qed
qed

lemma ForEachTypedItem_all:
  "GetTyped items typed list = Some (Inr xs) \<Longrightarrow> (\<And>x s. fst (action x s) = None) \<Longrightarrow>
   ForEachTypedItem items typed list action s = Some (None, fold (\<lambda>x s. snd (action x s)) xs s)"
proof -
  assume run: "GetTyped items typed list = Some (Inr xs)" and ok: "\<And>x s. fst (action x s) = None"
  have "each_item action ys s = (None, fold (\<lambda>x s. snd (action x s)) ys s)" for ys s
    using ok by (induction ys arbitrary: s) (simp_all add: case_prod_beta split: option.splits)
  then show ?thesis
    by (simp add: ForEachTypedItem_def run)
qed

lemma GetTypedIndex_agrees:
  "GetTypedIndex g name res = Some (Some i) \<longleftrightarrow> GetIndexFrom g name res = Inr i"
  "GetTypedIndex g name res = Some None \<longleftrightarrow> Group_Get g name = None"
  by (auto simp: GetTypedIndex_def GetIndexFrom_def split: option.splits if_splits)

section \<open>Witnesses\<close>

definition index_of_fleet :: cindex where
  "index_of_fleet = \<lparr>ci_name = ''ref'', ci_cluster = CE_Fleet (KFleet fleet_demo), ci_gvk = ([], ''v1'', ''Pod''), ci_resource = ''Pod'', ci_list = ([], ''v1'', ''PodList'')\<rparr>"

definition list_env :: index_env where
  "list_env = \<lparr>ie_kinds = (\<lambda>r. Inr [([], ''v1'', r)]), ie_new = (\<lambda>_. None), ie_gvk = (\<lambda>r. Inr ([], ''v1'', r)), ie_field = (\<lambda>_ _. None)\<rparr>"

text \<open>Objects that carry their kind need no scheme.\<close>

theorem index_triggers_witness:
  "index_Trigger (\<lambda>_. Inl (External 0)) (\<lambda>_. Some ([], ''v1'', ''Pod'')) Some list_env (\<lambda>c f ns key. Inr [demo_name]) fleet_demo
      (WithClusterAndName (gget (kf_clusters fleet_demo) ''m'') []) index_of_fleet [] ''x'' \<lparr>mx_enqueues = [(([], ''v1'', ''Pod''), [7])], mx_delivered = []\<rparr> =
     (None, \<lparr>mx_enqueues = [(([], ''v1'', ''Pod''), [7])], mx_delivered = [(7, \<lparr>mc_cluster = ''F#m'', mc_object = demo_name\<rparr>)]\<rparr>) \<and>
   index_Trigger (\<lambda>_. Inl (External 0)) (\<lambda>_. Some ([], ''v1'', ''Pod'')) Some list_env (\<lambda>c f ns key. Inr [demo_name]) fleet_demo
      (WithClusterAndName None []) index_of_fleet [] ''x'' \<lparr>mx_enqueues = [], mx_delivered = []\<rparr> =
     (Some (Errorf ''cluster not found in context'' []), \<lparr>mx_enqueues = [], mx_delivered = []\<rparr>)"
proof -
  let ?s = "\<lambda>_ :: namespaced_name. Inl (External 0) :: gvk result" and ?t = "\<lambda>_ :: namespaced_name. Some ([], ''v1'', ''Pod'') :: gvk option"
  let ?l = "\<lambda>(c :: cluster) (f :: string) (ns :: string) (key :: string). (Inr [demo_name] :: namespaced_name list result)"
  have pre: "ie_new list_env (ci_list index_of_fleet) = None" "ci_cluster index_of_fleet = ce_GetEffective (CE_Fleet (KFleet fleet_demo))"
    by (simp_all add: list_env_def index_of_fleet_def)
  have "gget (kf_clusters fleet_demo) ''m'' = Some (MemberCluster ''F'' (BaseCluster ''F#m'' ''IdF#m'' 4))" "kf_name fleet_demo = ''F''"
    by code_simp+
  note facts = this index_triggers [OF pre, where scheme = ?s and typed = ?t and key_of = Some and lister = ?l and k = fleet_demo
      and ns = "[]" and key = "''x''"]
  show ?thesis
    using facts(3) [of "WithClusterAndName (gget (kf_clusters fleet_demo) ''m'') []"] facts(3) [of "WithClusterAndName None []"] facts(1,2)
    by (simp add: index_of_fleet_def accessed_def Support_getCluster_def WithClusterAndName_def object_requests_def can_enqueue_def
        object_kind_def Split_def)
qed

end
