(* ===== verification/Converters.thy ===== *)
theory Converters
  imports Kube_Prelude
begin

text \<open>
  The converters of a cluster (merge/converter.go, merge/scheme.go): one converter per group
  version, made from the schemas that the API server publishes for it and kept for the
  lifetime of the cluster.
\<close>

section \<open>The API server\<close>

text \<open>
  What a call finds at the API server: the paths of the published group versions in the order
  of the map, the parsing of a group version, the specification of one (\<open>None\<close> where it has no
  components) and the converter made from schemas.
\<close>

record ('g, 's, 'c) discovery =
  dc_Paths :: "string list result"
  dc_Parse :: "string \<Rightarrow> 'g option"
  dc_GVSpec :: "'g \<Rightarrow> (string, 's) gomap option result"
  dc_NewTypeConverter :: "(string, 's) gomap \<Rightarrow> 'c result"

definition trim_path :: "string \<Rightarrow> string" where
  "trim_path p =
     (if has_prefix p ''apis/'' then trim_prefix p ''apis/''
      else if has_prefix p ''api/'' then trim_prefix p ''api/'' else p)"

definition put_schemas :: "(string, 's) gomap \<Rightarrow> (string, 's) gomap \<Rightarrow> (string, 's) gomap" where
  "put_schemas schemas defs = fold (\<lambda>(name, s). gset name s) schemas defs"

text \<open>
  The loop over the paths, for the group versions that \<open>wanted\<close> accepts. Paths that are no
  group version and group versions without a specification are skipped; missing components
  are dereferenced.
\<close>

fun collect_schemas ::
  "('g, 's, 'c) discovery \<Rightarrow> ('g \<Rightarrow> bool) \<Rightarrow> string list \<Rightarrow> (string, 's) gomap \<Rightarrow> (string, 's) gomap option" where
  "collect_schemas d wanted [] defs = Some defs"
| "collect_schemas d wanted (p # ps) defs =
     (case dc_Parse d (trim_path p) of
        None \<Rightarrow> collect_schemas d wanted ps defs
      | Some gv \<Rightarrow>
          if \<not> wanted gv then collect_schemas d wanted ps defs
          else (case dc_GVSpec d gv of
            Inl _ \<Rightarrow> collect_schemas d wanted ps defs
          | Inr None \<Rightarrow> None
          | Inr (Some schemas) \<Rightarrow> collect_schemas d wanted ps (put_schemas schemas defs)))"

definition make_converter :: "('g, 's, 'c) discovery \<Rightarrow> ('g \<Rightarrow> bool) \<Rightarrow> 'c result option" where
  "make_converter d wanted =
     (case dc_Paths d of
        Inl err \<Rightarrow> Some (Inl err)
      | Inr paths \<Rightarrow> map_option (dc_NewTypeConverter d) (collect_schemas d wanted paths []))"

section \<open>Converters\<close>

type_synonym ('g, 'c) converters = "('g, 'c) gomap"

definition NewConverters :: "gerror option \<Rightarrow> ('g, 'c) converters result" where
  "NewConverters dc_error = (case dc_error of Some err \<Rightarrow> Inl err | None \<Rightarrow> Inr [])"

definition GetConverter :: "('g, 's, 'c) discovery \<Rightarrow> 'g \<Rightarrow> ('g, 'c) converters \<Rightarrow> ('c result \<times> ('g, 'c) converters) option" where
  "GetConverter d req c =
     (case gget c req of
        Some tc \<Rightarrow> Some (Inr tc, c)
      | None \<Rightarrow>
          (case make_converter d (\<lambda>gv. gv = req) of
             None \<Rightarrow> None
           | Some (Inl err) \<Rightarrow> Some (Inl err, c)
           | Some (Inr conv) \<Rightarrow> Some (Inr conv, gset req conv c)))"

text \<open>A converter for everything the API server publishes.\<close>

definition NewConverterV3 :: "gerror option \<Rightarrow> ('g, 's, 'c) discovery \<Rightarrow> 'c result option" where
  "NewConverterV3 dc_error d = (case dc_error of Some err \<Rightarrow> Some (Inl err) | None \<Rightarrow> make_converter d (\<lambda>_. True))"

section \<open>Properties\<close>

text \<open>
  The converters are made once. \<open>convert_calls\<close> is a history of calls, each of which meets the
  API server in a state of its own; \<open>convert_call\<close> is a call without its error.
\<close>

fun convert_calls :: "(('g, 's, 'c) discovery \<times> 'g) list \<Rightarrow> ('g, 'c) converters \<Rightarrow> ('g, 'c) converters option" where
  "convert_calls [] c = Some c"
| "convert_calls ((d, gv) # qs) c = (case GetConverter d gv c of None \<Rightarrow> None | Some (_, c) \<Rightarrow> convert_calls qs c)"

definition convert_call ::
  "('g, 's, 'c) discovery \<Rightarrow> 'g \<Rightarrow> ('g, 'c) converters \<Rightarrow> ('c option \<times> ('g, 'c) converters) option" where
  "convert_call d gv c = map_option (\<lambda>(r, c). (case r of Inl _ \<Rightarrow> None | Inr x \<Rightarrow> Some x, c)) (GetConverter d gv c)"

interpretation cv: memo "\<lambda>c gv. gget c gv" convert_call
  by unfold_locales (auto simp: convert_call_def GetConverter_def split: option.splits sum.splits)

lemma convert_call_cases:
  "GetConverter d gv c = None \<Longrightarrow> convert_call d gv c = None"
  "GetConverter d gv c = Some (r, c') \<Longrightarrow> \<exists>x. convert_call d gv c = Some (x, c')"
  by (simp_all add: convert_call_def)

lemma convert_calls_memo: "convert_calls qs c = cv.calls qs c"
proof (induction qs arbitrary: c)
  case (Cons q qs)
  obtain d gv where q: "q = (d, gv)"
    by fastforce
  show ?case
  proof (cases "GetConverter d gv c")
    case None
    then show ?thesis
      by (simp add: q convert_call_cases(1))
  next
    case (Some r)
    then obtain x where "convert_call d gv c = Some (x, snd r)"
      using convert_call_cases(2) by (metis prod.collapse)
    then show ?thesis
      using Some Cons.IH [of "snd r"] by (cases r) (simp add: q)
  qed
qed simp

lemma gget_put_schemas:
  "gwf schemas \<Longrightarrow> gget (put_schemas schemas defs) = gget defs ++ gget schemas"
  unfolding put_schemas_def gwf_def by (rule gm.lookup_store_all_distinct)

text \<open>The paths that list a group version, and the schemas that the API server publishes for it.\<close>

definition lists_gv :: "('g, 's, 'c) discovery \<Rightarrow> 'g \<Rightarrow> string list \<Rightarrow> bool" where
  "lists_gv d gv paths \<longleftrightarrow> (\<exists>p \<in> set paths. dc_Parse d (trim_path p) = Some gv)"

definition published :: "('g, 's, 'c) discovery \<Rightarrow> 'g \<Rightarrow> string list \<Rightarrow> string \<Rightarrow> 's option" where
  "published d gv paths =
     (case dc_GVSpec d gv of Inr (Some schemas) \<Rightarrow> if lists_gv d gv paths then gget schemas else Map.empty | _ \<Rightarrow> Map.empty)"

lemma published_nil: "published d gv [] = Map.empty"
  by (simp add: published_def lists_gv_def split: sum.split option.split)

text \<open>
  The loop adds exactly the published schemas; where the group version is listed several times they
  are the same ones again.
\<close>

lemma collect_schemas_published:
  "collect_schemas d (\<lambda>x. x = gv) ps defs = Some defs' \<Longrightarrow>
    \<forall>schemas. dc_GVSpec d gv = Inr (Some schemas) \<longrightarrow> gwf schemas \<Longrightarrow>
    gget defs' = gget defs ++ published d gv ps"
proof (induction ps arbitrary: defs)
  case (Cons p ps)
  show ?case
  proof (cases "dc_Parse d (trim_path p) = Some gv \<and> (\<exists>schemas. dc_GVSpec d gv = Inr (Some schemas))")
    case True
    then obtain schemas where p: "dc_Parse d (trim_path p) = Some gv" "dc_GVSpec d gv = Inr (Some schemas)"
      by blast
    then have "gwf schemas" "collect_schemas d (\<lambda>x. x = gv) ps (put_schemas schemas defs) = Some defs'"
      using Cons.prems by simp_all
    then have "gget defs' = gget defs ++ gget schemas ++ published d gv ps"
      using Cons.IH Cons.prems(2) by (simp add: gget_put_schemas)
    also have "\<dots> = gget defs ++ published d gv (p # ps)"
      using p by (auto simp: published_def lists_gv_def map_add_def fun_eq_iff split: option.split)
    finally show ?thesis .
  next
    case False
    then have "collect_schemas d (\<lambda>x. x = gv) ps defs = Some defs'"
      using Cons.prems(1) by (auto split: option.splits sum.splits if_splits)
    moreover have "published d gv (p # ps) = published d gv ps"
      using False by (auto simp: published_def lists_gv_def fun_eq_iff split: sum.split option.split)
    ultimately show ?thesis
      using Cons.IH Cons.prems(2) by simp
  qed
qed (simp add: published_nil)

text \<open>
  C27: One converter per group version. Once a call has returned a converter for a group version,
  every later call returns the same one, whatever other calls come in between and whatever
  happened to the API server. A new one is made from exactly the schemas published for this
  group version, each under its name. If its specification could not be read, or no path lists
  it yet, no error is reported, and the converter without any schema is the one that stays. The
  schemas of a specification are a map, so their names are distinct (\<open>gwf\<close>).
\<close>

theorem converter_cached:
  fixes d d' :: "('g, 's, 'c) discovery" and calls :: "(('g, 's, 'c) discovery \<times> 'g) list"
  assumes "GetConverter d gv c = Some (Inr tc, c1)" "convert_calls calls c1 = Some c2"
  shows "GetConverter d' gv c2 = Some (Inr tc, c2) \<and>
    (gget c gv = None \<and> (\<forall>schemas. dc_GVSpec d gv = Inr (Some schemas) \<longrightarrow> gwf schemas) \<longrightarrow>
      (\<exists>paths defs. dc_Paths d = Inr paths \<and> dc_NewTypeConverter d defs = Inr tc \<and>
        (\<forall>name. gget defs name =
           (case dc_GVSpec d gv of
              Inr (Some schemas) \<Rightarrow>
                if \<exists>p \<in> set paths. dc_Parse d (trim_path p) = Some gv then gget schemas name else None
            | _ \<Rightarrow> None))))"
proof -
  have call: "convert_call d gv c = Some (Some tc, c1)"
    using assms(1) by (simp add: convert_call_def)
  have "gget c2 gv = Some tc"
    using cv.made_once [OF call, of calls c2] assms(2) by (simp add: convert_calls_memo)
  then have kept: "GetConverter d' gv c2 = Some (Inr tc, c2)"
    by (simp add: GetConverter_def)
  have made: "\<exists>paths defs. dc_Paths d = Inr paths \<and> dc_NewTypeConverter d defs = Inr tc \<and> gget defs = published d gv paths"
    if "gget c gv = None" "\<forall>schemas. dc_GVSpec d gv = Inr (Some schemas) \<longrightarrow> gwf schemas"
    using assms(1) that collect_schemas_published [of d gv _ "[]"]
    by (fastforce simp: GetConverter_def make_converter_def split: option.splits sum.splits)
  have "published d gv paths name =
      (case dc_GVSpec d gv of
         Inr (Some schemas) \<Rightarrow> if \<exists>p \<in> set paths. dc_Parse d (trim_path p) = Some gv then gget schemas name else None
       | _ \<Rightarrow> None)" for paths name
    by (simp add: published_def lists_gv_def split: sum.split option.split)
  then show ?thesis
    using kept made by metis
qed

section \<open>Witnesses\<close>

text \<open>An API server with one group version, which is read or not; a converter is the list of its schemas.\<close>

definition server_demo :: "bool \<Rightarrow> (string, nat, string list) discovery" where
  "server_demo up =
     \<lparr>dc_Paths = Inr [''version'', ''apis/apps/v1''], dc_Parse = (\<lambda>s. if s = ''version'' then None else Some s),
      dc_GVSpec = (\<lambda>_. if up then Inr (Some [(''Deployment'', 1)]) else Inl (External 0)),
      dc_NewTypeConverter = (\<lambda>defs. Inr (map fst defs))\<rparr>"

theorem converter_cached_witness:
  "GetConverter (server_demo True) ''apps/v1'' [] = Some (Inr [''Deployment''], [(''apps/v1'', [''Deployment''])]) \<and>
   GetConverter (server_demo False) ''apps/v1'' [(''apps/v1'', [''Deployment''])] =
     Some (Inr [''Deployment''], [(''apps/v1'', [''Deployment''])]) \<and>
   (\<exists>c. GetConverter (server_demo False) ''apps/v1'' [] = Some (Inr [], c) \<and>
      GetConverter (server_demo True) ''apps/v1'' c = Some (Inr [], c))"
proof -
  have up: "GetConverter (server_demo True) ''apps/v1'' [] = Some (Inr [''Deployment''], [(''apps/v1'', [''Deployment''])])"
    by code_simp
  have down: "GetConverter (server_demo False) ''apps/v1'' [] = Some (Inr [], [(''apps/v1'', [])])"
    by code_simp
  show ?thesis
    using up down converter_cached [OF up, of "[]" _ "server_demo False"] converter_cached [OF down, of "[]" _ "server_demo True"]
    by simp
qed

end
