(* ===== verification/WatchOptions.thy ===== *)
theory WatchOptions
  imports Clusters
begin

text \<open>
  The options of a builder (controller/builder/forked_options.go, optionsets.go): how options
  are collected for the main resource, for owned resources and for watches, how the filter of
  a fleet is put in front of the one given, and which options of multicluster-runtime and of
  controller-runtime they become. Predicates and the clusters of the runtime are opaque.
\<close>

section \<open>Collecting options\<close>

type_synonym 'c cluster_filter = "string \<Rightarrow> 'c \<Rightarrow> bool"

datatype object_projection = projectAsNormal | projectAsMetadata

record ('p, 'c) watch_options =
  wo_predicates :: "'p list"
  wo_projection :: object_projection
  wo_filter :: "'c cluster_filter option"
  wo_every_owner :: bool

definition no_watch_options :: "('p, 'c) watch_options" where
  "no_watch_options = \<lparr>wo_predicates = [], wo_projection = projectAsNormal, wo_filter = None, wo_every_owner = False\<rparr>"

text \<open>\<open>MatchEveryOwner\<close> is an option for owned resources only.\<close>

datatype 'p builder_option = Predicates "'p list" | ProjectAs object_projection | MatchEveryOwner

fun ApplyToFor :: "'p builder_option \<Rightarrow> ('p, 'c) watch_options \<Rightarrow> ('p, 'c) watch_options option" where
  "ApplyToFor (Predicates ps) w = Some (w\<lparr>wo_predicates := ps\<rparr>)"
| "ApplyToFor (ProjectAs p) w = Some (w\<lparr>wo_projection := p\<rparr>)"
| "ApplyToFor MatchEveryOwner w = None"

fun ApplyToOwns :: "'p builder_option \<Rightarrow> ('p, 'c) watch_options \<Rightarrow> ('p, 'c) watch_options" where
  "ApplyToOwns (Predicates ps) w = w\<lparr>wo_predicates := ps\<rparr>"
| "ApplyToOwns (ProjectAs p) w = w\<lparr>wo_projection := p\<rparr>"
| "ApplyToOwns MatchEveryOwner w = w\<lparr>wo_every_owner := True\<rparr>"

definition setPredicates :: "'p list \<Rightarrow> ('p, 'c) watch_options \<Rightarrow> ('p, 'c) watch_options" where
  "setPredicates ps w = w\<lparr>wo_predicates := ps\<rparr>"

definition setObjectProjection :: "object_projection \<Rightarrow> ('p, 'c) watch_options \<Rightarrow> ('p, 'c) watch_options" where
  "setObjectProjection p w = w\<lparr>wo_projection := p\<rparr>"

definition setClusterFilter :: "'c cluster_filter option \<Rightarrow> ('p, 'c) watch_options \<Rightarrow> ('p, 'c) watch_options" where
  "setClusterFilter f w = w\<lparr>wo_filter := f\<rparr>"

fun ApplyToWatches :: "'p builder_option \<Rightarrow> ('p, 'c) watch_options \<Rightarrow> ('p, 'c) watch_options option" where
  "ApplyToWatches (Predicates ps) w = Some (setPredicates ps w)"
| "ApplyToWatches (ProjectAs p) w = Some (setObjectProjection p w)"
| "ApplyToWatches MatchEveryOwner w = None"

definition applyFleetFilter :: "'c cluster_filter \<Rightarrow> ('p, 'c) watch_options \<Rightarrow> ('p, 'c) watch_options" where
  "applyFleetFilter fleet w =
     (case wo_filter w of
        None \<Rightarrow> w\<lparr>wo_filter := Some fleet\<rparr>
      | Some exp \<Rightarrow> w\<lparr>wo_filter := Some (\<lambda>name c. fleet name c \<and> exp name c)\<rparr>)"

section \<open>Options of the runtimes\<close>

datatype ('p, 'c) runtime_option =
    WithPredicates_opt "'p list"
  | OnlyMetadata_opt
  | WithClusterFilter_opt "'c cluster_filter"
  | MatchEveryOwner_opt

definition mapToCRT :: "('p, 'c) watch_options \<Rightarrow> ('p, 'c) runtime_option list" where
  "mapToCRT w =
     (if wo_predicates w \<noteq> [] then [WithPredicates_opt (wo_predicates w)] else []) @
     (if wo_projection w \<noteq> projectAsNormal then [OnlyMetadata_opt] else [])"

definition mapToMCRT :: "('p, 'c) watch_options \<Rightarrow> ('p, 'c) runtime_option list" where
  "mapToMCRT w =
     (if wo_predicates w \<noteq> [] then [WithPredicates_opt (wo_predicates w)] else []) @
     (if wo_projection w \<noteq> projectAsNormal then [OnlyMetadata_opt] else []) @
     (case wo_filter w of Some f \<Rightarrow> [WithClusterFilter_opt f] | None \<Rightarrow> [])"

definition owns_mapToMCRT :: "('p, 'c) watch_options \<Rightarrow> ('p, 'c) runtime_option list" where
  "owns_mapToMCRT w = mapToMCRT w @ (if wo_every_owner w then [MatchEveryOwner_opt] else [])"

definition owns_mapToCRT :: "('p, 'c) watch_options \<Rightarrow> ('p, 'c) runtime_option list" where
  "owns_mapToCRT w = mapToCRT w @ (if wo_every_owner w then [MatchEveryOwner_opt] else [])"

section \<open>Lemmas\<close>

text \<open>Options read back from those of the runtime.\<close>

fun read_option :: "('p, 'c) runtime_option \<Rightarrow> ('p, 'c) watch_options \<Rightarrow> ('p, 'c) watch_options" where
  "read_option (WithPredicates_opt ps) w = w\<lparr>wo_predicates := ps\<rparr>"
| "read_option OnlyMetadata_opt w = w\<lparr>wo_projection := projectAsMetadata\<rparr>"
| "read_option (WithClusterFilter_opt f) w = w\<lparr>wo_filter := Some f\<rparr>"
| "read_option MatchEveryOwner_opt w = w\<lparr>wo_every_owner := True\<rparr>"

lemma not_normal: "p \<noteq> projectAsNormal \<longleftrightarrow> p = projectAsMetadata"
  by (cases p) auto

lemma owns_roundtrip: "fold read_option (owns_mapToMCRT w) no_watch_options = w"
  by (cases w; cases "wo_projection w"; cases "wo_filter w")
    (simp_all add: owns_mapToMCRT_def mapToMCRT_def no_watch_options_def)

text \<open>Without clusters of its own controller-runtime gets everything but the filter.\<close>

lemma owns_roundtrip_CRT: "fold read_option (owns_mapToCRT w) no_watch_options = w\<lparr>wo_filter := None\<rparr>"
  by (cases w; cases "wo_projection w") (simp_all add: owns_mapToCRT_def mapToCRT_def no_watch_options_def)

text \<open>The last option of a kind counts; for owned resources they are those of a watch and the owners.\<close>

lemma ApplyToWatches_for: "ApplyToWatches x w = ApplyToFor x w"
  by (cases x) (simp_all add: setPredicates_def setObjectProjection_def)

lemma ApplyToOwns_for: "ApplyToFor x w = Some w' \<Longrightarrow> ApplyToOwns x w = w'"
  by (cases x) auto

lemma applyFleetFilter_accepts:
  "\<exists>f. wo_filter (applyFleetFilter fleet w) = Some f \<and>
    (f name c \<longleftrightarrow> fleet name c \<and> (case wo_filter w of None \<Rightarrow> True | Some g \<Rightarrow> g name c))"
  by (simp add: applyFleetFilter_def split: option.split)

lemma applyFleetFilter_twice:
  "applyFleetFilter fleet (applyFleetFilter fleet w) = applyFleetFilter fleet w"
  by (auto simp: applyFleetFilter_def fun_eq_iff split: option.split)

end
