(* ===== verification/Phases.thy ===== *)
theory Phases
  imports Controllers
begin

text \<open>
  The option phases of the definitions of controllers and components (controller/def.go,
  component/def.go): options, preparation, validation and finalisation are left to the factory
  where it takes part in them, and else to the option set it provides. What belongs to the
  options library is a parameter: the phases of an option set over a state \<open>'s\<close>.
\<close>

section \<open>Factories\<close>

text \<open>
  Which of the interfaces of the options library a factory implements: it has an option set,
  is an option itself, or takes part in a phase.
\<close>

type_synonym 's option_phase = "'s \<Rightarrow> gerror option \<times> 's"

record ('o, 's) phased =
  ph_AsOptionSet :: "'o list option"
  ph_option :: "'o option"
  ph_Prepare :: "'s option_phase option"
  ph_Validate :: "'s option_phase option"
  ph_Finalize :: "'s option_phase option"

datatype 'o found_options = Option_set "'o list" | Single_option 'o

definition def_GetOptions :: "('o, 's) phased \<Rightarrow> 'o found_options option" where
  "def_GetOptions f =
     (case ph_AsOptionSet f of
        Some os \<Rightarrow> Some (Option_set os)
      | None \<Rightarrow> map_option Single_option (ph_option f))"

text \<open>\<open>flags o\<close> registers the flags of an option.\<close>

definition def_AddFlags :: "('o \<Rightarrow> 'flags \<Rightarrow> 'flags) \<Rightarrow> ('o, 's) phased \<Rightarrow> 'flags \<Rightarrow> 'flags" where
  "def_AddFlags flags f fs = (case ph_option f of Some o' \<Rightarrow> flags o' fs | None \<Rightarrow> fs)"

definition def_AsOptionSet :: "('o, 's) phased \<Rightarrow> 'o list" where
  "def_AsOptionSet f =
     (case ph_AsOptionSet f of
        Some os \<Rightarrow> os
      | None \<Rightarrow> (case ph_option f of Some o' \<Rightarrow> [o'] | None \<Rightarrow> []))"

section \<open>Phases\<close>

definition wrapped_phase :: "string \<Rightarrow> 's option_phase \<Rightarrow> 's option_phase" where
  "wrapped_phase name run s = (case run s of (err, s) \<Rightarrow> (map_option (Wrapf [name]) err, s))"

definition def_Prepare :: "string \<Rightarrow> ('o list \<Rightarrow> 's option_phase) \<Rightarrow> ('o, 's) phased \<Rightarrow> 's option_phase" where
  "def_Prepare name prepareSet f s =
     (case ph_Prepare f of
        Some run \<Rightarrow> wrapped_phase name run s
      | None \<Rightarrow> prepareSet (def_AsOptionSet f) s)"

text \<open>The definition of a controller looks for undeclared clusters of foreign indices first.\<close>

definition undeclared_index :: "ctl_def \<Rightarrow> gerror option" where
  "undeclared_index d =
     map_option (\<lambda>(_, i). Errorf ''foreign index %q uses undeclared cluster %q'' [id_name i, id_target i])
       (find (\<lambda>(_, i). id_target i \<notin> set (kd_clusters d)) (gr_elements (kd_foreign d)))"

definition def_Validate :: "ctl_def \<Rightarrow> ('o list \<Rightarrow> 's option_phase) \<Rightarrow> ('o, 's) phased \<Rightarrow> 's option_phase" where
  "def_Validate d validateSet f s =
     (case ph_Validate f of
        Some run \<Rightarrow> wrapped_phase (kd_name d) run s
      | None \<Rightarrow>
          (case undeclared_index d of
             Some err \<Rightarrow> (Some err, s)
           | None \<Rightarrow> validateSet (def_AsOptionSet f) s))"

definition def_Finalize :: "('o list \<Rightarrow> 's option_phase) \<Rightarrow> ('o, 's) phased \<Rightarrow> 's option_phase" where
  "def_Finalize finalizeSet f s =
     (case ph_Finalize f of Some run \<Rightarrow> run s | None \<Rightarrow> finalizeSet (def_AsOptionSet f) s)"

section \<open>Lemmas\<close>

text \<open>The validation agrees with the one of the controllers, where the phases are outcomes.\<close>

lemma def_Validate_outcome:
  assumes "rf_validate (kd_reconciler d) = map_option (\<lambda>run. fst (run s)) (ph_Validate f)"
  shows "fst (def_Validate d validateSet f s) = ctl_Validate (fst (validateSet (def_AsOptionSet f) s)) d"
  using assms by (simp add: def_Validate_def ctl_Validate_def undeclared_index_def wrapped_phase_def case_prod_beta split: option.split)

text \<open>
  A factory that validates itself is all that is validated: its option set is not visited, and
  undeclared clusters of foreign indices go unnoticed.
\<close>

lemma self_validating:
  "ph_Validate f = Some run \<Longrightarrow> fst (run s) = None \<Longrightarrow> def_Validate d validateSet f s = (None, snd (run s))"
  by (simp add: def_Validate_def wrapped_phase_def case_prod_beta)

text \<open>Each phase visits exactly the options of a factory that takes no part in the phases.\<close>

lemma phases_visit:
  assumes "ph_Prepare f = None" "ph_Validate f = None" "ph_Finalize f = None" "undeclared_index d = None"
    and "\<And>os s. visits os s = (None, s @ os)"
  shows "def_Prepare name visits f s = (None, s @ def_AsOptionSet f)"
    "def_Validate d visits f s = (None, s @ def_AsOptionSet f)" "def_Finalize visits f s = (None, s @ def_AsOptionSet f)"
    "set (def_AsOptionSet f) = (case def_GetOptions f of None \<Rightarrow> {} | Some (Option_set os) \<Rightarrow> set os | Some (Single_option x) \<Rightarrow> {x})"
  using assms by (simp_all add: def_Prepare_def def_Validate_def def_Finalize_def def_AsOptionSet_def def_GetOptions_def split: option.split found_options.split)

end
