(* ===== verification/Contexts.thy ===== *)
theory Contexts
  imports Enqueue Problems
begin

text \<open>
  Small parts that the others use: log sinks with a shifted level (setup/log.go), contexts that
  can be cancelled by a key (ctxutils/cancel.go), the multiplexer for requests of
  controller-runtime (enqueue/mux.go), the texts of problems
  (controllerutils/reconcile/problem.go), and the trigger of the plain example
  (examples/plain/main.go).
\<close>

section \<open>Log sinks\<close>

text \<open>
  A sink of the logging library, with the calls it gets, or one whose levels are shifted.
  \<open>'b\<close> are the sinks of the library, \<open>api\<close> what they do.
\<close>

datatype 'b log_sink = Base_sink 'b | Delegating_sink int "'b log_sink"

record ('b, 'e) sink_api =
  sk_Enabled :: "'b \<Rightarrow> int \<Rightarrow> bool"
  sk_Info :: "'b \<Rightarrow> int \<Rightarrow> string \<Rightarrow> string list \<Rightarrow> 'e"
  sk_Error :: "'b \<Rightarrow> gerror \<Rightarrow> string \<Rightarrow> string list \<Rightarrow> 'e"
  sk_WithValues :: "string list \<Rightarrow> 'b \<Rightarrow> 'b"
  sk_WithName :: "string \<Rightarrow> 'b \<Rightarrow> 'b"

definition ShiftSinkLevel :: "'b log_sink \<Rightarrow> int \<Rightarrow> 'b log_sink" where
  "ShiftSinkLevel sink diff = Delegating_sink diff sink"

fun sink_Enabled :: "('b, 'e) sink_api \<Rightarrow> 'b log_sink \<Rightarrow> int \<Rightarrow> bool" where
  "sink_Enabled api (Base_sink b) level = sk_Enabled api b level"
| "sink_Enabled api (Delegating_sink diff orig) level = sink_Enabled api orig (level + diff)"

fun sink_Info :: "('b, 'e) sink_api \<Rightarrow> 'b log_sink \<Rightarrow> int \<Rightarrow> string \<Rightarrow> string list \<Rightarrow> 'e" where
  "sink_Info api (Base_sink b) level msg kvs = sk_Info api b level msg kvs"
| "sink_Info api (Delegating_sink diff orig) level msg kvs = sink_Info api orig (level + diff) msg kvs"

fun sink_Error :: "('b, 'e) sink_api \<Rightarrow> 'b log_sink \<Rightarrow> gerror \<Rightarrow> string \<Rightarrow> string list \<Rightarrow> 'e" where
  "sink_Error api (Base_sink b) err msg kvs = sk_Error api b err msg kvs"
| "sink_Error api (Delegating_sink diff orig) err msg kvs = sink_Error api orig err msg kvs"

fun sink_WithValues :: "('b, 'e) sink_api \<Rightarrow> string list \<Rightarrow> 'b log_sink \<Rightarrow> 'b log_sink" where
  "sink_WithValues api kvs (Base_sink b) = Base_sink (sk_WithValues api kvs b)"
| "sink_WithValues api kvs (Delegating_sink diff orig) = Delegating_sink diff (sink_WithValues api kvs orig)"

fun sink_WithName :: "('b, 'e) sink_api \<Rightarrow> string \<Rightarrow> 'b log_sink \<Rightarrow> 'b log_sink" where
  "sink_WithName api name (Base_sink b) = Base_sink (sk_WithName api name b)"
| "sink_WithName api name (Delegating_sink diff orig) = Delegating_sink diff (sink_WithName api name orig)"

text \<open>A logger is a sink with its own level.\<close>

definition LoggerWithShiftedSinkLevel :: "'b log_sink \<times> int \<Rightarrow> int \<Rightarrow> 'b log_sink \<times> int" where
  "LoggerWithShiftedSinkLevel l diff = (ShiftSinkLevel (fst l) diff, snd l)"

section \<open>Contexts that can be cancelled\<close>

text \<open>A context holds values by keys, here the numbers of its cancel functions, newest first.\<close>

definition WithCancel :: "'k \<Rightarrow> nat \<Rightarrow> ('k \<times> nat) list \<Rightarrow> ('k \<times> nat) list" where
  "WithCancel key cancel ctx = (key, cancel) # ctx"

definition Cancel :: "'k \<Rightarrow> ('k \<times> nat) list \<Rightarrow> nat list \<Rightarrow> bool \<times> nat list" where
  "Cancel key ctx called = (case map_of ctx key of None \<Rightarrow> (False, called) | Some cancel \<Rightarrow> (True, called @ [cancel]))"

section \<open>The multiplexer of controller-runtime\<close>

definition NewMux :: "namespaced_name mux" where
  "NewMux = NewTypedMux"

definition mux_creator :: "namespaced_name \<Rightarrow> namespaced_name result" where
  "mux_creator key = Inr key"

definition mux_GetKey :: "('o \<Rightarrow> namespaced_name option) \<Rightarrow> 'o \<Rightarrow> namespaced_name result" where
  "mux_GetKey client_object obj =
     (case client_object obj of
        None \<Rightarrow> Inl (Errorf ''object does not implement client.Object'' [])
      | Some key \<Rightarrow> Inr key)"

section \<open>Texts of problems\<close>

text \<open>\<open>txt\<close> is the method \<open>Error\<close> of an error.\<close>

definition problem_String :: "(gerror \<Rightarrow> string) \<Rightarrow> problem \<Rightarrow> string" where
  "problem_String txt p =
     (case p_err p of
        Some err \<Rightarrow>
          (case p_problem p of
             Some pr \<Rightarrow> ''reconciliation error: '' @ txt err @ ''; auto healing problem: '' @ txt pr
           | None \<Rightarrow> ''reconciliation error: '' @ txt err)
      | None \<Rightarrow>
          (case p_problem p of
             Some pr \<Rightarrow> (if p_requeue p then ''backoff problem: '' @ txt pr else ''triggerable problem: '' @ txt pr)
           | None \<Rightarrow> ''no reconciliation problem''))"

definition problem_Message :: "(gerror \<Rightarrow> string) \<Rightarrow> problem \<Rightarrow> string" where
  "problem_Message txt p =
     (case p_err p of
        Some err \<Rightarrow> (case p_problem p of Some pr \<Rightarrow> txt err @ ''; '' @ txt pr | None \<Rightarrow> txt err)
      | None \<Rightarrow> (case p_problem p of Some pr \<Rightarrow> txt pr | None \<Rightarrow> ''no problem''))"

definition Requeuef :: "gerror \<Rightarrow> problem option" where "Requeuef err = Requeue (Some err)"
definition Failedf :: "gerror \<Rightarrow> problem option" where "Failedf err = Failed (Some err)"
definition TemporaryProblemf :: "gerror \<Rightarrow> problem option" where "TemporaryProblemf err = TemporaryProblem (Some err)"
definition WatchBackedProblemf :: "gerror \<Rightarrow> problem option" where "WatchBackedProblemf err = WatchBackedProblem (Some err)"

section \<open>The trigger of the plain example\<close>

text \<open>An annotation with a cluster, a namespace and a name requests that object; anything else nothing.\<close>

definition plain_trigger :: "(string, string) gomap \<Rightarrow> mc_request list \<Rightarrow> mc_request list" where
  "plain_trigger annos w =
     (if annos = [] then w
      else let v = (case gget annos ''mandelsoft.org/owner'' of None \<Rightarrow> [] | Some v \<Rightarrow> v) in
      if v = [] then w
      else let fields = split_on (CHR ''/'') v in
      if length fields \<noteq> 3 then w
      else w @ [\<lparr>mc_cluster = fields ! 0, mc_object = \<lparr>nn_namespace = fields ! 1, nn_name = fields ! 2\<rparr>\<rparr>])"

section \<open>Lemmas\<close>

text \<open>The sink at the bottom and the sum of the shifts above it decide what is logged.\<close>

fun sink_base :: "'b log_sink \<Rightarrow> 'b" where
  "sink_base (Base_sink b) = b"
| "sink_base (Delegating_sink diff orig) = sink_base orig"

fun sink_shift :: "'b log_sink \<Rightarrow> int" where
  "sink_shift (Base_sink b) = 0"
| "sink_shift (Delegating_sink diff orig) = diff + sink_shift orig"

lemma sink_level:
  "sink_Enabled api s level = sk_Enabled api (sink_base s) (level + sink_shift s)"
  "sink_Info api s level msg kvs = sk_Info api (sink_base s) (level + sink_shift s) msg kvs"
  "sink_Error api s err msg kvs = sk_Error api (sink_base s) err msg kvs"
  by (induction s arbitrary: level) (simp_all add: add.assoc)

lemma sink_derived:
  "sink_shift (sink_WithValues api kvs s) = sink_shift s" "sink_shift (sink_WithName api name s) = sink_shift s"
  "sink_base (sink_WithValues api kvs s) = sk_WithValues api kvs (sink_base s)"
  "sink_base (sink_WithName api name s) = sk_WithName api name (sink_base s)"
  "sink_shift (fst (LoggerWithShiftedSinkLevel (s, v) d)) = d + sink_shift s"
  by (induction s) (simp_all add: LoggerWithShiftedSinkLevel_def ShiftSinkLevel_def)

text \<open>Cancelling reaches the newest cancel function of the key.\<close>

lemma Cancel_WithCancel:
  "Cancel key (WithCancel key c ctx) called = (True, called @ [c])"
  "key' \<noteq> key \<Longrightarrow> Cancel key' (WithCancel key c ctx) called = Cancel key' ctx called"
  "fst (Cancel key ctx called) \<longleftrightarrow> key \<in> fst ` set ctx"
  using map_of_eq_None_iff [of ctx key] by (auto simp: Cancel_def WithCancel_def split: option.split)

text \<open>The request of the multiplexer is the key of the object.\<close>

lemma NewMux_request:
  "scheme obj = Inr gvk \<Longrightarrow> typed obj = None \<Longrightarrow> client_object obj = Some key \<Longrightarrow> gget (mx_enqueues m) gvk = Some e \<Longrightarrow>
    EnqueueByObject scheme typed client_object mux_creator obj m = (None, m\<lparr>mx_delivered := AddToQueue e key (mx_delivered m)\<rparr>)"
  by (simp add: EnqueueByObject_def EnqueueByGVK_def mux_creator_def)

lemma plain_trigger_exactly:
  assumes "CHR ''/'' \<notin> set cl" "CHR ''/'' \<notin> set ns" "CHR ''/'' \<notin> set n"
    and "gget annos ''mandelsoft.org/owner'' = Some (join_with (CHR ''/'') [cl, ns, n])"
  shows "plain_trigger annos w = w @ [\<lparr>mc_cluster = cl, mc_object = \<lparr>nn_namespace = ns, nn_name = n\<rparr>\<rparr>]"
  using assms by (auto simp: plain_trigger_def Let_def split_join)

end
