(* ===== verification/Examples.thy ===== *)
theory Examples
  imports Manager Triggers Reconcilers
begin

text \<open>
  The example programs that put the library together: the replicating controller manager
  (examples/simple/cmd/main.go, examples/simple/controllers/replicate/def.go) and the manager
  of the DNS example (examples/dns/main.go, examples/dns/hostedzone). Schemes and flags are
  left out.
\<close>

section \<open>The replicating controller manager\<close>

abbreviation SOURCE :: string where "SOURCE \<equiv> ''source''"
abbreviation TARGET :: string where "TARGET \<equiv> ''target''"

text \<open>
  \<open>c\<close>, \<open>env\<close>, \<open>x\<close> and \<open>t\<close> are those of the owner trigger; \<open>fac\<close> is the factory of the
  reconciler, \<open>ifac\<close> the outcome of the factory of the index.
\<close>

definition replicate_Controller ::
  "err_api \<Rightarrow> trig_ctl \<Rightarrow> index_env \<Rightarrow> k8s_objects \<Rightarrow> string \<Rightarrow> rec_factory \<Rightarrow> (cluster_set \<Rightarrow> gerror option) \<Rightarrow> ctl_def" where
  "replicate_Controller api c env x t fac ifac =
     ctl_AddForeignIndex api [DefineByFactory ''test'' TARGET ''ConfigMap'' ifac]
       (ctl_AddIndexByFactory api ''test'' ifac
         (ctl_AddTrigger [OnCluster TARGET (trigger_for c (OwnerTrigger env x t ''ConfigMap'' []))]
           (ctl_UseCluster [TARGET] (ctl_Define ''replicate'' SOURCE ''ConfigMap'' fac))))"

definition source_def :: cluster_def where
  "source_def = WithFallback DEFAULT (Define SOURCE ''replication source'' [])"

definition target_def :: cluster_def where
  "target_def = WithFallback SOURCE (Define TARGET ''replication target'' [])"

definition simple_main :: "err_api \<Rightarrow> ctl_def \<Rightarrow> mgmt_def" where
  "simple_main api ctl =
     AddController api [CtlPlain ctl]
       (AddCluster api [source_def, target_def] (mgmt_Define ''replicator.mandelsoft.de'' [SOURCE]))"

text \<open>The clusters as they are validated, after their flags were added.\<close>

definition simple_clusters :: "err_api \<Rightarrow> ctl_def \<Rightarrow> cluster_defs" where
  "simple_clusters api ctl = defs_AddFlags (md_clusters (simple_main api ctl))"

section \<open>The DNS example\<close>

definition parentIndexer :: "string \<Rightarrow> string list" where
  "parentIndexer parentRef = (if parentRef = [] then [] else [parentRef])"

definition hostedzone_Controller ::
  "err_api \<Rightarrow> trig_ctl \<Rightarrow> index_env \<Rightarrow> k8s_objects \<Rightarrow> string \<Rightarrow> rec_factory \<Rightarrow> ctl_def" where
  "hostedzone_Controller api c env x t fac =
     ctl_AddTrigger [OnCluster ''runtime'' (trigger_for c (OwnerTrigger env x t ''Deployment'' [])),
                     OnCluster ''runtime'' (trigger_for c (OwnerTrigger env x t ''Secret'' []))]
       (ctl_AddIndex api ''IndexKeyZoneParent''
         (ctl_UseCluster [''runtime'']
           (ctl_Define ''coredns.mandelsoft.hostedzone'' ''dataplane'' ''HostedZone'' fac)))"

definition runtime_def :: cluster_def where
  "runtime_def = WithFallback ''dataplane'' (Define ''runtime'' ''runtime cluster'' [])"

definition dataplane_def :: cluster_def where
  "dataplane_def = WithFallback DEFAULT (DefineFleet ''dataplane'' ''user api cluster'')"

definition dns_main :: "err_api \<Rightarrow> string \<Rightarrow> ctl_def \<Rightarrow> mgmt_def" where
  "dns_main api grp ctl =
     AddController api [CtlPlain ctl]
       (AddCluster api [runtime_def, dataplane_def] (mgmt_Define grp [''dataplane'']))"

definition dns_clusters :: "err_api \<Rightarrow> string \<Rightarrow> ctl_def \<Rightarrow> cluster_defs" where
  "dns_clusters api grp ctl = defs_AddFlags (md_clusters (dns_main api grp ctl))"

text \<open>The options of the controller insist on both clusters, with the same message for either.\<close>

definition hostedzone_Validate :: "cluster_set result \<Rightarrow> gerror option" where
  "hostedzone_Validate vcs =
     (case vcs of
        Inl err \<Rightarrow> Some err
      | Inr cs \<Rightarrow>
          if set_Get cs ''dataplane'' = None then Some (Errorf ''dataplane cluster is required'' [])
          else if set_Get cs ''runtime'' = None then Some (Errorf ''dataplane cluster is required'' [])
          else None)"

section \<open>The definitions\<close>

lemma example_defs [simp]:
  "cd_name source_def = SOURCE" "cd_fallback source_def = DEFAULT" "cd_kind source_def = ClusterKind"
  "cd_name target_def = TARGET" "cd_fallback target_def = SOURCE" "cd_kind target_def = ClusterKind"
  "cd_name runtime_def = ''runtime''" "cd_fallback runtime_def = ''dataplane''" "cd_kind runtime_def = ClusterKind"
  "cd_name dataplane_def = ''dataplane''" "cd_fallback dataplane_def = DEFAULT" "cd_kind dataplane_def = FleetKind False"
  by (simp_all add: source_def_def target_def_def runtime_def_def dataplane_def_def WithFallback_def Define_def
      DefineFleet_def newBase_def Let_def)

lemma require_identity_simps [simp]:
  "cd_name (require_identity d) = cd_name d" "cd_fallback (require_identity d) = cd_fallback d"
  "cd_kind (require_identity d) = cd_kind d"
  by (simp_all add: require_identity_def)

lemma two_definitions:
  assumes "err_documented api" "cd_name a \<noteq> cd_name b" "cd_name a \<noteq> DEFAULT" "cd_name b \<noteq> DEFAULT"
  shows "gr_elements (df_group (defs_AddFlags (defs_Add api [a, b] NewClusterDefinitions))) =
      [(cd_name a, require_identity a), (cd_name b, require_identity b)]"
    "GetError api (gr_errors (df_group (defs_AddFlags (defs_Add api [a, b] NewClusterDefinitions)))) = None"
    "df_clusters (defs_AddFlags (defs_Add api [a, b] NewClusterDefinitions)) = None"
    "df_main (defs_AddFlags (defs_Add api [a, b] NewClusterDefinitions)) =
      require_identity (Define DEFAULT ''standard cluster'' [DefaultRules])"
  using assms
  by (simp_all add: defs_Add_def NewClusterDefinitions_def Definitions_Add_def ds_add_one_def NewDefinitions_def
      NewErrorContainer_def elem_group.truncate_def defs_AddFlags_def AddError_def GetError_def err_documented_def
      gset_def Let_def)

section \<open>A chain of two definitions\<close>

text \<open>
  Two plain definitions \<open>a\<close> and \<open>b\<close> that are both required: \<open>b\<close> falls back to \<open>a\<close>, which falls
  back to the default cluster \<open>c\<close>; \<open>a\<close> has no configuration of its own. \<open>three\<close> tells which of
  the three clusters are known.
\<close>

definition three :: "vstate \<Rightarrow> string \<Rightarrow> string \<Rightarrow> cluster_eq option \<Rightarrow> cluster_eq option \<Rightarrow> cluster_eq option \<Rightarrow> bool" where
  "three s a b D A B \<longleftrightarrow>
     set_Get (vs_clusters s) DEFAULT = D \<and> set_Get (vs_clusters s) a = A \<and> set_Get (vs_clusters s) b = B"

definition chain :: "('a, 'r) cluster_env \<Rightarrow> cluster_def \<Rightarrow> string list \<Rightarrow> cluster_def \<Rightarrow> cluster_def \<Rightarrow> cluster \<Rightarrow> bool" where
  "chain env main required a b c \<longleftrightarrow>
     cd_name a \<noteq> DEFAULT \<and> cd_name b \<noteq> DEFAULT \<and> cd_name a \<noteq> [] \<and> cd_name a \<noteq> cd_name b \<and>
     CHR ''#'' \<notin> set (cd_name a) \<and> CHR ''#'' \<notin> set (cd_name b) \<and>
     cd_kind a = ClusterKind \<and> cd_kind b = ClusterKind \<and> cd_fallback a = DEFAULT \<and> cd_fallback b = cd_name a \<and>
     {cd_name a, cd_name b} \<subseteq> set required \<and>
     def_Create env a = Inr None \<and> def_Create env main = Inr (Some (CE_Cluster c)) \<and> cluster_GetName c = DEFAULT"

lemma three_Add:
  assumes "three s a b D A B" "a \<noteq> DEFAULT" "b \<noteq> DEFAULT" "a \<noteq> b" "CHR ''#'' \<notin> set a" "CHR ''#'' \<notin> set b"
  shows "ce_GetName x = DEFAULT \<Longrightarrow> D = None \<Longrightarrow> three (vs_add api x s) a b (Some x) A B"
    "ce_GetName x = a \<Longrightarrow> A = None \<Longrightarrow> three (vs_add api x s) a b D (Some x) B"
    "ce_GetName x = b \<Longrightarrow> B = None \<Longrightarrow> three (vs_add api x s) a b D A (Some x)"
proof -
  have new: "set_Get (snd (set_Add api [x] (vs_clusters s))) n = Some x"
    if "ce_GetName x = n" "CHR ''#'' \<notin> set n" "set_Get (vs_clusters s) n = None" for n
    using set_Add_new [of x "vs_clusters s" api] that by simp
  have old: "set_Get (snd (set_Add api [x] (vs_clusters s))) n = set_Get (vs_clusters s) n"
    if "ce_GetName x \<noteq> n" "CHR ''#'' \<notin> set n" for n
    using set_Add_other [of n x api "vs_clusters s"] that by simp
  show "ce_GetName x = DEFAULT \<Longrightarrow> D = None \<Longrightarrow> three (vs_add api x s) a b (Some x) A B"
    "ce_GetName x = a \<Longrightarrow> A = None \<Longrightarrow> three (vs_add api x s) a b D (Some x) B"
    "ce_GetName x = b \<Longrightarrow> B = None \<Longrightarrow> three (vs_add api x s) a b D A (Some x)"
    using assms new old by (simp_all add: three_def vs_add_def)
qed

lemma three_cong: "vs_clusters s = vs_clusters s' \<Longrightarrow> three s a b D A B = three s' a b D A B"
  by (simp add: three_def)

lemma vs_add_flags [simp]: "vs_missing (vs_add api x s) = vs_missing s" "vs_found (vs_add api x s)"
  by (simp_all add: vs_add_def)

lemma note_fallback_same [simp]:
  "vs_clusters (note_fallback required fb s) = vs_clusters s" "vs_missing (note_fallback required fb s) = vs_missing s"
  "fb \<in> set required \<Longrightarrow> note_fallback required fb s = s"
  by (simp_all add: note_fallback_def)

lemma ce_GetName_NewAlias: "ce_GetName (NewAlias n (CE_Cluster c)) = n"
  by simp

text \<open>The visits of \<open>a\<close>: the default cluster is created first, the alias only when it is known.\<close>

lemma visit_first:
  assumes "chain env main required a b c" "three s (cd_name a) (cd_name b) D A B"
  shows "D = None \<Longrightarrow> A = None \<Longrightarrow>
      \<exists>s'. visit env api None main required (cd_name a, a) s = (None, s') \<and>
        three s' (cd_name a) (cd_name b) (Some (CE_Cluster c)) None B \<and> vs_missing s' = vs_missing s \<and> vs_found s'"
    "D = Some (CE_Cluster c) \<Longrightarrow> A = None \<Longrightarrow>
      \<exists>s'. visit env api None main required (cd_name a, a) s = (None, s') \<and>
        three s' (cd_name a) (cd_name b) D (Some (NewAlias (cd_name a) (CE_Cluster c))) B \<and>
        vs_missing s' = vs_missing s \<and> vs_found s'"
    "A \<noteq> None \<Longrightarrow> visit env api None main required (cd_name a, a) s = (None, s)"
proof -
  note ch = assms(1) [unfolded chain_def]
  have names: "cd_name a \<noteq> DEFAULT" "cd_name b \<noteq> DEFAULT" "cd_name a \<noteq> cd_name b"
    "CHR ''#'' \<notin> set (cd_name a)" "CHR ''#'' \<notin> set (cd_name b)"
    using ch by auto
  have Get: "set_Get (vs_clusters s) DEFAULT = D" "set_Get (vs_clusters s) (cd_name a) = A"
    using assms(2) by (simp_all add: three_def)
  let ?v = "visit env api None main required (cd_name a, a) s"
  show "\<exists>s'. ?v = (None, s') \<and> three s' (cd_name a) (cd_name b) (Some (CE_Cluster c)) None B \<and>
      vs_missing s' = vs_missing s \<and> vs_found s'" if none: "D = None" "A = None"
  proof -
    let ?s = "note_fallback required DEFAULT s"
    have "?v = (None, vs_add api (CE_Cluster c) ?s)"
      using ch Get none by (simp add: visit_def wanted_def Let_def)
    moreover have "three ?s (cd_name a) (cd_name b) D A B"
      using assms(2) by (simp add: three_def)
    then have "three (vs_add api (CE_Cluster c) ?s) (cd_name a) (cd_name b) (Some (CE_Cluster c)) None B"
      using three_Add(1) [OF _ names] ch none by auto
    ultimately show ?thesis
      by simp
  qed
  show "\<exists>s'. ?v = (None, s') \<and> three s' (cd_name a) (cd_name b) D (Some (NewAlias (cd_name a) (CE_Cluster c))) B \<and>
      vs_missing s' = vs_missing s \<and> vs_found s'" if known: "D = Some (CE_Cluster c)" "A = None"
  proof -
    have "?v = (None, vs_add api (NewAlias (cd_name a) (CE_Cluster c)) s)"
      using ch Get known by (simp add: visit_def wanted_def Let_def)
    then show ?thesis
      using three_Add(2) [OF assms(2) names ce_GetName_NewAlias known(2)] by simp
  qed
  show "?v = (None, s)" if "A \<noteq> None"
    using Get that by (simp add: visit_def)
qed

text \<open>The visits of \<open>b\<close>.\<close>

lemma visit_second:
  assumes "chain env main required a b c" "three s (cd_name a) (cd_name b) D A B"
  shows "def_Create env b = Inr None \<Longrightarrow> A = None \<Longrightarrow> B = None \<Longrightarrow>
      \<exists>s'. visit env api None main required (cd_name b, b) s = (None, s') \<and> three s' (cd_name a) (cd_name b) D A B \<and>
        vs_missing s' \<and> vs_found s' = vs_found s"
    "def_Create env b = Inr None \<Longrightarrow> A = Some (CE_Cluster x) \<Longrightarrow> B = None \<Longrightarrow>
      \<exists>s'. visit env api None main required (cd_name b, b) s = (None, s') \<and>
        three s' (cd_name a) (cd_name b) D A (Some (NewAlias (cd_name b) (CE_Cluster x))) \<and>
        vs_missing s' = vs_missing s \<and> vs_found s'"
    "def_Create env b = Inr (Some y) \<Longrightarrow> ce_GetName y = cd_name b \<Longrightarrow> B = None \<Longrightarrow>
      \<exists>s'. visit env api None main required (cd_name b, b) s = (None, s') \<and>
        three s' (cd_name a) (cd_name b) D A (Some y) \<and> vs_missing s' = vs_missing s \<and> vs_found s'"
    "B \<noteq> None \<Longrightarrow> visit env api None main required (cd_name b, b) s = (None, s)"
proof -
  note ch = assms(1) [unfolded chain_def]
  have names: "cd_name a \<noteq> DEFAULT" "cd_name b \<noteq> DEFAULT" "cd_name a \<noteq> cd_name b"
    "CHR ''#'' \<notin> set (cd_name a)" "CHR ''#'' \<notin> set (cd_name b)"
    using ch by auto
  have Get: "set_Get (vs_clusters s) (cd_name a) = A" "set_Get (vs_clusters s) (cd_name b) = B"
    using assms(2) by (simp_all add: three_def)
  let ?v = "visit env api None main required (cd_name b, b) s"
  show "\<exists>s'. ?v = (None, s') \<and> three s' (cd_name a) (cd_name b) D A B \<and> vs_missing s' \<and> vs_found s' = vs_found s"
    if none: "def_Create env b = Inr None" "A = None" "B = None"
  proof -
    have "?v = (None, s\<lparr>vs_missing := True\<rparr>)"
      using ch Get none by (simp add: visit_def wanted_def Let_def)
    then show ?thesis
      using assms(2) by (simp add: three_def)
  qed
  show "\<exists>s'. ?v = (None, s') \<and> three s' (cd_name a) (cd_name b) D A (Some (NewAlias (cd_name b) (CE_Cluster x))) \<and>
      vs_missing s' = vs_missing s \<and> vs_found s'" if known: "def_Create env b = Inr None" "A = Some (CE_Cluster x)" "B = None"
  proof -
    have "?v = (None, vs_add api (NewAlias (cd_name b) (CE_Cluster x)) s)"
      using ch Get known by (simp add: visit_def wanted_def Let_def)
    then show ?thesis
      using three_Add(3) [OF assms(2) names ce_GetName_NewAlias known(3)] by simp
  qed
  show "\<exists>s'. ?v = (None, s') \<and> three s' (cd_name a) (cd_name b) D A (Some y) \<and> vs_missing s' = vs_missing s \<and> vs_found s'"
    if own: "def_Create env b = Inr (Some y)" "ce_GetName y = cd_name b" "B = None"
  proof -
    have "?v = (None, vs_add api y s)"
      using ch Get own by (simp add: visit_def wanted_def)
    then show ?thesis
      using three_Add(3) [OF assms(2) names own(2,3)] by simp
  qed
  show "?v = (None, s)" if "B \<noteq> None"
    using Get that by (simp add: visit_def)
qed

text \<open>The passes, in either order of the two definitions.\<close>

definition orders :: "cluster_def \<Rightarrow> cluster_def \<Rightarrow> (string \<times> cluster_def) list set" where
  "orders a b = {[(cd_name a, a), (cd_name b, b)], [(cd_name b, b), (cd_name a, a)]}"

definition fresh :: "vstate \<Rightarrow> bool" where
  "fresh s \<longleftrightarrow> \<not> vs_missing s \<and> \<not> vs_found s"

abbreviation pass :: "('a, 'r) cluster_env \<Rightarrow> err_api \<Rightarrow> cluster_def \<Rightarrow> string list \<Rightarrow> (string \<times> cluster_def) list \<Rightarrow> vstate \<Rightarrow>
    vfail option \<times> vstate" where
  "pass env api main required xs \<equiv> visit_all (visit env api None main required) xs"

definition alias_a :: "cluster_def \<Rightarrow> cluster \<Rightarrow> cluster" where
  "alias_a a c = cluster_NewAlias (cd_name a) (cluster_AsCluster c)"

definition alias_b :: "cluster_def \<Rightarrow> cluster_def \<Rightarrow> cluster \<Rightarrow> cluster" where
  "alias_b a b c = cluster_NewAlias (cd_name b) (cluster_AsCluster (alias_a a c))"

lemma alias_eqs:
  assumes "chain env main required a b c"
  shows "NewAlias (cd_name a) (CE_Cluster c) = CE_Cluster (alias_a a c)"
    "NewAlias (cd_name b) (CE_Cluster (alias_a a c)) = CE_Cluster (alias_b a b c)"
  using assms not_sym [of "cd_name a" DEFAULT] by (simp_all add: chain_def alias_a_def alias_b_def)

lemma pass_start:
  assumes ch: "chain env main required a b c" and s: "three s (cd_name a) (cd_name b) None None None" "fresh s"
    and xs: "xs \<in> orders a b"
  shows "def_Create env b = Inr None \<Longrightarrow>
      \<exists>s'. pass env api main required xs s = (None, s') \<and> three s' (cd_name a) (cd_name b) (Some (CE_Cluster c)) None None \<and>
        vs_missing s' \<and> vs_found s'"
    "def_Create env b = Inr (Some y) \<Longrightarrow> ce_GetName y = cd_name b \<Longrightarrow>
      \<exists>s'. pass env api main required xs s = (None, s') \<and>
        three s' (cd_name a) (cd_name b) (Some (CE_Cluster c)) None (Some y) \<and> \<not> vs_missing s'"
proof -
  assume b: "def_Create env b = Inr None"
  consider "xs = [(cd_name a, a), (cd_name b, b)]" | "xs = [(cd_name b, b), (cd_name a, a)]"
    using xs by (auto simp: orders_def)
  then show "\<exists>s'. pass env api main required xs s = (None, s') \<and>
      three s' (cd_name a) (cd_name b) (Some (CE_Cluster c)) None None \<and> vs_missing s' \<and> vs_found s'"
  proof cases
    case 1
    obtain s1 where s1: "visit env api None main required (cd_name a, a) s = (None, s1)"
      "three s1 (cd_name a) (cd_name b) (Some (CE_Cluster c)) None None" "vs_found s1"
      using visit_first(1) [OF ch s(1) refl refl] by blast
    then show ?thesis
      using visit_second(1) [OF ch s1(2) b refl refl, of api] 1 by auto
  next
    case 2
    obtain s1 where s1: "visit env api None main required (cd_name b, b) s = (None, s1)"
      "three s1 (cd_name a) (cd_name b) None None None" "vs_missing s1"
      using visit_second(1) [OF ch s(1) b refl refl] by blast
    then show ?thesis
      using visit_first(1) [OF ch s1(2) refl refl, of api] 2 by auto
  qed
next
  assume b: "def_Create env b = Inr (Some y)" "ce_GetName y = cd_name b"
  consider "xs = [(cd_name a, a), (cd_name b, b)]" | "xs = [(cd_name b, b), (cd_name a, a)]"
    using xs by (auto simp: orders_def)
  then show "\<exists>s'. pass env api main required xs s = (None, s') \<and>
      three s' (cd_name a) (cd_name b) (Some (CE_Cluster c)) None (Some y) \<and> \<not> vs_missing s'"
  proof cases
    case 1
    obtain s1 where s1: "visit env api None main required (cd_name a, a) s = (None, s1)"
      "three s1 (cd_name a) (cd_name b) (Some (CE_Cluster c)) None None" "vs_missing s1 = vs_missing s"
      using visit_first(1) [OF ch s(1) refl refl] by blast
    then show ?thesis
      using visit_second(3) [OF ch s1(2) b refl, of api] 1 s(2) by (auto simp: fresh_def)
  next
    case 2
    obtain s1 where s1: "visit env api None main required (cd_name b, b) s = (None, s1)"
      "three s1 (cd_name a) (cd_name b) None None (Some y)" "vs_missing s1 = vs_missing s"
      using visit_second(3) [OF ch s(1) b refl] by blast
    then show ?thesis
      using visit_first(1) [OF ch s1(2) refl refl, of api] 2 s(2) by (auto simp: fresh_def)
  qed
qed

lemma pass_alias:
  assumes ch: "chain env main required a b c" and b: "def_Create env b = Inr None"
    and s: "three s (cd_name a) (cd_name b) (Some (CE_Cluster c)) A None" "fresh s" "A \<in> {None, Some (CE_Cluster (alias_a a c))}"
    and xs: "xs \<in> orders a b"
  shows "\<exists>s' B. pass env api main required xs s = (None, s') \<and>
    three s' (cd_name a) (cd_name b) (Some (CE_Cluster c)) (Some (CE_Cluster (alias_a a c))) B \<and>
    (B = Some (CE_Cluster (alias_b a b c)) \<and> \<not> vs_missing s' \<or> B = None \<and> A = None \<and> vs_missing s' \<and> vs_found s')"
proof -
  note eqs = alias_eqs [OF ch]
  have first: "\<exists>s'. visit env api None main required (cd_name a, a) t = (None, s') \<and>
      three s' (cd_name a) (cd_name b) (Some (CE_Cluster c)) (Some (CE_Cluster (alias_a a c))) B \<and>
      vs_missing s' = vs_missing t \<and> (A = None \<longrightarrow> vs_found s')"
    if "three t (cd_name a) (cd_name b) (Some (CE_Cluster c)) A B" for t B
    using visit_first(2) [OF ch that refl, of api] visit_first(3) [OF ch that, of api] s(3) that
    by (cases A) (auto simp: eqs simp del: NewAlias.simps)
  have second: "\<exists>s'. visit env api None main required (cd_name b, b) t = (None, s') \<and>
      three s' (cd_name a) (cd_name b) (Some (CE_Cluster c)) (Some (CE_Cluster (alias_a a c))) (Some (CE_Cluster (alias_b a b c))) \<and>
      vs_missing s' = vs_missing t"
    if "three t (cd_name a) (cd_name b) (Some (CE_Cluster c)) (Some (CE_Cluster (alias_a a c))) None" for t
    using visit_second(2) [OF ch that b refl refl, of api] by (auto simp: eqs simp del: NewAlias.simps)
  consider "xs = [(cd_name a, a), (cd_name b, b)]" | "xs = [(cd_name b, b), (cd_name a, a)]" "A = None"
    | "xs = [(cd_name b, b), (cd_name a, a)]" "A = Some (CE_Cluster (alias_a a c))"
    using xs s(3) by (auto simp: orders_def)
  then show ?thesis
  proof cases
    case 1
    obtain s1 where s1: "visit env api None main required (cd_name a, a) s = (None, s1)"
      "three s1 (cd_name a) (cd_name b) (Some (CE_Cluster c)) (Some (CE_Cluster (alias_a a c))) None" "vs_missing s1 = vs_missing s"
      using first [OF s(1)] by blast
    then show ?thesis
      using second [OF s1(2)] 1 s(2) by (auto simp: fresh_def)
  next
    case 2
    obtain s1 where s1: "visit env api None main required (cd_name b, b) s = (None, s1)"
      "three s1 (cd_name a) (cd_name b) (Some (CE_Cluster c)) A None" "vs_missing s1"
      using visit_second(1) [OF ch s(1) b 2(2)] 2(2) by blast
    then show ?thesis
      using first [OF s1(2)] 2 by auto
  next
    case 3
    obtain s1 where s1: "visit env api None main required (cd_name b, b) s = (None, s1)"
      "three s1 (cd_name a) (cd_name b) (Some (CE_Cluster c)) A (Some (CE_Cluster (alias_b a b c)))" "vs_missing s1 = vs_missing s"
      using second [OF s(1) [unfolded 3(2)]] 3(2) by blast
    then show ?thesis
      using first [OF s1(2)] 3 s(2) by (auto simp: fresh_def)
  qed
qed

lemma resolve_loop_step:
  "vs_missing s \<Longrightarrow> vs_found s \<Longrightarrow> p i (s\<lparr>vs_missing := False, vs_found := False\<rparr>) = (None, s') \<Longrightarrow>
    resolve_loop p i s = resolve_loop p (Suc i) s'"
  by (subst resolve_loop.simps) simp

lemma resolve_loop_stop: "\<not> vs_missing s \<Longrightarrow> resolve_loop p i s = Some (None, s, i)"
  by (subst resolve_loop.simps) simp

lemma three_reset [simp]:
  "three (s\<lparr>vs_missing := m, vs_found := f\<rparr>) a b D A B = three s a b D A B" "fresh (s\<lparr>vs_missing := False, vs_found := False\<rparr>)"
  by (simp_all add: three_def fresh_def)

lemma chain_resolves:
  assumes ch: "chain env main required a b c" and ord: "\<forall>i. ord i \<in> orders a b"
  shows "def_Create env b = Inr None \<Longrightarrow> \<exists>s. resolve env api None main required ord = Some (None, s) \<and>
      three s (cd_name a) (cd_name b) (Some (CE_Cluster c)) (Some (CE_Cluster (alias_a a c))) (Some (CE_Cluster (alias_b a b c)))"
    "def_Create env b = Inr (Some y) \<Longrightarrow> \<exists>s. resolve env api None main required ord = Some (None, s) \<and>
      three s (cd_name a) (cd_name b) (Some (CE_Cluster c)) None (Some y)"
proof -
  let ?p = "\<lambda>i. pass env api main required (ord i)"
  let ?s0 = "\<lparr>vs_clusters = newClusters, vs_intermediate = [], vs_missing = True, vs_found = True\<rparr>"
  let ?r = "\<lambda>s. s\<lparr>vs_missing := False, vs_found := False\<rparr>"
  have none: "three (?r ?s0) (cd_name a) (cd_name b) None None None"
    using ch by (simp add: three_def set_Get_plain chain_def)
  have ended: "resolve env api None main required ord = Some (None, s)"
    if "resolve_loop ?p 0 ?s0 = Some (None, s, i)" "\<not> vs_missing s" for s i
    using that by (simp add: resolve_def)
  note start = pass_start [OF ch none three_reset(2)]
  show "\<exists>s. resolve env api None main required ord = Some (None, s) \<and>
      three s (cd_name a) (cd_name b) (Some (CE_Cluster c)) (Some (CE_Cluster (alias_a a c))) (Some (CE_Cluster (alias_b a b c)))"
    if b: "def_Create env b = Inr None"
  proof -
    note again = pass_alias [OF ch b]
    obtain s1 where s1: "?p 0 (?r ?s0) = (None, s1)"
      "three s1 (cd_name a) (cd_name b) (Some (CE_Cluster c)) None None" "vs_missing s1" "vs_found s1"
      using start(1) [OF spec [OF ord] b] by blast
    then have l1: "resolve_loop ?p 0 ?s0 = resolve_loop ?p 1 s1"
      using resolve_loop_step [of ?s0 ?p 0 s1] by simp
    obtain s2 B where s2: "?p 1 (?r s1) = (None, s2)"
      "three s2 (cd_name a) (cd_name b) (Some (CE_Cluster c)) (Some (CE_Cluster (alias_a a c))) B"
      "B = Some (CE_Cluster (alias_b a b c)) \<and> \<not> vs_missing s2 \<or> B = None \<and> vs_missing s2 \<and> vs_found s2"
      using again [of "?r s1" None "ord 1" api] s1(2) spec [OF ord, of 1] by auto
    have l2: "resolve_loop ?p 1 s1 = resolve_loop ?p 2 s2"
      using resolve_loop_step [of s1 ?p 1 s2] s1 s2(1) by (simp add: numeral_2_eq_2)
    from s2(3) show ?thesis
    proof (elim disjE conjE)
      assume "B = Some (CE_Cluster (alias_b a b c))" "\<not> vs_missing s2"
      then show ?thesis
        using ended [of s2 2] l1 l2 s2(2) resolve_loop_stop [of s2 ?p 2] by auto
    next
      assume B: "B = None" "vs_missing s2" "vs_found s2"
      obtain s3 where s3: "?p 2 (?r s2) = (None, s3)"
        "three s3 (cd_name a) (cd_name b) (Some (CE_Cluster c)) (Some (CE_Cluster (alias_a a c))) (Some (CE_Cluster (alias_b a b c)))"
        "\<not> vs_missing s3"
        using again [of "?r s2" "Some (CE_Cluster (alias_a a c))" "ord 2" api] s2(2) B spec [OF ord, of 2] by auto
      have "resolve_loop ?p 2 s2 = resolve_loop ?p 3 s3"
        using resolve_loop_step [of s2 ?p 2 s3] B s3(1) by (simp add: numeral_3_eq_3)
      then show ?thesis
        using ended [of s3 3] l1 l2 s3 resolve_loop_stop [of s3 ?p 3] by auto
    qed
  qed
  show "\<exists>s. resolve env api None main required ord = Some (None, s) \<and>
      three s (cd_name a) (cd_name b) (Some (CE_Cluster c)) None (Some y)" if b: "def_Create env b = Inr (Some y)"
  proof -
    obtain s1 where s1: "?p 0 (?r ?s0) = (None, s1)"
      "three s1 (cd_name a) (cd_name b) (Some (CE_Cluster c)) None (Some y)" "\<not> vs_missing s1"
      using start(2) [OF spec [OF ord] b Create_name [OF b]] by blast
    then have "resolve_loop ?p 0 ?s0 = Some (None, s1, 1)"
      using resolve_loop_step [of ?s0 ?p 0 s1] resolve_loop_stop [of s1 ?p 1] by simp
    then show ?thesis
      using ended s1 by blast
  qed
qed

section \<open>The clusters of the replicating controller manager\<close>

lemma three_disabled:
  assumes "three s a b D A B" "CHR ''#'' \<notin> set a" "CHR ''#'' \<notin> set b"
  shows "set_Get (disable_rest xs (vs_clusters s)) DEFAULT = D" "set_Get (disable_rest xs (vs_clusters s)) a = A"
    "set_Get (disable_rest xs (vs_clusters s)) b = B"
    "A = None \<Longrightarrow> a \<in> set (gkeys xs) \<Longrightarrow> IsDisabled (disable_rest xs (vs_clusters s)) a"
  using assms by (auto simp: three_def disable_rest_def set_Get_def case_prod_beta IsDisabled_def)

lemma simple_clusters_simps:
  assumes "err_documented api"
  shows "gr_elements (df_group (simple_clusters api ctl)) = [(SOURCE, require_identity source_def), (TARGET, require_identity target_def)]"
    "GetError api (gr_errors (df_group (simple_clusters api ctl))) = None" "df_clusters (simple_clusters api ctl) = None"
    "df_main (simple_clusters api ctl) = require_identity (Define DEFAULT ''standard cluster'' [DefaultRules])"
  using two_definitions [OF assms, of source_def target_def]
  by (simp_all add: simple_clusters_def simple_main_def AddController_def AddCluster_def mgmt_Define_def)

lemma validation_run:
  assumes "GetError api (gr_errors (df_group d)) = None" "df_clusters d = None"
    and "resolve env api None (df_main d) (required_names used d) ord = Some (None, s)"
  shows "defs_Validate env api None None used ord d =
    Some (None, d\<lparr>df_clusters := Some (disable_rest (gr_elements (df_group d)) (vs_clusters s))\<rparr>)"
  using assms by (simp add: defs_Validate_def Let_def flip: required_names_def)

lemma project_missing:
  "l \<in> set names \<Longrightarrow> set_Get cl (Mappings_Map mp l) = None \<Longrightarrow> \<exists>err. project api mp cl names n = Inl err"
  by (induction names arbitrary: n) (auto simp: Let_def split: option.split)

lemma provided_absent:
  assumes "Group_Get (cs_group cs) l = None"
  shows "Mappings_Map (CreateMappingsProvidedBy cs) l = l"
proof -
  have "gget (fold (\<lambda>(n, c) m. if n \<noteq> ce_GetName (ce_GetEffective c)
      then Mappings_Add n (ce_GetName (ce_GetEffective c)) m else m) es acc) l = gget acc l"
    if "l \<notin> set (gkeys es)" for es acc
    using that by (induction es arbitrary: acc) (auto simp: Mappings_Add_def)
  then show ?thesis
    using assms by (simp add: Mappings_Map_def CreateMappingsProvidedBy_def mget_def Group_Get_def map_of_eq_None_iff)
qed

text \<open>A controller without components whose cluster is missing is not applied.\<close>

lemma missing_cluster:
  assumes "set_Get (mg_clusters mgr) l = None" "CHR ''#'' \<notin> set l" "l \<in> set (kd_clusters d)" "kd_components d = []"
  shows "\<exists>err. ctl_Apply api env be check (Some (manager_mappings (mg_clusters mgr))) d mgr = (Some err, mgr)"
proof (cases "GetError api (kd_errors d)")
  case None
  have "clusters (DefaultMappings (Some (manager_mappings (mg_clusters mgr)))) = CreateMappingsProvidedBy (mg_clusters mgr)"
    by (simp add: DefaultMappings_def manager_mappings_def NewControllerMappings_def CreateMappingsProvidedBy_def)
  moreover have "Mappings_Map (CreateMappingsProvidedBy (mg_clusters mgr)) l = l"
    using assms(1,2) by (simp add: provided_absent set_Get_plain)
  ultimately obtain err where
    "set_Map api (clusters (DefaultMappings (Some (manager_mappings (mg_clusters mgr))))) (mg_clusters mgr) (kd_clusters d) = Inl err"
    using project_missing [OF assms(3)] assms(1) by (metis set_Map_def)
  then show ?thesis
    using None assms(4) by (simp add: ctl_Apply_def Let_def)
qed (simp add: ctl_Apply_def)

lemma replicate_uses:
  "{SOURCE, TARGET} \<subseteq> set (kd_clusters (replicate_Controller api c env x t fac ifac))"
  "kd_components (replicate_Controller api c env x t fac ifac) = []"
  by (simp_all add: replicate_Controller_def ctl_AddIndexByFactory_def ctl_put_index_def ctl_error_def ctl_UseCluster_def
      ctl_Define_def OnCluster_def trigger_for_def Let_def)

text \<open>
  C6: The fallbacks of the replicating controller manager, whose source falls back to the default
  cluster and whose target falls back to the source. If only the default cluster is
  configured, in whatever order the definitions are met, both end up on it. But if a target is
  configured, the source is lost: the validation succeeds with the source disabled although the
  default cluster is there, and then the controller cannot be applied.
\<close>

theorem simple_example:
  fixes c :: cluster
  defines "source \<equiv> require_identity Examples.source_def" and "target \<equiv> require_identity Examples.target_def"
  assumes api: "err_documented api" and ord: "\<forall>i. ord i \<in> orders source target" and used: "used = [] \<or> {SOURCE, TARGET} \<subseteq> set used"
    and source: "def_Create cenv source = Inr None"
    and main: "def_Create cenv (require_identity (Define DEFAULT ''standard cluster'' [DefaultRules])) = Inr (Some (CE_Cluster c))"
  shows "(def_Create cenv target = Inr None \<longrightarrow>
      (\<exists>d cs s r. defs_Validate cenv api None None used ord (simple_clusters api (replicate_Controller api tc env x t fac ifac)) = Some (None, d) \<and>
         df_clusters d = Some cs \<and> set_Get cs SOURCE = Some s \<and> set_Get cs TARGET = Some r \<and>
         ce_GetEffective s = CE_Cluster (cluster_GetEffective c) \<and> ce_GetEffective r = CE_Cluster (cluster_GetEffective c))) \<and>
    (\<forall>r. def_Create cenv target = Inr (Some r) \<longrightarrow>
      (\<exists>d cs. defs_Validate cenv api None None used ord (simple_clusters api (replicate_Controller api tc env x t fac ifac)) = Some (None, d) \<and>
         df_clusters d = Some cs \<and> set_Get cs DEFAULT = Some (CE_Cluster c) \<and> set_Get cs TARGET = Some r \<and> IsDisabled cs SOURCE \<and>
         (\<forall>mgr. mg_clusters mgr = cs \<longrightarrow>
           (\<exists>err. ctl_Apply api env be check (Some (manager_mappings cs)) (replicate_Controller api tc env x t fac ifac) mgr = (Some err, mgr)))))"
proof -
  let ?ctl = "replicate_Controller api tc env x t fac ifac"
  let ?d = "simple_clusters api ?ctl"
  let ?xs = "[(SOURCE, source), (TARGET, target)]"
  note d = simple_clusters_simps [OF api, of ?ctl, folded source_def target_def]
  have names: "cd_name source = SOURCE" "cd_name target = TARGET"
    by (simp_all add: source_def target_def)
  have "{SOURCE, TARGET} \<subseteq> set (required_names used ?d)"
    using used d(1) by (auto simp: required_names_def)
  then have ch: "chain cenv (df_main ?d) (required_names used ?d) source target c"
    using source main Create_name [OF main] by (simp add: chain_def d(4) source_def target_def Define_def newBase_def)
  note resolved = chain_resolves [where api = api, OF ch ord, unfolded names]
  note validated = validation_run [OF d(2,3), of cenv used ord, unfolded d(1)]
  show ?thesis
  proof (intro conjI impI allI)
    assume "def_Create cenv target = Inr None"
    then obtain s where s: "resolve cenv api None (df_main ?d) (required_names used ?d) ord = Some (None, s)"
      "three s SOURCE TARGET (Some (CE_Cluster c)) (Some (CE_Cluster (alias_a source c))) (Some (CE_Cluster (alias_b source target c)))"
      using resolved(1) by blast
    then show "\<exists>d cs s r. defs_Validate cenv api None None used ord ?d = Some (None, d) \<and>
        df_clusters d = Some cs \<and> set_Get cs SOURCE = Some s \<and> set_Get cs TARGET = Some r \<and>
        ce_GetEffective s = CE_Cluster (cluster_GetEffective c) \<and> ce_GetEffective r = CE_Cluster (cluster_GetEffective c)"
      using validated [OF s(1)] three_disabled(2,3) [OF s(2)] by (simp add: alias_a_def alias_b_def)
  next
    fix r
    assume "def_Create cenv target = Inr (Some r)"
    then obtain s where s: "resolve cenv api None (df_main ?d) (required_names used ?d) ord = Some (None, s)"
      "three s SOURCE TARGET (Some (CE_Cluster c)) None (Some r)"
      using resolved(2) by blast
    let ?cs = "disable_rest ?xs (vs_clusters s)"
    note got = three_disabled [OF s(2), of ?xs, simplified]
    have "\<exists>err. ctl_Apply api env be check (Some (manager_mappings ?cs)) ?ctl mgr = (Some err, mgr)" if "mg_clusters mgr = ?cs" for mgr
      using missing_cluster [of mgr SOURCE ?ctl api env be check] got(2) that replicate_uses [of api tc env x t fac ifac] by auto
    then show "\<exists>d cs. defs_Validate cenv api None None used ord ?d = Some (None, d) \<and>
        df_clusters d = Some cs \<and> set_Get cs DEFAULT = Some (CE_Cluster c) \<and> set_Get cs TARGET = Some r \<and> IsDisabled cs SOURCE \<and>
        (\<forall>mgr. mg_clusters mgr = cs \<longrightarrow> (\<exists>err. ctl_Apply api env be check (Some (manager_mappings cs)) ?ctl mgr = (Some err, mgr)))"
      using validated [OF s(1)] got by simp
  qed
qed

text \<open>
  In the DNS example a runtime cluster without configuration falls back to the fleet of the
  data plane, which it does not accept; the option check would report the wrong cluster.
\<close>

lemma dns_needs_runtime:
  assumes "set_Get (vs_clusters s) ''dataplane'' = Some (CE_Fleet f)" "set_Get (vs_clusters s) ''runtime'' = None"
    and "''runtime'' \<in> set required" "def_Create env runtime_def = Inr None"
  shows "\<exists>err. visit env api v_main main required (''runtime'', runtime_def) s = (Some (Plain err), s)"
    "hostedzone_Validate (Inr (vs_clusters s)) = Some (Errorf ''dataplane cluster is required'' [])"
  using assms by (simp_all add: visit_def wanted_def AcceptFleet_def hostedzone_Validate_def)

section \<open>Witnesses\<close>

text \<open>
  A laptop whose kubeconfig in the home directory gives the default cluster; the target may be
  given by its environment variable.
\<close>

definition env_target :: "bool \<Rightarrow> (string, string) cluster_env" where
  "env_target given = env_demo\<lparr>ce_world := (ce_world env_demo)\<lparr>w_getenv :=
     (\<lambda>n. if given \<and> n = ''TARGET_KUBECONFIG'' then ''kc'' else [])\<rparr>\<rparr>"

lemma env_target_Create:
  "def_Create (env_target given) (require_identity source_def) = Inr None"
  "def_Create (env_target given) (require_identity (Define DEFAULT ''standard cluster'' [DefaultRules])) =
     Inr (Some (CE_Cluster (BaseCluster DEFAULT DEFAULT 7)))"
  "def_Create (env_target False) (require_identity target_def) = Inr None"
  "def_Create (env_target True) (require_identity target_def) = Inr (Some (CE_Cluster (BaseCluster TARGET TARGET 7)))"
proof -
  show "def_Create (env_target given) (require_identity source_def) = Inr None"
    by (cases given) (simp, code_simp)+
  show "def_Create (env_target given) (require_identity (Define DEFAULT ''standard cluster'' [DefaultRules])) =
     Inr (Some (CE_Cluster (BaseCluster DEFAULT DEFAULT 7)))"
    by (cases given) (simp, code_simp)+
qed code_simp+

theorem simple_example_witness:
  "\<exists>ord ctl. \<exists>d cs d' cs' r.
     defs_Validate (env_target False) err_demo None None [] ord (simple_clusters err_demo ctl) = Some (None, d) \<and>
     df_clusters d = Some cs \<and> set_Get cs SOURCE \<noteq> None \<and> set_Get cs TARGET = Some r \<and>
     ce_GetEffective r = CE_Cluster (BaseCluster DEFAULT DEFAULT 7) \<and>
     defs_Validate (env_target True) err_demo None None [] ord (simple_clusters err_demo ctl) = Some (None, d') \<and>
     df_clusters d' = Some cs' \<and> IsDisabled cs' SOURCE \<and> set_Get cs' TARGET = Some (CE_Cluster (BaseCluster TARGET TARGET 7))"
proof -
  let ?xs = "[(SOURCE, require_identity source_def), (TARGET, require_identity target_def)]"
  have ord: "\<forall>i. (\<lambda>_ :: nat. ?xs) i \<in> orders (require_identity source_def) (require_identity target_def)"
    by (simp add: orders_def)
  note example = simple_example [OF err_demo_documented ord _ env_target_Create(1,2), of "[]" tc ienv x t fac ifac be check for tc ienv x t fac ifac be check]
  show ?thesis
    using example [of False] example [of True] env_target_Create(3,4) by fastforce
qed

end
