(* ===== verification/Spec2Isabelle.thy ===== *)
theory Spec2Isabelle
  imports Kube_Prelude Names Mappings Constraints ActivationOpts RelationIndex ObjUtils Owners TopoSort Problems Replication Enqueue ElementGroups ConfigRules Clusters ClusterDefs CacheIndexes Components Controllers ServerOptions Manager Triggers Overlay Merge Apply Replicate Reconcilers Fleets Options Messages StateMonad IndexAccess Converters WatchOptions Phases Contexts Examples
begin

text \<open>
  A model of kubecrtutils, a Go library that composes Kubernetes controllers, components,
  indices and clusters into one controller manager on top of controller-runtime and
  multicluster-runtime.

  \<^bold>\<open>The program.\<close> A user declares clusters (package cluster), cache indices (cacheindex),
  components (component) and controllers (controller) under local names. From the command line
  come the access of the clusters (cluster/config rules) and the activation of controllers
  (options/activationopts, controller/constraints). Validation resolves the declared clusters
  and orders the components by their dependencies (utils/topo.go); then the manager (ctrlmgmt)
  creates the shared indices, the components and the controllers, each of which sees its
  environment under its own local names through mappings (mapping). At run time controllers
  reconcile objects (controller/controllerutils/reconciler), find related objects by relation
  indices (index, cacheindex) and owner annotations (owner), are triggered by changes of
  related objects (controller/trigger.go) and by each other (enqueue), replicate objects into
  other clusters (controller/replication, examples/simple), and apply manifests by merging them
  into the live objects (cluster/utils.go, cluster/updater.go, merge). A member of a fleet is
  engaged while the manager runs; a call through the fleet goes to the member in the context.

  \<^bold>\<open>Conventions.\<close> A Go map is an association list in the order in which it is ranged over; as
  every theorem holds for every list, it holds for every order. A Go error is a value of
  \<open>gerror\<close>, \<open>Inl\<close> of a result or \<open>Some\<close> of an optional error; the state is passed and returned
  explicitly also on the error branches. A nil map, slice, context or pointer the code can
  meet is \<open>None\<close>. A call that may not return a value (an endless recursion or a panic on nil)
  has \<open>None\<close> as outcome and is a \<open>partial_function\<close>; the theorems about it state that it
  returns. No fuel is used. Code that is not part of the repository (Kubernetes clients,
  schemes, kubeconfig loading, controller-runtime, flagutils, hashing) is a parameter, what is
  assumed of it is a named hypothesis such as \<open>err_documented\<close>.

  \<^bold>\<open>Theories.\<close>
  \<^item> \<open>Kube_Prelude\<close>: errors, Go maps with their laws as the locale \<open>go_map\<close>, strings.
  \<^item> \<open>Names\<close> (types/key.go, cacheindex/name.go, cluster/fleet/fpi): keys of objects across
    clusters and the names of fleet members, with their round trips.
  \<^item> \<open>Mappings\<close> (mapping): name mappings and their composition.
  \<^item> \<open>Constraints\<close> and \<open>ActivationOpts\<close> (controller/constraints, options/activationopts): the
    three-valued activation constraints, the closure of groups and the selection of
    controllers by the flags; both end for cyclic groups and compute what they denote.
  \<^item> \<open>RelationIndex\<close> (index): relations between objects, untyped, typed and per cluster; an
    index answers as the set of pairs its history leaves.
  \<^item> \<open>ObjUtils\<close>, \<open>Owners\<close> (objutils, owner): object metadata and owner references across
    clusters, read back as they were set.
  \<^item> \<open>TopoSort\<close> (utils/topo.go): an order with dependencies first, or a cycle.
  \<^item> \<open>Problems\<close> (reconcile/problem.go): the kinds of problems, their aggregation and the result
    of a reconciliation.
  \<^item> \<open>Replication\<close> (controller/replication): the mapping of replicated objects and their
    namespaces under faults, and a lock that is never released.
  \<^item> \<open>Enqueue\<close> (enqueue, controller/handler): delivery of explicit triggers, queue views.
  \<^item> \<open>ElementGroups\<close> (internal): named groups and sets of definitions that collect errors.
  \<^item> \<open>ConfigRules\<close> (cluster/config): which kubeconfig and identity a cluster gets.
  \<^item> \<open>Clusters\<close>, \<open>ClusterDefs\<close> (cluster): clusters, fleets, aliases, projections; the
    resolution of the declared clusters with fallbacks.
  \<^item> \<open>CacheIndexes\<close> (cacheindex): the state of the manager, creation, sharing and import of
    indices.
  \<^item> \<open>Components\<close> (component, health): selection, order and creation of components.
  \<^item> \<open>Controllers\<close>, \<open>Phases\<close> (controller): definitions, sets with rules, creation with watches,
    the completion of groups, and the option phases of definitions.
  \<^item> \<open>ServerOptions\<close>, \<open>Options\<close> (options, controllerutils): TLS, metrics, webhook, health, log
    and worker options, and registries of factories with their clones.
  \<^item> \<open>Manager\<close> (ctrlmgmt, options/manageropts): the choice of the main cluster, the
    configuration that the providers yield, the engagement of clusters, readiness, and the
    phases that put a manager together out of all the components above.
  \<^item> \<open>Triggers\<close>, \<open>IndexAccess\<close> (controller/trigger.go, ownertrigger.go, indextrigger.go,
    cacheindex): from a changed object to requests, from a request to the context of the
    reconciler, the lookup of owned objects by owner, and triggers by an index.
  \<^item> \<open>Overlay\<close> (cache): reads after writes while the
    cache lags behind.
  \<^item> \<open>Merge\<close>, \<open>Converters\<close>, \<open>Apply\<close> (merge, cluster/utils.go, cluster/updater.go): patches
    under server side apply over field sets, the cache of converters, and the application of
    manifests. The libraries of typed values are the parameters \<open>field_sets\<close> and \<open>typed_lib\<close>.
  \<^item> \<open>Replicate\<close>, \<open>Reconcilers\<close> (examples/simple/controllers, controllerutils/reconciler): the
    replicating reconciler as a step relation over API servers with faults, users and
    namespaces; the generic reconciler with its dispatch, status and routing for any logic, and
    the controller that joins the two.
  \<^item> \<open>Fleets\<close> (cluster/fleet): cluster objects of members, requests through members, and the
    engagements of a fleet and the waits for its members as step relations.
  \<^item> \<open>Examples\<close> (examples/simple/cmd, examples/dns): the definitions of the example programs,
    with what becomes of their clusters.
  \<^item> \<open>Messages\<close>, \<open>Contexts\<close>, \<open>WatchOptions\<close>, \<open>StateMonad\<close> (log, setup, ctxutils,
    controller/builder, examples/statemonad): messages, sinks, cancel contexts, the options of
    builders, and the example of a state monad.

  \<^bold>\<open>What the lemmas show.\<close> Each theory proves the laws of its operations, keeps the invariants
  of its state and states the behaviour of every branch, errors included. The properties are
  numbered C1, C2 and so on where they stand; \<open>RelationIndex\<close> refines sets of pairs and
  \<open>Reconcilers\<close> the step relation of \<open>Replicate\<close>, \<open>Replicate\<close> and \<open>Fleets\<close> prove invariants of step relations by rule
  induction, \<open>ClusterDefs\<close>, \<open>ActivationOpts\<close>, \<open>Constraints\<close>, \<open>TopoSort\<close> and \<open>Controllers\<close>
  prove that loops end, and \<open>Manager\<close>, \<open>Triggers\<close>, \<open>Reconcilers\<close> and \<open>Examples\<close> compose the
  components. Locales state the interfaces that components rely on: \<open>go_map\<close> for maps, \<open>memo\<close>
  for values that are made once, \<open>name_codec\<close> for composed names, \<open>selection_update\<close> for the
  selection of controllers, \<open>relation_index\<close> and \<open>replacing_index\<close> for indices, each
  interpreted on the definitions of the model.

  \<^bold>\<open>Where the code does not do what it says.\<close> Some theorems state a behaviour that contradicts a
  comment or the documentation, and say so: a lost fallback to the default cluster
  (\<open>ClusterDefs\<close>, \<open>Examples\<close>), the inverted switch for HTTP/2 (\<open>Manager\<close>), the barrier of a
  fleet that only its first member keeps closed (\<open>Fleets\<close>), the converter without schemas that
  stays for ever (\<open>Converters\<close>), owned objects that are not found under an alias
  (\<open>Triggers\<close>), keys of data that are never removed from a replica (\<open>Replicate\<close>), and others next to the definitions they concern.

  \<^bold>\<open>Not modelled.\<close> Type declarations and plain getters have no behaviour. The command cmds/ssa,
  the main functions of the examples beyond their definitions and the reconciler of the DNS
  example print or log what libraries return. Index functions compiled from CEL expressions
  and status fields found by reflection belong to libraries and are parameters. Flags are
  modelled by their names and values, not by the library that parses them. Locks that guard
  single operations are left out, as are event recorders, logging set-up, and values that are
  only handed through a context. Concurrency is modelled where operations of different parties
  interleave: in the step relations of \<open>Replication\<close>, \<open>Replicate\<close> and \<open>Fleets\<close>.
\<close>

end
